(* ===== verification/Prelude.thy ===== *)
theory Prelude
  imports Main
begin

text \<open>
  Shared vocabulary of the development.

  \<^item> \<open>bytes\<close>: a Go byte slice or string. A nil slice and an empty slice behave alike in
    every place the code uses one, so both are \<open>[]\<close>.
  \<^item> \<open>go_error\<close>: the error values the code builds, with \<open>errors_Is\<close> (the code's
    \<open>errors.Is\<close>) and \<open>Error\<close> (the \<open>Error()\<close> text). \<open>errors.Err\<close>, which only adds a stack
    trace, is the identity here.
  \<^item> \<open>outcome\<close>: a Go call either returns or panics. A panic is not an error value: it passes
    through every caller up to a \<open>recover\<close>.
  \<^item> \<open>op\<close>: a stateful Go method: state in, outcome and state out, with \<open>ret\<close>, \<open>bnd\<close>,
    \<open>panic\<close> and \<open>zoom\<close> (run an operation on a component of a bigger state).
\<close>

named_theorems op_simps \<open>unfolding of the operation combinators\<close>

section \<open>Bytes, errors\<close>

type_synonym bytes = string

datatype go_error =
    ErrBlobNotFound
  | ErrNotImplemented
  | ErrBlobTooBig int
  | ErrBlobExists
  | ErrRequestTooLarge
  | ErrTimeout
  | EOF
  | ErrUnexpectedEOF
  | ErrShortWrite
  | ErrNoRows
  | ErrNotExist
  | LockTimeout
  | Msg string
  | Prefix string go_error

fun errors_Is :: "go_error \<Rightarrow> go_error \<Rightarrow> bool" where
  "errors_Is (Prefix p e) t = (Prefix p e = t \<or> errors_Is e t)"
| "errors_Is e t = (e = t)"

text \<open>Decimal text of an integer (\<open>%d\<close>).\<close>

definition digit_char :: "nat \<Rightarrow> char" where
  "digit_char d = char_of (48 + d)"

fun nat_text :: "nat \<Rightarrow> string" where
  "nat_text n = (if n < 10 then [digit_char n] else nat_text (n div 10) @ [digit_char (n mod 10)])"

declare nat_text.simps [simp del]

definition int_text :: "int \<Rightarrow> string" where
  "int_text i = (if i < 0 then CHR ''-'' # nat_text (nat (- i)) else nat_text (nat i))"

text \<open>The \<open>Error()\<close> text of an error.\<close>

fun Error :: "go_error \<Rightarrow> string" where
  "Error ErrBlobNotFound = ''blob not found''"
| "Error ErrNotImplemented = ''this store does not implement this method''"
| "Error (ErrBlobTooBig n) = ''blob must be at most '' @ int_text n @ '' bytes''"
| "Error ErrBlobExists = ''blob exists on server''"
| "Error ErrRequestTooLarge = ''request is too large''"
| "Error ErrTimeout = ''i/o timeout''"
| "Error EOF = ''EOF''"
| "Error ErrUnexpectedEOF = ''unexpected EOF''"
| "Error ErrShortWrite = ''short write''"
| "Error ErrNoRows = ''sql: no rows in result set''"
| "Error ErrNotExist = ''no such file or directory''"
| "Error LockTimeout = ''Error 1205: Lock wait timeout exceeded; try restarting transaction''"
| "Error (Msg s) = s"
| "Error (Prefix p e) = p @ '': '' @ Error e"

abbreviation not_found :: "go_error \<Rightarrow> bool" where
  "not_found e \<equiv> errors_Is e ErrBlobNotFound"

abbreviation err_not_found :: "go_error option \<Rightarrow> bool" where
  "err_not_found e \<equiv> (\<exists>x. e = Some x \<and> not_found x)"

text \<open>For the evaluation: the test of an error is a case distinction.\<close>

lemma err_is_code [code_unfold]: "(\<exists>x. HOL.equal e (Some x) \<and> P x) \<longleftrightarrow> (case e of None \<Rightarrow> False | Some x \<Rightarrow> P x)"
  by (cases e) (auto simp: equal_eq)

section \<open>Order of strings\<close>

text \<open>Byte order, and \<open>sort.Strings\<close> and \<open>sort.Slice\<close> by a key.\<close>

fun str_le :: "string \<Rightarrow> string \<Rightarrow> bool" where
  "str_le [] _ = True"
| "str_le (x # xs) [] = False"
| "str_le (x # xs) (y # ys) = (of_char x < (of_char y :: nat) \<or> x = y \<and> str_le xs ys)"

fun insert_on :: "('a \<Rightarrow> string) \<Rightarrow> 'a \<Rightarrow> 'a list \<Rightarrow> 'a list" where
  "insert_on f x [] = [x]"
| "insert_on f x (y # ys) = (if str_le (f x) (f y) then x # y # ys else y # insert_on f x ys)"

definition sort_on :: "('a \<Rightarrow> string) \<Rightarrow> 'a list \<Rightarrow> 'a list" where
  "sort_on f xs = foldr (insert_on f) xs []"

lemma str_le_refl [simp]: "str_le a a"
  by (induction a) auto

lemma str_le_trans: "str_le a b \<Longrightarrow> str_le b c \<Longrightarrow> str_le a c"
proof (induction a b arbitrary: c rule: str_le.induct)
  case (3 x xs y ys)
  then show ?case by (cases c) auto
qed simp_all

lemma str_le_total: "str_le a b \<or> str_le b a"
proof (induction a b rule: str_le.induct)
  case (3 x xs y ys)
  then show ?case by (auto simp: neq_iff)
qed auto

section \<open>64-bit integers\<close>

definition int64 :: "int \<Rightarrow> bool" where
  "int64 i \<longleftrightarrow> - (2 ^ 63) \<le> i \<and> i < 2 ^ 63"

definition wrap64 :: "int \<Rightarrow> int" where
  "wrap64 i = (i + 2 ^ 63) mod 2 ^ 64 - 2 ^ 63"

lemma int64_wrap64 [simp]: "int64 (wrap64 i)"
  using pos_mod_bound [of "2 ^ 64" "i + 2 ^ 63"] pos_mod_sign [of "2 ^ 64" "i + 2 ^ 63"]
  by (simp add: int64_def wrap64_def)

lemma wrap64_add_right [simp]: "wrap64 (a + wrap64 b) = wrap64 (a + b)"
proof -
  have "(a + wrap64 b + 2 ^ 63) mod 2 ^ 64 = (a + (b + 2 ^ 63) mod 2 ^ 64) mod 2 ^ 64" by (simp add: wrap64_def)
  also have "\<dots> = (a + (b + 2 ^ 63)) mod 2 ^ 64" by (rule mod_add_right_eq)
  finally show ?thesis by (simp add: wrap64_def add.assoc)
qed

section \<open>Operations that may panic\<close>

datatype 'a outcome = Ret 'a | Panic string

type_synonym ('s, 'a) op = "'s \<Rightarrow> 'a outcome \<times> 's"

definition ret :: "'a \<Rightarrow> ('s, 'a) op" where
  [op_simps]: "ret a s = (Ret a, s)"

definition panic :: "string \<Rightarrow> ('s, 'a) op" where
  [op_simps]: "panic p s = (Panic p, s)"

definition bnd :: "('s, 'a) op \<Rightarrow> ('a \<Rightarrow> ('s, 'b) op) \<Rightarrow> ('s, 'b) op" where
  "bnd m f s = (case m s of (Ret a, s') \<Rightarrow> f a s' | (Panic p, s') \<Rightarrow> (Panic p, s'))"

definition get_st :: "('s, 's) op" where
  [op_simps]: "get_st s = (Ret s, s)"

definition modify :: "('s \<Rightarrow> 's) \<Rightarrow> ('s, unit) op" where
  [op_simps]: "modify f s = (Ret (), f s)"

definition zoom :: "('s \<Rightarrow> 't) \<Rightarrow> ('t \<Rightarrow> 's \<Rightarrow> 's) \<Rightarrow> ('t, 'a) op \<Rightarrow> ('s, 'a) op" where
  "zoom g p m s = (case m (g s) of (r, t) \<Rightarrow> (r, p t s))"

abbreviation on_fst :: "('a, 'r) op \<Rightarrow> ('a \<times> 'b, 'r) op" where
  "on_fst \<equiv> zoom fst (\<lambda>a s. (a, snd s))"

abbreviation on_snd :: "('b, 'r) op \<Rightarrow> ('a \<times> 'b, 'r) op" where
  "on_snd \<equiv> zoom snd (\<lambda>b s. (fst s, b))"

text \<open>
  \<open>hash[:n]\<close> in Go: panics when the string is shorter than \<open>n\<close>. The code uses the value in
  log lines and error prefixes only.
\<close>

definition str_prefix :: "string \<Rightarrow> nat \<Rightarrow> ('s, string) op" where
  "str_prefix h n = (if length h < n then panic ''slice bounds out of range'' else ret (take n h))"

section \<open>Basic facts\<close>

lemma sum_list_change:
  fixes f :: "'a \<Rightarrow> 'b :: cancel_comm_monoid_add"
  assumes "i < length xs"
  shows "sum_list (map f (xs[i := x])) + f (xs ! i) = sum_list (map f xs) + f x"
proof -
  have "xs = take i xs @ xs ! i # drop (Suc i) xs" using id_take_nth_drop [OF assms] .
  then have "sum_list (map f xs) = sum_list (map f (take i xs)) + (f (xs ! i) + sum_list (map f (drop (Suc i) xs)))"
    by (metis (no_types) list.simps(9) map_append sum_list.Cons sum_list.append)
  moreover have "sum_list (map f (xs[i := x])) = sum_list (map f (take i xs)) + (f x + sum_list (map f (drop (Suc i) xs)))"
    using assms by (simp add: upd_conv_take_nth_drop)
  ultimately show ?thesis by (simp add: ac_simps)
qed

lemma errors_Is_refl [simp]: "errors_Is e e"
  by (cases e) auto

lemma bnd_Ret [simp]: "m s = (Ret a, s') \<Longrightarrow> bnd m f s = f a s'"
  by (simp add: bnd_def)

lemma bnd_Panic [simp]: "m s = (Panic p, s') \<Longrightarrow> bnd m f s = (Panic p, s')"
  by (simp add: bnd_def)

lemma bnd_ret [simp]: "bnd (ret a) f = f a"
  by (rule ext) (simp add: bnd_def ret_def)

lemma bnd_panic [simp]: "bnd (panic p) f = panic p"
  by (rule ext) (simp add: bnd_def panic_def)

lemma bnd_assoc [simp]: "bnd (bnd m f) g = bnd m (\<lambda>a. bnd (f a) g)"
  by (rule ext) (simp add: bnd_def split: outcome.splits prod.splits)

lemma bnd_cases:
  assumes "bnd m f s = (r, s')"
  obtains (Ret) a t where "m s = (Ret a, t)" and "f a t = (r, s')"
        | (Panic) p where "m s = (Panic p, s')" and "r = Panic p"
  using assms by (auto simp: bnd_def split: outcome.splits prod.splits)

lemma bnd_RetE:
  assumes "bnd m f s = (Ret b, s')"
  obtains a t where "m s = (Ret a, t)" and "f a t = (Ret b, s')"
  using assms by (auto simp: bnd_def split: outcome.splits prod.splits)

lemma zoom_eq: "m (g s) = (r, t) \<Longrightarrow> zoom g p m s = (r, p t s)"
  by (simp add: zoom_def)

lemma zoomE:
  assumes "zoom g p m s = (r, s')"
  obtains t where "m (g s) = (r, t)" and "s' = p t s"
  using assms by (auto simp: zoom_def split: prod.splits)

lemma on_fst_eq [simp]: "m a = (r, a') \<Longrightarrow> on_fst m (a, b) = (r, (a', b))"
  by (simp add: zoom_def)

lemma on_snd_eq [simp]: "m b = (r, b') \<Longrightarrow> on_snd m (a, b) = (r, (a, b'))"
  by (simp add: zoom_def)

lemma str_prefix_ok [simp]: "n \<le> length h \<Longrightarrow> str_prefix h n = ret (take n h)"
  by (simp add: str_prefix_def)

lemma str_prefix_panics: "length h < n \<Longrightarrow> str_prefix h n = panic ''slice bounds out of range''"
  by (simp add: str_prefix_def)

text \<open>
  A condition on states that an operation keeps whatever it returns, panics included. The
  rules below follow the structure of an operation, so that an invariant proof of a composed
  operation is a chain of \<open>keeps\<close> rules.
\<close>

definition keeps :: "('s \<Rightarrow> bool) \<Rightarrow> ('s, 'a) op \<Rightarrow> bool" where
  "keeps I m \<longleftrightarrow> (\<forall>s r s'. I s \<longrightarrow> m s = (r, s') \<longrightarrow> I s')"

text \<open>Besides keeping \<open>I\<close>, every value the operation returns satisfies \<open>Q\<close>.\<close>

definition keeps_ret :: "('s \<Rightarrow> bool) \<Rightarrow> ('a \<Rightarrow> bool) \<Rightarrow> ('s, 'a) op \<Rightarrow> bool" where
  "keeps_ret I Q m \<longleftrightarrow> (\<forall>s r s'. I s \<longrightarrow> m s = (r, s') \<longrightarrow> I s' \<and> (\<forall>a. r = Ret a \<longrightarrow> Q a))"

named_theorems keeps_intros \<open>introduction rules for invariant preservation\<close>

lemma keeps_retI: "(\<And>s r s'. I s \<Longrightarrow> m s = (r, s') \<Longrightarrow> I s' \<and> (\<forall>a. r = Ret a \<longrightarrow> Q a)) \<Longrightarrow> keeps_ret I Q m"
  by (auto simp: keeps_ret_def)

lemma keeps_retD: "keeps_ret I Q m \<Longrightarrow> I s \<Longrightarrow> m s = (r, s') \<Longrightarrow> I s' \<and> (\<forall>a. r = Ret a \<longrightarrow> Q a)"
  by (auto simp: keeps_ret_def)

lemma keeps_iff: "keeps I m \<longleftrightarrow> keeps_ret I (\<lambda>_. True) m"
  by (simp add: keeps_def keeps_ret_def)

lemma keepsD: "keeps I m \<Longrightarrow> I s \<Longrightarrow> m s = (r, s') \<Longrightarrow> I s'"
  by (auto simp: keeps_def)

lemma keeps_ret_weaken: "keeps_ret I Q m \<Longrightarrow> (\<And>a. Q a \<Longrightarrow> R a) \<Longrightarrow> keeps_ret I R m"
  by (auto simp: keeps_ret_def)

lemma keeps_ret_ret [keeps_intros]: "Q a \<Longrightarrow> keeps_ret I Q (ret a)"
  by (auto simp: keeps_ret_def ret_def)

lemma keeps_ret_panic [keeps_intros]: "keeps_ret I Q (panic p)"
  by (auto simp: keeps_ret_def panic_def)

lemma keeps_ret_bnd:
  assumes "keeps_ret I P m" and "\<And>a. P a \<Longrightarrow> keeps_ret I Q (f a)"
  shows "keeps_ret I Q (bnd m f)"
proof (rule keeps_retI)
  fix s r s'
  assume "I s" and "bnd m f s = (r, s')"
  from this(2) show "I s' \<and> (\<forall>a. r = Ret a \<longrightarrow> Q a)"
  proof (cases rule: bnd_cases)
    case (Ret a t)
    with \<open>I s\<close> assms(1) have "I t" and "P a" by (auto dest: keeps_retD)
    with Ret(2) assms(2) [of a] show ?thesis by (auto dest: keeps_retD)
  next
    case (Panic p)
    with \<open>I s\<close> assms(1) show ?thesis by (auto dest: keeps_retD)
  qed
qed

lemma keeps_ret_bnd2:
  assumes "keeps_ret I (\<lambda>(a, b). P a b) m" and "\<And>a b. P a b \<Longrightarrow> keeps_ret I Q (f a b)"
  shows "keeps_ret I Q (bnd m (\<lambda>(a, b). f a b))"
  using assms by (auto intro: keeps_ret_bnd)

lemma keeps_ret_bnd3:
  assumes "keeps_ret I (\<lambda>(a, b, c). P a b c) m" and "\<And>a b c. P a b c \<Longrightarrow> keeps_ret I Q (f a b c)"
  shows "keeps_ret I Q (bnd m (\<lambda>(a, b, c). f a b c))"
  using assms by (auto intro: keeps_ret_bnd)

lemma keeps_ret_on_fst:
  "keeps_ret I Q m \<Longrightarrow> keeps_ret (\<lambda>s. I (fst s) \<and> J (snd s)) Q (on_fst m)"
  by (auto simp: keeps_ret_def zoom_def split: prod.splits)

lemma keeps_ret_on_snd:
  "keeps_ret J Q m \<Longrightarrow> keeps_ret (\<lambda>s. I (fst s) \<and> J (snd s)) Q (on_snd m)"
  by (auto simp: keeps_ret_def zoom_def split: prod.splits)

lemma keeps_ret_if [keeps_intros]:
  "(b \<Longrightarrow> keeps_ret I Q m) \<Longrightarrow> (\<not> b \<Longrightarrow> keeps_ret I Q n) \<Longrightarrow> keeps_ret I Q (if b then m else n)"
  by simp

lemma keeps_ret_option [keeps_intros]:
  "(x = None \<Longrightarrow> keeps_ret I Q m) \<Longrightarrow> (\<And>a. x = Some a \<Longrightarrow> keeps_ret I Q (f a)) \<Longrightarrow>
   keeps_ret I Q (case x of None \<Rightarrow> m | Some a \<Rightarrow> f a)"
  by (cases x) auto

lemma keeps_ret_str_prefix [keeps_intros]: "keeps_ret I (\<lambda>_. True) (str_prefix h n)"
  by (simp add: str_prefix_def keeps_ret_ret keeps_ret_panic)

end
