(* ===== verification/Json.thy ===== *)
theory Json
  imports Prelude
begin

text \<open>
  The part of Go's \<open>encoding/json\<close> the program uses: \<open>json.Marshal\<close> and \<open>json.Unmarshal\<close> (or \<open>Decoder.Decode\<close>) at the level of
  bytes, so that messages of the protocols are what is on the wire.

  A parse either succeeds and leaves the rest of the input, needs more input (\<open>PEof\<close>), or fails
  (\<open>PBad\<close>). Numbers keep their text, since the decoder reads them as the field's type. Bytes from
  128 on are passed through: strings are assumed to be valid UTF-8 without U+2028 and U+2029, which
  the encoder would escape. The depth limit of the decoder (10000) is left out.
\<close>

datatype json = JNull | JBool bool | JNum string | JStr string | JArr "json list" | JObj "(string \<times> json) list"

datatype 'a presult = POk 'a string | PEof | PBad

fun pmap :: "('a \<Rightarrow> 'b) \<Rightarrow> 'a presult \<Rightarrow> 'b presult" where
  "pmap f (POk a r) = POk (f a) r"
| "pmap f PEof = PEof"
| "pmap f PBad = PBad"

section \<open>Characters\<close>

abbreviation qt :: char where "qt \<equiv> CHR 0x22"
abbreviation bsl :: char where "bsl \<equiv> CHR 0x5C"

definition code :: "char \<Rightarrow> nat" where
  "code c = of_char c"

definition is_ws :: "char \<Rightarrow> bool" where
  "is_ws c \<longleftrightarrow> c = CHR 0x20 \<or> c = CHR 0x09 \<or> c = CHR 0x0A \<or> c = CHR 0x0D"

definition is_digit :: "char \<Rightarrow> bool" where
  "is_digit c \<longleftrightarrow> 48 \<le> code c \<and> code c \<le> 57"

fun skip_ws :: "string \<Rightarrow> string" where
  "skip_ws [] = []"
| "skip_ws (c # s) = (if is_ws c then skip_ws s else c # s)"

definition hex_digits :: string where
  "hex_digits = ''0123456789abcdef''"

definition hex_val :: "char \<Rightarrow> nat option" where
  "hex_val c =
     (if is_digit c then Some (code c - 48)
      else if 97 \<le> code c \<and> code c \<le> 102 then Some (code c - 87)
      else if 65 \<le> code c \<and> code c \<le> 70 then Some (code c - 55)
      else None)"

definition utf8 :: "nat \<Rightarrow> string" where
  "utf8 u =
     (if u < 128 then [char_of u]
      else if u < 2048 then [char_of (192 + u div 64), char_of (128 + u mod 64)]
      else if u < 65536 then [char_of (224 + u div 4096), char_of (128 + u div 64 mod 64), char_of (128 + u mod 64)]
      else [char_of (240 + u div 262144), char_of (128 + u div 4096 mod 64), char_of (128 + u div 64 mod 64), char_of (128 + u mod 64)])"

fun hex4 :: "string \<Rightarrow> nat presult" where
  "hex4 (a # b # c # d # r) =
     (case (hex_val a, hex_val b, hex_val c, hex_val d) of
        (Some x, Some y, Some z, Some w) \<Rightarrow> POk (4096 * x + 256 * y + 16 * z + w) r
      | _ \<Rightarrow> PBad)"
| "hex4 _ = PEof"

section \<open>Reading strings\<close>

text \<open>A surrogate pair is combined; a lone surrogate becomes U+FFFD.\<close>

definition unicode_escape :: "string \<Rightarrow> string presult" where
  "unicode_escape s =
     (case hex4 s of
        PEof \<Rightarrow> PEof
      | PBad \<Rightarrow> PBad
      | POk u r \<Rightarrow>
          if u < 55296 \<or> 57343 < u then POk (utf8 u) r
          else (case r of
                  a # b # r' \<Rightarrow>
                    if a = bsl \<and> b = CHR ''u'' \<and> u \<le> 56319 then
                      (case hex4 r' of
                         POk v r'' \<Rightarrow>
                           if 56320 \<le> v \<and> v \<le> 57343 then POk (utf8 (65536 + (u - 55296) * 1024 + (v - 56320))) r''
                           else POk (utf8 65533) r
                       | _ \<Rightarrow> POk (utf8 65533) r)
                    else POk (utf8 65533) r
                | _ \<Rightarrow> POk (utf8 65533) r))"

definition escape :: "string \<Rightarrow> string presult" where
  "escape s =
     (case s of
        [] \<Rightarrow> PEof
      | e # r \<Rightarrow>
          if e = qt \<or> e = bsl \<or> e = CHR ''/'' then POk [e] r
          else if e = CHR ''b'' then POk [CHR 0x08] r
          else if e = CHR ''f'' then POk [CHR 0x0C] r
          else if e = CHR ''n'' then POk [CHR 0x0A] r
          else if e = CHR ''r'' then POk [CHR 0x0D] r
          else if e = CHR ''t'' then POk [CHR 0x09] r
          else if e = CHR ''u'' then unicode_escape r
          else PBad)"

text \<open>After the opening quote. The guard holds always (\<open>escape_shorter\<close>); it makes the recursion structural.\<close>

function str_body :: "string \<Rightarrow> string presult" where
  "str_body s =
     (case s of
        [] \<Rightarrow> PEof
      | c # r \<Rightarrow>
          if c = qt then POk [] r
          else if c = bsl then
            (case escape r of
               PEof \<Rightarrow> PEof
             | PBad \<Rightarrow> PBad
             | POk bs r' \<Rightarrow> if length r' < length s then pmap (\<lambda>t. bs @ t) (str_body r') else PBad)
          else if code c < 32 then PBad
          else pmap (\<lambda>t. c # t) (str_body r))"
  by pat_completeness auto
termination by (relation "measure length") auto

declare str_body.simps [simp del]

section \<open>Reading numbers\<close>

fun digits :: "string \<Rightarrow> string \<times> string" where
  "digits [] = ([], [])"
| "digits (c # s) = (if is_digit c then (case digits s of (ds, r) \<Rightarrow> (c # ds, r)) else ([], c # s))"

definition int_part :: "string \<Rightarrow> string presult" where
  "int_part s =
     (case s of
        [] \<Rightarrow> PEof
      | c # r \<Rightarrow>
          if c = CHR ''0'' then POk [c] r
          else if is_digit c then (case digits s of (ds, r') \<Rightarrow> POk ds r')
          else PBad)"

definition frac_part :: "string \<Rightarrow> string presult" where
  "frac_part s =
     (case s of
        c # r \<Rightarrow>
          if c = CHR ''.'' then
            (case digits r of (ds, r') \<Rightarrow> if ds = [] then (if r' = [] then PEof else PBad) else POk (c # ds) r')
          else POk [] s
      | [] \<Rightarrow> POk [] [])"

definition exp_part :: "string \<Rightarrow> string presult" where
  "exp_part s =
     (case s of
        c # r \<Rightarrow>
          if c = CHR ''e'' \<or> c = CHR ''E'' then
            (let (sg, r1) = (case r of d # r' \<Rightarrow> if d = CHR ''+'' \<or> d = CHR ''-'' then ([d], r') else ([], r) | [] \<Rightarrow> ([], []))
             in case digits r1 of (ds, r') \<Rightarrow> if ds = [] then (if r' = [] then PEof else PBad) else POk (c # sg @ ds) r')
          else POk [] s
      | [] \<Rightarrow> POk [] [])"

definition pbind :: "'a presult \<Rightarrow> ('a \<Rightarrow> string \<Rightarrow> 'b presult) \<Rightarrow> 'b presult" where
  "pbind p f = (case p of POk a r \<Rightarrow> f a r | PEof \<Rightarrow> PEof | PBad \<Rightarrow> PBad)"

definition number :: "string \<Rightarrow> string presult" where
  "number s =
     (let (sg, r0) = (case s of c # r \<Rightarrow> if c = CHR ''-'' then ([c], r) else ([], s) | [] \<Rightarrow> ([], []))
      in pbind (int_part r0) (\<lambda>i r1. pbind (frac_part r1) (\<lambda>f r2. pbind (exp_part r2) (\<lambda>e r3. POk (sg @ i @ f @ e) r3))))"

section \<open>Reading values\<close>

fun lit :: "string \<Rightarrow> json \<Rightarrow> string \<Rightarrow> json presult" where
  "lit [] v s = POk v s"
| "lit (x # xs) v [] = PEof"
| "lit (x # xs) v (c # s) = (if x = c then lit xs v s else PBad)"

text \<open>The fuel is the length of the input; it bounds the number of values and members read.\<close>

fun pval :: "nat \<Rightarrow> string \<Rightarrow> json presult"
  and pelems :: "nat \<Rightarrow> string \<Rightarrow> json list presult"
  and pmembers :: "nat \<Rightarrow> string \<Rightarrow> (string \<times> json) list presult" where
  "pval 0 s = PBad"
| "pval (Suc n) s =
     (case skip_ws s of
        [] \<Rightarrow> PEof
      | c # r \<Rightarrow>
          if c = CHR ''{'' then
            (case skip_ws r of [] \<Rightarrow> PEof | d # r' \<Rightarrow> if d = CHR ''}'' then POk (JObj []) r' else pmap JObj (pmembers n (d # r')))
          else if c = CHR ''['' then
            (case skip_ws r of [] \<Rightarrow> PEof | d # r' \<Rightarrow> if d = CHR '']'' then POk (JArr []) r' else pmap JArr (pelems n (d # r')))
          else if c = qt then pmap JStr (str_body r)
          else if c = CHR ''t'' then lit ''rue'' (JBool True) r
          else if c = CHR ''f'' then lit ''alse'' (JBool False) r
          else if c = CHR ''n'' then lit ''ull'' JNull r
          else if c = CHR ''-'' \<or> is_digit c then pmap JNum (number (c # r))
          else PBad)"
| "pelems 0 s = PBad"
| "pelems (Suc n) s =
     pbind (pval n s) (\<lambda>v r.
       case skip_ws r of
         [] \<Rightarrow> PEof
       | d # r' \<Rightarrow> if d = CHR '','' then pmap (Cons v) (pelems n r') else if d = CHR '']'' then POk [v] r' else PBad)"
| "pmembers 0 s = PBad"
| "pmembers (Suc n) s =
     (case skip_ws s of
        [] \<Rightarrow> PEof
      | c # r \<Rightarrow>
          if c = qt then
            pbind (str_body r) (\<lambda>k r1.
              case skip_ws r1 of
                [] \<Rightarrow> PEof
              | d # r2 \<Rightarrow>
                  if d = CHR '':'' then
                    pbind (pval n r2) (\<lambda>v r3.
                      case skip_ws r3 of
                        [] \<Rightarrow> PEof
                      | e # r4 \<Rightarrow> if e = CHR '','' then pmap (Cons (k, v)) (pmembers n r4)
                                  else if e = CHR ''}'' then POk [(k, v)] r4 else PBad)
                  else PBad)
          else PBad)"

text \<open>\<open>Decoder.Decode\<close>: one value from the front of the input.\<close>

definition json_decode :: "string \<Rightarrow> json presult" where
  "json_decode s = pval (Suc (length s)) s"

text \<open>\<open>json.Unmarshal\<close>: the whole input is one value.\<close>

definition json_unmarshal :: "string \<Rightarrow> json option" where
  "json_unmarshal s = (case json_decode s of POk v r \<Rightarrow> if skip_ws r = [] then Some v else None | _ \<Rightarrow> None)"

section \<open>Writing\<close>

definition esc_char :: "char \<Rightarrow> string" where
  "esc_char c =
     (if c = qt \<or> c = bsl then [bsl, c]
      else if c = CHR 0x0A then [bsl, CHR ''n'']
      else if c = CHR 0x0D then [bsl, CHR ''r'']
      else if c = CHR 0x09 then [bsl, CHR ''t'']
      else if code c < 32 \<or> c = CHR ''<'' \<or> c = CHR ''>'' \<or> c = CHR ''&''
      then [bsl, CHR ''u'', CHR ''0'', CHR ''0'', hex_digits ! (code c div 16), hex_digits ! (code c mod 16)]
      else [c])"

definition print_str :: "string \<Rightarrow> string" where
  "print_str s = qt # concat (map esc_char s) @ [qt]"

fun sep_by :: "string \<Rightarrow> string list \<Rightarrow> string" where
  "sep_by d [] = []"
| "sep_by d [x] = x"
| "sep_by d (x # y # xs) = x @ d @ sep_by d (y # xs)"

fun jprint :: "json \<Rightarrow> string" where
  "jprint JNull = ''null''"
| "jprint (JBool b) = (if b then ''true'' else ''false'')"
| "jprint (JNum t) = t"
| "jprint (JStr s) = print_str s"
| "jprint (JArr vs) = ''['' @ sep_by '','' (map jprint vs) @ '']''"
| "jprint (JObj ms) = ''{'' @ sep_by '','' (map (\<lambda>(k, v). print_str k @ '':'' @ jprint v) ms) @ ''}''"

section \<open>Integers\<close>

definition text_nat :: "string \<Rightarrow> nat" where
  "text_nat s = foldl (\<lambda>a c. 10 * a + (code c - 48)) 0 s"

text \<open>A number literal as a Go \<open>int\<close>: a fraction, an exponent or a value outside 64 bits is an error.\<close>

definition json_int :: "string \<Rightarrow> int option" where
  "json_int t =
     (let (neg, ds) = (case t of c # r \<Rightarrow> if c = CHR ''-'' then (True, r) else (False, t) | [] \<Rightarrow> (False, []));
          i = (if neg then - int (text_nat ds) else int (text_nat ds))
      in if ds = [] \<or> \<not> list_all is_digit ds \<or> i < - (2 ^ 63) \<or> 2 ^ 63 \<le> i then None else Some i)"

lemma code_digit: "d < 10 \<Longrightarrow> code (digit_char d) = 48 + d"
  by (simp add: code_def digit_char_def)

lemma is_digit_digit: "d < 10 \<Longrightarrow> is_digit (digit_char d)"
  by (simp add: is_digit_def code_digit)

lemma text_nat_snoc: "text_nat (s @ [c]) = 10 * text_nat s + (code c - 48)"
  by (simp add: text_nat_def)

lemma nat_text_facts: "nat_text n \<noteq> [] \<and> list_all is_digit (nat_text n) \<and> text_nat (nat_text n) = n
   \<and> (0 < n \<longrightarrow> hd (nat_text n) \<noteq> CHR ''0'')"
proof (induction n rule: nat_text.induct)
  case (1 n)
  show ?case
  proof (cases "n < 10")
    case True
    have "0 < n \<Longrightarrow> digit_char n \<noteq> CHR ''0''"
    proof
      assume "0 < n" "digit_char n = CHR ''0''"
      then have "code (digit_char n) = code (CHR ''0'')" by simp
      with True \<open>0 < n\<close> show False by (simp add: code_digit) (simp add: code_def)
    qed
    with True show ?thesis
      by (simp add: nat_text.simps [of n] is_digit_digit text_nat_def code_digit)
  next
    case False
    with 1 have IH: "nat_text (n div 10) \<noteq> []" "list_all is_digit (nat_text (n div 10))" "text_nat (nat_text (n div 10)) = n div 10"
      "hd (nat_text (n div 10)) \<noteq> CHR ''0''"
      by auto
    with False show ?thesis
      by (simp add: nat_text.simps [of n] is_digit_digit text_nat_snoc code_digit)
  qed
qed

text \<open>An integer survives printing and reading.\<close>

lemma json_int_text: "- (2 ^ 63) \<le> i \<Longrightarrow> i < 2 ^ 63 \<Longrightarrow> json_int (int_text i) = Some i"
proof -
  assume i: "- (2 ^ 63) \<le> i" "i < 2 ^ 63"
  have minus: "\<not> is_digit (CHR ''-'')" by (simp add: is_digit_def code_def)
  show ?thesis
  proof (cases "i < 0")
    case True
    with i nat_text_facts [of "nat (- i)"] show ?thesis by (simp add: int_text_def json_int_def Let_def)
  next
    case False
    obtain c r where cr: "nat_text (nat i) = c # r" using nat_text_facts [of "nat i"] by (cases "nat_text (nat i)") auto
    have "c \<noteq> CHR ''-''" using nat_text_facts [of "nat i"] minus by (auto simp: cr)
    with False i nat_text_facts [of "nat i"] show ?thesis by (simp add: int_text_def json_int_def Let_def cr)
  qed
qed

section \<open>Round trip\<close>

definition num_end :: "string \<Rightarrow> bool" where
  "num_end s \<longleftrightarrow> (case s of [] \<Rightarrow> True | c # _ \<Rightarrow> \<not> is_digit c \<and> c \<noteq> CHR ''.'' \<and> c \<noteq> CHR ''e'' \<and> c \<noteq> CHR ''E'')"

lemma digits_all: "list_all is_digit ds \<Longrightarrow> num_end r \<Longrightarrow> digits (ds @ r) = (ds, r)"
  by (induction ds) (auto simp: num_end_def split: list.splits)

lemma number_nat_text:
  assumes "num_end r"
  shows "int_part (nat_text n @ r) = POk (nat_text n) r"
proof -
  obtain c s where cs: "nat_text n = c # s" using nat_text_facts [of n] by (cases "nat_text n") auto
  have d: "is_digit c" "digits (nat_text n @ r) = (nat_text n, r)"
    using nat_text_facts [of n] assms digits_all [of "nat_text n" r] by (auto simp: cs)
  show ?thesis
  proof (cases "c = CHR ''0''")
    case True
    with nat_text_facts [of n] cs have "n = 0" by auto
    have "digit_char 0 = CHR ''0''" unfolding digit_char_def by code_simp
    with \<open>n = 0\<close> have "nat_text n = [CHR ''0'']" by (simp add: nat_text.simps [of 0])
    with cs True show ?thesis by (simp add: int_part_def)
  next
    case False
    with d cs show ?thesis by (simp add: int_part_def)
  qed
qed

lemma number_int_text: "num_end r \<Longrightarrow> number (int_text i @ r) = POk (int_text i) r"
proof -
  assume r: "num_end r"
  have minus: "\<not> is_digit (CHR ''-'')" by (simp add: is_digit_def code_def)
  have fe: "frac_part r = POk [] r" "exp_part r = POk [] r"
    using r by (auto simp: num_end_def frac_part_def exp_part_def split: list.splits)
  show ?thesis
  proof (cases "i < 0")
    case True
    with fe number_nat_text [OF r] show ?thesis by (simp add: int_text_def number_def pbind_def)
  next
    case False
    obtain c s where cs: "nat_text (nat i) = c # s" using nat_text_facts [of "nat i"] by (cases "nat_text (nat i)") auto
    have "c \<noteq> CHR ''-''" using nat_text_facts [of "nat i"] minus by (auto simp: cs)
    with False fe number_nat_text [OF r, of "nat i"] show ?thesis by (simp add: int_text_def number_def pbind_def cs)
  qed
qed

lemma hex_val_digit: "n < 16 \<Longrightarrow> hex_val (hex_digits ! n) = Some n"
proof -
  assume "n < 16"
  then have "n \<in> set [0..<16]" by simp
  moreover have "list_all (\<lambda>n. hex_val (hex_digits ! n) = Some n) [0..<16]" by code_simp
  ultimately show ?thesis by (simp only: list_all_iff)
qed

lemma str_body_plain: "c \<noteq> qt \<Longrightarrow> c \<noteq> bsl \<Longrightarrow> \<not> code c < 32 \<Longrightarrow> str_body (c # t) = pmap (\<lambda>s. c # s) (str_body t)"
  by (simp add: str_body.simps [of "c # t"])

lemma str_body_escape:
  "escape r = POk bs t \<Longrightarrow> length t \<le> length r \<Longrightarrow> str_body (bsl # r) = pmap (\<lambda>s. bs @ s) (str_body t)"
  by (simp add: str_body.simps [of "bsl # r"])

lemma escape_u: "code c < 128 \<Longrightarrow>
   escape (CHR ''u'' # CHR ''0'' # CHR ''0'' # hex_digits ! (code c div 16) # hex_digits ! (code c mod 16) # t) = POk [c] t"
proof -
  assume c: "code c < 128"
  have z: "hex_val (CHR ''0'') = Some 0" by code_simp
  have "code c div 16 < 16" "code c mod 16 < 16" using c by auto
  then have "hex4 (CHR ''0'' # CHR ''0'' # hex_digits ! (code c div 16) # hex_digits ! (code c mod 16) # t) = POk (code c) t"
    by (simp add: z hex_val_digit)
  moreover have "utf8 (code c) = [c]" using c by (simp add: utf8_def code_def)
  ultimately show ?thesis using c by (simp add: escape_def unicode_escape_def)
qed

lemma str_body_esc_char: "str_body (esc_char c @ t) = pmap (\<lambda>s. c # s) (str_body t)"
proof -
  have small: "code (CHR ''<'') < 128" "code (CHR ''>'') < 128" "code (CHR ''&'') < 128" by code_simp+
  show ?thesis
  proof (cases "c = qt \<or> c = bsl \<or> c = CHR 0x0A \<or> c = CHR 0x0D \<or> c = CHR 0x09")
    case True
    then show ?thesis
      using str_body_escape [of "qt # t" "[qt]" t] str_body_escape [of "bsl # t" "[bsl]" t]
        str_body_escape [of "CHR ''n'' # t" "[CHR 0x0A]" t] str_body_escape [of "CHR ''r'' # t" "[CHR 0x0D]" t]
        str_body_escape [of "CHR ''t'' # t" "[CHR 0x09]" t]
      by (elim disjE) (simp_all add: esc_char_def escape_def)
  next
    case False
    show ?thesis
    proof (cases "code c < 32 \<or> c = CHR ''<'' \<or> c = CHR ''>'' \<or> c = CHR ''&''")
      case True
      then have "code c < 128" using small by auto
      from str_body_escape [OF escape_u [OF this]] True False show ?thesis by (simp add: esc_char_def)
    next
      case no: False
      with False show ?thesis by (simp add: esc_char_def str_body_plain)
    qed
  qed
qed

lemma str_body_print: "str_body (concat (map esc_char s) @ qt # r) = POk s r"
  by (induction s) (simp_all add: str_body_esc_char str_body.simps [of "qt # r"])

text \<open>The values the program writes: all numbers are integers.\<close>

fun wf_json :: "json \<Rightarrow> bool" where
  "wf_json (JNum t) = (\<exists>i. t = int_text i)"
| "wf_json (JArr vs) = (\<forall>v \<in> set vs. wf_json v)"
| "wf_json (JObj ms) = (\<forall>m \<in> set ms. wf_json (snd m))"
| "wf_json _ = True"

text \<open>What \<open>pval\<close> does on a printed value followed by \<open>r\<close>.\<close>

definition reads :: "json \<Rightarrow> bool" where
  "reads v \<longleftrightarrow> (\<forall>n r. length (jprint v) \<le> n \<longrightarrow> num_end r \<longrightarrow> pval n (jprint v @ r) = POk v r)"

lemma num_end_punct: "num_end (CHR '','' # r)" "num_end (CHR '']'' # r)" "num_end (CHR ''}'' # r)"
  by (simp_all add: num_end_def is_digit_def code_def)

lemma not_ws: "\<not> is_ws (CHR ''{'')" "\<not> is_ws (CHR ''['')" "\<not> is_ws qt" "\<not> is_ws (CHR '','')" "\<not> is_ws (CHR '']'')" "\<not> is_ws (CHR ''}'')"
    "\<not> is_ws (CHR '':'')" "\<not> is_ws (CHR ''t'')" "\<not> is_ws (CHR ''f'')" "\<not> is_ws (CHR ''n'')"
  by (simp_all add: is_ws_def)

lemma pelems_print:
  "vs \<noteq> [] \<Longrightarrow> \<forall>v \<in> set vs. reads v \<Longrightarrow> length (sep_by '','' (map jprint vs)) < n \<Longrightarrow>
   pelems n (sep_by '','' (map jprint vs) @ CHR '']'' # r) = POk vs r"
proof (induction vs arbitrary: n)
  case (Cons v vs)
  then obtain m where n: "n = Suc m" by (cases n) auto
  show ?case
  proof (cases vs)
    case Nil
    with Cons.prems n show ?thesis
      by (simp add: reads_def num_end_punct pbind_def not_ws)
  next
    case (Cons w ws)
    from Cons.IH [of m] Cons.prems n Cons have "pelems m (sep_by '','' (map jprint vs) @ CHR '']'' # r) = POk vs r" by simp
    moreover have "pval m (jprint v @ CHR '','' # sep_by '','' (map jprint vs) @ CHR '']'' # r)
        = POk v (CHR '','' # sep_by '','' (map jprint vs) @ CHR '']'' # r)"
      using Cons.prems n Cons by (simp add: reads_def num_end_punct)
    ultimately show ?thesis using Cons n by (simp add: pbind_def not_ws)
  qed
qed simp

abbreviation member_text :: "string \<times> json \<Rightarrow> string" where
  "member_text m \<equiv> (case m of (k, v) \<Rightarrow> print_str k @ '':'' @ jprint v)"

text \<open>One member, up to its value.\<close>

lemma pmembers_head:
  assumes "reads v" "length (jprint v) \<le> m" "num_end r"
  shows "pmembers (Suc m) (member_text (k, v) @ r) =
     (case skip_ws r of [] \<Rightarrow> PEof
      | e # r4 \<Rightarrow> if e = CHR '','' then pmap (Cons (k, v)) (pmembers m r4) else if e = CHR ''}'' then POk [(k, v)] r4 else PBad)"
proof -
  have "str_body (concat (map esc_char k) @ qt # CHR '':'' # jprint v @ r) = POk k (CHR '':'' # jprint v @ r)"
    by (rule str_body_print)
  moreover have "pval m (jprint v @ r) = POk v r" using assms by (simp add: reads_def)
  ultimately show ?thesis by (simp add: print_str_def not_ws pbind_def)
qed

lemma pmembers_print:
  "ms \<noteq> [] \<Longrightarrow> \<forall>m \<in> set ms. reads (snd m) \<Longrightarrow> length (sep_by '','' (map member_text ms)) < n \<Longrightarrow>
   pmembers n (sep_by '','' (map member_text ms) @ CHR ''}'' # r) = POk ms r"
proof (induction ms arbitrary: n)
  case (Cons kv ms)
  then obtain m where n: "n = Suc m" by (cases n) auto
  obtain k v where kv: "kv = (k, v)" by (cases kv)
  show ?case
  proof (cases ms)
    case Nil
    with Cons.prems n kv show ?thesis
      using pmembers_head [of v m "CHR ''}'' # r" k] by (simp add: num_end_punct not_ws del: pmembers.simps)
  next
    case (Cons w ws)
    from Cons.IH [of m] Cons.prems n Cons have "pmembers m (sep_by '','' (map member_text ms) @ CHR ''}'' # r) = POk ms r" by simp
    moreover have "pmembers (Suc m) (member_text (k, v) @ CHR '','' # sep_by '','' (map member_text ms) @ CHR ''}'' # r)
        = pmap (Cons (k, v)) (pmembers m (sep_by '','' (map member_text ms) @ CHR ''}'' # r))"
      using Cons.prems n Cons kv by (subst pmembers_head) (simp_all add: num_end_punct not_ws)
    ultimately show ?thesis using Cons n kv by (simp del: pmembers.simps)
  qed
qed simp

lemma first_char_value: "wf_json v \<Longrightarrow> \<exists>c s. jprint v = c # s \<and> \<not> is_ws c \<and> c \<noteq> CHR '']'' \<and> c \<noteq> CHR ''}''"
proof (cases v)
  case (JNum t)
  assume "wf_json v"
  with JNum obtain i where t: "t = int_text i" by auto
  have d: "is_digit c \<Longrightarrow> \<not> is_ws c \<and> c \<noteq> CHR '']'' \<and> c \<noteq> CHR ''}''" for c
    by (auto simp: is_digit_def is_ws_def code_def)
  show ?thesis
  proof (cases "i < 0")
    case True
    then show ?thesis by (simp add: JNum t int_text_def is_ws_def)
  next
    case False
    with nat_text_facts [of "nat i"] d show ?thesis
      by (cases "nat_text (nat i)") (auto simp: JNum t int_text_def)
  qed
qed (auto simp: print_str_def is_ws_def)

text \<open>Every value the program can write is read back, whatever follows it that is not part of a number.\<close>

lemma reads_printed: "wf_json v \<Longrightarrow> reads v"
proof (induction v)
  case (JNum t)
  then obtain i where t: "t = int_text i" by auto
  obtain c s where cs: "int_text i = c # s" "c = CHR ''-'' \<or> is_digit c"
    using nat_text_facts [of "nat i"] by (cases "i < 0"; cases "nat_text (nat i)") (auto simp: int_text_def)
  then have c: "\<not> is_ws c" "c \<noteq> CHR ''{''" "c \<noteq> CHR ''[''" "c \<noteq> qt" "c \<noteq> CHR ''t''" "c \<noteq> CHR ''f''" "c \<noteq> CHR ''n''"
    by (auto simp: is_ws_def is_digit_def code_def)
  show ?case unfolding reads_def
  proof (intro allI impI)
    fix n r
    assume n: "length (jprint (JNum t)) \<le> n" and r: "num_end r"
    then obtain m where m: "n = Suc m" by (cases n) (auto simp: t cs)
    have "pmap JNum (number (c # s @ r)) = POk (JNum t) r" using number_int_text [OF r, of i] by (simp add: t cs)
    with m c cs(2) show "pval n (jprint (JNum t) @ r) = POk (JNum t) r" by (auto simp: t cs(1))
  qed
next
  case (JStr s)
  show ?case unfolding reads_def
  proof (intro allI impI)
    fix n r
    assume "length (jprint (JStr s)) \<le> n"
    then obtain m where m: "n = Suc m" by (cases n) (auto simp: print_str_def)
    from str_body_print [of s r] m show "pval n (jprint (JStr s) @ r) = POk (JStr s) r" by (simp add: print_str_def not_ws)
  qed
next
  case (JArr vs)
  show ?case unfolding reads_def
  proof (intro allI impI)
    fix n r
    assume n: "length (jprint (JArr vs)) \<le> n"
    then obtain m where m: "n = Suc m" by (cases n) auto
    show "pval n (jprint (JArr vs) @ r) = POk (JArr vs) r"
    proof (cases vs)
      case Nil
      with m show ?thesis by (simp add: not_ws)
    next
      case (Cons v ws)
      from first_char_value [of v] JArr.prems Cons obtain c s where c: "jprint v = c # s" "\<not> is_ws c" "c \<noteq> CHR '']''" by auto
      have "pelems m (sep_by '','' (map jprint vs) @ CHR '']'' # r) = POk vs r"
        using JArr n m Cons by (intro pelems_print) auto
      moreover obtain s' where "sep_by '','' (map jprint vs) @ CHR '']'' # r = c # s'"
        using c(1) Cons by (cases ws) auto
      ultimately show ?thesis using m c by (simp add: not_ws)
    qed
  qed
next
  case (JObj ms)
  show ?case unfolding reads_def
  proof (intro allI impI)
    fix n r
    assume n: "length (jprint (JObj ms)) \<le> n"
    then obtain m where m: "n = Suc m" by (cases n) auto
    show "pval n (jprint (JObj ms) @ r) = POk (JObj ms) r"
    proof (cases ms)
      case Nil
      with m show ?thesis by (simp add: not_ws)
    next
      case (Cons kv ws)
      have "\<forall>m \<in> set ms. reads (snd m)" using JObj by (metis prod.collapse snds.intros wf_json.simps(3))
      then have "pmembers m (sep_by '','' (map member_text ms) @ CHR ''}'' # r) = POk ms r"
        using n m Cons by (intro pmembers_print) auto
      moreover obtain s' where "sep_by '','' (map member_text ms) @ CHR ''}'' # r = qt # s'"
        using Cons by (cases ws; cases kv) (auto simp: print_str_def)
      ultimately show ?thesis using m by (simp add: not_ws)
    qed
  qed
next
  case JNull
  show ?case unfolding reads_def
  proof (intro allI impI)
    fix n r
    assume "length (jprint JNull) \<le> n"
    then obtain m where "n = Suc m" by (cases n) auto
    then show "pval n (jprint JNull @ r) = POk JNull r" by (simp add: not_ws)
  qed
next
  case (JBool b)
  show ?case unfolding reads_def
  proof (intro allI impI)
    fix n r
    assume "length (jprint (JBool b)) \<le> n"
    then obtain m where "n = Suc m" by (cases n) (auto split: if_splits)
    then show "pval n (jprint (JBool b) @ r) = POk (JBool b) r" by (simp add: not_ws)
  qed
qed

end
