(* ===== verification/Shared.thy ===== *)
theory Shared
  imports Prelude
begin

text \<open>
  Package \<open>shared\<close> (src/shared/shared.go): the trace a blob collects on its way through the
  stores. A duration is an \<open>int\<close> number of nanoseconds in the range of \<open>int64\<close>. What \<open>time.Since(start)\<close> returns is
  not determined by the program, so a call of a store receives a \<open>call_env\<close>: an arbitrary
  supply of readings, split among the calls it makes (\<open>env_l\<close>, \<open>env_r\<close>), and the host name that
  \<open>getHostName\<close> returns after its first call.
\<close>

section \<open>Traces\<close>

record BlobStack =
  Timing :: int
  OriginName :: string
  HostName :: string

record BlobTrace =
  Stacks :: "BlobStack list"

text \<open>\<open>getHostName\<close> caches the name in the package variable \<open>hostName\<close> (a nil pointer at start).\<close>

definition getHostName :: "(go_error + string) \<Rightarrow> string option \<Rightarrow> string \<times> string option" where
  "getHostName os_Hostname hostName =
     (case hostName of
        Some hn \<Rightarrow> (hn, hostName)
      | None \<Rightarrow>
          (let hn = (case os_Hostname of Inl err \<Rightarrow> ''unknown'' | Inr hn \<Rightarrow> hn)
           in (hn, Some hn)))"

record call_env =
  elapsed :: "nat \<Rightarrow> int"
  env_host :: string

text \<open>An environment for examples: every reading is zero.\<close>

definition env0 :: call_env where
  "env0 = \<lparr>elapsed = (\<lambda>_. 0), env_host = ''h''\<rparr>"

definition since :: "call_env \<Rightarrow> int" where
  "since e = wrap64 (elapsed e 0)"

definition env_l :: "call_env \<Rightarrow> call_env" where
  "env_l e = e\<lparr>elapsed := (\<lambda>i. elapsed e (2 * i + 1))\<rparr>"

definition env_r :: "call_env \<Rightarrow> call_env" where
  "env_r e = e\<lparr>elapsed := (\<lambda>i. elapsed e (2 * i + 2))\<rparr>"

definition BlobTrace_Stack :: "call_env \<Rightarrow> string \<Rightarrow> BlobTrace \<Rightarrow> BlobTrace" where
  "BlobTrace_Stack e originName b =
     b\<lparr>Stacks := Stacks b @ [\<lparr>Timing = since e, OriginName = originName, HostName = env_host e\<rparr>]\<rparr>"

definition BlobTrace_Merge :: "BlobTrace \<Rightarrow> BlobTrace \<Rightarrow> BlobTrace" where
  "BlobTrace_Merge otherTrance b = b\<lparr>Stacks := Stacks b @ Stacks otherTrance\<rparr>"

definition NewBlobTrace :: "call_env \<Rightarrow> string \<Rightarrow> BlobTrace" where
  "NewBlobTrace e originName =
     \<lparr>Stacks = [] @ [\<lparr>Timing = since e, OriginName = originName, HostName = env_host e\<rparr>]\<rparr>"

text \<open>
  The rows \<open>BlobTrace.String\<close> prints: index, host, origin, timing, and the difference to the
  previous row's timing (zero for the first). The code indexes \<open>b.Stacks[i-1]\<close>; the model
  carries the previous row.
\<close>

fun trace_rows :: "nat \<Rightarrow> BlobStack option \<Rightarrow> BlobStack list \<Rightarrow> (nat \<times> string \<times> string \<times> int \<times> int) list" where
  "trace_rows i prev [] = []"
| "trace_rows i prev (stack # rest) =
     (let delta = (case prev of None \<Rightarrow> 0 | Some p \<Rightarrow> wrap64 (Timing stack - Timing p))
      in (i, HostName stack, OriginName stack, Timing stack, delta) # trace_rows (Suc i) (Some stack) rest)"

definition BlobTrace_rows :: "BlobTrace \<Rightarrow> (nat \<times> string \<times> string \<times> int \<times> int) list" where
  "BlobTrace_rows b = trace_rows 0 None (Stacks b)"

abbreviation origins :: "BlobTrace \<Rightarrow> string list" where
  "origins t \<equiv> map OriginName (Stacks t)"

section \<open>Facts\<close>

lemma origins_Stack [simp]: "origins (BlobTrace_Stack e n t) = origins t @ [n]"
  by (simp add: BlobTrace_Stack_def)

lemma origins_New [simp]: "origins (NewBlobTrace e n) = [n]"
  by (simp add: NewBlobTrace_def)

lemma origins_Merge [simp]: "origins (BlobTrace_Merge o2 t) = origins t @ origins o2"
  by (simp add: BlobTrace_Merge_def)

lemma getHostName_cached:
  "getHostName os1 v = (hn, v') \<Longrightarrow> getHostName os2 v' = (hn, v')"
  by (auto simp: getHostName_def Let_def split: option.splits)

lemma trace_rows_sum:
  "wrap64 (Timing p + sum_list (map (\<lambda>(i, h, or, t, d). d) (trace_rows k (Some p) xs))) = wrap64 (Timing (last (p # xs)))"
proof (induction xs arbitrary: k p)
  case Nil
  show ?case by simp
next
  case (Cons x xs)
  let ?S = "sum_list (map (\<lambda>(i, h, or, t, d). d) (trace_rows (Suc k) (Some x) xs))"
  have "wrap64 (Timing p + (wrap64 (Timing x - Timing p) + ?S)) = wrap64 (Timing x + ?S)"
    using wrap64_add_right [of "Timing p + ?S" "Timing x - Timing p"] by (simp add: ac_simps)
  with Cons [of x "Suc k"] show ?case by (simp add: Let_def)
qed

text \<open>Durations are 64-bit in every trace the operations build.\<close>

definition trace_ok :: "BlobTrace \<Rightarrow> bool" where
  "trace_ok t \<longleftrightarrow> (\<forall>b \<in> set (Stacks t). int64 (Timing b))"

lemma trace_ok_simps [simp]:
  "trace_ok (NewBlobTrace e n)" "trace_ok (BlobTrace_Stack e n t) \<longleftrightarrow> trace_ok t"
  "trace_ok (BlobTrace_Merge u t) \<longleftrightarrow> trace_ok t \<and> trace_ok u"
  by (auto simp: trace_ok_def NewBlobTrace_def BlobTrace_Stack_def BlobTrace_Merge_def since_def)

end
