(* ===== verification/Trace_Json.thy ===== *)
theory Trace_Json
  imports Json Shared
begin

text \<open>
  Decoding JSON into Go structs, and \<open>Serialize\<close> and \<open>Deserialize\<close> of src/shared/shared.go.

  A key matches a field when they are equal up to case; a later match overwrites an earlier one;
  \<open>null\<close> leaves the field as it is; a value of the wrong type is an error; unknown keys are skipped.
\<close>

section \<open>Struct fields\<close>

definition lower :: "char \<Rightarrow> char" where
  "lower c = (if 65 \<le> code c \<and> code c \<le> 90 then char_of (code c + 32) else c)"

definition fold_eq :: "string \<Rightarrow> string \<Rightarrow> bool" where
  "fold_eq a b \<longleftrightarrow> map lower a = map lower b"

definition jvals :: "string \<Rightarrow> (string \<times> json) list \<Rightarrow> json list" where
  "jvals name ms = map snd (filter (\<lambda>(k, v). fold_eq k name \<and> v \<noteq> JNull) ms)"

definition dec_field :: "(json \<Rightarrow> 'a option) \<Rightarrow> 'a \<Rightarrow> string \<Rightarrow> (string \<times> json) list \<Rightarrow> 'a option" where
  "dec_field dec def name ms =
     (let vs = map dec (jvals name ms) in
      if list_ex (\<lambda>v. v = None) vs then None else if vs = [] then Some def else last vs)"

fun dec_str :: "json \<Rightarrow> string option" where
  "dec_str (JStr s) = Some s"
| "dec_str _ = None"

fun dec_int :: "json \<Rightarrow> int option" where
  "dec_int (JNum t) = json_int t"
| "dec_int _ = None"

fun dec_bool :: "json \<Rightarrow> bool option" where
  "dec_bool (JBool b) = Some b"
| "dec_bool _ = None"

fun those_list :: "'a option list \<Rightarrow> 'a list option" where
  "those_list [] = Some []"
| "those_list (None # xs) = None"
| "those_list (Some x # xs) = map_option (Cons x) (those_list xs)"

definition dec_list :: "(json \<Rightarrow> 'a option) \<Rightarrow> json \<Rightarrow> 'a list option" where
  "dec_list dec v = (case v of JArr vs \<Rightarrow> those_list (map dec vs) | _ \<Rightarrow> None)"

section \<open>Traces\<close>

definition enc_stack :: "BlobStack \<Rightarrow> json" where
  "enc_stack b =
     JObj [(''timing'', JNum (int_text (Timing b))), (''origin_name'', JStr (OriginName b)), (''host_name'', JStr (HostName b))]"

text \<open>A nil slice is written as \<open>null\<close>.\<close>

definition enc_trace :: "BlobTrace \<Rightarrow> json" where
  "enc_trace b = JObj [(''stacks'', if Stacks b = [] then JNull else JArr (map enc_stack (Stacks b)))]"

definition Serialize :: "BlobTrace \<Rightarrow> string" where
  "Serialize b = jprint (enc_trace b)"

text \<open>An array element that is \<open>null\<close> leaves a zero struct.\<close>

fun dec_stack :: "json \<Rightarrow> BlobStack option" where
  "dec_stack (JObj ms) =
     (case (dec_field dec_int 0 ''timing'' ms, dec_field dec_str [] ''origin_name'' ms, dec_field dec_str [] ''host_name'' ms) of
        (Some t, Some ori, Some h) \<Rightarrow> Some \<lparr>Timing = t, OriginName = ori, HostName = h\<rparr>
      | _ \<Rightarrow> None)"
| "dec_stack JNull = Some \<lparr>Timing = 0, OriginName = [], HostName = []\<rparr>"
| "dec_stack _ = None"

fun dec_trace :: "json \<Rightarrow> BlobTrace option" where
  "dec_trace (JObj ms) = map_option (\<lambda>ss. \<lparr>Stacks = ss\<rparr>) (dec_field (dec_list dec_stack) [] ''stacks'' ms)"
| "dec_trace JNull = Some \<lparr>Stacks = []\<rparr>"
| "dec_trace _ = None"

definition Deserialize :: "string \<Rightarrow> go_error + BlobTrace" where
  "Deserialize serializedData =
     (case json_unmarshal serializedData of
        None \<Rightarrow> Inl (Msg ''invalid JSON'')
      | Some v \<Rightarrow> (case dec_trace v of None \<Rightarrow> Inl (Msg ''cannot unmarshal'') | Some t \<Rightarrow> Inr t))"

section \<open>Round trip\<close>

declare pval.simps [simp del] pelems.simps [simp del] pmembers.simps [simp del]

lemma json_decode_print:
  assumes "wf_json v" "num_end r"
  shows "json_decode (jprint v @ r) = POk v r"
  using reads_printed [OF assms(1)] assms(2) by (simp add: reads_def json_decode_def)

lemma json_unmarshal_print: "wf_json v \<Longrightarrow> json_unmarshal (jprint v) = Some v"
  using json_decode_print [of v "[]"] by (simp add: json_unmarshal_def num_end_def)

lemma fold_eq_codes [simp]:
  "fold_eq a b \<longleftrightarrow> map lower a = map lower b"
  by (simp add: fold_eq_def)

lemma lower_lit [simp]:
  "lower (CHR ''_'') = CHR ''_''" "lower (CHR ''a'') = CHR ''a''" "lower (CHR ''b'') = CHR ''b''" "lower (CHR ''c'') = CHR ''c''"
  "lower (CHR ''d'') = CHR ''d''" "lower (CHR ''e'') = CHR ''e''" "lower (CHR ''f'') = CHR ''f''" "lower (CHR ''g'') = CHR ''g''"
  "lower (CHR ''h'') = CHR ''h''" "lower (CHR ''i'') = CHR ''i''" "lower (CHR ''k'') = CHR ''k''" "lower (CHR ''l'') = CHR ''l''"
  "lower (CHR ''m'') = CHR ''m''" "lower (CHR ''n'') = CHR ''n''" "lower (CHR ''o'') = CHR ''o''" "lower (CHR ''p'') = CHR ''p''"
  "lower (CHR ''q'') = CHR ''q''" "lower (CHR ''r'') = CHR ''r''" "lower (CHR ''s'') = CHR ''s''" "lower (CHR ''t'') = CHR ''t''"
  "lower (CHR ''u'') = CHR ''u''" "lower (CHR ''v'') = CHR ''v''" "lower (CHR ''w'') = CHR ''w''" "lower (CHR ''y'') = CHR ''y''"
  "lower (CHR ''z'') = CHR ''z''"
  by (simp_all add: lower_def code_def)

lemma dec_enc_stack: "int64 (Timing b) \<Longrightarrow> dec_stack (enc_stack b) = Some b"
  by (simp add: enc_stack_def dec_field_def jvals_def json_int_text int64_def)

lemma those_Some: "those_list (map Some xs) = Some xs"
  by (induction xs) auto

lemma dec_list_map: "\<forall>x \<in> set xs. dec (enc x) = Some x \<Longrightarrow> dec_list dec (JArr (map enc xs)) = Some xs"
proof -
  assume "\<forall>x \<in> set xs. dec (enc x) = Some x"
  then have "map dec (map enc xs) = map Some xs" by simp
  then show ?thesis by (simp only: dec_list_def json.case those_Some)
qed

lemma deserialize_serialize:
  assumes "trace_ok t"
  shows "Deserialize (Serialize t) = Inr t"
proof -
  have "wf_json (enc_trace t)" by (auto simp: enc_trace_def enc_stack_def)
  then have "json_unmarshal (Serialize t) = Some (enc_trace t)"
    unfolding Serialize_def by (rule json_unmarshal_print)
  moreover have "dec_list dec_stack (JArr (map enc_stack (Stacks t))) = Some (Stacks t)"
    using assms by (intro dec_list_map) (simp add: dec_enc_stack trace_ok_def)
  ultimately show ?thesis
    by (auto simp: Deserialize_def enc_trace_def dec_field_def jvals_def simp del: dec_stack.simps)
qed



end
