(* ===== verification/Sha384.thy ===== *)
theory Sha384
  imports Prelude "HOL-Library.Word"
begin

unbundle bit_operations_syntax

text \<open>
  The hash that names a blob: \<open>BlobHash\<close> of src/reflector/server.go, the lower-case hex text of
  \<open>sha512.Sum384\<close> (FIPS 180-4, 64-bit words, additions modulo 2 to the 64). The 80 round constants are
  the first 64 bits of the fractional parts of the cube roots of the first 80 primes; the initial
  values come from the square roots of the 9th to 16th primes.
\<close>

section \<open>SHA-384\<close>

type_synonym w64 = "64 word"

type_synonym sha_state = "w64 list"

definition sha_K :: "w64 list" where
  "sha_K =
    [4794697086780616226, 8158064640168781261, 13096744586834688815, 16840607885511220156,
     4131703408338449720, 6480981068601479193, 10538285296894168987, 12329834152419229976,
     15566598209576043074, 1334009975649890238, 2608012711638119052, 6128411473006802146,
     8268148722764581231, 9286055187155687089, 11230858885718282805, 13951009754708518548,
     16472876342353939154, 17275323862435702243, 1135362057144423861, 2597628984639134821,
     3308224258029322869, 5365058923640841347, 6679025012923562964, 8573033837759648693,
     10970295158949994411, 12119686244451234320, 12683024718118986047, 13788192230050041572,
     14330467153632333762, 15395433587784984357, 489312712824947311, 1452737877330783856,
     2861767655752347644, 3322285676063803686, 5560940570517711597, 5996557281743188959,
     7280758554555802590, 8532644243296465576, 9350256976987008742, 10552545826968843579,
     11727347734174303076, 12113106623233404929, 14000437183269869457, 14369950271660146224,
     15101387698204529176, 15463397548674623760, 17586052441742319658, 1182934255886127544,
     1847814050463011016, 2177327727835720531, 2830643537854262169, 3796741975233480872,
     4115178125766777443, 5681478168544905931, 6601373596472566643, 7507060721942968483,
     8399075790359081724, 8693463985226723168, 9568029438360202098, 10144078919501101548,
     10430055236837252648, 11840083180663258601, 13761210420658862357, 14299343276471374635,
     14566680578165727644, 15097957966210449927, 16922976911328602910, 17689382322260857208,
     500013540394364858, 748580250866718886, 1242879168328830382, 1977374033974150939,
     2944078676154940804, 3659926193048069267, 4368137639120453308, 4836135668995329356,
     5532061633213252278, 6448918945643986474, 6902733635092675308, 7801388544844847127]"

definition sha384_init :: sha_state where
  "sha384_init =
    [14680500436340154072, 7105036623409894663, 10473403895298186519, 1526699215303891257,
     7436329637833083697, 10282925794625328401, 15784041429090275239, 5167115440072839076]"

definition byte_w64 :: "char \<Rightarrow> w64" where
  "byte_w64 c = word_of_nat (of_char c)"

fun be_word :: "char list \<Rightarrow> w64" where
  "be_word bs = foldl (\<lambda>acc c. push_bit 8 acc OR byte_w64 c) 0 bs"

definition w64_bytes :: "w64 \<Rightarrow> char list" where
  "w64_bytes w = map (\<lambda>i. char_of (unat (drop_bit (8 * i) w AND 255))) [7, 6, 5, 4, 3, 2, 1, 0]"

text \<open>Padding: a one bit, zeros, and the length in bits as a 128-bit number.\<close>

definition sha_pad :: "bytes \<Rightarrow> bytes" where
  "sha_pad msg =
     (let n = length msg;
          zeros = (239 - n mod 128) mod 128;
          bits = 8 * int n
      in msg @ [char_of (128::nat)] @ replicate zeros (char_of (0::nat))
           @ w64_bytes (word_of_int (bits div 2 ^ 64)) @ w64_bytes (word_of_int bits))"

function chunks :: "nat \<Rightarrow> 'a list \<Rightarrow> 'a list list" where
  "chunks n xs = (if n = 0 \<or> xs = [] then [] else take n xs # chunks n (drop n xs))"
  by pat_completeness auto
termination
  by (relation "measure (length \<circ> snd)") auto

declare chunks.simps [simp del]

definition small_sigma0 :: "w64 \<Rightarrow> w64" where
  "small_sigma0 x = word_rotr 1 x XOR word_rotr 8 x XOR drop_bit 7 x"

definition small_sigma1 :: "w64 \<Rightarrow> w64" where
  "small_sigma1 x = word_rotr 19 x XOR word_rotr 61 x XOR drop_bit 6 x"

definition big_sigma0 :: "w64 \<Rightarrow> w64" where
  "big_sigma0 x = word_rotr 28 x XOR word_rotr 34 x XOR word_rotr 39 x"

definition big_sigma1 :: "w64 \<Rightarrow> w64" where
  "big_sigma1 x = word_rotr 14 x XOR word_rotr 18 x XOR word_rotr 41 x"

text \<open>The message schedule, newest word first.\<close>

fun sha_extend :: "nat \<Rightarrow> w64 list \<Rightarrow> w64 list" where
  "sha_extend 0 ws = ws"
| "sha_extend (Suc k) ws =
     sha_extend k ((small_sigma1 (ws ! 1) + ws ! 6 + small_sigma0 (ws ! 14) + ws ! 15) # ws)"

definition sha_schedule :: "bytes \<Rightarrow> w64 list" where
  "sha_schedule block = rev (sha_extend 64 (rev (map be_word (chunks 8 block))))"

fun sha_round :: "sha_state \<Rightarrow> w64 \<times> w64 \<Rightarrow> sha_state" where
  "sha_round [a, b, c, d, e, f, g, h] (k, w) =
     (let t1 = h + big_sigma1 e + ((e AND f) XOR (NOT e AND g)) + k + w;
          t2 = big_sigma0 a + ((a AND b) XOR (a AND c) XOR (b AND c))
      in [t1 + t2, a, b, c, d + t1, e, f, g])"
| "sha_round s _ = s"

definition sha_compress :: "sha_state \<Rightarrow> bytes \<Rightarrow> sha_state" where
  "sha_compress st block = map2 (+) st (foldl sha_round st (zip sha_K (sha_schedule block)))"

definition sha512_Sum384 :: "bytes \<Rightarrow> bytes" where
  "sha512_Sum384 msg =
     concat (map w64_bytes (take 6 (foldl sha_compress sha384_init (chunks 128 (sha_pad msg)))))"

section \<open>Hex text\<close>

definition hex_digit :: "nat \<Rightarrow> char" where
  "hex_digit n = ''0123456789abcdef'' ! (n mod 16)"

definition hex_EncodeToString :: "bytes \<Rightarrow> string" where
  "hex_EncodeToString bs = concat (map (\<lambda>c. [hex_digit (of_char c div 16), hex_digit (of_char c)]) bs)"

definition BlobHash :: "bytes \<Rightarrow> string" where
  "BlobHash blob = hex_EncodeToString (sha512_Sum384 blob)"

definition hex_chars :: "char set" where
  "hex_chars = set ''0123456789abcdef''"

text \<open>A well-formed blob name: 96 lower-case hex digits.\<close>

definition valid_hash :: "string \<Rightarrow> bool" where
  "valid_hash h \<longleftrightarrow> length h = 96 \<and> set h \<subseteq> hex_chars"

section \<open>Facts\<close>

lemma sha_round_length: "length st = 8 \<Longrightarrow> length (sha_round st kw) = 8"
  by (cases kw, cases "(st, kw)" rule: sha_round.cases) (auto simp: Let_def)

lemma sha_rounds_length: "length st = 8 \<Longrightarrow> length (foldl sha_round st xs) = 8"
  by (induction xs arbitrary: st) (auto simp: sha_round_length)

lemma sha_compress_length: "length st = 8 \<Longrightarrow> length (sha_compress st b) = 8"
  by (simp add: sha_compress_def sha_rounds_length)

lemma sha_blocks_length: "length st = 8 \<Longrightarrow> length (foldl sha_compress st bs) = 8"
  by (induction bs arbitrary: st) (auto simp: sha_compress_length)

lemma length_concat_w64_bytes: "length (concat (map w64_bytes ws)) = 8 * length ws"
  by (induction ws) (auto simp: w64_bytes_def)

lemma sha512_Sum384_length: "length (sha512_Sum384 msg) = 48"
  by (simp add: sha512_Sum384_def length_concat_w64_bytes sha_blocks_length sha384_init_def)

lemma hex_length: "length (hex_EncodeToString bs) = 2 * length bs"
  by (induction bs) (auto simp: hex_EncodeToString_def)

lemma hex_digit_in: "hex_digit n \<in> hex_chars"
  unfolding hex_digit_def hex_chars_def by (rule nth_mem) simp

lemma hex_set: "set (hex_EncodeToString bs) \<subseteq> hex_chars"
  by (auto simp: hex_EncodeToString_def hex_digit_in)

lemma BlobHash_length [simp]: "length (BlobHash blob) = 96"
  by (simp add: BlobHash_def hex_length sha512_Sum384_length)

lemma BlobHash_valid [simp]: "valid_hash (BlobHash blob)"
  using hex_set by (simp add: valid_hash_def) (simp add: BlobHash_def)

end
