(* ===== verification/Store_Spec.thy ===== *)
theory Store_Spec
  imports Shared
begin

text \<open>
  The \<open>BlobStore\<close> interface of src/store/store.go and what its users rely on.

  A store is a record of its methods over a state type \<open>'s\<close>; a composed store (a cache over an
  origin) is a store whose state is the pair of the two states. The contracts are locales:
  \<^item> \<open>ro_store\<close>: what \<open>Has\<close> and \<open>Get\<close> return, in terms of an abstract map from hashes to blobs;
  \<^item> \<open>live_store\<close>: in addition, what \<open>Put\<close>, \<open>PutSD\<close> and \<open>Delete\<close> do to that map;
  \<^item> \<open>lossy_store\<close>: a cache, which may forget blobs at any time but never invents one. Every
    \<open>live_store\<close> is one;
  \<^item> \<open>safe_store\<close>: integrity under every error and panic: all that is ever stored and returned
    satisfies a fixed relation between hash and content.
  The first three are total: the operations return, with no error, for the hashes \<open>vh\<close> and
  the pairs \<open>addr\<close> (or \<open>sdaddr\<close> for sd blobs) the store accepts.
\<close>

section \<open>The interface\<close>

record 's BlobStore =
  bs_Name :: string
  bs_Has :: "string \<Rightarrow> ('s, bool \<times> go_error option) op"
  bs_Get :: "call_env \<Rightarrow> string \<Rightarrow> ('s, bytes \<times> BlobTrace \<times> go_error option) op"
  bs_Put :: "string \<Rightarrow> bytes \<Rightarrow> ('s, go_error option) op"
  bs_PutSD :: "string \<Rightarrow> bytes \<Rightarrow> ('s, go_error option) op"
  bs_Delete :: "string \<Rightarrow> ('s, go_error option) op"
  bs_Shutdown :: "('s, unit) op"

text \<open>\<open>Blocklister\<close> and \<open>neededBlobChecker\<close>: optional methods, found by a type assertion.\<close>

record 's Blocklister =
  bl_Block :: "string \<Rightarrow> ('s, go_error option) op"
  bl_Wants :: "string \<Rightarrow> ('s, bool \<times> go_error option) op"

type_synonym 's neededBlobChecker = "string \<Rightarrow> ('s, string list \<times> go_error option) op"

type_synonym 's lister = "('s, string list \<times> go_error option) op"

type_synonym content = "string \<rightharpoonup> bytes"

section \<open>Contracts\<close>

locale ro_store =
  fixes st :: "'s BlobStore"
    and inv :: "'s \<Rightarrow> bool"
    and content :: "'s \<Rightarrow> content"
    and vh :: "string \<Rightarrow> bool"
  assumes Has_spec: "inv s \<Longrightarrow> vh h \<Longrightarrow>
      \<exists>s'. bs_Has st h s = (Ret (content s h \<noteq> None, None), s') \<and> inv s' \<and> content s' = content s"
    and Get_hit: "inv s \<Longrightarrow> vh h \<Longrightarrow> content s h = Some b \<Longrightarrow>
      \<exists>tr s'. bs_Get st e h s = (Ret (b, tr, None), s') \<and> inv s' \<and> content s' = content s"
    and Get_miss: "inv s \<Longrightarrow> vh h \<Longrightarrow> content s h = None \<Longrightarrow>
      \<exists>tr x s'. bs_Get st e h s = (Ret ([], tr, Some x), s') \<and> not_found x \<and> inv s' \<and> content s' = content s"

locale live_store = ro_store st inv content vh
  for st :: "'s BlobStore" and inv content vh +
  fixes addr :: "string \<Rightarrow> bytes \<Rightarrow> bool"
    and sdaddr :: "string \<Rightarrow> bytes \<Rightarrow> bool"
  assumes Put_spec: "inv s \<Longrightarrow> vh h \<Longrightarrow> addr h b \<Longrightarrow>
      \<exists>s'. bs_Put st h b s = (Ret None, s') \<and> inv s' \<and> content s' = (content s)(h \<mapsto> b)"
    and PutSD_spec: "inv s \<Longrightarrow> vh h \<Longrightarrow> sdaddr h b \<Longrightarrow>
      \<exists>s'. bs_PutSD st h b s = (Ret None, s') \<and> inv s' \<and> content s' = (content s)(h \<mapsto> b)"
    and Delete_spec: "inv s \<Longrightarrow> vh h \<Longrightarrow>
      \<exists>s'. bs_Delete st h s = (Ret None, s') \<and> inv s' \<and> content s' = (content s)(h := None)"

locale lossy_store =
  fixes st :: "'s BlobStore"
    and inv :: "'s \<Rightarrow> bool"
    and content :: "'s \<Rightarrow> content"
    and vh :: "string \<Rightarrow> bool"
    and addr :: "string \<Rightarrow> bytes \<Rightarrow> bool"
    and sdaddr :: "string \<Rightarrow> bytes \<Rightarrow> bool"
  assumes lossy_Has: "inv s \<Longrightarrow> vh h \<Longrightarrow>
      \<exists>b s'. bs_Has st h s = (Ret (b, None), s') \<and> (b \<longrightarrow> content s h \<noteq> None) \<and> inv s' \<and> content s' \<subseteq>\<^sub>m content s"
    and lossy_Get: "inv s \<Longrightarrow> vh h \<Longrightarrow>
      \<exists>b tr x s'. bs_Get st e h s = (Ret (b, tr, x), s') \<and> inv s' \<and> content s' \<subseteq>\<^sub>m content s
        \<and> (x = None \<and> content s h = Some b \<or> err_not_found x)"
    and lossy_Put: "inv s \<Longrightarrow> vh h \<Longrightarrow> addr h b \<Longrightarrow>
      \<exists>s'. bs_Put st h b s = (Ret None, s') \<and> inv s' \<and> content s' \<subseteq>\<^sub>m (content s)(h \<mapsto> b)"
    and lossy_PutSD: "inv s \<Longrightarrow> vh h \<Longrightarrow> sdaddr h b \<Longrightarrow>
      \<exists>s'. bs_PutSD st h b s = (Ret None, s') \<and> inv s' \<and> content s' \<subseteq>\<^sub>m (content s)(h \<mapsto> b)"
    and lossy_Delete: "inv s \<Longrightarrow> vh h \<Longrightarrow>
      \<exists>s'. bs_Delete st h s = (Ret None, s') \<and> inv s' \<and> content s' \<subseteq>\<^sub>m (content s)(h := None)"

sublocale live_store \<subseteq> as_cache: lossy_store st inv content vh addr sdaddr
proof unfold_locales
  fix s h e
  assume s: "inv s" and h: "vh h"
  show "\<exists>b s'. bs_Has st h s = (Ret (b, None), s') \<and> (b \<longrightarrow> content s h \<noteq> None) \<and> inv s' \<and> content s' \<subseteq>\<^sub>m content s"
    using Has_spec [OF s h] by fastforce
  show "\<exists>b tr x s'. bs_Get st e h s = (Ret (b, tr, x), s') \<and> inv s' \<and> content s' \<subseteq>\<^sub>m content s
        \<and> (x = None \<and> content s h = Some b \<or> err_not_found x)"
    using Get_hit [OF s h, of _ e] Get_miss [OF s h, of e] by (cases "content s h") fastforce+
  show "\<exists>s'. bs_Delete st h s = (Ret None, s') \<and> inv s' \<and> content s' \<subseteq>\<^sub>m (content s)(h := None)"
    using Delete_spec [OF s h] by fastforce
  fix b
  show "\<exists>s'. bs_Put st h b s = (Ret None, s') \<and> inv s' \<and> content s' \<subseteq>\<^sub>m (content s)(h \<mapsto> b)" if "addr h b"
    using Put_spec [OF s h that] by fastforce
  show "\<exists>s'. bs_PutSD st h b s = (Ret None, s') \<and> inv s' \<and> content s' \<subseteq>\<^sub>m (content s)(h \<mapsto> b)" if "sdaddr h b"
    using PutSD_spec [OF s h that] by fastforce
qed

locale safe_store =
  fixes st :: "'s BlobStore"
    and inv :: "'s \<Rightarrow> bool"
    and good :: "string \<Rightarrow> bytes \<Rightarrow> bool"
  assumes safe_Has: "keeps_ret inv (\<lambda>_. True) (bs_Has st h)"
    and safe_Get: "keeps_ret inv (\<lambda>(b, tr, x). x = None \<longrightarrow> good h b) (bs_Get st e h)"
    and safe_Put: "good h b \<Longrightarrow> keeps_ret inv (\<lambda>_. True) (bs_Put st h b)"
    and safe_PutSD: "good h b \<Longrightarrow> keeps_ret inv (\<lambda>_. True) (bs_PutSD st h b)"
    and safe_Delete: "keeps_ret inv (\<lambda>_. True) (bs_Delete st h)"

section \<open>Sequences of calls\<close>

text \<open>
  The calls a client makes on a store, one after the other, and the observation it gets. The
  reference machine is a map that the calls read and update.
\<close>

datatype call = CHas string | CGet call_env string | CPut string bytes | CPutSD string bytes | CDelete string

datatype obs = OHas bool "go_error option" | OGet bytes "go_error option" | OErr "go_error option" | OPanic

fun run_call :: "'s BlobStore \<Rightarrow> call \<Rightarrow> 's \<Rightarrow> obs \<times> 's" where
  "run_call st (CHas h) s = (case bs_Has st h s of (Ret (b, e), s') \<Rightarrow> (OHas b e, s') | (Panic p, s') \<Rightarrow> (OPanic, s'))"
| "run_call st (CGet env h) s = (case bs_Get st env h s of (Ret (b, tr, e), s') \<Rightarrow> (OGet b e, s') | (Panic p, s') \<Rightarrow> (OPanic, s'))"
| "run_call st (CPut h b) s = (case bs_Put st h b s of (Ret e, s') \<Rightarrow> (OErr e, s') | (Panic p, s') \<Rightarrow> (OPanic, s'))"
| "run_call st (CPutSD h b) s = (case bs_PutSD st h b s of (Ret e, s') \<Rightarrow> (OErr e, s') | (Panic p, s') \<Rightarrow> (OPanic, s'))"
| "run_call st (CDelete h) s = (case bs_Delete st h s of (Ret e, s') \<Rightarrow> (OErr e, s') | (Panic p, s') \<Rightarrow> (OPanic, s'))"

fun run_calls :: "'s BlobStore \<Rightarrow> call list \<Rightarrow> 's \<Rightarrow> obs list \<times> 's" where
  "run_calls st [] s = ([], s)"
| "run_calls st (c # cs) s =
     (let (o1, s1) = run_call st c s; (os, s2) = run_calls st cs s1 in (o1 # os, s2))"

fun ref_call :: "call \<Rightarrow> content \<Rightarrow> content" where
  "ref_call (CPut h b) m = m(h \<mapsto> b)"
| "ref_call (CPutSD h b) m = m(h \<mapsto> b)"
| "ref_call (CDelete h) m = m(h := None)"
| "ref_call _ m = m"

text \<open>What the reference machine allows a call to observe.\<close>

fun ref_obs :: "call \<Rightarrow> content \<Rightarrow> obs \<Rightarrow> bool" where
  "ref_obs (CHas h) m ob = (ob = OHas (m h \<noteq> None) None)"
| "ref_obs (CGet env h) m ob =
     (case m h of Some b \<Rightarrow> ob = OGet b None
      | None \<Rightarrow> (case ob of OGet b (Some x) \<Rightarrow> b = [] \<and> not_found x | _ \<Rightarrow> False))"
| "ref_obs _ m ob = (ob = OErr None)"

fun ref_trace :: "call list \<Rightarrow> content \<Rightarrow> obs list \<Rightarrow> bool" where
  "ref_trace [] m os = (os = [])"
| "ref_trace (c # cs) m os = (case os of [] \<Rightarrow> False | ob # os' \<Rightarrow> ref_obs c m ob \<and> ref_trace cs (ref_call c m) os')"

fun call_ok :: "(string \<Rightarrow> bool) \<Rightarrow> (string \<Rightarrow> bytes \<Rightarrow> bool) \<Rightarrow> (string \<Rightarrow> bytes \<Rightarrow> bool) \<Rightarrow> call \<Rightarrow> bool" where
  "call_ok vh addr sdaddr (CHas h) = vh h"
| "call_ok vh addr sdaddr (CGet env h) = vh h"
| "call_ok vh addr sdaddr (CPut h b) = (vh h \<and> addr h b)"
| "call_ok vh addr sdaddr (CPutSD h b) = (vh h \<and> sdaddr h b)"
| "call_ok vh addr sdaddr (CDelete h) = vh h"

context live_store
begin

lemma run_call_refines:
  assumes s: "inv s" and c: "call_ok vh addr sdaddr c" and r: "run_call st c s = (ob, s')"
  shows "inv s' \<and> content s' = ref_call c (content s) \<and> ref_obs c (content s) ob"
proof (cases c)
  case (CHas h)
  with c Has_spec [OF s, of h] r show ?thesis by auto
next
  case (CGet env h)
  with c have h: "vh h" by simp
  show ?thesis
  proof (cases "content s h")
    case None
    with Get_miss [OF s h, of env] CGet r show ?thesis by auto
  next
    case (Some b)
    with Get_hit [OF s h Some, of env] CGet r show ?thesis by auto
  qed
next
  case (CPut h b)
  with c Put_spec [OF s, of h b] r show ?thesis by auto
next
  case (CPutSD h b)
  with c PutSD_spec [OF s, of h b] r show ?thesis by auto
next
  case (CDelete h)
  with c Delete_spec [OF s, of h] r show ?thesis by auto
qed

text \<open>Every sequence of calls is indistinguishable from the same calls on a plain map.\<close>

lemma run_calls_refines:
  "inv s \<Longrightarrow> \<forall>c \<in> set cs. call_ok vh addr sdaddr c \<Longrightarrow> run_calls st cs s = (os, s') \<Longrightarrow>
   inv s' \<and> content s' = fold ref_call cs (content s) \<and> ref_trace cs (content s) os"
proof (induction cs arbitrary: s os)
  case Nil
  then show ?case by simp
next
  case (Cons c cs)
  obtain o1 s1 where 1: "run_call st c s = (o1, s1)" by fastforce
  with Cons.prems(3) obtain os2 where 2: "run_calls st cs s1 = (os2, s')" and os: "os = o1 # os2"
    by (auto split: prod.splits)
  from Cons.prems 1 have s1: "inv s1" "content s1 = ref_call c (content s)" "ref_obs c (content s) o1"
    by (auto dest: run_call_refines)
  from Cons.IH [OF s1(1) _ 2] Cons.prems(2) s1 os show ?case by simp
qed

end

text \<open>Every blob a store returns without an error satisfies \<open>good\<close>, whatever fails.\<close>

fun obs_good :: "(string \<Rightarrow> bytes \<Rightarrow> bool) \<Rightarrow> call \<Rightarrow> obs \<Rightarrow> bool" where
  "obs_good good (CGet e h) (OGet b None) = good h b"
| "obs_good good _ _ = True"

fun put_good :: "(string \<Rightarrow> bytes \<Rightarrow> bool) \<Rightarrow> call \<Rightarrow> bool" where
  "put_good good (CPut h b) = good h b"
| "put_good good (CPutSD h b) = good h b"
| "put_good good _ = True"

context safe_store
begin

lemma run_call_safe:
  assumes s: "inv s" and c: "put_good good c" and r: "run_call st c s = (ob, s')"
  shows "inv s' \<and> obs_good good c ob"
proof (cases c)
  case (CHas h)
  with r keeps_retD [OF safe_Has s] show ?thesis by (auto split: prod.splits outcome.splits)
next
  case (CGet e h)
  obtain res s1 where g: "bs_Get st e h s = (res, s1)" by (metis surj_pair)
  have res: "inv s1" "\<And>b tr x. res = Ret (b, tr, x) \<Longrightarrow> x = None \<longrightarrow> good h b"
    using keeps_retD [OF safe_Get s g] by auto
  show ?thesis
  proof (cases res)
    case (Ret a)
    obtain b tr x where a: "a = (b, tr, x)" by (cases a)
    with CGet r g Ret res(1) res(2) [of b tr x] show ?thesis by (cases x) auto
  next
    case (Panic q)
    with CGet r g res(1) show ?thesis by simp
  qed
next
  case (CPut h b)
  with r c keeps_retD [OF safe_Put s] show ?thesis by (auto split: prod.splits outcome.splits)
next
  case (CPutSD h b)
  with r c keeps_retD [OF safe_PutSD s] show ?thesis by (auto split: prod.splits outcome.splits)
next
  case (CDelete h)
  with r keeps_retD [OF safe_Delete s] show ?thesis by (auto split: prod.splits outcome.splits)
qed

lemma run_calls_safe:
  "inv s \<Longrightarrow> \<forall>c \<in> set cs. put_good good c \<Longrightarrow> run_calls st cs s = (obs, s') \<Longrightarrow> inv s' \<and> list_all2 (obs_good good) cs obs"
proof (induction cs arbitrary: s obs)
  case Nil
  then show ?case by simp
next
  case (Cons c cs)
  obtain o1 s1 where 1: "run_call st c s = (o1, s1)" by (metis surj_pair)
  with Cons.prems(3) obtain os2 where 2: "run_calls st cs s1 = (os2, s')" "obs = o1 # os2"
    by (auto split: prod.splits)
  with run_call_safe [OF Cons.prems(1) _ 1] Cons.IH [OF _ _ 2(1)] Cons.prems(2) show ?case by simp
qed

end

end
