(* ===== verification/Tcp.thy ===== *)
theory Tcp
  imports Trace_Json Sha384 Store_Spec
begin

text \<open>
  What the two TCP protocols (packages \<open>reflector\<close> and \<open>server/peer\<close>) use of \<open>net.Conn\<close>, \<open>bufio\<close>, \<open>io.ReadFull\<close> and \<open>json.Decoder\<close>.

  The input of a connection is a list of segments: one \<open>Read\<close> returns bytes of one segment, at most as many as its buffer holds, and
  when no segment is left it returns \<open>tcp_end\<close> (\<open>EOF\<close> after a close, a timeout otherwise). How the network cuts the bytes into segments is
  not determined by the program. Every \<open>Write\<close> adds one entry to \<open>tcp_out\<close>; \<open>tcp_wfaults\<close> and \<open>tcp_dfaults\<close> are the failures of the
  following writes and \<open>Set..Deadline\<close> calls, in order (none when the list has ended).
\<close>

section \<open>Connections\<close>

record tcp =
  tcp_in :: "bytes list"
  tcp_end :: go_error
  tcp_out :: "bytes list"
  tcp_wfaults :: "(nat \<times> go_error option) option list"
  tcp_dfaults :: "go_error option list"

definition tcp_of :: "bytes list \<Rightarrow> tcp" where
  "tcp_of segs = \<lparr>tcp_in = segs, tcp_end = EOF, tcp_out = [], tcp_wfaults = [], tcp_dfaults = []\<rparr>"

definition conn_Write :: "bytes \<Rightarrow> tcp \<Rightarrow> (nat \<times> go_error option) \<times> tcp" where
  "conn_Write b c =
     (case tcp_wfaults c of
        Some (n, err) # r \<Rightarrow> ((min n (length b), err), c\<lparr>tcp_out := tcp_out c @ [take n b], tcp_wfaults := r\<rparr>)
      | fs \<Rightarrow> ((length b, None), c\<lparr>tcp_out := tcp_out c @ [b], tcp_wfaults := tl fs\<rparr>))"

definition conn_SetDeadline :: "tcp \<Rightarrow> go_error option \<times> tcp" where
  "conn_SetDeadline c = (case tcp_dfaults c of [] \<Rightarrow> (None, c) | x # r \<Rightarrow> (x, c\<lparr>tcp_dfaults := r\<rparr>))"

text \<open>A call that cannot panic, as an operation.\<close>

definition io :: "('s \<Rightarrow> 'a \<times> 's) \<Rightarrow> ('s, 'a) op" where
  "io f s = (case f s of (a, s') \<Rightarrow> (Ret a, s'))"

text \<open>
  A client's end of a connection to a peer that answers: every write reaches the peer (its state is \<open>nc_net\<close>), which may send segments back.
\<close>

record 'n netconn =
  nc_tcp :: tcp
  nc_net :: 'n

type_synonym 'n peer = "bytes \<Rightarrow> 'n \<Rightarrow> bytes list \<times> 'n"

definition net_Write :: "'n peer \<Rightarrow> bytes \<Rightarrow> 'n netconn \<Rightarrow> (nat \<times> go_error option) \<times> 'n netconn" where
  "net_Write peer b c =
     (case conn_Write b (nc_tcp c) of ((n, err), t) \<Rightarrow>
        (case peer (take n b) (nc_net c) of (segs, net) \<Rightarrow>
           ((n, err), \<lparr>nc_tcp = t\<lparr>tcp_in := tcp_in t @ segs\<rparr>, nc_net = net\<rparr>)))"

definition on_tcp :: "(tcp \<Rightarrow> 'a \<times> tcp) \<Rightarrow> 'n netconn \<Rightarrow> 'a \<times> 'n netconn" where
  "on_tcp f c = (case f (nc_tcp c) of (a, t) \<Rightarrow> (a, c\<lparr>nc_tcp := t\<rparr>))"

text \<open>\<open>make([]byte, n)\<close> panics for a negative length and for one beyond the address space.\<close>

definition make_bytes :: "int \<Rightarrow> ('s, nat) op" where
  "make_bytes n = (if n < 0 \<or> 2 ^ 48 < n then panic ''makeslice: len out of range'' else ret (nat n))"

section \<open>Buffered reads\<close>

text \<open>
  A \<open>bufio.Reader\<close> that is kept as long as its connection: no byte it has read ahead is lost, so it is the bytes of all segments.
  \<open>ReadBytes\<close> returns the bytes up to and including the delimiter, or, without one, all bytes and the error at the end.
\<close>

definition buf_bytes :: "tcp \<Rightarrow> bytes" where
  "buf_bytes c = concat (tcp_in c)"

definition set_buf :: "bytes \<Rightarrow> tcp \<Rightarrow> tcp" where
  "set_buf s c = c\<lparr>tcp_in := (if s = [] then [] else [s])\<rparr>"

fun cut_at :: "char \<Rightarrow> bytes \<Rightarrow> (bytes \<times> bytes) option" where
  "cut_at d [] = None"
| "cut_at d (c # s) = (if c = d then Some ([c], s) else map_option (\<lambda>(a, b). (c # a, b)) (cut_at d s))"

definition ReadBytes :: "char \<Rightarrow> tcp \<Rightarrow> (bytes \<times> go_error option) \<times> tcp" where
  "ReadBytes d c =
     (case cut_at d (buf_bytes c) of
        Some (chunk, r) \<Rightarrow> ((chunk, None), set_buf r c)
      | None \<Rightarrow> ((buf_bytes c, Some (tcp_end c)), set_buf [] c))"

text \<open>The error of \<open>io.ReadFull\<close> when the bytes end early.\<close>

definition full_err :: "bytes \<Rightarrow> go_error \<Rightarrow> go_error" where
  "full_err got err = (if got \<noteq> [] \<and> err = EOF then ErrUnexpectedEOF else err)"

definition buf_ReadFull :: "nat \<Rightarrow> tcp \<Rightarrow> (bytes \<times> go_error option) \<times> tcp" where
  "buf_ReadFull n c =
     (let s = buf_bytes c in
      if n \<le> length s then ((take n s, None), set_buf (drop n s) c)
      else ((s, Some (full_err s (tcp_end c))), set_buf [] c))"

text \<open>
  \<open>io.ReadFull(bufio.NewReader(conn), blob)\<close>, a reader of its own with a buffer of 4096 bytes: a read of at least that many goes to the
  connection directly, a smaller one fills the buffer, and what is left in the buffer is lost with the reader.
\<close>

function new_ReadFull :: "nat \<Rightarrow> bytes \<Rightarrow> tcp \<Rightarrow> (bytes \<times> go_error option) \<times> tcp" where
  "new_ReadFull n got c =
     (if n = 0 then ((got, None), c)
      else
        (case tcp_in c of
           [] \<Rightarrow> ((got, Some (full_err got (tcp_end c))), c)
         | seg # r \<Rightarrow>
             let k = (if 4096 \<le> n then n else 4096); a = take k seg;
                 c' = c\<lparr>tcp_in := (if length seg \<le> k then r else drop k seg # r)\<rparr>
             in if n \<le> length a then ((got @ take n a, None), c') else new_ReadFull (n - length a) (got @ a) c'))"
  by pat_completeness auto
termination
  by (relation "measure (\<lambda>(n, got, c). length (tcp_in c) + length (concat (tcp_in c)))") (auto split: if_splits)

declare new_ReadFull.simps [simp del]

section \<open>Streaming JSON\<close>

text \<open>
  \<open>json.Decoder\<close>: the buffer of bytes read and not decoded yet, and its capacity. \<open>refill\<close> makes room for at least 512 bytes and reads once.
  A number at the end of the buffer may go on, so it needs more input. At the end of the input a buffer with
  only white space gives \<open>EOF\<close>, another one \<open>ErrUnexpectedEOF\<close>.
\<close>

record decoder =
  dec_buf :: bytes
  dec_cap :: nat

definition NewDecoder :: decoder where
  "NewDecoder = \<lparr>dec_buf = [], dec_cap = 0\<rparr>"

definition is_number :: "json \<Rightarrow> bool" where
  "is_number v = (case v of JNum t \<Rightarrow> True | _ \<Rightarrow> False)"

definition dec_room :: "decoder \<Rightarrow> nat" where
  "dec_room d = (if dec_cap d - length (dec_buf d) < 512 then 2 * dec_cap d + 512 else dec_cap d)"

text \<open>Decode of the buffer alone: a value, an error, or more input needed.\<close>

definition decode_buf :: "bytes \<Rightarrow> json presult" where
  "decode_buf s = (case json_decode s of POk v r \<Rightarrow> if is_number v \<and> r = [] then PEof else POk v r | x \<Rightarrow> x)"

definition at_end :: "bytes \<Rightarrow> go_error \<Rightarrow> go_error + json" where
  "at_end s err =
     (case json_decode s of
        POk v r \<Rightarrow> if err = EOF then Inr v else Inl err
      | _ \<Rightarrow> if err = EOF \<and> skip_ws s \<noteq> [] then Inl ErrUnexpectedEOF else Inl err)"

function Decoder_Decode :: "decoder \<Rightarrow> tcp \<Rightarrow> (go_error + json) \<times> decoder \<times> tcp" where
  "Decoder_Decode d c =
     (case decode_buf (dec_buf d) of
        POk v r \<Rightarrow> (Inr v, d\<lparr>dec_buf := r\<rparr>, c)
      | PBad \<Rightarrow> (Inl (Msg ''invalid character''), d, c)
      | PEof \<Rightarrow>
          (case tcp_in c of
             [] \<Rightarrow> (case at_end (dec_buf d) (tcp_end c) of
                     Inr v \<Rightarrow> (Inr v, d\<lparr>dec_buf := []\<rparr>, c)
                   | Inl err \<Rightarrow> (Inl err, d, c))
           | seg # r \<Rightarrow>
               let cap = dec_room d; k = cap - length (dec_buf d)
               in if k = 0 then (Inl (Msg ''bufio: buffer full''), d, c)
                  else Decoder_Decode \<lparr>dec_buf = dec_buf d @ take k seg, dec_cap = cap\<rparr>
                         (c\<lparr>tcp_in := (if length seg \<le> k then r else drop k seg # r)\<rparr>)))"
  by pat_completeness auto
termination
  by (relation "measure (\<lambda>(d, c). length (tcp_in c) + length (concat (tcp_in c)))") (auto split: if_splits)

declare Decoder_Decode.simps [simp del]

section \<open>Facts\<close>

lemma buf_set_buf [simp]: "buf_bytes (set_buf s c) = s" "tcp_end (set_buf s c) = tcp_end c" "tcp_out (set_buf s c) = tcp_out c"
  "tcp_wfaults (set_buf s c) = tcp_wfaults c" "tcp_dfaults (set_buf s c) = tcp_dfaults c"
  by (auto simp: buf_bytes_def set_buf_def)

lemma cut_at_Some: "cut_at d s = Some (a, r) \<Longrightarrow> s = a @ r \<and> a \<noteq> [] \<and> last a = d \<and> d \<notin> set (butlast a)"
  by (induction s arbitrary: a) (auto split: if_splits)

lemma cut_at_None: "cut_at d s = None \<longleftrightarrow> d \<notin> set s"
  by (induction s) auto

lemma cut_at_append: "d \<notin> set a \<Longrightarrow> cut_at d (a @ d # r) = Some (a @ [d], r)"
  by (induction a) auto

lemma conn_Write_in [simp]: "conn_Write b c = (x, c') \<Longrightarrow> tcp_in c' = tcp_in c" "conn_Write b c = (x, c') \<Longrightarrow> tcp_end c' = tcp_end c"
  by (auto simp: conn_Write_def split: list.splits option.splits prod.splits)

lemma SetDeadline_in [simp]: "tcp_in (snd (conn_SetDeadline c)) = tcp_in c" "tcp_end (snd (conn_SetDeadline c)) = tcp_end c"
  by (auto simp: conn_SetDeadline_def split: list.splits)

text \<open>On a connection without faults a write is sent whole.\<close>

definition clean :: "tcp \<Rightarrow> bool" where
  "clean c \<longleftrightarrow> tcp_wfaults c = [] \<and> tcp_dfaults c = []"

lemma clean_Write: "clean c \<Longrightarrow> conn_Write b c = ((length b, None), c\<lparr>tcp_out := tcp_out c @ [b]\<rparr>)"
  by (auto simp: clean_def conn_Write_def)

lemma clean_SetDeadline: "clean c \<Longrightarrow> conn_SetDeadline c = (None, c)"
  by (auto simp: clean_def conn_SetDeadline_def)

lemma clean_simps [simp]: "clean (set_buf s c) = clean c" "clean (c\<lparr>tcp_out := x\<rparr>) = clean c" "clean (c\<lparr>tcp_in := y\<rparr>) = clean c" "clean (tcp_of segs)"
  by (auto simp: clean_def set_buf_def tcp_of_def)

end
