(* ===== verification/Json_Frame.thy ===== *)
theory Json_Frame
  imports Tcp
begin

text \<open>
  JSON values delimit themselves: a parse that has succeeded is not changed by bytes that follow (a number apart, which may go on). So no
  proper prefix of a printed object is valid JSON, which is what the framing of both TCP protocols rests on.
\<close>

section \<open>Parsing with more input\<close>

lemma skip_ws_append: "skip_ws s \<noteq> [] \<Longrightarrow> skip_ws (s @ q) = skip_ws s @ q"
  by (induction s) auto

lemma skip_ws_Cons_append: "skip_ws s = c # r \<Longrightarrow> skip_ws (s @ q) = c # r @ q"
  using skip_ws_append [of s q] by simp

lemma hex4_append: "hex4 s \<noteq> PEof \<Longrightarrow> hex4 (s @ q) = (case hex4 s of POk u r \<Rightarrow> POk u (r @ q) | x \<Rightarrow> x)"
  by (cases s rule: hex4.cases) (auto split: option.splits)

lemma escape_unicode: "escape (CHR ''u'' # s) = unicode_escape s"
  by (simp add: escape_def)

lemma str_body_lone:
  assumes "str_body (bsl # CHR ''u'' # s) = POk t r"
  shows "hex4 s \<noteq> PEof"
proof
  assume "hex4 s = PEof"
  then have "escape (CHR ''u'' # s) = PEof" by (simp only: escape_unicode) (simp add: unicode_escape_def)
  with assms show False by (subst (asm) str_body.simps) simp
qed

lemma unicode_escape_append:
  assumes u: "unicode_escape s = POk bs r" and t: "str_body r = POk t r'"
  shows "unicode_escape (s @ q) = POk bs (r @ q)"
proof -
  from u obtain v s1 where h: "hex4 s = POk v s1" by (auto simp: unicode_escape_def split: presult.splits)
  then have hq: "hex4 (s @ q) = POk v (s1 @ q)" using hex4_append [of s q] by simp
  show ?thesis
  proof (cases "v < 55296 \<or> 57343 < v")
    case True
    with u h hq show ?thesis by (simp add: unicode_escape_def)
  next
    case False
    consider "s1 = []" | a where "s1 = [a]" | a b s2 where "s1 = a # b # s2" by (metis list.exhaust)
    then show ?thesis
    proof cases
      case 1
      with u h False have "r = []" by (auto simp: unicode_escape_def)
      with t show ?thesis by (simp add: str_body.simps)
    next
      case (2 a)
      with u h False have r: "r = [a]" "bs = utf8 65533" by (auto simp: unicode_escape_def)
      with t have "a \<noteq> bsl" by (auto simp: str_body.simps escape_def)
      with 2 False hq r show ?thesis by (cases q) (auto simp: unicode_escape_def)
    next
      case (3 a b s2)
      show ?thesis
      proof (cases "a = bsl \<and> b = CHR ''u'' \<and> v \<le> 56319")
        case True
        have "hex4 s2 \<noteq> PEof"
        proof
          assume e: "hex4 s2 = PEof"
          with u h False 3 True have "r = bsl # CHR ''u'' # s2" by (auto simp: unicode_escape_def)
          with t e show False using str_body_lone by blast
        qed
        with True False 3 h hq u hex4_append [of s2 q] show ?thesis
          by (auto simp: unicode_escape_def split: presult.splits if_splits)
      next
        case F: False
        with False 3 h hq u show ?thesis by (auto simp: unicode_escape_def)
      qed
    qed
  qed
qed

lemma escape_append:
  assumes "escape s = POk bs r" "str_body r = POk t r'"
  shows "escape (s @ q) = POk bs (r @ q)"
proof (cases s)
  case Nil
  with assms show ?thesis by (simp add: escape_def)
next
  case (Cons e s')
  with assms show ?thesis
    by (auto simp: escape_def unicode_escape_append split: if_splits)
qed

lemma pmap_POk: "pmap f p = POk b r \<longleftrightarrow> (\<exists>a. p = POk a r \<and> b = f a)"
  by (cases p) auto

lemma pbind_POk: "pbind p f = POk b r \<longleftrightarrow> (\<exists>a s. p = POk a s \<and> f a s = POk b r)"
  by (cases p) (auto simp: pbind_def)

lemma str_body_Cons:
  "str_body (c # r) =
     (if c = qt then POk [] r
      else if c = bsl then
        (case escape r of PEof \<Rightarrow> PEof | PBad \<Rightarrow> PBad | POk bs r' \<Rightarrow> if length r' < Suc (length r) then pmap (\<lambda>t. bs @ t) (str_body r') else PBad)
      else if code c < 32 then PBad
      else pmap (\<lambda>t. c # t) (str_body r))"
  by (subst str_body.simps) (simp split: presult.split)

lemma str_body_append: "str_body s = POk t r \<Longrightarrow> str_body (s @ q) = POk t (r @ q)"
proof (induction s arbitrary: t r rule: length_induct)
  case (1 s)
  show ?case
  proof (cases s)
    case Nil
    with 1 show ?thesis by (simp add: str_body.simps)
  next
    case (Cons c s')
    show ?thesis
    proof (cases "c \<noteq> qt \<and> c = bsl")
      case True
      with 1 Cons obtain bs r1 t1 where e: "escape s' = POk bs r1" "length r1 < length s" "str_body r1 = POk t1 r" "t = bs @ t1"
        by (auto simp: str_body_Cons pmap_POk split: presult.splits if_splits)
      have "escape (s' @ q) = POk bs (r1 @ q)" using e(1,3) by (rule escape_append)
      moreover have "str_body (r1 @ q) = POk t1 (r @ q)" using 1 e by blast
      ultimately show ?thesis using True Cons e by (simp add: str_body_Cons)
    next
      case False
      with 1 Cons show ?thesis
        by (auto simp: str_body_Cons pmap_POk split: if_splits)
    qed
  qed
qed

lemma digits_append: "digits s = (ds, r) \<Longrightarrow> r \<noteq> [] \<Longrightarrow> digits (s @ q) = (ds, r @ q)"
  by (induction s arbitrary: ds) (auto split: if_splits prod.splits)

lemma int_part_append: "int_part s = POk i r \<Longrightarrow> r \<noteq> [] \<Longrightarrow> int_part (s @ q) = POk i (r @ q)"
  by (cases s) (auto simp: int_part_def digits_append split: if_splits prod.splits)

lemma frac_part_append: "frac_part s = POk i r \<Longrightarrow> r \<noteq> [] \<Longrightarrow> frac_part (s @ q) = POk i (r @ q)"
  by (cases s) (auto simp: frac_part_def digits_append split: if_splits prod.splits)

lemma exp_part_append:
  assumes "exp_part s = POk i r" "r \<noteq> []"
  shows "exp_part (s @ q) = POk i (r @ q)"
proof (cases s)
  case Nil
  with assms show ?thesis by (simp add: exp_part_def)
next
  case (Cons c s')
  with assms show ?thesis
    by (cases s') (auto simp: exp_part_def digits_append split: if_splits prod.splits)
qed

lemma parts_nil: "frac_part [] = POk [] []" "exp_part [] = POk [] []"
  by (simp_all add: frac_part_def exp_part_def)

lemma number_append:
  assumes n: "number s = POk t r" and r: "r \<noteq> []"
  shows "number (s @ q) = POk t (r @ q)"
proof -
  obtain sg r0 where sg: "(case s of c # r \<Rightarrow> if c = CHR ''-'' then ([c], r) else ([], s) | [] \<Rightarrow> ([], [])) = (sg, r0)"
    by (cases "case s of c # r \<Rightarrow> if c = CHR ''-'' then ([c], r) else ([], s) | [] \<Rightarrow> ([], [])") simp
  then obtain i r1 f r2 e where p: "int_part r0 = POk i r1" "frac_part r1 = POk f r2" "exp_part r2 = POk e r" "t = sg @ i @ f @ e"
  proof -
    have "pbind (int_part r0) (\<lambda>i r1. pbind (frac_part r1) (\<lambda>f r2. pbind (exp_part r2) (\<lambda>e r3. POk (sg @ i @ f @ e) r3))) = POk t r"
      using n unfolding number_def sg by simp
    then show thesis using that by (auto simp: pbind_POk)
  qed
  have r2: "r2 \<noteq> []" using p(3) r by (auto simp: parts_nil)
  have r1: "r1 \<noteq> []" using p(2) r2 by (auto simp: parts_nil)
  have s: "s \<noteq> []" using sg p(1) by (auto simp: int_part_def)
  have "(case s @ q of c # r \<Rightarrow> if c = CHR ''-'' then ([c], r) else ([], s @ q) | [] \<Rightarrow> ([], [])) = (sg, r0 @ q)"
    using sg s by (cases s) (auto split: if_splits)
  then show ?thesis
    unfolding number_def Let_def using p int_part_append [OF p(1) r1] frac_part_append [OF p(2) r2] exp_part_append [OF p(3) r]
    by (simp add: pbind_def)
qed

lemma lit_append: "lit xs v s = POk w r \<Longrightarrow> lit xs v (s @ q) = POk w (r @ q)"
  by (induction xs v s rule: lit.induct) (auto split: if_splits)

declare pval.simps [simp del] pelems.simps [simp del] pmembers.simps [simp del]

definition scalar :: "char \<Rightarrow> string \<Rightarrow> json presult" where
  "scalar c r =
     (if c = qt then pmap JStr (str_body r)
      else if c = CHR ''t'' then lit ''rue'' (JBool True) r
      else if c = CHR ''f'' then lit ''alse'' (JBool False) r
      else if c = CHR ''n'' then lit ''ull'' JNull r
      else if c = CHR ''-'' \<or> is_digit c then pmap JNum (number (c # r))
      else PBad)"

lemma pval_scalar:
  assumes "skip_ws s = c # r" "c \<noteq> CHR ''{''" "c \<noteq> CHR ''[''"
  shows "pval (Suc n) s = scalar c r"
  unfolding pval.simps assms(1) using assms(2,3) by (simp add: scalar_def)

lemma scalar_append:
  assumes "scalar c r = POk v t" "is_number v \<longrightarrow> t \<noteq> []"
  shows "scalar c (r @ q) = POk v (t @ q)"
proof (cases "c = qt")
  case True
  with assms show ?thesis by (auto simp: scalar_def pmap_POk str_body_append)
next
  case F: False
  show ?thesis
  proof (cases "c \<in> {CHR ''t'', CHR ''f'', CHR ''n''}")
    case True
    with assms F show ?thesis by (auto simp: scalar_def lit_append)
  next
    case False
    with assms F obtain x where "number (c # r) = POk x t" "v = JNum x" "c = CHR ''-'' \<or> is_digit c" by (auto simp: scalar_def pmap_POk split: if_splits)
    moreover from this assms have "number (c # r @ q) = POk x (t @ q)" using number_append [of "c # r" x t q] by (simp add: is_number_def)
    ultimately show ?thesis using F False by (auto simp: scalar_def)
  qed
qed

lemma pmembers_POkE:
  assumes "pmembers (Suc n) s = POk ms r"
  obtains s1 k r1 r2 v r3 e r4 where
    "skip_ws s = qt # s1" "str_body s1 = POk k r1" "skip_ws r1 = CHR '':'' # r2" "pval n r2 = POk v r3" "skip_ws r3 = e # r4"
    "(if e = CHR '','' then pmap (Cons (k, v)) (pmembers n r4) else if e = CHR ''}'' then POk [(k, v)] r4 else PBad) = POk ms r"
proof -
  from assms obtain s1 where s1: "skip_ws s = qt # s1" by (cases "skip_ws s") (auto simp: pmembers.simps split: if_splits)
  with assms obtain k r1 where k: "str_body s1 = POk k r1" by (cases "str_body s1") (auto simp: pmembers.simps pbind_def)
  with assms s1 obtain r2 where r2: "skip_ws r1 = CHR '':'' # r2"
    by (cases "skip_ws r1") (auto simp: pmembers.simps pbind_def split: if_splits)
  with assms s1 k obtain v r3 where v: "pval n r2 = POk v r3" by (cases "pval n r2") (auto simp: pmembers.simps pbind_def)
  with assms s1 k r2 obtain e r4 where "skip_ws r3 = e # r4" by (cases "skip_ws r3") (auto simp: pmembers.simps pbind_def)
  with that [OF s1 k r2 v this] assms s1 k r2 v show thesis by (simp add: pmembers.simps pbind_def)
qed

lemma pval_append_fuel:
  "pval n s = POk v r \<Longrightarrow> n \<le> m \<Longrightarrow> (is_number v \<longrightarrow> r \<noteq> []) \<Longrightarrow> pval m (s @ q) = POk v (r @ q)"
  "pelems n s = POk vs r \<Longrightarrow> n \<le> m \<Longrightarrow> pelems m (s @ q) = POk vs (r @ q)"
  "pmembers n s = POk ms r \<Longrightarrow> n \<le> m \<Longrightarrow> pmembers m (s @ q) = POk ms (r @ q)"
proof (induction n s and n s and n s arbitrary: m v r and m vs r and m ms r rule: pval_pelems_pmembers.induct)
  case (1 s)
  then show ?case by (simp add: pval.simps)
next
  case (2 n s)
  then obtain m' where m: "m = Suc m'" "n \<le> m'" by (cases m) auto
  from 2(3) obtain c s' where c: "skip_ws s = c # s'" by (auto simp: pval.simps split: list.splits)
  note cq = skip_ws_Cons_append [OF c, of q]
  show ?case
  proof (cases "c = CHR ''{'' \<or> c = CHR ''[''")
    case True
    with 2(3) c obtain d s'' where d: "skip_ws s' = d # s''" by (auto simp: pval.simps split: list.splits)
    note dq = skip_ws_Cons_append [OF d, of q]
    from True show ?thesis
    proof
      assume "c = CHR ''{''"
      with 2 c d m cq dq show ?thesis by (auto simp: pval.simps pmap_POk split: if_splits)
    next
      assume "c = CHR ''[''"
      with 2 c d m cq dq show ?thesis by (auto simp: pval.simps pmap_POk split: if_splits)
    qed
  next
    case False
    then have "pval (Suc n) s = scalar c s'" "pval m (s @ q) = scalar c (s' @ q)"
      using c cq m by (auto intro: pval_scalar)
    with 2(3,5) show ?thesis by (simp add: scalar_append)
  qed
next
  case (3 s)
  then show ?case by (simp add: pelems.simps)
next
  case (4 n s)
  then obtain m' where m: "m = Suc m'" "n \<le> m'" by (cases m) auto
  from 4(3) obtain v r1 where v1: "pval n s = POk v r1"
    and v2: "(case skip_ws r1 of [] \<Rightarrow> PEof | d # r' \<Rightarrow> if d = CHR '','' then pmap (Cons v) (pelems n r') else if d = CHR '']'' then POk [v] r' else PBad) = POk vs r"
    unfolding pelems.simps pbind_POk by blast
  then obtain d r2 where v: "pval n s = POk v r1" "skip_ws r1 = d # r2" by (cases "skip_ws r1") auto
  have "r1 \<noteq> []" using v(2) by auto
  then have "pval m' (s @ q) = POk v (r1 @ q)" using 4(1) [OF v(1) m(2)] by simp
  with 4 v m skip_ws_Cons_append [OF v(2), of q] show ?case
    by (auto simp: pelems.simps pbind_def pmap_POk split: if_splits)
next
  case (5 s)
  then show ?case by (simp add: pmembers.simps)
next
  case (6 n s)
  then obtain m' where m: "m = Suc m'" "n \<le> m'" by (cases m) auto
  obtain s1 k r1 r2 v r3 e r4 where
    p: "skip_ws s = qt # s1" "str_body s1 = POk k r1" "skip_ws r1 = CHR '':'' # r2" "pval n r2 = POk v r3" "skip_ws r3 = e # r4"
      "(if e = CHR '','' then pmap (Cons (k, v)) (pmembers n r4) else if e = CHR ''}'' then POk [(k, v)] r4 else PBad) = POk ms r"
    using 6(3) by (rule pmembers_POkE)
  have "r3 \<noteq> []" using p(5) by auto
  then have "pval m' (r2 @ q) = POk v (r3 @ q)" using 6(1) [OF p(1) refl p(3) refl p(4) m(2)] by simp
  then have "pmembers m (s @ q) = (if e = CHR '','' then pmap (Cons (k, v)) (pmembers m' (r4 @ q)) else if e = CHR ''}'' then POk [(k, v)] (r4 @ q) else PBad)"
    using m(1) skip_ws_Cons_append [OF p(1), of q] str_body_append [OF p(2), of q] skip_ws_Cons_append [OF p(3), of q] skip_ws_Cons_append [OF p(5), of q]
    by (simp add: pmembers.simps pbind_def)
  with p(6) 6(2) [OF p(1) refl p(3) refl p(5)] m(2) show ?case by (auto simp: pmap_POk split: if_splits)
qed


section \<open>Framing\<close>

lemma json_decode_append:
  "json_decode s = POk v r \<Longrightarrow> (is_number v \<longrightarrow> r \<noteq> []) \<Longrightarrow> json_decode (s @ q) = POk v (r @ q)"
  unfolding json_decode_def by (rule pval_append_fuel(1)) auto

lemma object_not_number: "json_decode (CHR ''{'' # s) = POk v r \<Longrightarrow> \<not> is_number v"
  by (auto simp: json_decode_def pval.simps is_ws_def is_number_def pmap_POk split: list.splits if_splits)

text \<open>No proper prefix of the text of an object is valid JSON.\<close>

lemma object_prefix_invalid:
  assumes m: "json_decode (CHR ''{'' # m) = POk v []" and p: "p @ q = CHR ''{'' # m" and q: "q \<noteq> []"
  shows "json_unmarshal p = None"
proof (rule ccontr)
  assume "json_unmarshal p \<noteq> None"
  then obtain w r where w: "json_decode p = POk w r" by (auto simp: json_unmarshal_def split: presult.splits)
  have "p \<noteq> []" using w by (auto simp: json_decode_def pval.simps)
  with p obtain p' where p': "p = CHR ''{'' # p'" by (cases p) auto
  have "\<not> is_number w" using object_not_number w p' by simp
  then have "json_decode (p @ q) = POk w (r @ q)" using json_decode_append [OF w] by simp
  with m p q show False by simp
qed

lemma jprint_object: "jprint (JObj ms) = CHR ''{'' # tl (jprint (JObj ms))"
  by simp

text \<open>The decoder finds a printed object at the front of its buffer.\<close>

lemma decode_buf_object:
  assumes "wf_json (JObj ms)" "num_end r"
  shows "decode_buf (jprint (JObj ms) @ r) = POk (JObj ms) r"
  using json_decode_print [OF assms] by (simp add: decode_buf_def is_number_def)

lemma decode_buf_object_prefix:
  assumes w: "wf_json (JObj ms)" and p: "p @ q = jprint (JObj ms)" and q: "q \<noteq> []"
  shows "decode_buf p \<noteq> POk v r"
proof
  assume "decode_buf p = POk v r"
  then have d: "json_decode p = POk v r" "is_number v \<longrightarrow> r \<noteq> []" by (auto simp: decode_buf_def split: presult.splits if_splits)
  have "json_decode (jprint (JObj ms)) = POk (JObj ms) []" using json_decode_print [OF w, of "[]"] by (simp add: num_end_def)
  with json_decode_append [OF d, of q] p q show False by simp
qed

end
