(* ===== verification/Reflector.thy ===== *)
theory Reflector
  imports Json_Frame
begin

text \<open>
  The reflector protocol (src/reflector/server.go and client.go), by which blobs are uploaded.

  The server reads each message with a decoder of its own, and the blob with a buffered reader of its own, so bytes that arrived
  early are lost with them (see \<open>Decoder_Decode\<close> and \<open>new_ReadFull\<close>). Its state is the state of the stores and the connection; the underlying and the outer store share their
  state, since the outer one is built on the underlying one. \<open>Blocklister\<close> and \<open>neededBlobChecker\<close> are the results of the type assertions on the underlying store.
  \<open>maxBlobSize\<close> stands for \<open>stream.MaxBlobSize\<close> of lbry.go.
\<close>

section \<open>Server\<close>

record 's reflector =
  underlyingStore :: "'s BlobStore"
  asBlocklister :: "'s Blocklister option"
  asNeededBlobChecker :: "'s neededBlobChecker option"
  outerStore :: "'s BlobStore"

abbreviation protocolVersion1 :: int where "protocolVersion1 \<equiv> 0"
abbreviation protocolVersion2 :: int where "protocolVersion2 \<equiv> 1"

definition Server_write :: "bytes \<Rightarrow> (tcp, go_error option) op" where
  "Server_write b =
     bnd (io conn_SetDeadline) (\<lambda>err.
       if err \<noteq> None then ret err
       else bnd (io (conn_Write b)) (\<lambda>(n, err). ret (if err = None \<and> n \<noteq> length b then Some ErrShortWrite else err)))"

definition with_data :: "go_error \<Rightarrow> bytes \<Rightarrow> go_error" where
  "with_data err data = (if data \<noteq> [] then Msg (Error err @ ''. Data: '' @ hex_EncodeToString data) else err)"

definition Server_read :: "(json \<Rightarrow> 'a option) \<Rightarrow> (tcp, go_error + 'a) op" where
  "Server_read dec =
     bnd (io conn_SetDeadline) (\<lambda>err.
       case err of
         Some err \<Rightarrow> ret (Inl err)
       | None \<Rightarrow>
           io (\<lambda>c. case Decoder_Decode NewDecoder c of (r, d, c') \<Rightarrow>
             (case r of
                Inl err \<Rightarrow> Inl (with_data err (dec_buf d))
              | Inr v \<Rightarrow> (case dec v of None \<Rightarrow> Inl (with_data (Msg ''cannot unmarshal'') (dec_buf d)) | Some a \<Rightarrow> Inr a), c')))"

definition Server_readRawBlob :: "int \<Rightarrow> (tcp, bytes \<times> go_error option) op" where
  "Server_readRawBlob blobSize =
     bnd (io conn_SetDeadline) (\<lambda>err.
       if err \<noteq> None then ret ([], err)
       else bnd (make_bytes blobSize) (\<lambda>n. io (new_ReadFull n [])))"

fun dec_handshake :: "json \<Rightarrow> int option option" where
  "dec_handshake (JObj ms) = dec_field (map_option Some \<circ> dec_int) None ''version'' ms"
| "dec_handshake JNull = Some None"
| "dec_handshake _ = None"

definition enc_handshake :: "int \<Rightarrow> json" where
  "enc_handshake v = JObj [(''version'', JNum (int_text v))]"

definition Server_doHandshake :: "(tcp, go_error option) op" where
  "Server_doHandshake =
     bnd (Server_read dec_handshake) (\<lambda>r.
       case r of
         Inl err \<Rightarrow> ret (Some err)
       | Inr None \<Rightarrow> ret (Some (Msg ''handshake is missing protocol version''))
       | Inr (Some v) \<Rightarrow>
           if v \<noteq> protocolVersion1 \<and> v \<noteq> protocolVersion2 then ret (Some (Msg ''protocol version not supported''))
           else Server_write (jprint (enc_handshake v)))"

record sendBlobRequest =
  sr_BlobHash :: string
  sr_BlobSize :: int
  sr_SdBlobHash :: string
  sr_SdBlobSize :: int

fun dec_send :: "json \<Rightarrow> sendBlobRequest option" where
  "dec_send (JObj ms) =
     (case (dec_field dec_str [] ''blob_hash'' ms, dec_field dec_int 0 ''blob_size'' ms, dec_field dec_str [] ''sd_blob_hash'' ms, dec_field dec_int 0 ''sd_blob_size'' ms) of
        (Some h, Some n, Some sh, Some sn) \<Rightarrow> Some \<lparr>sr_BlobHash = h, sr_BlobSize = n, sr_SdBlobHash = sh, sr_SdBlobSize = sn\<rparr>
      | _ \<Rightarrow> None)"
| "dec_send JNull = Some \<lparr>sr_BlobHash = [], sr_BlobSize = 0, sr_SdBlobHash = [], sr_SdBlobSize = 0\<rparr>"
| "dec_send _ = None"

text \<open>Every field is written only when it is not empty.\<close>

definition enc_send :: "sendBlobRequest \<Rightarrow> json" where
  "enc_send r =
     JObj ((if sr_BlobHash r = [] then [] else [(''blob_hash'', JStr (sr_BlobHash r))])
       @ (if sr_BlobSize r = 0 then [] else [(''blob_size'', JNum (int_text (sr_BlobSize r)))])
       @ (if sr_SdBlobHash r = [] then [] else [(''sd_blob_hash'', JStr (sr_SdBlobHash r))])
       @ (if sr_SdBlobSize r = 0 then [] else [(''sd_blob_size'', JNum (int_text (sr_SdBlobSize r)))]))"

definition readBlobRequest :: "int \<Rightarrow> (tcp, go_error + int \<times> string \<times> bool) op" where
  "readBlobRequest maxBlobSize =
     bnd (Server_read dec_send) (\<lambda>r.
       case r of
         Inl err \<Rightarrow> ret (Inl err)
       | Inr req \<Rightarrow>
           let isSdBlob = (sr_SdBlobHash req \<noteq> []);
               blobSize = (if isSdBlob then sr_SdBlobSize req else sr_BlobSize req);
               blobHash = (if isSdBlob then sr_SdBlobHash req else sr_BlobHash req)
           in
           if blobHash = [] then ret (Inl (Msg ''blob hash is empty''))
           else if maxBlobSize < blobSize then ret (Inl (ErrBlobTooBig maxBlobSize))
           else if blobSize = 0 then ret (Inl (Msg ''0-byte blob received''))
           else ret (Inr (blobSize, blobHash, isSdBlob)))"

definition sendBlobResponse :: "bool \<Rightarrow> bool \<Rightarrow> string list \<Rightarrow> (tcp, go_error option) op" where
  "sendBlobResponse shouldSendBlob isSdBlob neededBlobs =
     Server_write (jprint
       (if isSdBlob then
          JObj ([(''send_sd_blob'', JBool shouldSendBlob)] @ (if neededBlobs = [] then [] else [(''needed_blobs'', JArr (map JStr neededBlobs))]))
        else JObj [(''send_blob'', JBool shouldSendBlob)]))"

definition sendTransferResponse :: "bool \<Rightarrow> bool \<Rightarrow> (tcp, go_error option) op" where
  "sendTransferResponse receivedBlob isSdBlob =
     Server_write (jprint (JObj [(if isSdBlob then ''received_sd_blob'' else ''received_blob'', JBool receivedBlob)]))"

text \<open>Whether the blob should be sent, and which blobs of a known stream are missing.\<close>

definition wants_blob :: "'s reflector \<Rightarrow> string \<Rightarrow> ('s, bool \<times> go_error option) op" where
  "wants_blob srv blobHash =
     (case asBlocklister srv of
        Some bl \<Rightarrow> bl_Wants bl blobHash
      | None \<Rightarrow> bnd (bs_Has (underlyingStore srv) blobHash) (\<lambda>(blobExists, err). ret (\<not> blobExists, err)))"

definition needed_blobs :: "'s reflector \<Rightarrow> string \<Rightarrow> bool \<Rightarrow> bool \<Rightarrow> ('s, go_error + bool \<times> string list) op" where
  "needed_blobs srv blobHash isSdBlob wantsBlob =
     (if isSdBlob \<and> \<not> wantsBlob then
        (case asNeededBlobChecker srv of
           Some nbc \<Rightarrow> bnd (nbc blobHash) (\<lambda>(neededBlobs, err). ret (case err of Some err \<Rightarrow> Inl err | None \<Rightarrow> Inr (wantsBlob, neededBlobs)))
         | None \<Rightarrow> ret (Inr (True, [])))
      else ret (Inr (wantsBlob, [])))"

text \<open>The transfer: the blob is read, checked against the announced hash and stored.\<close>

definition refuse :: "bool \<Rightarrow> ('s \<times> tcp, go_error) op \<Rightarrow> ('s \<times> tcp, go_error option) op" where
  "refuse isSdBlob err =
     bnd (on_snd (sendTransferResponse False isSdBlob)) (\<lambda>sendErr.
       if sendErr \<noteq> None then ret sendErr else bnd err (\<lambda>err. ret (Some err)))"

definition transferBlob :: "'s reflector \<Rightarrow> int \<Rightarrow> string \<Rightarrow> bool \<Rightarrow> ('s \<times> tcp, go_error option) op" where
  "transferBlob srv blobSize blobHash isSdBlob =
     bnd (on_snd (Server_readRawBlob blobSize)) (\<lambda>(blob, err).
       case err of
         Some err \<Rightarrow> refuse isSdBlob (bnd (str_prefix blobHash 8) (\<lambda>p. ret (Prefix (''error reading blob '' @ p) err)))
       | None \<Rightarrow>
           if blobHash \<noteq> BlobHash blob then refuse isSdBlob (ret (Msg ''hash of received blob data does not match hash from send request''))
           else
             bnd (str_prefix blobHash 8) (\<lambda>_.
             bnd (on_fst (if isSdBlob then bs_PutSD (outerStore srv) blobHash blob else bs_Put (outerStore srv) blobHash blob)) (\<lambda>err.
               if err \<noteq> None then ret err else on_snd (sendTransferResponse True isSdBlob))))"

definition receiveBlob :: "'s reflector \<Rightarrow> int \<Rightarrow> ('s \<times> tcp, go_error option) op" where
  "receiveBlob srv maxBlobSize =
     bnd (on_snd (readBlobRequest maxBlobSize)) (\<lambda>r.
       case r of
         Inl err \<Rightarrow> ret (Some err)
       | Inr (blobSize, blobHash, isSdBlob) \<Rightarrow>
           bnd (on_fst (wants_blob srv blobHash)) (\<lambda>(wantsBlob, err).
             if err \<noteq> None then ret err
             else
               bnd (on_fst (needed_blobs srv blobHash isSdBlob wantsBlob)) (\<lambda>r.
                 case r of
                   Inl err \<Rightarrow> ret (Some err)
                 | Inr (wantsBlob, neededBlobs) \<Rightarrow>
                     bnd (on_snd (sendBlobResponse wantsBlob isSdBlob neededBlobs)) (\<lambda>err.
                       if err \<noteq> None then ret err
                       else if \<not> wantsBlob then ret None
                       else transferBlob srv blobSize blobHash isSdBlob))))"

section \<open>The connection loop\<close>

text \<open>How much input is left; every received blob takes some, so the loop ends.\<close>

definition tsize :: "tcp \<Rightarrow> nat" where
  "tsize c = length (tcp_in c) + length (concat (tcp_in c))"

definition shrinks :: "('t \<Rightarrow> tcp) \<Rightarrow> ('t, 'a) op \<Rightarrow> bool" where
  "shrinks g m \<longleftrightarrow> (\<forall>s r s'. m s = (r, s') \<longrightarrow> tsize (g s') \<le> tsize (g s))"

lemma shrinksD: "shrinks g m \<Longrightarrow> m s = (r, s') \<Longrightarrow> tsize (g s') \<le> tsize (g s)"
  by (auto simp: shrinks_def)

named_theorems shrinks_intros

lemma shrinks_bnd [shrinks_intros]: "shrinks g m \<Longrightarrow> (\<And>a. shrinks g (f a)) \<Longrightarrow> shrinks g (bnd m f)"
  unfolding shrinks_def by (auto elim!: bnd_cases) (metis order_trans)

lemma shrinks_ret [shrinks_intros]: "shrinks g (ret a)" "shrinks g (panic p)"
  by (auto simp: shrinks_def ret_def panic_def)

lemma shrinks_on_fst [shrinks_intros]: "shrinks snd (on_fst m)"
  by (auto simp: shrinks_def zoom_def split: prod.splits)

lemma shrinks_on_snd [shrinks_intros]: "shrinks (\<lambda>c. c) m \<Longrightarrow> shrinks snd (on_snd m)"
  by (auto simp: shrinks_def zoom_def split: prod.splits)

lemma tsize_SetDeadline: "conn_SetDeadline c = (x, c') \<Longrightarrow> tsize c' = tsize c"
  by (auto simp: conn_SetDeadline_def tsize_def split: list.splits)

lemma tsize_Write: "conn_Write b c = (x, c') \<Longrightarrow> tsize c' = tsize c"
  by (simp add: tsize_def)

lemma new_ReadFull_shrinks: "new_ReadFull n got c = (x, c') \<Longrightarrow> tsize c' \<le> tsize c"
proof (induction n got c rule: new_ReadFull.induct)
  case (1 n got c)
  show ?case
  proof (cases "n = 0 \<or> tcp_in c = []")
    case True
    with 1(2) show ?thesis by (auto simp: new_ReadFull.simps [of n got c] split: if_splits)
  next
    case False
    then obtain seg r where i: "n \<noteq> 0" "tcp_in c = seg # r" by (auto simp: neq_Nil_conv)
    let ?k = "if 4096 \<le> n then n else 4096" and ?c = "\<lambda>k. c\<lparr>tcp_in := if length seg \<le> k then r else drop k seg # r\<rparr>"
    have "tsize (?c k) \<le> tsize c" for k using i by (auto simp: tsize_def)
    moreover have "tsize (c\<lparr>tcp_in := r\<rparr>) \<le> tsize c" using i by (simp add: tsize_def)
    moreover have "new_ReadFull n got c = (if n \<le> length (take ?k seg) then ((got @ take n (take ?k seg), None), ?c ?k)
        else new_ReadFull (n - length (take ?k seg)) (got @ take ?k seg) (?c ?k))"
      using i by (subst new_ReadFull.simps) (simp add: Let_def)
    ultimately show ?thesis using 1(1) [OF i(1,2) refl refl refl] 1(2) by (auto split: if_splits intro: order_trans)
  qed
qed

lemma Decode_step:
  assumes "decode_buf (dec_buf d) = PEof" "tcp_in c = seg # r" "k = dec_room d - length (dec_buf d)" "k \<noteq> 0"
  shows "Decoder_Decode d c = Decoder_Decode \<lparr>dec_buf = dec_buf d @ take k seg, dec_cap = dec_room d\<rparr>
     (c\<lparr>tcp_in := if length seg \<le> k then r else drop k seg # r\<rparr>)"
  using assms by (subst Decoder_Decode.simps) (simp add: Let_def)

lemma Decode_shrinks: "Decoder_Decode d c = (x, d', c') \<Longrightarrow> tsize c' \<le> tsize c"
proof (induction d c rule: Decoder_Decode.induct)
  case (1 d c)
  show ?case
  proof (cases "decode_buf (dec_buf d) = PEof \<and> tcp_in c \<noteq> [] \<and> dec_room d - length (dec_buf d) \<noteq> 0")
    case True
    then obtain seg r where i: "tcp_in c = seg # r" by (auto simp: neq_Nil_conv)
    let ?k = "dec_room d - length (dec_buf d)"
    have "tsize c' \<le> tsize (c\<lparr>tcp_in := if length seg \<le> ?k then r else drop ?k seg # r\<rparr>)"
      using 1(2) True Decode_step [OF _ i refl] by (intro 1(1) [OF _ i refl refl]) auto
    moreover have "\<dots> \<le> tsize c" using i by (auto simp: tsize_def)
    ultimately show ?thesis by linarith
  next
    case False
    with 1(2) show ?thesis
      by (subst (asm) Decoder_Decode.simps) (auto simp: Let_def split: presult.splits list.splits sum.splits if_splits)
  qed
qed

text \<open>A decoder that starts empty reads at least one segment.\<close>

lemma decode_buf_Nil: "decode_buf [] = PEof"
  by (simp add: decode_buf_def json_decode_def pval.simps)

lemma Decode_takes:
  assumes "Decoder_Decode NewDecoder c = (Inr v, d', c')"
  shows "tsize c' < tsize c"
proof (cases "tcp_in c")
  case Nil
  with assms show ?thesis
    by (subst (asm) Decoder_Decode.simps) (auto simp: NewDecoder_def decode_buf_Nil at_end_def json_decode_def pval.simps split: if_splits)
next
  case (Cons seg r)
  let ?c = "c\<lparr>tcp_in := if length seg \<le> 512 then r else drop 512 seg # r\<rparr>"
  have "Decoder_Decode \<lparr>dec_buf = take 512 seg, dec_cap = 512\<rparr> ?c = (Inr v, d', c')"
    using assms Decode_step [of NewDecoder c seg r 512] Cons by (simp add: NewDecoder_def decode_buf_Nil dec_room_def)
  from Decode_shrinks [OF this] Cons show ?thesis by (auto simp: tsize_def split: if_splits)
qed


lemma shrinks_io: "(\<And>c x c'. f c = (x, c') \<Longrightarrow> tsize c' \<le> tsize c) \<Longrightarrow> shrinks (\<lambda>c. c) (io f)"
  by (auto simp: shrinks_def io_def split: prod.splits)

lemma shrinks_tcp [shrinks_intros]:
  "shrinks (\<lambda>c. c) (io conn_SetDeadline)" "shrinks (\<lambda>c. c) (io (conn_Write b))" "shrinks (\<lambda>c. c) (io (new_ReadFull n got))"
  by (rule shrinks_io; simp add: tsize_SetDeadline tsize_Write new_ReadFull_shrinks)+

lemma shrinks_write [shrinks_intros]: "shrinks (\<lambda>c. c) (Server_write b)"
  by (auto simp: Server_write_def intro!: shrinks_intros)

lemma shrinks_if [shrinks_intros]: "(b \<Longrightarrow> shrinks g m) \<Longrightarrow> (\<not> b \<Longrightarrow> shrinks g n) \<Longrightarrow> shrinks g (if b then m else n)"
  by simp

lemma shrinks_responses [shrinks_intros]: "shrinks (\<lambda>c. c) (sendBlobResponse w sd ns)" "shrinks (\<lambda>c. c) (sendTransferResponse r sd)"
  by (simp_all add: sendBlobResponse_def sendTransferResponse_def shrinks_intros)

lemma shrinks_str_prefix [shrinks_intros]: "shrinks g (str_prefix h n)"
  by (auto simp: str_prefix_def intro!: shrinks_intros)

lemma shrinks_transfer [shrinks_intros]: "shrinks snd (transferBlob srv n h sd)"
  by (auto simp: transferBlob_def refuse_def Server_readRawBlob_def make_bytes_def split: option.split intro!: shrinks_intros)

lemma readBlobRequest_takes:
  assumes "readBlobRequest m c = (Ret (Inr q), c')"
  shows "tsize c' < tsize c"
proof -
  from assms obtain a where "Server_read dec_send c = (Ret (Inr a), c')"
    by (auto simp: readBlobRequest_def ret_def Let_def elim!: bnd_RetE split: sum.splits if_splits)
  then show ?thesis
    by (auto simp: Server_read_def ret_def io_def elim!: bnd_RetE split: option.splits sum.splits prod.splits dest!: Decode_takes tsize_SetDeadline)
qed

lemma receiveBlob_takes:
  assumes "receiveBlob srv m z = (Ret None, z')"
  shows "tsize (snd z') < tsize (snd z)"
proof -
  from assms obtain q z1 where q: "on_snd (readBlobRequest m) z = (Ret (Inr q), z1)"
    and rest: "(case q of (blobSize, blobHash, isSdBlob) \<Rightarrow>
           bnd (on_fst (wants_blob srv blobHash)) (\<lambda>(wantsBlob, err).
             if err \<noteq> None then ret err
             else bnd (on_fst (needed_blobs srv blobHash isSdBlob wantsBlob)) (\<lambda>r.
                 case r of Inl err \<Rightarrow> ret (Some err)
                 | Inr (wantsBlob, neededBlobs) \<Rightarrow>
                     bnd (on_snd (sendBlobResponse wantsBlob isSdBlob neededBlobs)) (\<lambda>err.
                       if err \<noteq> None then ret err else if \<not> wantsBlob then ret None else transferBlob srv blobSize blobHash isSdBlob)))) z1 = (Ret None, z')"
    (is "?m z1 = _")
    unfolding receiveBlob_def by (auto simp: ret_def elim!: bnd_RetE split: sum.splits)
  have "shrinks snd ?m"
    by (auto split: sum.split prod.split intro!: shrinks_intros)
  then have "tsize (snd z') \<le> tsize (snd z1)" using rest by (rule shrinksD)
  moreover have "tsize (snd z1) < tsize (snd z)" using q by (auto simp: zoom_def dest: readBlobRequest_takes split: prod.splits)
  ultimately show ?thesis by linarith
qed

text \<open>
  \<open>handleConn\<close>: the handshake and then blobs until an error, which \<open>doError\<close> logs; here it is returned. (An \<open>EOF\<close> is not even logged.)
\<close>

function receiveBlobs :: "'s reflector \<Rightarrow> int \<Rightarrow> 's \<times> tcp \<Rightarrow> go_error outcome \<times> 's \<times> tcp" where
  "receiveBlobs srv maxBlobSize z =
     (case receiveBlob srv maxBlobSize z of (out, z') \<Rightarrow>
      case out of
        Panic p \<Rightarrow> (Panic p, z')
      | Ret r \<Rightarrow> (case r of Some err \<Rightarrow> (Ret err, z') | None \<Rightarrow> receiveBlobs srv maxBlobSize z'))"
  by pat_completeness auto
termination
  by (relation "measure (\<lambda>(srv, m, z). tsize (snd z))") (auto dest!: sym [of _ "receiveBlob _ _ _"] receiveBlob_takes)

declare receiveBlobs.simps [simp del]

definition handleConn :: "'s reflector \<Rightarrow> int \<Rightarrow> ('s \<times> tcp, go_error) op" where
  "handleConn srv maxBlobSize =
     bnd (on_snd Server_doHandshake) (\<lambda>err. case err of Some err \<Rightarrow> ret err | None \<Rightarrow> receiveBlobs srv maxBlobSize)"


section \<open>Client\<close>

text \<open>The methods of \<open>stream.Blob\<close> (lbry.go) that the client calls.\<close>

record blob_api =
  ValidForSend :: "bytes \<Rightarrow> go_error option"
  HashHex :: "bytes \<Rightarrow> string"
  Size :: "bytes \<Rightarrow> int"

record 'n rClient =
  rc_connected :: bool
  rc_conn :: "'n netconn"

definition rc_Write :: "'n peer \<Rightarrow> bytes \<Rightarrow> ('n rClient, go_error option) op" where
  "rc_Write peer b c = (case net_Write peer b (rc_conn c) of ((n, err), k) \<Rightarrow> (Ret err, c\<lparr>rc_conn := k\<rparr>))"

text \<open>\<open>dec.Decode(&v)\<close> on the connection, with the decoder kept by the caller.\<close>

definition rc_Decode :: "(json \<Rightarrow> 'a option) \<Rightarrow> decoder \<Rightarrow> ('n rClient, (go_error + 'a) \<times> decoder) op" where
  "rc_Decode dec d c =
     (case Decoder_Decode d (nc_tcp (rc_conn c)) of (r, d', t) \<Rightarrow>
        (Ret (case r of Inl err \<Rightarrow> Inl err | Inr v \<Rightarrow> (case dec v of None \<Rightarrow> Inl (Msg ''cannot unmarshal'') | Some a \<Rightarrow> Inr a), d'),
         c\<lparr>rc_conn := (rc_conn c)\<lparr>nc_tcp := t\<rparr>\<rparr>))"

definition Client_doHandshake :: "'n peer \<Rightarrow> int \<Rightarrow> ('n rClient, go_error option) op" where
  "Client_doHandshake peer version =
     bnd get_st (\<lambda>c.
       if \<not> rc_connected c then ret (Some (Msg ''not connected''))
       else
         bnd (rc_Write peer (jprint (enc_handshake version))) (\<lambda>err.
           if err \<noteq> None then ret err
           else
             bnd (rc_Decode dec_handshake NewDecoder) (\<lambda>(r, d).
               case r of
                 Inl err \<Rightarrow> ret (Some err)
               | Inr None \<Rightarrow> ret (Some (Msg ''invalid handshake''))
               | Inr (Some v) \<Rightarrow> ret (if v \<noteq> version then Some (Msg ''handshake version mismatch'') else None))))"

text \<open>\<open>Connect\<close>, with the result of \<open>net.Dial\<close>.\<close>

definition Client_Connect :: "'n peer \<Rightarrow> go_error + tcp \<Rightarrow> ('n rClient, go_error option) op" where
  "Client_Connect peer dialled =
     (case dialled of
        Inl err \<Rightarrow> ret (Some err)
      | Inr t \<Rightarrow> bnd (modify (\<lambda>c. c\<lparr>rc_connected := True, rc_conn := (rc_conn c)\<lparr>nc_tcp := t\<rparr>\<rparr>)) (\<lambda>_. Client_doHandshake peer protocolVersion1))"

fun dec_flag :: "string \<Rightarrow> json \<Rightarrow> bool option" where
  "dec_flag name (JObj ms) = dec_field dec_bool False name ms"
| "dec_flag name JNull = Some False"
| "dec_flag name _ = None"

text \<open>The response to an sd blob also has the list of needed blobs, which the client decodes and does not use.\<close>

fun dec_send_sd :: "json \<Rightarrow> bool option" where
  "dec_send_sd (JObj ms) =
     (case dec_field (dec_list (\<lambda>v. if v = JNull then Some [] else dec_str v)) [] ''needed_blobs'' ms of
        Some _ \<Rightarrow> dec_field dec_bool False ''send_sd_blob'' ms
      | None \<Rightarrow> None)"
| "dec_send_sd JNull = Some False"
| "dec_send_sd _ = None"

definition Client_sendBlob :: "blob_api \<Rightarrow> 'n peer \<Rightarrow> bytes \<Rightarrow> bool \<Rightarrow> ('n rClient, go_error option) op" where
  "Client_sendBlob api peer blob isSDBlob =
     bnd get_st (\<lambda>c.
       if \<not> rc_connected c then ret (Some (Msg ''not connected''))
       else
         (case ValidForSend api blob of
            Some err \<Rightarrow> ret (Some err)
          | None \<Rightarrow>
              let blobHash = HashHex api blob;
                  req = (if isSDBlob then \<lparr>sr_BlobHash = [], sr_BlobSize = 0, sr_SdBlobHash = blobHash, sr_SdBlobSize = Size api blob\<rparr>
                         else \<lparr>sr_BlobHash = blobHash, sr_BlobSize = Size api blob, sr_SdBlobHash = [], sr_SdBlobSize = 0\<rparr>)
              in
              bnd (rc_Write peer (jprint (enc_send req))) (\<lambda>err.
                if err \<noteq> None then ret err
                else
                  bnd (rc_Decode (if isSDBlob then dec_send_sd else dec_flag ''send_blob'') NewDecoder) (\<lambda>(r, d).
                    case r of
                      Inl err \<Rightarrow> ret (Some err)
                    | Inr send \<Rightarrow>
                        bnd (str_prefix blobHash 8) (\<lambda>p.
                        if \<not> send then ret (Some (Prefix p ErrBlobExists))
                        else
                          bnd (rc_Write peer blob) (\<lambda>err.
                            if err \<noteq> None then ret err
                            else
                              bnd (rc_Decode (dec_flag (if isSDBlob then ''received_sd_blob'' else ''received_blob'')) d) (\<lambda>(r, d').
                                case r of
                                  Inl err \<Rightarrow> ret (Some err)
                                | Inr received \<Rightarrow>
                                    ret (if received then None
                                         else Some (Msg (if isSDBlob then ''server did not received SD blob'' else ''server did not received blob''))))))))))"

definition SendBlob :: "blob_api \<Rightarrow> 'n peer \<Rightarrow> bytes \<Rightarrow> ('n rClient, go_error option) op" where
  "SendBlob api peer blob = Client_sendBlob api peer blob False"

definition SendSDBlob :: "blob_api \<Rightarrow> 'n peer \<Rightarrow> bytes \<Rightarrow> ('n rClient, go_error option) op" where
  "SendSDBlob api peer blob = Client_sendBlob api peer blob True"

end
