(* ===== verification/Db.thy ===== *)
theory Db
  imports Prelude
begin

text \<open>
  Package \<open>db\<close> (src/db/db.go): the database of known blobs, streams and blocked hashes.

  The tables are lists of rows as the schema at the end of db.go declares them, with its unique
  keys, auto-increment ids and foreign keys. A statement is a function on the tables; which
  statement a query string denotes is fixed here, once, next to the query. A call of the
  driver consumes one entry of a fault schedule: \<open>Some err\<close> makes the call fail with no effect.
  A call on a nil connection panics, as in database/sql. Times are \<open>int\<close> seconds; the clock is a
  field. Hash comparison is exact (the schema's collation is not modelled), and the length limit
  of \<open>char(96)\<close> is left out. \<open>dup\<close> is what the server reports as \<open>LAST_INSERT_ID\<close> when \<open>ON DUPLICATE KEY UPDATE\<close>
  hits an existing row: its id, or 0 when nothing changed.
\<close>

section \<open>Tables\<close>

record blob_row =
  b_id :: nat
  b_hash :: string
  b_stored :: bool
  b_length :: int
  b_accessed :: "int option"

record stream_row =
  s_id :: nat
  s_hash :: string
  s_sd_blob_id :: nat
  s_accessed :: "int option"

record stream_blob_row =
  sb_stream_id :: nat
  sb_blob_id :: nat
  sb_num :: int

record tables =
  t_blob :: "blob_row list"
  t_stream :: "stream_row list"
  t_stream_blob :: "stream_blob_row list"
  t_blocked :: "string list"
  next_blob :: nat
  next_stream :: nat

datatype trackAccess = TrackAccessNone | TrackAccessStreams | TrackAccessBlobs

record SQL =
  conn :: "tables option"
  TrackAccess :: trackAccess
  SoftDelete :: bool
  now :: int
  db_faults :: "go_error option list"

record sd_blob_info =
  Length :: int
  BlobNum :: int
  BlobHash' :: string
  IV :: string

record SdBlob =
  StreamName :: string
  Blobs :: "sd_blob_info list"
  StreamType :: string
  Key :: string
  SuggestedFileName :: string
  StreamHash :: string

section \<open>The driver\<close>

type_synonym 'a stmt = "tables \<Rightarrow> (go_error + 'a) \<times> tables"

text \<open>\<open>s.conn.Exec\<close>, \<open>s.conn.Query\<close>, \<open>s.conn.QueryRow\<close>: one round trip.\<close>

definition conn_call :: "'a stmt \<Rightarrow> (SQL, go_error + 'a) op" where
  "conn_call st s =
     (case conn s of
        None \<Rightarrow> (Panic ''invalid memory address or nil pointer dereference'', s)
      | Some t \<Rightarrow>
          (case db_faults s of
             Some err # r \<Rightarrow> (Ret (Inl err), s\<lparr>db_faults := r\<rparr>)
           | fs \<Rightarrow> (case st t of (res, t') \<Rightarrow> (Ret res, s\<lparr>conn := Some t', db_faults := tl fs\<rparr>))))"

definition query :: "(tables \<Rightarrow> 'a) \<Rightarrow> 'a stmt" where
  "query f t = (Inr (f t), t)"

definition isLockTimeoutError :: "go_error \<Rightarrow> bool" where
  "isLockTimeoutError err \<longleftrightarrow> err = LockTimeout"

text \<open>\<open>exec\<close>: retry on a lock timeout, with \<open>maxAttempts = 3\<close> retries left at the start.\<close>

fun exec_retry :: "nat \<Rightarrow> string \<Rightarrow> nat stmt \<Rightarrow> (SQL, go_error + nat) op" where
  "exec_retry left q st =
     bnd (conn_call st) (\<lambda>r.
       case r of
         Inl err \<Rightarrow>
           if isLockTimeoutError err
           then (case left of
                   Suc n \<Rightarrow> exec_retry n q st
                 | 0 \<Rightarrow> ret (Inl (Prefix (''Lock timeout for query '' @ q) err)))
           else ret (Inl err)
       | Inr lastID \<Rightarrow> ret (Inr lastID))"

declare exec_retry.simps [simp del]

definition exec :: "string \<Rightarrow> nat stmt \<Rightarrow> (SQL, go_error + nat) op" where
  "exec q st = exec_retry 3 q st"

section \<open>Statements\<close>

definition find_blob :: "string \<Rightarrow> tables \<Rightarrow> blob_row option" where
  "find_blob hash t = find (\<lambda>b. b_hash b = hash) (t_blob t)"

definition map_blobs :: "(blob_row \<Rightarrow> bool) \<Rightarrow> (blob_row \<Rightarrow> blob_row) \<Rightarrow> tables \<Rightarrow> tables" where
  "map_blobs P f t = t\<lparr>t_blob := map (\<lambda>b. if P b then f b else b) (t_blob t)\<rparr>"

text \<open>\<open>INSERT INTO blob_ ... ON DUPLICATE KEY UPDATE is_stored = (is_stored or VALUES(is_stored)) [, last_accessed_at = VALUES(last_accessed_at)]\<close>\<close>

definition stmt_insert_blob :: "(nat \<Rightarrow> nat) \<Rightarrow> string \<Rightarrow> int \<Rightarrow> bool \<Rightarrow> int option \<Rightarrow> nat stmt" where
  "stmt_insert_blob dup hash len isStored accessed t =
     (case find_blob hash t of
        None \<Rightarrow>
          (Inr (next_blob t),
           t\<lparr>t_blob := t_blob t @ [\<lparr>b_id = next_blob t, b_hash = hash, b_stored = isStored, b_length = len, b_accessed = accessed\<rparr>],
             next_blob := next_blob t + 1\<rparr>)
      | Some b \<Rightarrow>
          (Inr (dup (b_id b)),
           map_blobs (\<lambda>x. b_hash x = hash)
             (\<lambda>x. x\<lparr>b_stored := b_stored x \<or> isStored, b_accessed := (if accessed = None then b_accessed x else accessed)\<rparr>) t))"

text \<open>\<open>insert into blob_ ... values (..),(..)\<close>: no clause for duplicates, so a known hash fails the whole statement.\<close>

definition stmt_insert_blobs :: "int \<Rightarrow> string list \<Rightarrow> int \<Rightarrow> nat stmt" where
  "stmt_insert_blobs maxBlobSize hashes dayAgo t =
     (if hashes = [] then (Inl (Msg ''You have an error in your SQL syntax''), t)
      else if \<not> distinct hashes \<or> list_ex (\<lambda>h. find_blob h t \<noteq> None) hashes then (Inl (Msg ''Duplicate entry''), t)
      else (Inr (next_blob t),
            t\<lparr>t_blob := t_blob t @ map (\<lambda>(i, h). \<lparr>b_id = i, b_hash = h, b_stored = True, b_length = maxBlobSize, b_accessed = Some dayAgo\<rparr>)
                          (zip [next_blob t..<next_blob t + length hashes] hashes),
              next_blob := next_blob t + length hashes\<rparr>))"

text \<open>\<open>INSERT IGNORE INTO stream\<close>: ignored when the stream hash is known or the sd blob is not.\<close>

definition stmt_insert_stream :: "string \<Rightarrow> nat \<Rightarrow> int option \<Rightarrow> nat stmt" where
  "stmt_insert_stream hash sdBlobID accessed t =
     (if list_ex (\<lambda>s. s_hash s = hash) (t_stream t) \<or> \<not> list_ex (\<lambda>b. b_id b = sdBlobID) (t_blob t) then (Inr 0, t)
      else (Inr (next_stream t),
            t\<lparr>t_stream := t_stream t @ [\<lparr>s_id = next_stream t, s_hash = hash, s_sd_blob_id = sdBlobID, s_accessed = accessed\<rparr>],
              next_stream := next_stream t + 1\<rparr>))"

text \<open>\<open>INSERT IGNORE INTO stream_blob\<close>\<close>

definition stmt_insert_stream_blob :: "nat \<Rightarrow> nat \<Rightarrow> int \<Rightarrow> nat stmt" where
  "stmt_insert_stream_blob streamID blobID num t =
     (if list_ex (\<lambda>r. sb_stream_id r = streamID \<and> sb_blob_id r = blobID) (t_stream_blob t)
         \<or> \<not> list_ex (\<lambda>s. s_id s = streamID) (t_stream t) \<or> \<not> list_ex (\<lambda>b. b_id b = blobID) (t_blob t)
      then (Inr 0, t)
      else (Inr 0, t\<lparr>t_stream_blob := t_stream_blob t @ [\<lparr>sb_stream_id = streamID, sb_blob_id = blobID, sb_num = num\<rparr>]\<rparr>))"

definition stmt_touch_blobs :: "int \<Rightarrow> nat list \<Rightarrow> nat stmt" where
  "stmt_touch_blobs ts ids t = (Inr 0, map_blobs (\<lambda>b. b_id b \<in> set ids) (\<lambda>b. b\<lparr>b_accessed := Some ts\<rparr>) t)"

definition stmt_touch_streams :: "int \<Rightarrow> nat list \<Rightarrow> nat stmt" where
  "stmt_touch_streams ts ids t =
     (Inr 0, t\<lparr>t_stream := map (\<lambda>s. if s_id s \<in> set ids then s\<lparr>s_accessed := Some ts\<rparr> else s) (t_stream t)\<rparr>)"

definition stmt_soft_delete :: "string \<Rightarrow> nat stmt" where
  "stmt_soft_delete hash t = (Inr 0, map_blobs (\<lambda>b. b_hash b = hash) (\<lambda>b. b\<lparr>b_stored := False\<rparr>) t)"

text \<open>\<open>DELETE FROM stream WHERE sd_blob_id = (SELECT id ...)\<close>, cascading to \<open>stream_blob\<close>.\<close>

definition stmt_delete_streams :: "string \<Rightarrow> nat stmt" where
  "stmt_delete_streams hash t =
     (case find_blob hash t of
        None \<Rightarrow> (Inr 0, t)
      | Some b \<Rightarrow>
          (let gone = map s_id (filter (\<lambda>s. s_sd_blob_id s = b_id b) (t_stream t)) in
           (Inr 0, t\<lparr>t_stream := filter (\<lambda>s. s_sd_blob_id s \<noteq> b_id b) (t_stream t),
                     t_stream_blob := filter (\<lambda>r. sb_stream_id r \<notin> set gone) (t_stream_blob t)\<rparr>)))"

text \<open>\<open>DELETE FROM blob_ WHERE hash = ?\<close>: restricted by \<open>stream.sd_blob_id\<close>, cascading to \<open>stream_blob\<close>.\<close>

definition stmt_delete_blob :: "string \<Rightarrow> nat stmt" where
  "stmt_delete_blob hash t =
     (case find_blob hash t of
        None \<Rightarrow> (Inr 0, t)
      | Some b \<Rightarrow>
          if list_ex (\<lambda>s. s_sd_blob_id s = b_id b) (t_stream t)
          then (Inl (Msg ''Cannot delete or update a parent row: a foreign key constraint fails''), t)
          else (Inr 0, t\<lparr>t_blob := filter (\<lambda>x. b_hash x \<noteq> hash) (t_blob t),
                         t_stream_blob := filter (\<lambda>r. sb_blob_id r \<noteq> b_id b) (t_stream_blob t)\<rparr>))"

definition stmt_block :: "string \<Rightarrow> nat stmt" where
  "stmt_block hash t = (Inr 0, if hash \<in> set (t_blocked t) then t else t\<lparr>t_blocked := t_blocked t @ [hash]\<rparr>)"

section \<open>Operations\<close>

abbreviation not_connected :: go_error where
  "not_connected \<equiv> Msg ''not connected''"

definition touchBlobs :: "nat list \<Rightarrow> (SQL, go_error option) op" where
  "touchBlobs blobIDs =
     (if blobIDs = [] then ret None
      else bnd get_st (\<lambda>s. bnd (exec ''UPDATE blob_ SET last_accessed_at'' (stmt_touch_blobs (now s) blobIDs)) (\<lambda>r.
        case r of Inl err \<Rightarrow> ret (Some err) | Inr _ \<Rightarrow> ret None)))"

definition touchStreams :: "nat list \<Rightarrow> (SQL, go_error option) op" where
  "touchStreams streamIDs =
     (if streamIDs = [] then ret None
      else bnd get_st (\<lambda>s. bnd (exec ''UPDATE stream SET last_accessed_at'' (stmt_touch_streams (now s) streamIDs)) (\<lambda>r.
        case r of Inl err \<Rightarrow> ret (Some err) | Inr _ \<Rightarrow> ret None)))"

definition insertBlob :: "(nat \<Rightarrow> nat) \<Rightarrow> string \<Rightarrow> int \<Rightarrow> bool \<Rightarrow> (SQL, go_error + nat) op" where
  "insertBlob dup hash len isStored =
     (if len \<le> 0 then ret (Inl (Msg ''length must be positive''))
      else bnd get_st (\<lambda>s.
        bnd (exec ''INSERT INTO blob_''
              (stmt_insert_blob dup hash len isStored (if TrackAccess s = TrackAccessBlobs then Some (now s) else None))) (\<lambda>r.
          case r of
            Inl err \<Rightarrow> ret (Inl err)
          | Inr blobID \<Rightarrow>
              if blobID = 0 then
                bnd (conn_call (query (\<lambda>t. map_option b_id (find_blob hash t)))) (\<lambda>r.
                  case r of
                    Inl err \<Rightarrow> ret (Inl err)
                  | Inr None \<Rightarrow> ret (Inl ErrNoRows)
                  | Inr (Some blobID) \<Rightarrow>
                      if blobID = 0 then ret (Inl (Msg ''blob ID is 0 even after INSERTing and SELECTing''))
                      else if TrackAccess s = TrackAccessBlobs then
                        bnd (touchBlobs [blobID]) (\<lambda>err. case err of Some err \<Rightarrow> ret (Inl err) | None \<Rightarrow> ret (Inr blobID))
                      else ret (Inr blobID))
              else ret (Inr blobID))))"

definition insertStream :: "string \<Rightarrow> nat \<Rightarrow> (SQL, go_error + nat) op" where
  "insertStream hash sdBlobID =
     bnd get_st (\<lambda>s.
       bnd (exec ''INSERT IGNORE INTO stream''
             (stmt_insert_stream hash sdBlobID (if TrackAccess s = TrackAccessStreams then Some (now s) else None))) (\<lambda>r.
         case r of
           Inl err \<Rightarrow> ret (Inl err)
         | Inr streamID \<Rightarrow>
             if streamID = 0 then
               bnd (conn_call (query (\<lambda>t. map_option s_id (find (\<lambda>s. s_sd_blob_id s = sdBlobID) (t_stream t))))) (\<lambda>r.
                 case r of
                   Inl err \<Rightarrow> ret (Inl err)
                 | Inr None \<Rightarrow> ret (Inl ErrNoRows)
                 | Inr (Some streamID) \<Rightarrow>
                     if streamID = 0 then ret (Inl (Msg ''stream ID is 0 even after INSERTing and SELECTing''))
                     else if TrackAccess s = TrackAccessStreams then
                       bnd (touchStreams [streamID]) (\<lambda>err. case err of Some err \<Rightarrow> ret (Inl err) | None \<Rightarrow> ret (Inr streamID))
                     else ret (Inr streamID))
             else ret (Inr streamID)))"

definition AddBlob :: "(nat \<Rightarrow> nat) \<Rightarrow> string \<Rightarrow> int \<Rightarrow> bool \<Rightarrow> (SQL, go_error option) op" where
  "AddBlob dup hash len isStored =
     bnd get_st (\<lambda>s.
       if conn s = None then ret (Some not_connected)
       else bnd (insertBlob dup hash len isStored) (\<lambda>r. case r of Inl err \<Rightarrow> ret (Some err) | Inr _ \<Rightarrow> ret None))"

text \<open>A day before the clock, in seconds (\<open>AddDate(0, 0, -1)\<close>).\<close>

definition insertBlobs :: "int \<Rightarrow> string list \<Rightarrow> (SQL, go_error option) op" where
  "insertBlobs maxBlobSize hashes =
     bnd get_st (\<lambda>s.
       bnd (exec ''insert into blob_'' (stmt_insert_blobs maxBlobSize hashes (now s - 86400))) (\<lambda>r.
         case r of Inl err \<Rightarrow> ret (Some err) | Inr _ \<Rightarrow> ret None))"

text \<open>
  \<open>AddBlobs\<close> cuts the hashes into batches of 10000 that a pool of workers inserts; the model takes the
  batches in order. An error of a batch is logged and the next batch is taken.
\<close>

fun batches_of :: "nat \<Rightarrow> 'a list \<Rightarrow> 'a list list" where
  "batches_of n xs = (if xs = [] \<or> n = 0 then [] else take n xs # batches_of n (drop n xs))"

declare batches_of.simps [simp del]

definition batch_size :: nat where
  "batch_size = 10000"

fun insert_batches :: "int \<Rightarrow> string list list \<Rightarrow> (SQL, unit) op" where
  "insert_batches maxBlobSize [] = ret ()"
| "insert_batches maxBlobSize (b # bs) = bnd (insertBlobs maxBlobSize b) (\<lambda>_. insert_batches maxBlobSize bs)"

definition AddBlobs :: "int \<Rightarrow> string list \<Rightarrow> (SQL, go_error option) op" where
  "AddBlobs maxBlobSize hashes =
     bnd get_st (\<lambda>s.
       if conn s = None then ret (Some not_connected)
       else bnd (insert_batches maxBlobSize (batches_of batch_size hashes)) (\<lambda>_. ret None))"

text \<open>The rows of the query of \<open>hasBlobs\<close>, by the kind of access tracking: hash, blob id, stream id, last access.\<close>

definition left_join :: "tables \<Rightarrow> blob_row \<Rightarrow> stream_blob_row option list" where
  "left_join t b =
     (let rs = filter (\<lambda>r. sb_blob_id r = b_id b) (t_stream_blob t) in if rs = [] then [None] else map Some rs)"

definition has_rows :: "trackAccess \<Rightarrow> string list \<Rightarrow> tables \<Rightarrow> (string \<times> nat \<times> nat option \<times> int option) list" where
  "has_rows track batch t =
     (let bs = filter (\<lambda>b. b_stored b \<and> b_hash b \<in> set batch) (t_blob t) in
      case track of
        TrackAccessBlobs \<Rightarrow> map (\<lambda>b. (b_hash b, b_id b, None, b_accessed b)) bs
      | TrackAccessStreams \<Rightarrow>
          concat (map (\<lambda>b. concat (map (\<lambda>sb.
            map (\<lambda>s. (b_hash b, b_id b, Some (s_id s), s_accessed s))
              (filter (\<lambda>s. (\<exists>r \<in> set_option sb. sb_stream_id r = s_id s) \<or> s_sd_blob_id s = b_id b) (t_stream t)))
            (left_join t b))) bs)
      | TrackAccessNone \<Rightarrow> map (\<lambda>b. (b_hash b, b_id b, None, None)) bs)"

text \<open>\<open>touchDeadline\<close>: six hours before now.\<close>

definition needs_touch :: "trackAccess \<Rightarrow> int \<Rightarrow> string \<times> nat \<times> nat option \<times> int option \<Rightarrow> nat list" where
  "needs_touch track deadline row =
     (case row of (hash, blobID, streamID, accessed) \<Rightarrow>
        if (case accessed of None \<Rightarrow> True | Some a \<Rightarrow> a < deadline) then
          (case track of
             TrackAccessBlobs \<Rightarrow> [blobID]
           | TrackAccessStreams \<Rightarrow> (case streamID of Some i \<Rightarrow> if i = 0 then [] else [i] | None \<Rightarrow> [])
           | TrackAccessNone \<Rightarrow> [])
        else [])"

fun has_batches :: "trackAccess \<Rightarrow> int \<Rightarrow> string list list \<Rightarrow> string set \<Rightarrow> nat list \<Rightarrow> (SQL, go_error + string set \<times> nat list) op" where
  "has_batches track deadline [] exists needsTouch = ret (Inr (exists, needsTouch))"
| "has_batches track deadline (b # bs) exists needsTouch =
     bnd (conn_call (query (has_rows track b))) (\<lambda>r.
       case r of
         Inl err \<Rightarrow> ret (Inl err)
       | Inr rows \<Rightarrow>
           has_batches track deadline bs (exists \<union> set (map fst rows)) (needsTouch @ concat (map (needs_touch track deadline) rows)))"

definition hasBlobs :: "string list \<Rightarrow> (SQL, go_error + string set \<times> nat list) op" where
  "hasBlobs hashes =
     bnd get_st (\<lambda>s.
       if conn s = None then ret (Inl not_connected)
       else has_batches (TrackAccess s) (now s - 6 * 3600) (batches_of batch_size hashes) {} [])"

text \<open>On an error the map is nil, in which every lookup gives false.\<close>

definition HasBlobs :: "string list \<Rightarrow> bool \<Rightarrow> (SQL, string set \<times> go_error option) op" where
  "HasBlobs hashes touch =
     bnd (hasBlobs hashes) (\<lambda>r.
       let (exists, ids, err) = (case r of Inl err \<Rightarrow> ({}, [], Some err) | Inr (ex, ids) \<Rightarrow> (ex, ids, None)) in
       bnd get_st (\<lambda>s.
         bnd (if touch then
                (case TrackAccess s of
                   TrackAccessBlobs \<Rightarrow> bnd (touchBlobs ids) (\<lambda>_. ret ())
                 | TrackAccessStreams \<Rightarrow> bnd (touchStreams ids) (\<lambda>_. ret ())
                 | TrackAccessNone \<Rightarrow> ret ())
              else ret ()) (\<lambda>_. ret (exists, err))))"

definition HasBlob :: "string \<Rightarrow> bool \<Rightarrow> (SQL, bool \<times> go_error option) op" where
  "HasBlob hash touch =
     bnd (HasBlobs [hash] touch) (\<lambda>(exists, err).
       if err \<noteq> None then ret (False, err) else ret (hash \<in> exists, None))"

definition SQL_Delete :: "string \<Rightarrow> (SQL, go_error option) op" where
  "SQL_Delete hash =
     bnd get_st (\<lambda>s.
       if SoftDelete s then
         bnd (exec ''UPDATE blob_ SET is_stored = 0 WHERE hash = ?'' (stmt_soft_delete hash)) (\<lambda>r.
           case r of Inl err \<Rightarrow> ret (Some err) | Inr _ \<Rightarrow> ret None)
       else
         bnd (exec ''DELETE FROM stream WHERE sd_blob_id = (SELECT id FROM blob_ WHERE hash = ?)'' (stmt_delete_streams hash)) (\<lambda>r.
           case r of
             Inl err \<Rightarrow> ret (Some err)
           | Inr _ \<Rightarrow>
               bnd (exec ''DELETE FROM blob_ WHERE hash = ?'' (stmt_delete_blob hash)) (\<lambda>r.
                 case r of Inl err \<Rightarrow> ret (Some err) | Inr _ \<Rightarrow> ret None)))"

text \<open>\<open>order by last_accessed_at limit ?\<close>: NULL sorts first in MySQL.\<close>

definition access_le :: "blob_row \<Rightarrow> blob_row \<Rightarrow> bool" where
  "access_le a b \<longleftrightarrow> (case (b_accessed a, b_accessed b) of
      (None, _) \<Rightarrow> True | (Some x, None) \<Rightarrow> False | (Some x, Some y) \<Rightarrow> x \<le> y)"

fun insert_row :: "blob_row \<Rightarrow> blob_row list \<Rightarrow> blob_row list" where
  "insert_row b [] = [b]"
| "insert_row b (c # cs) = (if access_le b c then b # c # cs else c # insert_row b cs)"

definition LeastRecentlyAccessedHashes :: "int \<Rightarrow> (SQL, go_error + string list) op" where
  "LeastRecentlyAccessedHashes maxBlobs =
     bnd get_st (\<lambda>s.
       if conn s = None then ret (Inl not_connected)
       else if TrackAccess s \<noteq> TrackAccessBlobs then ret (Inl (Msg ''blob access tracking is disabled''))
       else if maxBlobs < 0 then bnd (conn_call (query (\<lambda>_. ()))) (\<lambda>_. ret (Inl (Msg ''You have an error in your SQL syntax'')))
       else conn_call (query (\<lambda>t. map b_hash (take (nat maxBlobs) (foldr insert_row (filter b_stored (t_blob t)) [])))))"

definition SQL_Count :: "(SQL, int \<times> go_error option) op" where
  "SQL_Count =
     bnd get_st (\<lambda>s.
       if conn s = None then ret (0, Some not_connected)
       else bnd (conn_call (query (\<lambda>t. length (if SoftDelete s then filter b_stored (t_blob t) else t_blob t)))) (\<lambda>r.
         case r of Inl err \<Rightarrow> ret (0, Some err) | Inr n \<Rightarrow> ret (int n, None)))"

definition SQL_Block :: "string \<Rightarrow> (SQL, go_error option) op" where
  "SQL_Block hash = bnd (conn_call (stmt_block hash)) (\<lambda>r. case r of Inl err \<Rightarrow> ret (Some err) | Inr _ \<Rightarrow> ret None)"

definition GetBlocked :: "(SQL, go_error + string set) op" where
  "GetBlocked = conn_call (query (\<lambda>t. set (t_blocked t)))"

definition missing_rows :: "string \<Rightarrow> tables \<Rightarrow> string list" where
  "missing_rows sdHash t =
     concat (map (\<lambda>b. concat (map (\<lambda>sb. concat (map (\<lambda>s. map (\<lambda>_. b_hash b)
        (filter (\<lambda>sdb. b_id sdb = s_sd_blob_id s \<and> b_hash sdb = sdHash) (t_blob t)))
        (filter (\<lambda>s. s_id s = sb_stream_id sb) (t_stream t))))
        (filter (\<lambda>sb. sb_blob_id sb = b_id b) (t_stream_blob t))))
        (filter (\<lambda>b. \<not> b_stored b) (t_blob t)))"

definition MissingBlobsForKnownStream :: "string \<Rightarrow> (SQL, go_error + string list) op" where
  "MissingBlobsForKnownStream sdHash =
     bnd get_st (\<lambda>s. if conn s = None then ret (Inl not_connected) else conn_call (query (missing_rows sdHash)))"

fun add_content_blobs :: "(nat \<Rightarrow> nat) \<Rightarrow> nat \<Rightarrow> sd_blob_info list \<Rightarrow> (SQL, go_error option) op" where
  "add_content_blobs dup streamID [] = ret None"
| "add_content_blobs dup streamID (contentBlob # rest) =
     (if BlobHash' contentBlob = [] then add_content_blobs dup streamID rest
      else
        bnd (insertBlob dup (BlobHash' contentBlob) (Length contentBlob) False) (\<lambda>r.
          case r of
            Inl err \<Rightarrow> ret (Some err)
          | Inr blobID \<Rightarrow>
              bnd (exec ''INSERT IGNORE INTO stream_blob'' (stmt_insert_stream_blob streamID blobID (BlobNum contentBlob))) (\<lambda>r.
                case r of Inl err \<Rightarrow> ret (Some err) | Inr _ \<Rightarrow> add_content_blobs dup streamID rest)))"

definition AddSDBlob :: "(nat \<Rightarrow> nat) \<Rightarrow> string \<Rightarrow> int \<Rightarrow> SdBlob \<Rightarrow> (SQL, go_error option) op" where
  "AddSDBlob dup sdHash sdBlobLength sdBlob =
     bnd get_st (\<lambda>s.
       if conn s = None then ret (Some not_connected)
       else
         bnd (insertBlob dup sdHash sdBlobLength True) (\<lambda>r.
           case r of
             Inl err \<Rightarrow> ret (Some err)
           | Inr sdBlobID \<Rightarrow>
               bnd (insertStream (StreamHash sdBlob) sdBlobID) (\<lambda>r.
                 case r of Inl err \<Rightarrow> ret (Some err) | Inr streamID \<Rightarrow> add_content_blobs dup streamID (Blobs sdBlob))))"

text \<open>Strings in the order of their bytes.\<close>

definition str_min :: "string \<Rightarrow> string \<Rightarrow> string" where
  "str_min a b = (if str_le a b then a else b)"

definition str_max :: "string \<Rightarrow> string \<Rightarrow> string" where
  "str_max a b = (if str_le a b then b else a)"

text \<open>\<open>SELECT MIN(hash), MAX(hash)\<close> gives NULLs on an empty table, which cannot be scanned into a string.\<close>

definition GetHashRange :: "(SQL, string \<times> string \<times> go_error option) op" where
  "GetHashRange =
     bnd get_st (\<lambda>s.
       if conn s = None then ret ([], [], Some not_connected)
       else bnd (conn_call (query (\<lambda>t. map b_hash (t_blob t)))) (\<lambda>r.
         case r of
           Inl err \<Rightarrow> ret ([], [], Some err)
         | Inr [] \<Rightarrow> ret ([], [], Some (Msg ''converting NULL to string is unsupported''))
         | Inr (h # hs) \<Rightarrow> ret (fold str_min hs h, fold str_max hs h, None)))"

text \<open>
  \<open>GetStoredHashesInRange\<close>: the hashes sent into the channel until the reader cancels (after \<open>limit\<close> of them, if it
  does), and the error sent into the error channel.
\<close>

definition GetStoredHashesInRange :: "string \<Rightarrow> string \<Rightarrow> nat option \<Rightarrow> (SQL, string list \<times> go_error option) op" where
  "GetStoredHashesInRange start stop limit =
     bnd get_st (\<lambda>s.
       if conn s = None then ret ([], Some not_connected)
       else
         bnd (conn_call (query (\<lambda>t. map b_hash (filter (\<lambda>b. str_le start (b_hash b) \<and> str_le (b_hash b) stop \<and> b_stored b) (t_blob t))))) (\<lambda>r.
           case r of
             Inl err \<Rightarrow> ret ([], Some err)
           | Inr hs \<Rightarrow> ret (case limit of None \<Rightarrow> hs | Some n \<Rightarrow> take n hs, None)))"

text \<open>\<open>withTx\<close> on a connection: commit when the function returns no error, else roll back.\<close>

definition withTx :: "(tables, go_error option) op \<Rightarrow> (SQL, go_error option) op" where
  "withTx f s =
     (case conn_call (query id) s of
        (Ret (Inl err), s1) \<Rightarrow> (Ret (Some err), s1)
      | (Panic p, s1) \<Rightarrow> (Panic p, s1)
      | (Ret (Inr t), s1) \<Rightarrow>
          (case f t of
             (Panic p, t') \<Rightarrow> (Panic p, s1)
           | (Ret (Some err), t') \<Rightarrow> (Ret (Some err), s1)
           | (Ret None, t') \<Rightarrow>
               (case conn_call (\<lambda>_. (Inr (), t')) s1 of
                  (Ret (Inl err), s2) \<Rightarrow> (Ret (Some err), s2)
                | (Ret (Inr _), s2) \<Rightarrow> (Ret None, s2)
                | (Panic p, s2) \<Rightarrow> (Panic p, s2))))"

end
