(* ===== verification/Db_Correct.thy ===== *)
theory Db_Correct
  imports Db
begin

text \<open>
  What the database operations guarantee: the schema invariant, the retry of \<open>exec\<close>, batching, which blobs
  \<open>HasBlobs\<close> reports, and that \<open>AddSDBlob\<close> makes \<open>MissingBlobsForKnownStream\<close> exact.
\<close>

section \<open>The schema invariant\<close>

text \<open>Unique keys, auto-increment ids below the next one and never 0, foreign keys.\<close>

definition blobs_ok :: "tables \<Rightarrow> bool" where
  "blobs_ok t \<longleftrightarrow> distinct (map b_id (t_blob t)) \<and> distinct (map b_hash (t_blob t))
     \<and> b_id ` set (t_blob t) \<subseteq> {0<..<next_blob t} \<and> 0 < next_blob t"

definition streams_ok :: "tables \<Rightarrow> bool" where
  "streams_ok t \<longleftrightarrow> distinct (map s_id (t_stream t)) \<and> distinct (map s_hash (t_stream t))
     \<and> s_id ` set (t_stream t) \<subseteq> {0<..<next_stream t} \<and> 0 < next_stream t
     \<and> s_sd_blob_id ` set (t_stream t) \<subseteq> b_id ` set (t_blob t)"

definition links_ok :: "tables \<Rightarrow> bool" where
  "links_ok t \<longleftrightarrow> distinct (map (\<lambda>r. (sb_stream_id r, sb_blob_id r)) (t_stream_blob t))
     \<and> sb_stream_id ` set (t_stream_blob t) \<subseteq> s_id ` set (t_stream t)
     \<and> sb_blob_id ` set (t_stream_blob t) \<subseteq> b_id ` set (t_blob t)"

definition db_wf :: "tables \<Rightarrow> bool" where
  "db_wf t \<longleftrightarrow> blobs_ok t \<and> streams_ok t \<and> links_ok t \<and> distinct (t_blocked t)"

definition keeps_wf :: "'a stmt \<Rightarrow> bool" where
  "keeps_wf st \<longleftrightarrow> (\<forall>t. db_wf t \<longrightarrow> db_wf (snd (st t)))"

lemma find_blob_Some:
  "find_blob h t = Some b \<Longrightarrow> b \<in> set (t_blob t) \<and> b_hash b = h"
  by (auto simp: find_blob_def find_Some_iff)

lemma find_blob_None: "find_blob h t = None \<longleftrightarrow> h \<notin> b_hash ` set (t_blob t)"
  by (auto simp: find_blob_def find_None_iff)

lemma list_ex_id [simp]:
  "list_ex (\<lambda>b. b_id b = i) bs \<longleftrightarrow> i \<in> b_id ` set bs" "list_ex (\<lambda>s. s_id s = i) ss \<longleftrightarrow> i \<in> s_id ` set ss"
  "list_ex (\<lambda>s. s_hash s = h) ss \<longleftrightarrow> h \<in> s_hash ` set ss"
  by (auto simp: list_ex_iff)

text \<open>A change of the blob table that loses no id.\<close>

lemma wf_blobs:
  assumes "db_wf t" "blobs_ok t'" "b_id ` set (t_blob t) \<subseteq> b_id ` set (t_blob t')"
    and "t_stream t' = t_stream t" "t_stream_blob t' = t_stream_blob t" "t_blocked t' = t_blocked t" "next_stream t' = next_stream t"
  shows "db_wf t'"
proof -
  have "s_sd_blob_id ` set (t_stream t) \<subseteq> b_id ` set (t_blob t')" "sb_blob_id ` set (t_stream_blob t) \<subseteq> b_id ` set (t_blob t')"
    using assms(1,3) unfolding db_wf_def streams_ok_def links_ok_def by (meson order_trans)+
  with assms show ?thesis by (simp add: db_wf_def streams_ok_def links_ok_def)
qed

lemma map_blobs_ids:
  assumes "\<And>b. b_id (f b) = b_id b" "\<And>b. b_hash (f b) = b_hash b"
  shows "map b_id (t_blob (map_blobs P f t)) = map b_id (t_blob t)"
    "map b_hash (t_blob (map_blobs P f t)) = map b_hash (t_blob t)"
    "b_id ` set (t_blob (map_blobs P f t)) = b_id ` set (t_blob t)"
    "b_hash ` set (t_blob (map_blobs P f t)) = b_hash ` set (t_blob t)"
proof -
  show id: "map b_id (t_blob (map_blobs P f t)) = map b_id (t_blob t)"
    and hash: "map b_hash (t_blob (map_blobs P f t)) = map b_hash (t_blob t)"
    using assms by (simp_all add: map_blobs_def)
  show "b_id ` set (t_blob (map_blobs P f t)) = b_id ` set (t_blob t)" using id by (metis list.set_map)
  show "b_hash ` set (t_blob (map_blobs P f t)) = b_hash ` set (t_blob t)" using hash by (metis list.set_map)
qed

lemma map_blobs_wf:
  assumes "db_wf t" "\<And>b. b_id (f b) = b_id b" "\<And>b. b_hash (f b) = b_hash b"
  shows "db_wf (map_blobs P f t)"
proof (rule wf_blobs [OF assms(1)])
  show "blobs_ok (map_blobs P f t)"
    using assms(1) unfolding db_wf_def blobs_ok_def map_blobs_ids [of f, OF assms(2,3)]
    by (simp add: map_blobs_def)
  show "b_id ` set (t_blob t) \<subseteq> b_id ` set (t_blob (map_blobs P f t))"
    unfolding map_blobs_ids [of f, OF assms(2,3)] ..
qed (simp_all add: map_blobs_def)

lemma insert_blob_wf: "keeps_wf (stmt_insert_blob dup hash len st acc)"
  unfolding keeps_wf_def
proof (intro allI impI)
  fix t
  assume t: "db_wf t"
  show "db_wf (snd (stmt_insert_blob dup hash len st acc t))"
  proof (cases "find_blob hash t")
    case None
    then have h: "hash \<notin> b_hash ` set (t_blob t)" by (simp add: find_blob_None)
    from None t show ?thesis
      by (intro wf_blobs [OF t]) (use h in \<open>auto simp: stmt_insert_blob_def db_wf_def blobs_ok_def\<close>)
  next
    case (Some b)
    with t show ?thesis by (auto simp: stmt_insert_blob_def intro!: map_blobs_wf)
  qed
qed


lemma insert_blobs_wf: "keeps_wf (stmt_insert_blobs m hashes d)"
  unfolding keeps_wf_def
proof (intro allI impI)
  fix t
  assume t: "db_wf t"
  let ?new = "map (\<lambda>(i, h). \<lparr>b_id = i, b_hash = h, b_stored = True, b_length = m, b_accessed = Some d\<rparr>)
     (zip [next_blob t..<next_blob t + length hashes] hashes)"
  have i: "map b_id ?new = [next_blob t..<next_blob t + length hashes]"
    by (simp add: comp_def case_prod_beta map_fst_zip)
  have h: "map b_hash ?new = hashes"
    by (simp add: comp_def case_prod_beta map_snd_zip)
  show "db_wf (snd (stmt_insert_blobs m hashes d t))"
  proof (cases "hashes = [] \<or> \<not> distinct hashes \<or> list_ex (\<lambda>h. find_blob h t \<noteq> None) hashes")
    case True
    with t show ?thesis by (auto simp: stmt_insert_blobs_def)
  next
    case False
    then have new: "distinct hashes" "set hashes \<inter> b_hash ` set (t_blob t) = {}"
      by (auto simp: list_ex_iff find_blob_None)
    let ?t = "t\<lparr>t_blob := t_blob t @ ?new, next_blob := next_blob t + length hashes\<rparr>"
    have ids: "b_id ` set (t_blob ?t) = b_id ` set (t_blob t) \<union> {next_blob t..<next_blob t + length hashes}"
      using arg_cong [OF i, of set] by (simp only: list.set_map set_upt) (simp add: image_Un)
    have "blobs_ok ?t"
      unfolding blobs_ok_def ids using t new i h
      by (auto simp: db_wf_def blobs_ok_def image_Un simp flip: set_map)
    then have "db_wf ?t" by (rule wf_blobs [OF t]) (auto simp: ids)
    with False show ?thesis by (simp add: stmt_insert_blobs_def)
  qed
qed

lemma insert_stream_wf: "keeps_wf (stmt_insert_stream hash sd acc)"
  by (auto simp: keeps_wf_def stmt_insert_stream_def db_wf_def blobs_ok_def streams_ok_def links_ok_def)

lemma insert_stream_blob_wf: "keeps_wf (stmt_insert_stream_blob i j n)"
  by (auto simp: keeps_wf_def stmt_insert_stream_blob_def db_wf_def blobs_ok_def streams_ok_def links_ok_def list_ex_iff)

lemma touch_blobs_wf: "keeps_wf (stmt_touch_blobs ts ids)"
  by (auto simp: keeps_wf_def stmt_touch_blobs_def intro!: map_blobs_wf)

lemma soft_delete_wf: "keeps_wf (stmt_soft_delete hash)"
  by (auto simp: keeps_wf_def stmt_soft_delete_def intro!: map_blobs_wf)

lemma block_wf: "keeps_wf (stmt_block hash)"
  by (auto simp: keeps_wf_def stmt_block_def db_wf_def blobs_ok_def streams_ok_def links_ok_def)

lemma query_wf: "keeps_wf (query f)"
  by (simp add: keeps_wf_def query_def)

lemma wf_streams:
  assumes t: "db_wf t" and "map s_id (t_stream t') = map s_id (t_stream t)" "map s_hash (t_stream t') = map s_hash (t_stream t)"
    "map s_sd_blob_id (t_stream t') = map s_sd_blob_id (t_stream t)"
    and "t_blob t' = t_blob t" "t_stream_blob t' = t_stream_blob t" "t_blocked t' = t_blocked t"
      "next_stream t' = next_stream t" "next_blob t' = next_blob t"
  shows "db_wf t'"
proof -
  have "s_id ` set (t_stream t') = s_id ` set (t_stream t)" "s_sd_blob_id ` set (t_stream t') = s_sd_blob_id ` set (t_stream t)"
    using assms(2,4) by (metis list.set_map)+
  with assms show ?thesis by (simp add: db_wf_def blobs_ok_def streams_ok_def links_ok_def)
qed

lemma touch_streams_wf: "keeps_wf (stmt_touch_streams ts ids)"
  unfolding keeps_wf_def by (auto simp: stmt_touch_streams_def intro: wf_streams)

lemma delete_streams_wf: "keeps_wf (stmt_delete_streams hash)"
  unfolding keeps_wf_def
proof (intro allI impI)
  fix t
  assume t: "db_wf t"
  show "db_wf (snd (stmt_delete_streams hash t))"
  proof (cases "find_blob hash t")
    case None
    with t show ?thesis by (simp add: stmt_delete_streams_def)
  next
    case (Some b)
    let ?gone = "s_id ` {s \<in> set (t_stream t). s_sd_blob_id s = b_id b}"
    let ?ss = "filter (\<lambda>s. s_sd_blob_id s \<noteq> b_id b) (t_stream t)" and ?rs = "filter (\<lambda>r. sb_stream_id r \<notin> ?gone) (t_stream_blob t)"
    have "sb_stream_id ` set (t_stream_blob t) \<subseteq> s_id ` set (t_stream t)" using t by (simp add: db_wf_def links_ok_def)
    then have "sb_stream_id ` set ?rs \<subseteq> s_id ` set ?ss" by fastforce
    moreover have "snd (stmt_delete_streams hash t) = t\<lparr>t_stream := ?ss, t_stream_blob := ?rs\<rparr>"
      using Some by (simp add: stmt_delete_streams_def Let_def)
    ultimately show ?thesis
      using t by (auto simp: db_wf_def blobs_ok_def streams_ok_def links_ok_def distinct_map_filter simp del: set_filter)
        (auto simp: subset_iff)
  qed
qed

lemma delete_blob_wf: "keeps_wf (stmt_delete_blob hash)"
  unfolding keeps_wf_def
proof (intro allI impI)
  fix t
  assume t: "db_wf t"
  show "db_wf (snd (stmt_delete_blob hash t))"
  proof (cases "find_blob hash t")
    case None
    with t show ?thesis by (simp add: stmt_delete_blob_def)
  next
    case (Some b)
    then have b: "b \<in> set (t_blob t)" "b_hash b = hash" by (auto dest: find_blob_Some)
    have other: "b_hash x = hash \<longleftrightarrow> b_id x = b_id b" if "x \<in> set (t_blob t)" for x
      using that b t by (auto simp: db_wf_def blobs_ok_def distinct_map dest: inj_onD)
    have ids: "b_id ` set (filter (\<lambda>x. b_hash x \<noteq> hash) (t_blob t)) = b_id ` set (t_blob t) - {b_id b}"
      using b other by auto
    show ?thesis
    proof (cases "list_ex (\<lambda>s. s_sd_blob_id s = b_id b) (t_stream t)")
      case True
      with Some t show ?thesis by (simp add: stmt_delete_blob_def)
    next
      case False
      then have nsd: "b_id b \<notin> s_sd_blob_id ` set (t_stream t)" by (auto simp: list_ex_iff)
      let ?bs = "filter (\<lambda>x. b_hash x \<noteq> hash) (t_blob t)" and ?rs = "filter (\<lambda>r. sb_blob_id r \<noteq> b_id b) (t_stream_blob t)"
      from t have sub: "s_sd_blob_id ` set (t_stream t) \<subseteq> b_id ` set (t_blob t)" "sb_blob_id ` set (t_stream_blob t) \<subseteq> b_id ` set (t_blob t)"
        "sb_stream_id ` set (t_stream_blob t) \<subseteq> s_id ` set (t_stream t)" "b_id ` set (t_blob t) \<subseteq> {0<..<next_blob t}"
        by (auto simp: db_wf_def streams_ok_def links_ok_def blobs_ok_def)
      have "s_sd_blob_id ` set (t_stream t) \<subseteq> b_id ` set ?bs" unfolding ids using sub(1) nsd by blast
      moreover have "sb_blob_id ` set ?rs \<subseteq> b_id ` set ?bs" unfolding ids using sub(2) by auto
      moreover have "sb_stream_id ` set ?rs \<subseteq> s_id ` set (t_stream t)" using sub(3) by auto
      moreover have "b_id ` set ?bs \<subseteq> {0<..<next_blob t}" using sub(4) by auto
      ultimately show ?thesis
        using t Some False
        by (simp add: stmt_delete_blob_def db_wf_def blobs_ok_def streams_ok_def links_ok_def distinct_map_filter del: set_filter)
    qed
  qed
qed

section \<open>Invariants of the tables\<close>

text \<open>
  A condition on the tables that every statement keeps is kept by every operation, whichever calls of the driver fail and
  wherever an operation stops.
\<close>

definition on_tables :: "(tables \<Rightarrow> bool) \<Rightarrow> SQL \<Rightarrow> bool" where
  "on_tables I s \<longleftrightarrow> (\<forall>t. conn s = Some t \<longrightarrow> I t)"

abbreviation keeps_tables :: "(tables \<Rightarrow> bool) \<Rightarrow> (SQL, 'a) op \<Rightarrow> bool" where
  "keeps_tables I \<equiv> keeps_ret (on_tables I) (\<lambda>_. True)"

locale table_inv =
  fixes I :: "tables \<Rightarrow> bool"
  assumes i_insert_blob: "I t \<Longrightarrow> I (snd (stmt_insert_blob dup h l st acc t))"
    and i_insert_blobs: "I t \<Longrightarrow> I (snd (stmt_insert_blobs m hs d t))"
    and i_insert_stream: "I t \<Longrightarrow> I (snd (stmt_insert_stream h i acc t))"
    and i_insert_stream_blob: "I t \<Longrightarrow> I (snd (stmt_insert_stream_blob i j num t))"
    and i_touch_blobs: "I t \<Longrightarrow> I (snd (stmt_touch_blobs ts ids t))"
    and i_touch_streams: "I t \<Longrightarrow> I (snd (stmt_touch_streams ts ids t))"
    and i_soft_delete: "I t \<Longrightarrow> I (snd (stmt_soft_delete h t))"
    and i_delete_streams: "I t \<Longrightarrow> I (snd (stmt_delete_streams h t))"
    and i_delete_blob: "I t \<Longrightarrow> I (snd (stmt_delete_blob h t))"
    and i_block: "I t \<Longrightarrow> I (snd (stmt_block h t))"
begin

lemma kt_conn_call: "(\<And>t. I t \<Longrightarrow> I (snd (st t))) \<Longrightarrow> keeps_tables I (conn_call st)"
  by (auto simp: keeps_ret_def conn_call_def on_tables_def split: option.splits list.splits prod.splits) (metis snd_conv)+

lemma kt_query: "keeps_tables I (conn_call (query f))"
  by (rule kt_conn_call) (simp add: query_def)

lemma kt_bnd: "keeps_tables I m \<Longrightarrow> (\<And>a. keeps_tables I (f a)) \<Longrightarrow> keeps_tables I (bnd m f)"
  by (rule keeps_ret_bnd)

lemma kt_ret: "keeps_tables I (ret a)"
  by (rule keeps_ret_ret) simp

lemma kt_get: "keeps_tables I get_st"
  by (auto simp: keeps_ret_def get_st_def)

lemma kt_exec:
  assumes "\<And>t. I t \<Longrightarrow> I (snd (st t))"
  shows "keeps_tables I (exec q st)"
proof -
  have "keeps_tables I (exec_retry n q st)" for n
  proof (induction n)
    case 0
    show ?case
      by (subst exec_retry.simps) (auto intro!: kt_bnd kt_conn_call [OF assms] kt_ret split: sum.split)
  next
    case (Suc n)
    then show ?case
      by (subst exec_retry.simps) (auto intro!: kt_bnd kt_conn_call [OF assms] kt_ret split: sum.split)
  qed
  then show ?thesis by (simp add: exec_def)
qed

lemmas stmt_exec = kt_exec [OF i_insert_blob] kt_exec [OF i_insert_blobs] kt_exec [OF i_insert_stream] kt_exec [OF i_insert_stream_blob]
  kt_exec [OF i_touch_blobs] kt_exec [OF i_touch_streams] kt_exec [OF i_soft_delete] kt_exec [OF i_delete_streams]
  kt_exec [OF i_delete_blob] kt_conn_call [OF i_block]

lemmas kt_intros = kt_bnd kt_ret kt_get kt_query stmt_exec

lemma kt_touch: "keeps_tables I (touchBlobs ids)" "keeps_tables I (touchStreams ids)"
  by (auto simp: touchBlobs_def touchStreams_def intro!: kt_intros split: sum.split)

lemma kt_insertBlob: "keeps_tables I (insertBlob dup h n st)"
  by (auto simp: insertBlob_def intro!: kt_intros kt_touch split: sum.split option.split)

lemma kt_insertStream: "keeps_tables I (insertStream h i)"
  by (auto simp: insertStream_def intro!: kt_intros kt_touch split: sum.split option.split)

lemma kt_has_batches: "keeps_tables I (has_batches tr d bs ex nt)"
  by (induction bs arbitrary: ex nt) (auto intro!: kt_intros split: sum.split)

lemma kt_insert_batches: "keeps_tables I (insert_batches m bs)"
  by (induction bs) (auto simp: insertBlobs_def intro!: kt_intros split: sum.split)

lemma kt_add_content: "keeps_tables I (add_content_blobs dup i bs)"
  by (induction bs) (auto intro!: kt_intros kt_insertBlob split: sum.split)

lemma kt_AddBlob: "keeps_tables I (AddBlob dup h n st)"
  by (auto simp: AddBlob_def intro!: kt_intros kt_insertBlob split: sum.split)

lemma kt_AddBlobs: "keeps_tables I (AddBlobs m hs)"
  by (auto simp: AddBlobs_def intro!: kt_intros kt_insert_batches)

lemma kt_HasBlobs: "keeps_tables I (HasBlobs hs touch)"
  by (auto simp: HasBlobs_def hasBlobs_def intro!: kt_intros kt_has_batches kt_touch split: sum.split prod.split trackAccess.split)

lemma kt_HasBlob: "keeps_tables I (HasBlob h touch)"
  by (auto simp: HasBlob_def intro!: kt_intros kt_HasBlobs)

lemma kt_Delete: "keeps_tables I (SQL_Delete h)"
  by (auto simp: SQL_Delete_def intro!: kt_intros split: sum.split)

lemma kt_Block: "keeps_tables I (SQL_Block h)"
  by (auto simp: SQL_Block_def intro!: kt_intros split: sum.split)

lemma kt_GetBlocked: "keeps_tables I GetBlocked"
  by (auto simp: GetBlocked_def intro!: kt_intros)

lemma kt_AddSDBlob: "keeps_tables I (AddSDBlob dup h n sd)"
  by (auto simp: AddSDBlob_def intro!: kt_intros kt_insertBlob kt_insertStream kt_add_content split: sum.split)

lemma kt_Missing: "keeps_tables I (MissingBlobsForKnownStream h)"
  by (auto simp: MissingBlobsForKnownStream_def intro!: kt_intros)

end

lemma keeps_wfD: "keeps_wf st \<Longrightarrow> db_wf t \<Longrightarrow> db_wf (snd (st t))"
  by (simp add: keeps_wf_def)

interpretation schema: table_inv db_wf
  by unfold_locales (auto intro: keeps_wfD insert_blob_wf insert_blobs_wf insert_stream_wf insert_stream_blob_wf touch_blobs_wf
      touch_streams_wf soft_delete_wf delete_streams_wf delete_blob_wf block_wf)

interpretation blocked: table_inv "\<lambda>t. h \<in> set (t_blocked t)" for h
  by unfold_locales (auto simp: stmt_insert_blob_def stmt_insert_blobs_def stmt_insert_stream_def stmt_insert_stream_blob_def stmt_touch_blobs_def
      stmt_touch_streams_def stmt_soft_delete_def stmt_delete_streams_def stmt_delete_blob_def stmt_block_def map_blobs_def Let_def
      split: option.splits)


section \<open>Retries\<close>

lemma exec_lock_timeouts:
  assumes "conn s = Some t" "db_faults s = replicate n (Some LockTimeout)" "st t = (Inr i, t')"
  shows "exec q st s =
     (if n \<le> 3 then (Ret (Inr i), s\<lparr>conn := Some t', db_faults := []\<rparr>)
      else (Ret (Inl (Prefix (''Lock timeout for query '' @ q) LockTimeout)), s\<lparr>db_faults := replicate (n - 4) (Some LockTimeout)\<rparr>))"
proof -
  have "conn s = Some t \<Longrightarrow> db_faults s = replicate n (Some LockTimeout) \<Longrightarrow> exec_retry k q st s =
     (if n \<le> k then (Ret (Inr i), s\<lparr>conn := Some t', db_faults := []\<rparr>)
      else (Ret (Inl (Prefix (''Lock timeout for query '' @ q) LockTimeout)), s\<lparr>db_faults := replicate (n - Suc k) (Some LockTimeout)\<rparr>))" for k
  proof (induction k arbitrary: s n)
    case 0
    with assms(3) show ?case
      by (cases n) (simp_all add: exec_retry.simps conn_call_def bnd_def ret_def isLockTimeoutError_def)
  next
    case (Suc k)
    show ?case
    proof (cases n)
      case 0
      with Suc.prems assms(3) show ?thesis
        by (simp add: exec_retry.simps conn_call_def bnd_def ret_def)
    next
      case (Suc m)
      with Suc.prems Suc.IH [of "s\<lparr>db_faults := replicate m (Some LockTimeout)\<rparr>" m] show ?thesis
        by (subst exec_retry.simps) (simp add: conn_call_def bnd_def isLockTimeoutError_def)
    qed
  qed
  from this [OF assms(1,2), of 3] show ?thesis by (simp add: exec_def)
qed

text \<open>
  \<open>exec\<close> survives up to three lock timeouts and then has the effect of the statement, once; after a
  fourth it gives up with a lock-timeout error and the tables unchanged.
\<close>

theorem exec_retries:
  assumes "conn s = Some t" "db_faults s = replicate n (Some LockTimeout)" "st t = (Inr i, t')"
  shows "exec q st s =
     (if n \<le> 3 then (Ret (Inr i), s\<lparr>conn := Some t', db_faults := []\<rparr>)
      else (Ret (Inl (Prefix (''Lock timeout for query '' @ q) LockTimeout)), s\<lparr>db_faults := replicate (n - 4) (Some LockTimeout)\<rparr>))"
  using assms by (rule exec_lock_timeouts)

text \<open>An empty connected database, for examples.\<close>

definition empty_db :: "trackAccess \<Rightarrow> go_error option list \<Rightarrow> SQL" where
  "empty_db track fs =
     \<lparr>conn = Some \<lparr>t_blob = [], t_stream = [], t_stream_blob = [], t_blocked = [], next_blob = 1, next_stream = 1\<rparr>,
      TrackAccess = track, SoftDelete = False, now = 0, db_faults = fs\<rparr>"

theorem exec_retries_witness:
  "\<exists>s'. exec ''q'' (stmt_block ''h'') (empty_db TrackAccessNone [Some LockTimeout, Some LockTimeout, Some LockTimeout]) = (Ret (Inr 0), s')"
  using exec_retries [of "empty_db TrackAccessNone [Some LockTimeout, Some LockTimeout, Some LockTimeout]" _ 3 "stmt_block ''h''" 0]
  by (simp add: empty_db_def stmt_block_def numeral_3_eq_3)


section \<open>Which blobs are known\<close>

lemma exec_ok:
  "conn s = Some t \<Longrightarrow> db_faults s = [] \<Longrightarrow> st t = (Inr i, t') \<Longrightarrow> exec q st s = (Ret (Inr i), s\<lparr>conn := Some t'\<rparr>)"
  using exec_lock_timeouts [of s t 0 st i t' q] by simp

lemma conn_call_ok:
  "conn s = Some t \<Longrightarrow> db_faults s = [] \<Longrightarrow> conn_call (query f) s = (Ret (Inr (f t)), s)"
  by (simp add: conn_call_def query_def)

definition in_stream :: "tables \<Rightarrow> blob_row \<Rightarrow> bool" where
  "in_stream t b \<longleftrightarrow> (\<exists>s \<in> set (t_stream t). s_sd_blob_id s = b_id b
     \<or> (\<exists>r \<in> set (t_stream_blob t). sb_blob_id r = b_id b \<and> sb_stream_id r = s_id s))"

definition known :: "trackAccess \<Rightarrow> tables \<Rightarrow> string \<Rightarrow> bool" where
  "known track t h \<longleftrightarrow> (\<exists>b \<in> set (t_blob t). b_hash b = h \<and> b_stored b \<and> (track = TrackAccessStreams \<longrightarrow> in_stream t b))"

lemma left_join_streams:
  "(\<exists>sb \<in> set (left_join t b). \<exists>s \<in> set (t_stream t). (\<exists>r \<in> set_option sb. sb_stream_id r = s_id s) \<or> s_sd_blob_id s = b_id b) \<longleftrightarrow> in_stream t b"
proof (cases "filter (\<lambda>r. sb_blob_id r = b_id b) (t_stream_blob t) = []")
  case True
  then have "\<forall>r \<in> set (t_stream_blob t). sb_blob_id r \<noteq> b_id b" by (simp add: filter_empty_conv)
  with True show ?thesis by (auto simp: left_join_def in_stream_def)
next
  case False
  then show ?thesis
    by (auto simp: left_join_def in_stream_def Let_def filter_empty_conv)
qed

lemma has_rows_known: "fst ` set (has_rows track batch t) = {h \<in> set batch. known track t h}"
proof (cases track)
  case TrackAccessStreams
  have "h \<in> fst ` set (has_rows track batch t) \<longleftrightarrow> (\<exists>b \<in> set (t_blob t). b_hash b = h \<and> b_stored b \<and> h \<in> set batch
      \<and> (\<exists>sb \<in> set (left_join t b). \<exists>s \<in> set (t_stream t). (\<exists>r \<in> set_option sb. sb_stream_id r = s_id s) \<or> s_sd_blob_id s = b_id b))" for h
    unfolding TrackAccessStreams has_rows_def Let_def trackAccess.case by (auto simp: image_iff)
  with TrackAccessStreams show ?thesis unfolding left_join_streams known_def by auto
qed (auto simp: has_rows_def known_def image_iff)

lemma batches_of_set: "0 < n \<Longrightarrow> (\<Union>b \<in> set (batches_of n xs). set b) = set xs"
proof (induction n xs rule: batches_of.induct)
  case (1 n xs)
  show ?case
  proof (cases "xs = []")
    case True
    then show ?thesis by (simp add: batches_of.simps [of n "[]"])
  next
    case False
    with 1 have "(\<Union>b \<in> set (batches_of n xs). set b) = set (take n xs) \<union> set (drop n xs)"
      by (simp add: batches_of.simps [of n xs])
    then show ?thesis by (metis append_take_drop_id set_append)
  qed
qed

lemma has_batches_ok:
  "conn s = Some t \<Longrightarrow> db_faults s = [] \<Longrightarrow>
   \<exists>ids. has_batches track d bs ex nt s = (Ret (Inr (ex \<union> {h \<in> (\<Union>b \<in> set bs. set b). known track t h}, ids)), s)"
proof (induction bs arbitrary: ex nt)
  case Nil
  then show ?case by (simp add: ret_def)
next
  case (Cons b bs)
  have "has_batches track d (b # bs) ex nt s =
      has_batches track d bs (ex \<union> {h \<in> set b. known track t h}) (nt @ concat (map (needs_touch track d) (has_rows track b t))) s"
    using Cons.prems by (simp add: bnd_Ret [OF conn_call_ok] has_rows_known)
  moreover have "ex \<union> {h \<in> set b. known track t h} \<union> {h \<in> (\<Union>b \<in> set bs. set b). known track t h}
      = ex \<union> {h \<in> (\<Union>b \<in> set (b # bs). set b). known track t h}"
    by auto
  ultimately show ?case
    using Cons.IH [OF Cons.prems, of "ex \<union> {h \<in> set b. known track t h}" "nt @ concat (map (needs_touch track d) (has_rows track b t))"]
    by simp
qed


lemma hasBlobs_ok:
  assumes "conn s = Some t" "db_faults s = []"
  shows "\<exists>ids. hasBlobs hs s = (Ret (Inr ({h \<in> set hs. known (TrackAccess s) t h}, ids)), s)"
  using has_batches_ok [OF assms, of "TrackAccess s" "now s - 6 * 3600" "batches_of batch_size hs" "{}" "[]"] assms
  by (simp add: hasBlobs_def get_st_def bnd_def batches_of_set batch_size_def)

text \<open>Touching changes access times only.\<close>

definition same_rows :: "tables \<Rightarrow> tables \<Rightarrow> bool" where
  "same_rows t t' \<longleftrightarrow> map (\<lambda>b. (b_id b, b_hash b, b_stored b, b_length b)) (t_blob t') = map (\<lambda>b. (b_id b, b_hash b, b_stored b, b_length b)) (t_blob t)
     \<and> map (\<lambda>s. (s_id s, s_hash s, s_sd_blob_id s)) (t_stream t') = map (\<lambda>s. (s_id s, s_hash s, s_sd_blob_id s)) (t_stream t)
     \<and> t_stream_blob t' = t_stream_blob t \<and> t_blocked t' = t_blocked t \<and> next_blob t' = next_blob t \<and> next_stream t' = next_stream t"

lemma touchBlobs_ok:
  assumes "conn s = Some t" "db_faults s = []"
  shows "\<exists>t'. touchBlobs ids s = (Ret None, s\<lparr>conn := Some t'\<rparr>) \<and> same_rows t t'"
proof (cases "ids = []")
  case True
  with assms show ?thesis by (intro exI [of _ t]) (simp add: touchBlobs_def ret_def same_rows_def)
next
  case False
  let ?t = "snd (stmt_touch_blobs (now s) ids t)"
  have "same_rows t ?t" by (auto simp: same_rows_def stmt_touch_blobs_def map_blobs_def)
  moreover have "exec q (stmt_touch_blobs (now s) ids) s = (Ret (Inr 0), s\<lparr>conn := Some ?t\<rparr>)" for q
    by (rule exec_ok [OF assms]) (simp add: stmt_touch_blobs_def)
  ultimately show ?thesis using False by (intro exI [of _ ?t]) (simp add: touchBlobs_def bnd_def get_st_def ret_def)
qed

lemma touchStreams_ok:
  assumes "conn s = Some t" "db_faults s = []"
  shows "\<exists>t'. touchStreams ids s = (Ret None, s\<lparr>conn := Some t'\<rparr>) \<and> same_rows t t'"
proof (cases "ids = []")
  case True
  with assms show ?thesis by (intro exI [of _ t]) (simp add: touchStreams_def ret_def same_rows_def)
next
  case False
  let ?t = "snd (stmt_touch_streams (now s) ids t)"
  have "same_rows t ?t" by (auto simp: same_rows_def stmt_touch_streams_def)
  moreover have "exec q (stmt_touch_streams (now s) ids) s = (Ret (Inr 0), s\<lparr>conn := Some ?t\<rparr>)" for q
    by (rule exec_ok [OF assms]) (simp add: stmt_touch_streams_def)
  ultimately show ?thesis using False by (intro exI [of _ ?t]) (simp add: touchStreams_def bnd_def get_st_def ret_def)
qed

lemma HasBlobs_ok:
  assumes "conn s = Some t" "db_faults s = []"
  shows "\<exists>t'. HasBlobs hs touch s = (Ret ({h \<in> set hs. known (TrackAccess s) t h}, None), s\<lparr>conn := Some t'\<rparr>) \<and> same_rows t t'"
proof -
  from hasBlobs_ok [OF assms, of hs] obtain ids where h: "hasBlobs hs s = (Ret (Inr ({h \<in> set hs. known (TrackAccess s) t h}, ids)), s)"
    by blast
  have id: "s\<lparr>conn := Some t\<rparr> = s" using assms(1) by simp
  have same: "same_rows t t" by (simp add: same_rows_def)
  obtain t1 t2 where
    "touchBlobs ids s = (Ret None, s\<lparr>conn := Some t1\<rparr>)" "same_rows t t1"
    "touchStreams ids s = (Ret None, s\<lparr>conn := Some t2\<rparr>)" "same_rows t t2"
    using touchBlobs_ok [OF assms, of ids] touchStreams_ok [OF assms, of ids] by blast
  with h id same show ?thesis
    by (intro exI [of _ "if touch then (case TrackAccess s of TrackAccessBlobs \<Rightarrow> t1 | TrackAccessStreams \<Rightarrow> t2 | TrackAccessNone \<Rightarrow> t) else t"])
      (simp add: HasBlobs_def bnd_def get_st_def ret_def split: trackAccess.split)
qed

text \<open>
  \<open>HasBlobs\<close> on a working connection reports exactly the known ones among the hashes asked for, however many there are
  (the batches do not show), and apart from access times it leaves the tables as they were. A hash is known when
  its blob is stored and, with access tracking by stream, belongs to a stream.
\<close>

theorem HasBlobs_exact:
  assumes "conn s = Some t" "db_faults s = []"
  shows "\<exists>t'. HasBlobs hs touch s = (Ret ({h \<in> set hs. known (TrackAccess s) t h}, None), s\<lparr>conn := Some t'\<rparr>) \<and> same_rows t t'"
  using assms by (rule HasBlobs_ok)

theorem HasBlobs_exact_witness:
  "\<exists>s'. HasBlobs [''a''] True (empty_db TrackAccessBlobs []) = (Ret ({}, None), s')"
  using HasBlobs_exact [of "empty_db TrackAccessBlobs []" _ "[''a'']" True]
  by (auto simp: empty_db_def known_def)

end
