(* ===== verification/Db_Streams.thy ===== *)
theory Db_Streams
  imports Db_Correct
begin

text \<open>
  The effect of the operations on what the database says of a hash: its id and whether it is stored, and which blobs a
  stream links. \<open>AddSDBlob\<close> makes \<open>MissingBlobsForKnownStream\<close> exact, \<open>Delete\<close> forgets, \<open>Block\<close> and \<open>GetBlocked\<close> agree.
\<close>

section \<open>Views of the tables\<close>

definition id_of :: "tables \<Rightarrow> string \<Rightarrow> nat option" where
  "id_of t h = map_option b_id (find_blob h t)"

definition stored_of :: "tables \<Rightarrow> string \<Rightarrow> bool option" where
  "stored_of t h = map_option b_stored (find_blob h t)"

definition links :: "tables \<Rightarrow> (nat \<times> nat) set" where
  "links t = (\<lambda>r. (sb_stream_id r, sb_blob_id r)) ` set (t_stream_blob t)"

lemma find_append: "find P (xs @ ys) = (case find P xs of None \<Rightarrow> find P ys | Some x \<Rightarrow> Some x)"
  by (induction xs) auto

lemma find_map_blobs:
  assumes "\<And>b. b_hash (f b) = b_hash b"
  shows "find_blob h (map_blobs P f t) = map_option (\<lambda>b. if P b then f b else b) (find_blob h t)"
proof -
  have "find (\<lambda>b. b_hash b = h) (map (\<lambda>b. if P b then f b else b) bs)
      = map_option (\<lambda>b. if P b then f b else b) (find (\<lambda>b. b_hash b = h) bs)" for bs
    by (induction bs) (auto simp: assms)
  then show ?thesis by (simp add: find_blob_def map_blobs_def)
qed

lemma find_blob_wf:
  assumes "db_wf t" "b \<in> set (t_blob t)"
  shows "find_blob (b_hash b) t = Some b"
proof -
  have "distinct (map b_hash (t_blob t))" using assms(1) by (simp add: db_wf_def blobs_ok_def)
  then have "b \<in> set bs \<Longrightarrow> set bs \<subseteq> set (t_blob t) \<Longrightarrow> distinct (map b_hash bs) \<Longrightarrow> find (\<lambda>x. b_hash x = b_hash b) bs = Some b" for bs
    by (induction bs) (auto simp: image_iff)
  from this [OF assms(2) subset_refl] \<open>distinct _\<close> show ?thesis by (simp add: find_blob_def)
qed

lemma id_of_inj:
  assumes "db_wf t" "id_of t h = Some i" "id_of t h' = Some i"
  shows "h = h'"
  using assms by (auto simp: id_of_def db_wf_def blobs_ok_def distinct_map dest!: find_blob_Some dest: inj_onD)

lemma missing_rows_set:
  assumes "db_wf t"
  shows "h \<in> set (missing_rows sd t) \<longleftrightarrow> stored_of t h = Some False
     \<and> (\<exists>i s. id_of t h = Some i \<and> s \<in> set (t_stream t) \<and> (s_id s, i) \<in> links t \<and> id_of t sd = Some (s_sd_blob_id s))"
    (is "?L \<longleftrightarrow> ?R")
proof
  assume ?L
  then obtain b sb s sdb where *: "b \<in> set (t_blob t)" "\<not> b_stored b" "b_hash b = h" "sb \<in> set (t_stream_blob t)" "sb_blob_id sb = b_id b"
    "s \<in> set (t_stream t)" "s_id s = sb_stream_id sb" "sdb \<in> set (t_blob t)" "b_id sdb = s_sd_blob_id s" "b_hash sdb = sd"
    by (auto simp: missing_rows_def)
  with find_blob_wf [OF assms *(1)] find_blob_wf [OF assms *(8)] show ?R
    by (auto simp: stored_of_def id_of_def links_def image_iff intro!: bexI [of _ sb] exI [of _ s])
next
  assume ?R
  then obtain b s sb sdb where "find_blob h t = Some b" "\<not> b_stored b" "s \<in> set (t_stream t)" "sb \<in> set (t_stream_blob t)"
    "sb_stream_id sb = s_id s" "sb_blob_id sb = b_id b" "find_blob sd t = Some sdb" "b_id sdb = s_sd_blob_id s"
    by (auto simp: stored_of_def id_of_def links_def)
  then show ?L by (fastforce simp: missing_rows_def dest!: find_blob_Some)
qed

section \<open>Adding blobs\<close>

definition dup_ok :: "(nat \<Rightarrow> nat) \<Rightarrow> bool" where
  "dup_ok dup \<longleftrightarrow> (\<forall>i. dup i = i \<or> dup i = 0)"

lemma map_blobs_sel [simp]:
  "t_stream (map_blobs P f t) = t_stream t" "t_stream_blob (map_blobs P f t) = t_stream_blob t" "t_blocked (map_blobs P f t) = t_blocked t"
  by (simp_all add: map_blobs_def)

lemma find_blob_append:
  "find_blob h (t\<lparr>t_blob := t_blob t @ [b], next_blob := n\<rparr>) = (case find_blob h t of None \<Rightarrow> if b_hash b = h then Some b else None | Some x \<Rightarrow> Some x)"
  by (simp add: find_blob_def find_append split: option.split)

lemma insert_blob_views:
  assumes "stmt_insert_blob dup h len st acc t = (r, t')" "db_wf t"
  shows "db_wf t'" "id_of t' h \<noteq> None" "id_of t h = None \<or> id_of t' h = id_of t h" "h' \<noteq> h \<Longrightarrow> id_of t' h' = id_of t h'"
    "stored_of t' h = Some (st \<or> stored_of t h = Some True)" "h' \<noteq> h \<Longrightarrow> stored_of t' h' = stored_of t h'"
    "t_stream t' = t_stream t" "t_stream_blob t' = t_stream_blob t"
    "dup_ok dup \<Longrightarrow> r = Inr (the (id_of t' h)) \<or> r = Inr 0"
proof -
  show "db_wf t'" using insert_blob_wf assms by (metis keeps_wf_def snd_conv)
  have h': "find_blob h' t = Some b \<Longrightarrow> b_hash b = h'" for h' b by (auto dest: find_blob_Some)
  have "id_of t' h \<noteq> None \<and> (id_of t h = None \<or> id_of t' h = id_of t h) \<and> (h' \<noteq> h \<longrightarrow> id_of t' h' = id_of t h')
    \<and> stored_of t' h = Some (st \<or> stored_of t h = Some True) \<and> (h' \<noteq> h \<longrightarrow> stored_of t' h' = stored_of t h')
    \<and> t_stream t' = t_stream t \<and> t_stream_blob t' = t_stream_blob t
    \<and> (dup_ok dup \<longrightarrow> r = Inr (the (id_of t' h)) \<or> r = Inr 0)"
  proof (cases "find_blob h t")
    case None
    with assms(1) show ?thesis
      by (auto simp: stmt_insert_blob_def id_of_def stored_of_def find_blob_append split: option.split)
  next
    case (Some b)
    with assms(1) h' show ?thesis
      by (cases "find_blob h' t") (auto simp: stmt_insert_blob_def id_of_def stored_of_def find_map_blobs dup_ok_def)
  qed
  then show "id_of t' h \<noteq> None" "id_of t h = None \<or> id_of t' h = id_of t h" "h' \<noteq> h \<Longrightarrow> id_of t' h' = id_of t h'"
    "stored_of t' h = Some (st \<or> stored_of t h = Some True)" "h' \<noteq> h \<Longrightarrow> stored_of t' h' = stored_of t h'"
    "t_stream t' = t_stream t" "t_stream_blob t' = t_stream_blob t"
    "dup_ok dup \<Longrightarrow> r = Inr (the (id_of t' h)) \<or> r = Inr 0"
    by blast+
qed

text \<open>What an operation that adds or touches blob rows preserves, with \<open>h\<close> the hash it adds.\<close>

definition adds :: "string \<Rightarrow> bool \<Rightarrow> tables \<Rightarrow> tables \<Rightarrow> bool" where
  "adds h st t t' \<longleftrightarrow> db_wf t' \<and> id_of t' h \<noteq> None \<and> (id_of t h = None \<or> id_of t' h = id_of t h) \<and> (\<forall>h'. h' \<noteq> h \<longrightarrow> id_of t' h' = id_of t h')
    \<and> stored_of t' h = Some (st \<or> stored_of t h = Some True) \<and> (\<forall>h'. h' \<noteq> h \<longrightarrow> stored_of t' h' = stored_of t h')
    \<and> t_stream t' = t_stream t \<and> t_stream_blob t' = t_stream_blob t"

lemma touch_blobs_views:
  "id_of (snd (stmt_touch_blobs ts ids t)) = id_of t" "stored_of (snd (stmt_touch_blobs ts ids t)) = stored_of t"
  by (auto simp: fun_eq_iff stmt_touch_blobs_def id_of_def stored_of_def find_map_blobs option.map_comp comp_def intro!: option.map_cong)

lemma insertBlob_ok:
  assumes s: "conn s = Some t" "db_faults s = []" and wf: "db_wf t" and len: "0 < len" and dup: "dup_ok dup"
  shows "\<exists>t'. insertBlob dup h len st s = (Ret (Inr (the (id_of t' h))), s\<lparr>conn := Some t'\<rparr>) \<and> adds h st t t'"
proof -
  let ?acc = "if TrackAccess s = TrackAccessBlobs then Some (now s) else None"
  obtain r t1 where r: "stmt_insert_blob dup h len st ?acc t = (r, t1)" by (metis surj_pair)
  note v = insert_blob_views [OF r wf]
  have a1: "adds h st t t1" unfolding adds_def using v by blast
  from v(2) obtain i where i: "id_of t1 h = Some i" by blast
  have pos: "i \<noteq> 0" using i v(1) by (auto simp: id_of_def db_wf_def blobs_ok_def dest!: find_blob_Some)
  let ?s1 = "s\<lparr>conn := Some t1\<rparr>"
  consider "r = Inr i" | "r = Inr 0" using v(9) [OF dup] i by auto
  then show ?thesis
  proof cases
    case 1
    with r have "exec q (stmt_insert_blob dup h len st ?acc) s = (Ret (Inr i), ?s1)" for q by (intro exec_ok [OF s]) simp
    with len pos i a1 show ?thesis
      by (intro exI [of _ t1]) (simp add: insertBlob_def bnd_def get_st_def ret_def)
  next
    case 2
    with r have e: "exec q (stmt_insert_blob dup h len st ?acc) s = (Ret (Inr 0), ?s1)" for q by (intro exec_ok [OF s]) simp
    have q: "conn_call (query (\<lambda>t. map_option b_id (find_blob h t))) ?s1 = (Ret (Inr (Some i)), ?s1)"
      using conn_call_ok [of ?s1 t1 "\<lambda>t. map_option b_id (find_blob h t)"] s i by (simp add: id_of_def)
    let ?t2 = "snd (stmt_touch_blobs (now s) [i] t1)"
    have x: "exec q (stmt_touch_blobs (now s) [i]) ?s1 = (Ret (Inr 0), s\<lparr>conn := Some ?t2\<rparr>)" for q
      using exec_ok [of ?s1 t1 "stmt_touch_blobs (now s) [i]" 0 ?t2 q] s by (simp add: stmt_touch_blobs_def)
    have "db_wf ?t2" using touch_blobs_wf v(1) by (simp add: keeps_wf_def)
    moreover have "t_stream ?t2 = t_stream t1" "t_stream_blob ?t2 = t_stream_blob t1" by (simp_all add: stmt_touch_blobs_def)
    ultimately have "adds h st t ?t2"
      using a1 unfolding adds_def touch_blobs_views by simp
    with e q x len pos i a1 show ?thesis
      by (intro exI [of _ "if TrackAccess s = TrackAccessBlobs then ?t2 else t1"])
        (simp add: insertBlob_def touchBlobs_def bnd_def get_st_def ret_def touch_blobs_views)
  qed
qed


lemma insert_link:
  assumes "db_wf t" "i \<in> s_id ` set (t_stream t)" "id_of t h = Some j"
  shows "\<exists>t'. stmt_insert_stream_blob i j n t = (Inr 0, t') \<and> db_wf t' \<and> links t' = insert (i, j) (links t)
     \<and> t_stream t' = t_stream t \<and> t_blob t' = t_blob t"
proof -
  have j: "j \<in> b_id ` set (t_blob t)" using assms(3) by (auto simp: id_of_def dest!: find_blob_Some)
  let ?t = "snd (stmt_insert_stream_blob i j n t)"
  have "db_wf ?t" using insert_stream_blob_wf assms(1) by (simp add: keeps_wf_def)
  moreover have "links ?t = insert (i, j) (links t)"
    using assms(2) j by (auto simp: stmt_insert_stream_blob_def links_def list_ex_iff image_iff) metis
  ultimately show ?thesis by (intro exI [of _ ?t]) (auto simp: stmt_insert_stream_blob_def)
qed

lemma same_blob_views: "t_blob t' = t_blob t \<Longrightarrow> id_of t' = id_of t \<and> stored_of t' = stored_of t"
  by (simp add: fun_eq_iff id_of_def stored_of_def find_blob_def)

text \<open>The hashes of the content blobs; the terminating blob has none.\<close>

definition content_hashes :: "sd_blob_info list \<Rightarrow> string set" where
  "content_hashes bs = {h. h \<noteq> [] \<and> h \<in> BlobHash' ` set bs}"

text \<open>The tables after the content blobs of stream \<open>i\<close> were added.\<close>

definition added_content :: "nat \<Rightarrow> string set \<Rightarrow> tables \<Rightarrow> tables \<Rightarrow> bool" where
  "added_content i H t t' \<longleftrightarrow> db_wf t' \<and> t_stream t' = t_stream t
     \<and> (\<forall>h j. id_of t h = Some j \<longrightarrow> id_of t' h = Some j)
     \<and> (\<forall>h. stored_of t' h = (if h \<in> H then Some (stored_of t h = Some True) else stored_of t h))
     \<and> (\<forall>h \<in> H. id_of t' h \<noteq> None)
     \<and> links t' = links t \<union> {(i, j) | h j. h \<in> H \<and> id_of t' h = Some j}"

lemma added_content_step:
  assumes t': "added_content i (content_hashes bs) t2 t'" and t1: "adds (BlobHash' c) False t t1"
    and t2: "db_wf t2" "links t2 = insert (i, j) (links t1)" "t_stream t2 = t_stream t1"
    and j: "id_of t1 (BlobHash' c) = Some j" and c: "BlobHash' c \<noteq> []" and v: "id_of t2 = id_of t1 \<and> stored_of t2 = stored_of t1"
  shows "added_content i (content_hashes (c # bs)) t t'"
proof -
  let ?h = "BlobHash' c" and ?H = "content_hashes bs"
  have H: "content_hashes (c # bs) = insert ?h ?H" using c by (auto simp: content_hashes_def)
  have lk: "links t1 = links t" using t1 by (simp add: adds_def links_def)
  have ids: "id_of t h = Some k \<Longrightarrow> id_of t1 h = Some k" for h k
    using t1 by (cases "h = ?h") (auto simp: adds_def)
  have st1: "stored_of t1 h = (if h = ?h then Some (stored_of t h = Some True) else stored_of t h)" for h
    using t1 by (simp add: adds_def)
  have ids': "id_of t1 h = Some k \<Longrightarrow> id_of t' h = Some k" for h k
    using t' v by (auto simp: added_content_def)
  have st': "stored_of t' h = (if h \<in> ?H then Some (stored_of t1 h = Some True) else stored_of t1 h)" for h
    using t' v by (simp add: added_content_def)
  have "links t' = links t \<union> {(i, j) | h j. h \<in> insert ?h ?H \<and> id_of t' h = Some j}"
    using t' t2(2) lk ids' [OF j] by (auto simp: added_content_def)
  moreover have "stored_of t' h = (if h \<in> insert ?h ?H then Some (stored_of t h = Some True) else stored_of t h)" for h
    using st' [of h] st1 [of h] by auto
  ultimately show ?thesis
    using t' t1 t2(3) ids ids' j unfolding H added_content_def adds_def by auto
qed

lemma add_content_ok:
  assumes "dup_ok dup"
  shows "conn s = Some t \<Longrightarrow> db_faults s = [] \<Longrightarrow> db_wf t \<Longrightarrow> i \<in> s_id ` set (t_stream t) \<Longrightarrow>
     \<forall>c \<in> set bs. BlobHash' c \<noteq> [] \<longrightarrow> 0 < Length c \<Longrightarrow>
     \<exists>t'. add_content_blobs dup i bs s = (Ret None, s\<lparr>conn := Some t'\<rparr>) \<and> added_content i (content_hashes bs) t t'"
proof (induction bs arbitrary: s t)
  case Nil
  then show ?case
    by (intro exI [of _ t]) (simp add: ret_def added_content_def content_hashes_def)
next
  case (Cons c bs)
  show ?case
  proof (cases "BlobHash' c = []")
    case True
    then have "content_hashes (c # bs) = content_hashes bs" by (auto simp: content_hashes_def)
    with Cons.IH [OF Cons.prems(1-4)] Cons.prems(5) True show ?thesis by simp
  next
    case False
    let ?h = "BlobHash' c"
    from False Cons.prems(5) have len: "0 < Length c" by simp
    from insertBlob_ok [OF Cons.prems(1-3) len assms, of ?h False] obtain t1 where
      t1: "insertBlob dup ?h (Length c) False s = (Ret (Inr (the (id_of t1 ?h))), s\<lparr>conn := Some t1\<rparr>)" "adds ?h False t t1"
      by blast
    then obtain j where j: "id_of t1 ?h = Some j" by (auto simp: adds_def)
    have str: "t_stream t1 = t_stream t" "db_wf t1" "t_stream_blob t1 = t_stream_blob t" using t1(2) by (auto simp: adds_def)
    with Cons.prems(4) have i: "i \<in> s_id ` set (t_stream t1)" by simp
    from insert_link [OF str(2) i j, of "BlobNum c"] obtain t2 where
      t2: "stmt_insert_stream_blob i j (BlobNum c) t1 = (Inr 0, t2)" "db_wf t2" "links t2 = insert (i, j) (links t1)"
        "t_stream t2 = t_stream t1" "t_blob t2 = t_blob t1"
      by blast
    have e: "exec q (stmt_insert_stream_blob i j (BlobNum c)) (s\<lparr>conn := Some t1\<rparr>) = (Ret (Inr 0), s\<lparr>conn := Some t2\<rparr>)" for q
      using exec_ok [of "s\<lparr>conn := Some t1\<rparr>" t1 "stmt_insert_stream_blob i j (BlobNum c)" 0 t2 q] t2(1) Cons.prems(2) by simp
    have "\<exists>t'. add_content_blobs dup i bs (s\<lparr>conn := Some t2\<rparr>) = (Ret None, (s\<lparr>conn := Some t2\<rparr>)\<lparr>conn := Some t'\<rparr>)
        \<and> added_content i (content_hashes bs) t2 t'"
      using Cons.prems(2,4,5) t2(2,4) str(1) by (intro Cons.IH) simp_all
    then obtain t' where
      t': "add_content_blobs dup i bs (s\<lparr>conn := Some t2\<rparr>) = (Ret None, s\<lparr>conn := Some t'\<rparr>)" "added_content i (content_hashes bs) t2 t'"
      by auto
    have "added_content i (content_hashes (c # bs)) t t'"
      by (rule added_content_step [OF t'(2) t1(2) t2(2,3,4) j False same_blob_views [OF t2(5)]])
    with t1(1) j e t'(1) False show ?thesis
      by (intro exI [of _ t']) (simp add: bnd_def)
  qed
qed


section \<open>Adding a stream\<close>

lemma insertStream_new:
  assumes s: "conn s = Some t" "db_faults s = []" and wf: "db_wf t" and new: "hash \<notin> s_hash ` set (t_stream t)"
    and sd: "id_of t sdHash = Some j"
  shows "\<exists>t' st. insertStream hash j s = (Ret (Inr (s_id st)), s\<lparr>conn := Some t'\<rparr>) \<and> db_wf t' \<and> t_blob t' = t_blob t
     \<and> t_stream_blob t' = t_stream_blob t \<and> t_stream t' = t_stream t @ [st] \<and> s_sd_blob_id st = j \<and> s_id st \<notin> s_id ` set (t_stream t)"
proof -
  let ?acc = "if TrackAccess s = TrackAccessStreams then Some (now s) else None"
  let ?st = "\<lparr>s_id = next_stream t, s_hash = hash, s_sd_blob_id = j, s_accessed = ?acc\<rparr>"
  let ?t = "t\<lparr>t_stream := t_stream t @ [?st], next_stream := next_stream t + 1\<rparr>"
  have j: "j \<in> b_id ` set (t_blob t)" using sd by (auto simp: id_of_def dest!: find_blob_Some)
  have r: "stmt_insert_stream hash j ?acc t = (Inr (next_stream t), ?t)"
    using new j by (simp add: stmt_insert_stream_def)
  have "db_wf ?t" using insert_stream_wf wf r by (metis keeps_wf_def snd_conv)
  moreover have "next_stream t \<noteq> 0" "next_stream t \<notin> s_id ` set (t_stream t)"
    using wf by (auto simp: db_wf_def streams_ok_def)
  moreover have "exec q (stmt_insert_stream hash j ?acc) s = (Ret (Inr (next_stream t)), s\<lparr>conn := Some ?t\<rparr>)" for q
    using exec_ok [of s t "stmt_insert_stream hash j ?acc" "next_stream t" ?t q] s r by blast
  ultimately show ?thesis
    by (intro exI [of _ ?t] exI [of _ ?st]) (simp add: insertStream_def bnd_def get_st_def ret_def)
qed

text \<open>A blob that gets its first id gets one that no stream refers to.\<close>

lemma adds_fresh_id:
  assumes wf: "db_wf t" and a: "adds h b t t1" and j: "id_of t1 h = Some j" and st: "st \<in> set (t_stream t)"
    and f: "id_of t h \<noteq> Some (s_sd_blob_id st)"
  shows "s_sd_blob_id st \<noteq> j"
proof
  assume e: "s_sd_blob_id st = j"
  from wf st obtain x where x: "x \<in> set (t_blob t)" "b_id x = j" using e by (fastforce simp: db_wf_def streams_ok_def)
  have idx: "id_of t (b_hash x) = Some j" using find_blob_wf [OF wf x(1)] x(2) by (simp add: id_of_def)
  show False
  proof (cases "b_hash x = h")
    case True
    with idx f e show False by simp
  next
    case False
    with a idx have "id_of t1 (b_hash x) = Some j" by (simp add: adds_def)
    with id_of_inj [OF _ this j] a False show False by (simp add: adds_def)
  qed
qed

lemma AddSDBlob_ok:
  assumes s: "conn s = Some t" "db_faults s = []" and wf: "db_wf t" and dup: "dup_ok dup" and len: "0 < sdLen"
    and blobs: "\<forall>c \<in> set (Blobs sd). BlobHash' c \<noteq> [] \<longrightarrow> 0 < Length c"
    and new: "StreamHash sd \<notin> s_hash ` set (t_stream t)" "\<forall>st \<in> set (t_stream t). id_of t sdHash \<noteq> Some (s_sd_blob_id st)"
  shows "\<exists>s' m. AddSDBlob dup sdHash sdLen sd s = (Ret None, s') \<and> MissingBlobsForKnownStream sdHash s' = (Ret (Inr m), s')
     \<and> set m = {h \<in> content_hashes (Blobs sd). h \<noteq> sdHash \<and> stored_of t h \<noteq> Some True}"
proof -
  let ?H = "content_hashes (Blobs sd)"
  from insertBlob_ok [OF s wf len dup, of sdHash True] obtain t1 j where
    t1: "insertBlob dup sdHash sdLen True s = (Ret (Inr j), s\<lparr>conn := Some t1\<rparr>)" "adds sdHash True t t1" "id_of t1 sdHash = Some j"
    by (auto simp: adds_def)
  have a1: "db_wf t1" "t_stream t1 = t_stream t" "t_stream_blob t1 = t_stream_blob t" using t1(2) by (auto simp: adds_def)
  from insertStream_new [of "s\<lparr>conn := Some t1\<rparr>" t1 "StreamHash sd" sdHash j] s(2) a1 new(1) t1(3) obtain t2 st where
    t2: "insertStream (StreamHash sd) j (s\<lparr>conn := Some t1\<rparr>) = (Ret (Inr (s_id st)), s\<lparr>conn := Some t2\<rparr>)" "db_wf t2" "t_blob t2 = t_blob t1"
      "t_stream_blob t2 = t_stream_blob t1" "t_stream t2 = t_stream t1 @ [st]" "s_sd_blob_id st = j" "s_id st \<notin> s_id ` set (t_stream t1)"
    by auto
  note v2 = same_blob_views [OF t2(3)]
  from add_content_ok [OF dup, of "s\<lparr>conn := Some t2\<rparr>" t2 "s_id st" "Blobs sd"] s(2) t2(2,5) blobs obtain t3 where
    t3: "add_content_blobs dup (s_id st) (Blobs sd) (s\<lparr>conn := Some t2\<rparr>) = (Ret None, s\<lparr>conn := Some t3\<rparr>)" "added_content (s_id st) ?H t2 t3"
    by auto
  let ?s = "s\<lparr>conn := Some t3\<rparr>"
  have run: "AddSDBlob dup sdHash sdLen sd s = (Ret None, ?s)"
    using s t1(1) t2(1) t3(1) by (simp add: AddSDBlob_def bnd_def get_st_def)
  have q: "MissingBlobsForKnownStream sdHash ?s = (Ret (Inr (missing_rows sdHash t3)), ?s)"
    using conn_call_ok [of ?s t3] s(2) by (simp add: MissingBlobsForKnownStream_def bnd_def get_st_def)
  have wf3: "db_wf t3" and id3: "id_of t3 sdHash = Some j" and str3: "t_stream t3 = t_stream t @ [st]"
    using t3(2) t1(3) v2 t2(5) a1(2) by (auto simp: added_content_def)
  have st3: "stored_of t3 h = (if h = sdHash then Some True else if h \<in> ?H then Some (stored_of t h = Some True) else stored_of t h)" for h
    using t3(2) v2 t1(2) by (auto simp: added_content_def adds_def)
  have lk: "(s_id st, i) \<in> links t3 \<longleftrightarrow> (\<exists>h \<in> ?H. id_of t3 h = Some i)" for i
  proof -
    have "(s_id st, i) \<notin> links t2"
      using a1(1) t2(4,7) by (auto simp: links_def db_wf_def links_ok_def)
    with t3(2) show ?thesis by (auto simp: added_content_def)
  qed
  have old: "s' \<in> set (t_stream t) \<Longrightarrow> s_sd_blob_id s' \<noteq> j" for s'
    by (rule adds_fresh_id [OF wf t1(2,3)]) (use new(2) in auto)
  have "h \<in> set (missing_rows sdHash t3) \<longleftrightarrow> stored_of t3 h = Some False \<and> (\<exists>i. id_of t3 h = Some i \<and> (s_id st, i) \<in> links t3)" for h
    unfolding missing_rows_set [OF wf3] id3 str3 using old t2(6) by (auto; metis)
  moreover have "(\<exists>i. id_of t3 h = Some i \<and> (s_id st, i) \<in> links t3) \<longleftrightarrow> h \<in> ?H" for h
  proof -
    have "h \<in> ?H \<Longrightarrow> id_of t3 h \<noteq> None" using t3(2) by (simp add: added_content_def)
    then show ?thesis unfolding lk using id_of_inj [OF wf3] by blast
  qed
  ultimately have "h \<in> set (missing_rows sdHash t3) \<longleftrightarrow> stored_of t3 h = Some False \<and> h \<in> ?H" for h by simp
  then have "set (missing_rows sdHash t3) = {h \<in> ?H. h \<noteq> sdHash \<and> stored_of t h \<noteq> Some True}"
    unfolding set_eq_iff st3 by auto
  with run q show ?thesis by blast
qed

text \<open>
  C12. \<open>AddSDBlob\<close> makes the database know exactly what is missing: for a new stream on a working connection, it returns no error and
  \<open>MissingBlobsForKnownStream\<close> then lists exactly the content blobs of the stream that were not stored before. This
  holds for each access-tracking mode and for both answers the server may give for the id of an existing row.
\<close>

theorem AddSDBlob_missing_exact:
  assumes s: "conn s = Some t" "db_faults s = []" and wf: "db_wf t" and dup: "dup_ok dup" and len: "0 < sdLen"
    and blobs: "\<forall>c \<in> set (Blobs sd). BlobHash' c \<noteq> [] \<longrightarrow> 0 < Length c"
    and new: "StreamHash sd \<notin> s_hash ` set (t_stream t)" "\<forall>st \<in> set (t_stream t). id_of t sdHash \<noteq> Some (s_sd_blob_id st)"
  shows "\<exists>s' m. AddSDBlob dup sdHash sdLen sd s = (Ret None, s') \<and> MissingBlobsForKnownStream sdHash s' = (Ret (Inr m), s')
     \<and> set m = {h \<in> content_hashes (Blobs sd). h \<noteq> sdHash \<and> stored_of t h \<noteq> Some True}"
  using assms by (rule AddSDBlob_ok)

text \<open>A stream of two content blobs and a terminator.\<close>

definition example_sd :: SdBlob where
  "example_sd = \<lparr>StreamName = ''n'', Blobs = [\<lparr>Length = 3, BlobNum = 0, BlobHash' = ''a'', IV = []\<rparr>,
     \<lparr>Length = 4, BlobNum = 1, BlobHash' = ''b'', IV = []\<rparr>, \<lparr>Length = 0, BlobNum = 2, BlobHash' = [], IV = []\<rparr>],
     StreamType = ''lbryfile'', Key = [], SuggestedFileName = [], StreamHash = ''st''\<rparr>"

lemma empty_db_wf: "conn (empty_db tr fs) = Some t \<Longrightarrow> db_wf t"
  by (auto simp: empty_db_def db_wf_def blobs_ok_def streams_ok_def links_ok_def)

theorem AddSDBlob_missing_exact_witness:
  "\<exists>s' m. AddSDBlob (\<lambda>i. 0) ''sd'' 10 example_sd (empty_db TrackAccessBlobs []) = (Ret None, s')
     \<and> MissingBlobsForKnownStream ''sd'' s' = (Ret (Inr m), s') \<and> set m = {''a'', ''b''}"
proof -
  let ?s = "empty_db TrackAccessBlobs []"
  obtain t where t: "conn ?s = Some t" "t_stream t = []" "t_blob t = []" by (simp add: empty_db_def)
  have "{h \<in> content_hashes (Blobs example_sd). h \<noteq> ''sd'' \<and> stored_of t h \<noteq> Some True} = {''a'', ''b''}"
    by (auto simp: content_hashes_def example_sd_def stored_of_def find_blob_def t(3))
  moreover have "\<exists>s' m. AddSDBlob (\<lambda>i. 0) ''sd'' 10 example_sd ?s = (Ret None, s')
     \<and> MissingBlobsForKnownStream ''sd'' s' = (Ret (Inr m), s')
     \<and> set m = {h \<in> content_hashes (Blobs example_sd). h \<noteq> ''sd'' \<and> stored_of t h \<noteq> Some True}"
    by (rule AddSDBlob_missing_exact [OF t(1) _ empty_db_wf [OF t(1)]])
      (auto simp: t(2) empty_db_def dup_ok_def example_sd_def)
  ultimately show ?thesis by simp
qed

section \<open>Streams that cannot be added again\<close>

text \<open>
  Two sd blobs cannot describe the same stream: when the stream hash is known under another sd blob, \<open>AddSDBlob\<close> fails with
  \<open>sql: no rows\<close> after having marked the new sd blob as stored.
\<close>

theorem AddSDBlob_same_stream_fails:
  assumes s: "conn s = Some t" "db_faults s = []" and wf: "db_wf t" and dup: "dup_ok dup" and len: "0 < sdLen"
    and old: "StreamHash sd \<in> s_hash ` set (t_stream t)" "\<forall>st \<in> set (t_stream t). id_of t sdHash \<noteq> Some (s_sd_blob_id st)"
  shows "\<exists>s' t'. AddSDBlob dup sdHash sdLen sd s = (Ret (Some ErrNoRows), s') \<and> conn s' = Some t' \<and> stored_of t' sdHash = Some True"
proof -
  from insertBlob_ok [OF s wf len dup, of sdHash True] obtain t1 j where
    t1: "insertBlob dup sdHash sdLen True s = (Ret (Inr j), s\<lparr>conn := Some t1\<rparr>)" "adds sdHash True t t1" "id_of t1 sdHash = Some j"
    by (auto simp: adds_def)
  let ?s1 = "s\<lparr>conn := Some t1\<rparr>"
  have str: "t_stream t1 = t_stream t" and st: "stored_of t1 sdHash = Some True" using t1(2) by (auto simp: adds_def)
  have r: "stmt_insert_stream (StreamHash sd) j acc t1 = (Inr 0, t1)" for acc
    using old(1) str by (simp add: stmt_insert_stream_def)
  have e: "exec q (stmt_insert_stream (StreamHash sd) j acc) ?s1 = (Ret (Inr 0), ?s1)" for q acc
    using exec_ok [of ?s1 t1 "stmt_insert_stream (StreamHash sd) j acc" 0 t1 q] s(2) r by simp
  have none: "find (\<lambda>s. s_sd_blob_id s = j) (t_stream t1) = None"
    using adds_fresh_id [OF wf t1(2,3)] old(2) str by (auto simp: find_None_iff)
  have "conn_call (query (\<lambda>t. map_option s_id (find (\<lambda>s. s_sd_blob_id s = j) (t_stream t)))) ?s1 = (Ret (Inr None), ?s1)"
    using conn_call_ok [of ?s1 t1 "\<lambda>t. map_option s_id (find (\<lambda>s. s_sd_blob_id s = j) (t_stream t))"] s(2) none by simp
  with s t1(1) e st show ?thesis
    by (simp add: AddSDBlob_def insertStream_def bnd_def get_st_def ret_def)
qed

definition stream_db :: SQL where
  "stream_db = (empty_db TrackAccessNone [])\<lparr>conn := Some
     \<lparr>t_blob = [\<lparr>b_id = 1, b_hash = ''sd0'', b_stored = True, b_length = 5, b_accessed = None\<rparr>],
      t_stream = [\<lparr>s_id = 1, s_hash = ''st'', s_sd_blob_id = 1, s_accessed = None\<rparr>],
      t_stream_blob = [], t_blocked = [], next_blob = 2, next_stream = 2\<rparr>\<rparr>"

theorem AddSDBlob_same_stream_fails_witness:
  "\<exists>s'. AddSDBlob (\<lambda>i. i) ''sd'' 10 example_sd stream_db = (Ret (Some ErrNoRows), s')"
proof -
  obtain t where t: "conn stream_db = Some t" by (simp add: stream_db_def)
  have "\<exists>s' t'. AddSDBlob (\<lambda>i. i) ''sd'' 10 example_sd stream_db = (Ret (Some ErrNoRows), s') \<and> conn s' = Some t' \<and> stored_of t' ''sd'' = Some True"
    by (rule AddSDBlob_same_stream_fails [OF t])
      (use t in \<open>auto simp: stream_db_def empty_db_def db_wf_def blobs_ok_def streams_ok_def links_ok_def dup_ok_def example_sd_def id_of_def find_blob_def\<close>)
  then show ?thesis by blast
qed

section \<open>Deleting\<close>

lemma stored_known: "db_wf t \<Longrightarrow> stored_of t h \<noteq> Some True \<Longrightarrow> \<not> known tr t h"
  by (auto simp: known_def stored_of_def dest: find_blob_wf)

lemma find_blob_filter:
  "find_blob h' (t\<lparr>t_blob := filter (\<lambda>x. b_hash x \<noteq> h) (t_blob t), t_stream_blob := r\<rparr>) = (if h' = h then None else find_blob h' t)"
proof -
  have "find (\<lambda>b. b_hash b = h') (filter (\<lambda>x. b_hash x \<noteq> h) bs) = (if h' = h then None else find (\<lambda>b. b_hash b = h') bs)" for bs
    by (induction bs) auto
  from this [of "t_blob t"] show ?thesis by (auto simp: find_blob_def)
qed

lemma hard_delete_ok:
  assumes "db_wf t"
  shows "\<exists>t1 t2. stmt_delete_streams h t = (Inr 0, t1) \<and> stmt_delete_blob h t1 = (Inr 0, t2) \<and> db_wf t2
     \<and> (\<forall>h'. find_blob h' t2 = (if h' = h then None else find_blob h' t))"
proof (cases "find_blob h t")
  case None
  with assms show ?thesis by (auto simp: stmt_delete_streams_def stmt_delete_blob_def)
next
  case (Some b)
  let ?t1 = "snd (stmt_delete_streams h t)"
  have "t_blob ?t1 = t_blob t" by (simp add: stmt_delete_streams_def Some Let_def)
  then have f1: "find_blob h' ?t1 = find_blob h' t" for h' by (simp add: find_blob_def)
  have "\<not> list_ex (\<lambda>s. s_sd_blob_id s = b_id b) (t_stream ?t1)"
    by (auto simp: stmt_delete_streams_def Some list_ex_iff Let_def)
  then have d: "stmt_delete_blob h ?t1 = (Inr 0, ?t1\<lparr>t_blob := filter (\<lambda>x. b_hash x \<noteq> h) (t_blob ?t1),
        t_stream_blob := filter (\<lambda>r. sb_blob_id r \<noteq> b_id b) (t_stream_blob ?t1)\<rparr>)" (is "_ = (_, ?t2)")
    using f1 [of h] Some by (simp add: stmt_delete_blob_def)
  have "db_wf ?t2" using assms delete_streams_wf delete_blob_wf d by (metis keeps_wf_def snd_conv)
  moreover have "stmt_delete_streams h t = (Inr 0, ?t1)" by (simp add: stmt_delete_streams_def Some Let_def)
  ultimately show ?thesis using d f1 by (intro exI [of _ ?t1] exI [of _ ?t2]) (simp add: find_blob_filter)
qed

lemma SQL_Delete_ok:
  assumes s: "conn s = Some t" "db_faults s = []" and wf: "db_wf t"
  shows "\<exists>t'. SQL_Delete h s = (Ret None, s\<lparr>conn := Some t'\<rparr>) \<and> db_wf t' \<and> \<not> known tr t' h
     \<and> (\<forall>h'. h' \<noteq> h \<longrightarrow> id_of t' h' = id_of t h' \<and> stored_of t' h' = stored_of t h') \<and> (SoftDelete s \<or> id_of t' h = None)"
proof (cases "SoftDelete s")
  case True
  let ?t = "snd (stmt_soft_delete h t)"
  have e: "exec q (stmt_soft_delete h) s = (Ret (Inr 0), s\<lparr>conn := Some ?t\<rparr>)" for q
    by (rule exec_ok [OF s]) (simp add: stmt_soft_delete_def)
  have wf': "db_wf ?t" using wf soft_delete_wf by (simp add: keeps_wf_def)
  have f: "find_blob h' ?t = map_option (\<lambda>b. if b_hash b = h then b\<lparr>b_stored := False\<rparr> else b) (find_blob h' t)" for h'
    by (simp add: stmt_soft_delete_def find_map_blobs)
  have "stored_of ?t h \<noteq> Some True"
    by (cases "find_blob h t") (auto simp: stored_of_def f dest: find_blob_Some)
  moreover have "id_of ?t h' = id_of t h' \<and> stored_of ?t h' = stored_of t h'" if "h' \<noteq> h" for h'
    using that by (cases "find_blob h' t") (auto simp: id_of_def stored_of_def f dest: find_blob_Some)
  ultimately show ?thesis
    using True e wf' stored_known [OF wf'] by (intro exI [of _ ?t]) (simp add: SQL_Delete_def bnd_def get_st_def ret_def)
next
  case False
  from hard_delete_ok [OF wf, of h] obtain t1 t2 where
    d: "stmt_delete_streams h t = (Inr 0, t1)" "stmt_delete_blob h t1 = (Inr 0, t2)" "db_wf t2"
      "\<forall>h'. find_blob h' t2 = (if h' = h then None else find_blob h' t)"
    by blast
  have e1: "exec q (stmt_delete_streams h) s = (Ret (Inr 0), s\<lparr>conn := Some t1\<rparr>)" for q
    using exec_ok [of s t "stmt_delete_streams h"] s d(1) by simp
  have e2: "exec q (stmt_delete_blob h) (s\<lparr>conn := Some t1\<rparr>) = (Ret (Inr 0), s\<lparr>conn := Some t2\<rparr>)" for q
    using exec_ok [of "s\<lparr>conn := Some t1\<rparr>" t1 "stmt_delete_blob h"] s d(2) by simp
  have "stored_of t2 h \<noteq> Some True" using d(4) by (simp add: stored_of_def)
  with False e1 e2 d(3,4) stored_known [OF d(3)] show ?thesis
    by (intro exI [of _ t2]) (simp add: SQL_Delete_def bnd_def get_st_def ret_def id_of_def stored_of_def)
qed

text \<open>
  \<open>Delete\<close> forgets: on a working connection it returns no error in both modes, the blob is no longer reported as present, every other
  hash keeps its answer, and without soft deletion the row itself is gone (a foreign key never stops it).
\<close>

theorem SQL_Delete_forgets:
  assumes s: "conn s = Some t" "db_faults s = []" and wf: "db_wf t"
  shows "\<exists>t'. SQL_Delete h s = (Ret None, s\<lparr>conn := Some t'\<rparr>) \<and> db_wf t' \<and> \<not> known tr t' h
     \<and> (\<forall>h'. h' \<noteq> h \<longrightarrow> id_of t' h' = id_of t h' \<and> stored_of t' h' = stored_of t h') \<and> (SoftDelete s \<or> id_of t' h = None)"
  using assms by (rule SQL_Delete_ok)

theorem SQL_Delete_forgets_witness:
  "\<exists>t'. SQL_Delete ''sd0'' stream_db = (Ret None, stream_db\<lparr>conn := Some t'\<rparr>) \<and> id_of t' ''sd0'' = None"
proof -
  obtain t where t: "conn stream_db = Some t" by (simp add: stream_db_def)
  have "db_faults stream_db = []" "db_wf t" "\<not> SoftDelete stream_db"
    using t by (auto simp: stream_db_def empty_db_def db_wf_def blobs_ok_def streams_ok_def links_ok_def)
  with SQL_Delete_forgets [OF t, of "''sd0''" TrackAccessNone] show ?thesis by blast
qed

text \<open>
  With access tracking by stream a stored blob can be invisible: after a successful \<open>AddBlob\<close> of a stored blob, \<open>HasBlob\<close> denies it until some
  stream refers to it, although \<open>Count\<close> counts it.
\<close>

theorem HasBlob_needs_stream:
  "\<exists>s1. AddBlob dup h 5 True (empty_db TrackAccessStreams []) = (Ret None, s1)
     \<and> HasBlob h touch s1 = (Ret (False, None), s1) \<and> SQL_Count s1 = (Ret (1, None), s1)"
proof -
  let ?t = "\<lparr>t_blob = [\<lparr>b_id = 1, b_hash = h, b_stored = True, b_length = 5, b_accessed = None\<rparr>],
      t_stream = [], t_stream_blob = [], t_blocked = [], next_blob = 2, next_stream = 1\<rparr>"
  let ?s1 = "(empty_db TrackAccessStreams [])\<lparr>conn := Some ?t\<rparr>"
  have "exec q (stmt_insert_blob dup h 5 True None) (empty_db TrackAccessStreams []) = (Ret (Inr 1), ?s1)" for q
    using exec_ok [of "empty_db TrackAccessStreams []"
        "\<lparr>t_blob = [], t_stream = [], t_stream_blob = [], t_blocked = [], next_blob = 1, next_stream = 1\<rparr>"
        "stmt_insert_blob dup h 5 True None" 1 ?t q]
    by (simp add: empty_db_def stmt_insert_blob_def find_blob_def)
  then have "AddBlob dup h 5 True (empty_db TrackAccessStreams []) = (Ret None, ?s1)"
    by (simp add: AddBlob_def insertBlob_def bnd_def get_st_def ret_def) (simp add: empty_db_def bnd_def ret_def)
  moreover have "HasBlob h touch ?s1 = (Ret (False, None), ?s1)"
  proof -
    have "batches_of batch_size [h] = [[h]]"
      unfolding batches_of.simps [of batch_size "[h]"] by (simp add: batch_size_def batches_of.simps [of _ "[]"])
    then show ?thesis
      by (cases touch) (simp_all add: HasBlob_def HasBlobs_def hasBlobs_def bnd_def get_st_def ret_def
        empty_db_def conn_call_def query_def has_rows_def left_join_def touchStreams_def)
  qed
  moreover have "SQL_Count ?s1 = (Ret (1, None), ?s1)"
    by (simp add: SQL_Count_def bnd_def get_st_def ret_def empty_db_def conn_call_def query_def)
  ultimately show ?thesis by blast
qed

end
