(* ===== verification/Mem_Store.thy ===== *)
theory Mem_Store
  imports Store_Spec
begin

text \<open>
  \<open>MemStore\<close> (src/store/memory.go), a map behind a lock, and \<open>NoopStore\<close> (src/store/noop.go). Each
  method of \<open>MemStore\<close> holds the lock for its whole body, so a call is one atomic step.
\<close>

section \<open>MemStore\<close>

record MemStore =
  blobs :: content

definition NewMemStore :: MemStore where
  "NewMemStore = \<lparr>blobs = Map.empty\<rparr>"

definition nameMem :: string where
  "nameMem = ''mem''"

definition MemStore_Has :: "string \<Rightarrow> (MemStore, bool \<times> go_error option) op" where
  "MemStore_Has hash m = (Ret (blobs m hash \<noteq> None, None), m)"

definition MemStore_Get :: "call_env \<Rightarrow> string \<Rightarrow> (MemStore, bytes \<times> BlobTrace \<times> go_error option) op" where
  "MemStore_Get e hash m =
     (case blobs m hash of
        None \<Rightarrow> (Ret ([], NewBlobTrace e nameMem, Some ErrBlobNotFound), m)
      | Some blob \<Rightarrow> (Ret (blob, NewBlobTrace e nameMem, None), m))"

definition MemStore_Put :: "string \<Rightarrow> bytes \<Rightarrow> (MemStore, go_error option) op" where
  "MemStore_Put hash blob m = (Ret None, m\<lparr>blobs := (blobs m)(hash \<mapsto> blob)\<rparr>)"

definition MemStore_PutSD :: "string \<Rightarrow> bytes \<Rightarrow> (MemStore, go_error option) op" where
  "MemStore_PutSD hash blob = MemStore_Put hash blob"

definition MemStore_Delete :: "string \<Rightarrow> (MemStore, go_error option) op" where
  "MemStore_Delete hash m = (Ret None, m\<lparr>blobs := (blobs m)(hash := None)\<rparr>)"

definition MemStore_Debug :: "MemStore \<Rightarrow> content" where
  "MemStore_Debug m = blobs m"

definition MemStore_ops :: "MemStore BlobStore" where
  "MemStore_ops =
     \<lparr>bs_Name = nameMem, bs_Has = MemStore_Has, bs_Get = MemStore_Get, bs_Put = MemStore_Put,
      bs_PutSD = MemStore_PutSD, bs_Delete = MemStore_Delete, bs_Shutdown = ret ()\<rparr>"

section \<open>NoopStore\<close>

definition nameNoop :: string where
  "nameNoop = ''noop''"

definition NoopStore_Has :: "string \<Rightarrow> (unit, bool \<times> go_error option) op" where
  "NoopStore_Has hash = ret (False, None)"

definition NoopStore_Get :: "call_env \<Rightarrow> string \<Rightarrow> (unit, bytes \<times> BlobTrace \<times> go_error option) op" where
  "NoopStore_Get e hash = ret ([], NewBlobTrace e nameNoop, None)"

definition NoopStore_Put :: "string \<Rightarrow> bytes \<Rightarrow> (unit, go_error option) op" where
  "NoopStore_Put hash blob = ret None"

definition NoopStore_Delete :: "string \<Rightarrow> (unit, go_error option) op" where
  "NoopStore_Delete hash = ret None"

definition NoopStore_ops :: "unit BlobStore" where
  "NoopStore_ops =
     \<lparr>bs_Name = nameNoop, bs_Has = NoopStore_Has, bs_Get = NoopStore_Get, bs_Put = NoopStore_Put,
      bs_PutSD = NoopStore_Put, bs_Delete = NoopStore_Delete, bs_Shutdown = ret ()\<rparr>"

section \<open>Properties\<close>

lemmas MemStore_defs =
  MemStore_ops_def MemStore_Has_def MemStore_Get_def MemStore_Put_def MemStore_PutSD_def MemStore_Delete_def

interpretation mem: live_store MemStore_ops "\<lambda>_. True" blobs "\<lambda>_. True" "\<lambda>_ _. True" "\<lambda>_ _. True"
  by unfold_locales (auto simp: MemStore_defs)

definition mem_good :: "(string \<Rightarrow> bytes \<Rightarrow> bool) \<Rightarrow> MemStore \<Rightarrow> bool" where
  "mem_good good m \<longleftrightarrow> (\<forall>h b. blobs m h = Some b \<longrightarrow> good h b)"

interpretation mem_safe: safe_store MemStore_ops "mem_good good" good for good
  by unfold_locales
    (auto simp: MemStore_defs keeps_ret_def mem_good_def split: option.splits if_splits)

text \<open>
  A memory store behaves as a map: whatever sequence of \<open>Has\<close>, \<open>Get\<close>, \<open>Put\<close>, \<open>PutSD\<close> and
  \<open>Delete\<close> calls a client makes on a new store, every answer is the one a plain map gives, a
  missing blob is answered with \<open>ErrBlobNotFound\<close>, and no call fails or panics.
\<close>

theorem MemStore_refines_map:
  "ref_trace cs Map.empty (fst (run_calls MemStore_ops cs NewMemStore)) \<and>
   blobs (snd (run_calls MemStore_ops cs NewMemStore)) = fold ref_call cs Map.empty"
proof -
  obtain os s' where r: "run_calls MemStore_ops cs NewMemStore = (os, s')" by fastforce
  have "\<forall>c \<in> set cs. call_ok (\<lambda>_. True) (\<lambda>_ _. True) (\<lambda>_ _. True) c"
  proof
    fix c
    show "call_ok (\<lambda>_. True) (\<lambda>_ _. True) (\<lambda>_ _. True) c" by (cases c) auto
  qed
  from mem.run_calls_refines [OF _ this r] r show ?thesis by (simp add: NewMemStore_def)
qed

text \<open>
  \<open>NoopStore\<close> does not keep the interface's promise that \<open>Get\<close> returns \<open>ErrBlobNotFound\<close> for a
  blob that is not in the store: \<open>Has\<close> denies every hash while \<open>Get\<close> succeeds with no data.
\<close>

theorem NoopStore_Get_not_ErrBlobNotFound:
  "bs_Has NoopStore_ops hash s = (Ret (False, None), s) \<and>
   (\<exists>tr. bs_Get NoopStore_ops e hash s = (Ret ([], tr, None), s))"
  by (simp add: NoopStore_ops_def NoopStore_Has_def NoopStore_Get_def ret_def)

end
