(* ===== verification/Caching_Store.thy ===== *)
theory Caching_Store
  imports Mem_Store
begin

text \<open>
  The combining stores: \<open>singleflightStore\<close> (src/store/singleflight.go), \<open>CachingStore\<close>
  (src/store/caching.go) and \<open>ITTTStore\<close> (src/store/ittt.go).

  The group of golang.org/x/sync/singleflight is a parameter \<open>sfdo\<close>: \<open>sf.Do(key, fn)\<close> either runs
  \<open>fn\<close> or waits for a call in flight with the same key and returns that call's result. With no
  other call in flight it runs \<open>fn\<close> (hypothesis \<open>sfdo key f = f\<close> of the locales below).
  Prometheus counters and log lines are left out.
\<close>

section \<open>singleflightStore\<close>

text \<open>The \<open>interface{}\<close> values that pass through the group: a \<open>getterResponse\<close>, or nil.\<close>

datatype sf_value = getterResponse bytes BlobTrace | NilValue

type_synonym 's sf_group = "string \<Rightarrow> ('s, sf_value \<times> go_error option) op \<Rightarrow> ('s, sf_value \<times> go_error option) op"

definition singleflightStore_Name :: "'s BlobStore \<Rightarrow> string" where
  "singleflightStore_Name st = ''sf_'' @ bs_Name st"

definition singleflightStore_getter :: "'s BlobStore \<Rightarrow> call_env \<Rightarrow> string \<Rightarrow> ('s, sf_value \<times> go_error option) op" where
  "singleflightStore_getter st e hash =
     bnd (bs_Get st (env_l e) hash) (\<lambda>(blob, stack, err).
       case err of
         Some x \<Rightarrow> ret (getterResponse [] (BlobTrace_Stack e (singleflightStore_Name st) stack), Some x)
       | None \<Rightarrow> ret (getterResponse blob (BlobTrace_Stack e (singleflightStore_Name st) stack), None))"

definition singleflightStore_Get ::
  "'s sf_group \<Rightarrow> 's BlobStore \<Rightarrow> call_env \<Rightarrow> string \<Rightarrow> ('s, bytes \<times> BlobTrace \<times> go_error option) op" where
  "singleflightStore_Get sfdo st e hash =
     bnd (sfdo hash (singleflightStore_getter st (env_l e) hash)) (\<lambda>(gr, err).
       case err of
         Some x \<Rightarrow> ret ([], NewBlobTrace e (singleflightStore_Name st), Some x)
       | None \<Rightarrow>
           (case gr of
              NilValue \<Rightarrow> ret ([], NewBlobTrace e (singleflightStore_Name st), Some (Msg ''getter response is nil''))
            | getterResponse blob stack \<Rightarrow> ret (blob, stack, None)))"

definition singleflightStore_putter :: "'s BlobStore \<Rightarrow> string \<Rightarrow> bytes \<Rightarrow> ('s, sf_value \<times> go_error option) op" where
  "singleflightStore_putter st hash blob =
     bnd (bs_Put st hash blob) (\<lambda>err. case err of Some x \<Rightarrow> ret (NilValue, Some x) | None \<Rightarrow> ret (NilValue, None))"

definition singleflightStore_Put :: "'s sf_group \<Rightarrow> 's BlobStore \<Rightarrow> string \<Rightarrow> bytes \<Rightarrow> ('s, go_error option) op" where
  "singleflightStore_Put sfdo st hash blob =
     bnd (sfdo hash (singleflightStore_putter st hash blob)) (\<lambda>(v, err).
       case err of Some x \<Rightarrow> ret (Some x) | None \<Rightarrow> ret None)"

text \<open>\<open>Has\<close>, \<open>PutSD\<close> and \<open>Delete\<close> are those of the embedded store.\<close>

definition WithSingleFlight :: "'s sf_group \<Rightarrow> 's BlobStore \<Rightarrow> 's BlobStore" where
  "WithSingleFlight sfdo st =
     st\<lparr>bs_Name := singleflightStore_Name st, bs_Get := singleflightStore_Get sfdo st,
        bs_Put := singleflightStore_Put sfdo st, bs_Shutdown := bs_Shutdown st\<rparr>"

section \<open>CachingStore\<close>

definition nameCaching :: string where
  "nameCaching = ''caching''"

text \<open>The state of a \<open>CachingStore\<close> is the origin's state and the cache's state.\<close>

definition CachingStore_Has :: "'a BlobStore \<Rightarrow> 'b BlobStore \<Rightarrow> string \<Rightarrow> ('a \<times> 'b, bool \<times> go_error option) op" where
  "CachingStore_Has origin cache hash =
     bnd (on_snd (bs_Has cache hash)) (\<lambda>(has, err).
       if has \<or> err \<noteq> None then ret (has, err) else on_fst (bs_Has origin hash))"

definition CachingStore_Get ::
  "'a BlobStore \<Rightarrow> 'b BlobStore \<Rightarrow> call_env \<Rightarrow> string \<Rightarrow> ('a \<times> 'b, bytes \<times> BlobTrace \<times> go_error option) op" where
  "CachingStore_Get origin cache e hash =
     bnd (on_snd (bs_Get cache (env_l e) hash)) (\<lambda>(blob, trace, err).
       if err = None \<or> \<not> err_not_found err
       then ret (blob, BlobTrace_Stack e nameCaching trace, err)
       else
         bnd (on_fst (bs_Get origin (env_r e) hash)) (\<lambda>(blob, trace, err).
           if err \<noteq> None then ret ([], BlobTrace_Stack e nameCaching trace, err)
           else bnd (on_snd (bs_Put cache hash blob)) (\<lambda>_.
             ret (blob, BlobTrace_Stack e nameCaching trace, None))))"

definition CachingStore_Put :: "'a BlobStore \<Rightarrow> 'b BlobStore \<Rightarrow> string \<Rightarrow> bytes \<Rightarrow> ('a \<times> 'b, go_error option) op" where
  "CachingStore_Put origin cache hash blob =
     bnd (on_fst (bs_Put origin hash blob)) (\<lambda>err.
       if err \<noteq> None then ret err else on_snd (bs_Put cache hash blob))"

definition CachingStore_PutSD :: "'a BlobStore \<Rightarrow> 'b BlobStore \<Rightarrow> string \<Rightarrow> bytes \<Rightarrow> ('a \<times> 'b, go_error option) op" where
  "CachingStore_PutSD origin cache hash blob =
     bnd (on_fst (bs_PutSD origin hash blob)) (\<lambda>err.
       if err \<noteq> None then ret err else on_snd (bs_PutSD cache hash blob))"

definition CachingStore_Delete :: "'a BlobStore \<Rightarrow> 'b BlobStore \<Rightarrow> string \<Rightarrow> ('a \<times> 'b, go_error option) op" where
  "CachingStore_Delete origin cache hash =
     bnd (on_fst (bs_Delete origin hash)) (\<lambda>err.
       if err \<noteq> None then ret err else on_snd (bs_Delete cache hash))"

definition CachingStore_Shutdown :: "'a BlobStore \<Rightarrow> 'b BlobStore \<Rightarrow> ('a \<times> 'b, unit) op" where
  "CachingStore_Shutdown origin cache =
     bnd (on_fst (bs_Shutdown origin)) (\<lambda>_. on_snd (bs_Shutdown cache))"

text \<open>The method table for given origin and cache fields.\<close>

definition CachingStore_ops :: "'a BlobStore \<Rightarrow> 'b BlobStore \<Rightarrow> ('a \<times> 'b) BlobStore" where
  "CachingStore_ops origin cache =
     \<lparr>bs_Name = nameCaching, bs_Has = CachingStore_Has origin cache, bs_Get = CachingStore_Get origin cache,
      bs_Put = CachingStore_Put origin cache, bs_PutSD = CachingStore_PutSD origin cache,
      bs_Delete = CachingStore_Delete origin cache, bs_Shutdown = CachingStore_Shutdown origin cache\<rparr>"

definition NewCachingStore ::
  "'a sf_group \<Rightarrow> 'b sf_group \<Rightarrow> 'a BlobStore \<Rightarrow> 'b BlobStore \<Rightarrow> ('a \<times> 'b) BlobStore" where
  "NewCachingStore sfo sfc origin cache =
     CachingStore_ops (WithSingleFlight sfo origin) (WithSingleFlight sfc cache)"

section \<open>ITTTStore\<close>

definition nameIttt :: string where
  "nameIttt = ''ittt''"

definition ITTTStore_Has :: "'a BlobStore \<Rightarrow> 'b BlobStore \<Rightarrow> string \<Rightarrow> ('a \<times> 'b, bool \<times> go_error option) op" where
  "ITTTStore_Has this that hash =
     bnd (on_fst (bs_Has this hash)) (\<lambda>(has, err).
       if err \<noteq> None \<or> \<not> has then on_snd (bs_Has that hash) else ret (has, err))"

definition ITTTStore_Get ::
  "'a BlobStore \<Rightarrow> 'b BlobStore \<Rightarrow> call_env \<Rightarrow> string \<Rightarrow> ('a \<times> 'b, bytes \<times> BlobTrace \<times> go_error option) op" where
  "ITTTStore_Get this that e hash =
     bnd (on_fst (bs_Get this (env_l e) hash)) (\<lambda>(blob, trace, err).
       if err = None then ret (blob, BlobTrace_Stack e nameIttt trace, err)
       else
         bnd (on_snd (bs_Get that (env_r e) hash)) (\<lambda>(blob, trace, err).
           if err \<noteq> None then ret ([], BlobTrace_Stack e nameIttt trace, err)
           else ret (blob, BlobTrace_Stack e nameIttt trace, None)))"

definition ITTTStore_Put :: "string \<Rightarrow> bytes \<Rightarrow> ('a \<times> 'b, go_error option) op" where
  "ITTTStore_Put hash blob = ret (Some ErrNotImplemented)"

definition ITTTStore_PutSD :: "string \<Rightarrow> bytes \<Rightarrow> ('a \<times> 'b, go_error option) op" where
  "ITTTStore_PutSD hash blob = ret (Some ErrNotImplemented)"

definition ITTTStore_Delete :: "string \<Rightarrow> ('a \<times> 'b, go_error option) op" where
  "ITTTStore_Delete hash = ret (Some ErrNotImplemented)"

definition NewITTTStore :: "'a BlobStore \<Rightarrow> 'b BlobStore \<Rightarrow> ('a \<times> 'b) BlobStore" where
  "NewITTTStore this that =
     \<lparr>bs_Name = nameIttt, bs_Has = ITTTStore_Has this that, bs_Get = ITTTStore_Get this that,
      bs_Put = ITTTStore_Put, bs_PutSD = ITTTStore_PutSD, bs_Delete = ITTTStore_Delete, bs_Shutdown = ret ()\<rparr>"

section \<open>Single flight with no other call in flight\<close>

lemmas sf_defs =
  WithSingleFlight_def singleflightStore_Get_def singleflightStore_getter_def
  singleflightStore_Put_def singleflightStore_putter_def

lemma WithSingleFlight_sel [simp]:
  "bs_Has (WithSingleFlight d st) = bs_Has st" "bs_PutSD (WithSingleFlight d st) = bs_PutSD st"
  "bs_Delete (WithSingleFlight d st) = bs_Delete st" "bs_Shutdown (WithSingleFlight d st) = bs_Shutdown st"
  "bs_Get (WithSingleFlight d st) = singleflightStore_Get d st"
  "bs_Put (WithSingleFlight d st) = singleflightStore_Put d st"
  by (simp_all add: WithSingleFlight_def)

lemma sf_Put_alone: "(\<And>k f. sfdo k f = f) \<Longrightarrow> singleflightStore_Put sfdo st = bs_Put st"
  by (intro ext) (auto simp: sf_defs bnd_def ret_def split: prod.splits outcome.splits option.splits)

lemma sf_Get_alone_ok:
  "(\<And>k f. sfdo k f = f) \<Longrightarrow> bs_Get st (env_l (env_l e)) h s = (Ret (b, tr, None), s') \<Longrightarrow>
   \<exists>tr'. singleflightStore_Get sfdo st e h s = (Ret (b, tr', None), s')"
  by (simp add: sf_defs bnd_def ret_def)

lemma sf_Get_alone_err:
  "(\<And>k f. sfdo k f = f) \<Longrightarrow> bs_Get st (env_l (env_l e)) h s = (Ret (b, tr, Some x), s') \<Longrightarrow>
   \<exists>tr'. singleflightStore_Get sfdo st e h s = (Ret ([], tr', Some x), s')"
  by (simp add: sf_defs bnd_def ret_def)

locale sf_ro = ro_store st inv content vh
  for st :: "'s BlobStore" and inv content vh +
  fixes sfdo :: "'s sf_group"
  assumes alone: "sfdo k f = f"

sublocale sf_ro \<subseteq> sf: ro_store "WithSingleFlight sfdo st" inv content vh
proof unfold_locales
  fix s h e b
  assume s: "inv s" and h: "vh h"
  show "\<exists>s'. bs_Has (WithSingleFlight sfdo st) h s = (Ret (content s h \<noteq> None, None), s') \<and> inv s' \<and> content s' = content s"
    using Has_spec [OF s h] by simp
  show "\<exists>tr s'. bs_Get (WithSingleFlight sfdo st) e h s = (Ret (b, tr, None), s') \<and> inv s' \<and> content s' = content s"
    if "content s h = Some b"
    using Get_hit [OF s h that, of "env_l (env_l e)"] sf_Get_alone_ok [where sfdo = sfdo and st = st, OF alone]
    by fastforce
  show "\<exists>tr x s'. bs_Get (WithSingleFlight sfdo st) e h s = (Ret ([], tr, Some x), s') \<and> not_found x \<and> inv s' \<and> content s' = content s"
    if "content s h = None"
    using Get_miss [OF s h that, of "env_l (env_l e)"] sf_Get_alone_err [where sfdo = sfdo and st = st, OF alone]
    by fastforce
qed

locale sf_live = sf_ro st inv content vh sfdo + live_store st inv content vh addr sdaddr
  for st :: "'s BlobStore" and inv content vh addr sdaddr sfdo

sublocale sf_live \<subseteq> sf: live_store "WithSingleFlight sfdo st" inv content vh addr sdaddr
proof unfold_locales
  fix s h b
  assume s: "inv s" and h: "vh h"
  show "\<exists>s'. bs_Put (WithSingleFlight sfdo st) h b s = (Ret None, s') \<and> inv s' \<and> content s' = (content s)(h \<mapsto> b)"
    if "addr h b"
    using Put_spec [OF s h that] by (simp add: sf_Put_alone alone)
  show "\<exists>s'. bs_PutSD (WithSingleFlight sfdo st) h b s = (Ret None, s') \<and> inv s' \<and> content s' = (content s)(h \<mapsto> b)"
    if "sdaddr h b"
    using PutSD_spec [OF s h that] by simp
  show "\<exists>s'. bs_Delete (WithSingleFlight sfdo st) h s = (Ret None, s') \<and> inv s' \<and> content s' = (content s)(h := None)"
    using Delete_spec [OF s h] by simp
qed

locale sf_lossy = lossy_store st inv content vh addr sdaddr
  for st :: "'s BlobStore" and inv content vh addr sdaddr +
  fixes sfdo :: "'s sf_group"
  assumes alone: "sfdo k f = f"

sublocale sf_lossy \<subseteq> sf: lossy_store "WithSingleFlight sfdo st" inv content vh addr sdaddr
proof unfold_locales
  fix s h e b
  assume s: "inv s" and h: "vh h"
  show "\<exists>b s'. bs_Has (WithSingleFlight sfdo st) h s = (Ret (b, None), s') \<and> (b \<longrightarrow> content s h \<noteq> None) \<and> inv s' \<and> content s' \<subseteq>\<^sub>m content s"
    using lossy_Has [OF s h] by simp
  show "\<exists>b tr x s'. bs_Get (WithSingleFlight sfdo st) e h s = (Ret (b, tr, x), s') \<and> inv s' \<and> content s' \<subseteq>\<^sub>m content s
        \<and> (x = None \<and> content s h = Some b \<or> err_not_found x)"
    using lossy_Get [OF s h, of "env_l (env_l e)"]
      sf_Get_alone_ok [where sfdo = sfdo and st = st and e = e and h = h and s = s, OF alone]
      sf_Get_alone_err [where sfdo = sfdo and st = st and e = e and h = h and s = s, OF alone]
    by (auto; fastforce)
  show "\<exists>s'. bs_Put (WithSingleFlight sfdo st) h b s = (Ret None, s') \<and> inv s' \<and> content s' \<subseteq>\<^sub>m (content s)(h \<mapsto> b)"
    if "addr h b"
    using lossy_Put [OF s h that] by (simp add: sf_Put_alone alone)
  show "\<exists>s'. bs_PutSD (WithSingleFlight sfdo st) h b s = (Ret None, s') \<and> inv s' \<and> content s' \<subseteq>\<^sub>m (content s)(h \<mapsto> b)"
    if "sdaddr h b"
    using lossy_PutSD [OF s h that] by simp
  show "\<exists>s'. bs_Delete (WithSingleFlight sfdo st) h s = (Ret None, s') \<and> inv s' \<and> content s' \<subseteq>\<^sub>m (content s)(h := None)"
    using lossy_Delete [OF s h] by simp
qed

end
