(* ===== verification/Caching_Correct.thy ===== *)
theory Caching_Correct
  imports Caching_Store
begin

text \<open>
  What the combining stores of \<open>Caching_Store\<close> guarantee. A cache over an origin implements the
  origin's contract as long as the cache agrees with the origin wherever it holds something;
  every operation keeps that agreement. Integrity is kept under every error. An \<open>ITTTStore\<close>
  implements the union of its two stores, the first winning.
\<close>

section \<open>Cache over origin\<close>

definition coherent :: "content \<Rightarrow> content \<Rightarrow> bool" where
  "coherent c m \<longleftrightarrow> c \<subseteq>\<^sub>m m"

lemma coherent_less: "coherent c m \<Longrightarrow> c' \<subseteq>\<^sub>m c \<Longrightarrow> coherent c' m"
  by (auto simp: coherent_def intro: map_le_trans)

lemma coherent_upd: "coherent c m \<Longrightarrow> c' \<subseteq>\<^sub>m c(h := x) \<Longrightarrow> coherent c' (m(h := x))"
  by (auto simp: coherent_def map_le_def dom_def split: if_splits; metis)

lemma coherent_fill: "coherent c m \<Longrightarrow> m h = Some b \<Longrightarrow> c' \<subseteq>\<^sub>m c(h \<mapsto> b) \<Longrightarrow> coherent c' m"
  using coherent_upd [of c m c' h "Some b"] by (simp add: map_upd_triv)

lemma coherentD: "coherent c m \<Longrightarrow> c h = Some b \<Longrightarrow> m h = Some b"
  by (auto simp: coherent_def map_le_def dom_def)

locale ro_caching =
  o: ro_store origin oinv ocontent vh +
  c: lossy_store cache cinv ccontent vh caddr csdaddr
  for origin :: "'a BlobStore" and oinv ocontent
    and cache :: "'b BlobStore" and cinv ccontent
    and vh caddr csdaddr
begin

text \<open>
  The invariant: the cache agrees with the origin, and the cache accepts every blob of the
  origin (it is filled on a miss).
\<close>

definition cs_inv :: "'a \<times> 'b \<Rightarrow> bool" where
  "cs_inv s \<longleftrightarrow> oinv (fst s) \<and> cinv (snd s) \<and> coherent (ccontent (snd s)) (ocontent (fst s))
     \<and> (\<forall>h b. ocontent (fst s) h = Some b \<longrightarrow> caddr h b)"

abbreviation cs_content :: "'a \<times> 'b \<Rightarrow> content" where
  "cs_content s \<equiv> ocontent (fst s)"

lemma Has_ok:
  assumes s: "cs_inv s" and h: "vh h"
  shows "\<exists>s'. CachingStore_Has origin cache h s = (Ret (cs_content s h \<noteq> None, None), s')
           \<and> cs_inv s' \<and> cs_content s' = cs_content s"
proof -
  obtain so sc where ss: "s = (so, sc)" by (cases s)
  from s have inv: "oinv so" "cinv sc" "coherent (ccontent sc) (ocontent so)"
      "\<forall>h b. ocontent so h = Some b \<longrightarrow> caddr h b"
    by (auto simp: cs_inv_def ss)
  from c.lossy_Has [OF inv(2) h] obtain b sc' where
    C: "bs_Has cache h sc = (Ret (b, None), sc')" "b \<longrightarrow> ccontent sc h \<noteq> None" "cinv sc'" "ccontent sc' \<subseteq>\<^sub>m ccontent sc"
    by blast
  from o.Has_spec [OF inv(1) h] obtain so' where
    O: "bs_Has origin h so = (Ret (ocontent so h \<noteq> None, None), so')" "oinv so'" "ocontent so' = ocontent so"
    by blast
  from inv C have coh: "coherent (ccontent sc') (ocontent so)" by (blast intro: coherent_less)
  show ?thesis
  proof (cases b)
    case True
    with C(2) inv(3) have "ocontent so h \<noteq> None" by (auto dest: coherentD)
    with True C coh inv show ?thesis
      by (auto simp: CachingStore_Has_def ss cs_inv_def ret_def)
  next
    case False
    with C O coh inv show ?thesis
      by (auto simp: CachingStore_Has_def ss cs_inv_def)
  qed
qed

text \<open>The three ways a \<open>Get\<close> can go: a cache hit, a miss filled from the origin, a miss in both.\<close>

lemma Get_ok:
  assumes s: "cs_inv s" and h: "vh h"
  shows "\<exists>b tr x s'. CachingStore_Get origin cache e h s = (Ret (b, tr, x), s')
           \<and> cs_inv s' \<and> cs_content s' = cs_content s
           \<and> (case cs_content s h of Some b' \<Rightarrow> b = b' \<and> x = None | None \<Rightarrow> b = [] \<and> err_not_found x)"
proof -
  obtain so sc where ss: "s = (so, sc)" by (cases s)
  from s have inv: "oinv so" "cinv sc" "coherent (ccontent sc) (ocontent so)"
      "\<forall>h b. ocontent so h = Some b \<longrightarrow> caddr h b"
    by (auto simp: cs_inv_def ss)
  from c.lossy_Get [OF inv(2) h, of "env_l e"] obtain b tr x sc' where
    C: "bs_Get cache (env_l e) h sc = (Ret (b, tr, x), sc')" "cinv sc'" "ccontent sc' \<subseteq>\<^sub>m ccontent sc"
       "x = None \<and> ccontent sc h = Some b \<or> err_not_found x"
    by blast
  from inv C have coh: "coherent (ccontent sc') (ocontent so)" by (blast intro: coherent_less)
  show ?thesis
  proof (cases "x = None")
    case True
    with C(4) inv(3) have "ocontent so h = Some b" by (auto dest: coherentD)
    with True C coh inv show ?thesis
      by (auto simp: CachingStore_Get_def ss cs_inv_def ret_def)
  next
    case False
    with C(4) have x: "err_not_found x" by blast
    show ?thesis
    proof (cases "ocontent so h")
      case None
      from o.Get_miss [OF inv(1) h None, of "env_r e"] obtain tr' y so' where
        O: "bs_Get origin (env_r e) h so = (Ret ([], tr', Some y), so')" "not_found y" "oinv so'" "ocontent so' = ocontent so"
        by blast
      with None C x coh inv show ?thesis
        by (auto simp: CachingStore_Get_def ss cs_inv_def ret_def)
    next
      case (Some b')
      from o.Get_hit [OF inv(1) h Some, of "env_r e"] obtain tr' so' where
        O: "bs_Get origin (env_r e) h so = (Ret (b', tr', None), so')" "oinv so'" "ocontent so' = ocontent so"
        by blast
      from inv(4) Some have "caddr h b'" by blast
      from c.lossy_Put [OF C(2) h this] obtain sc'' where
        P: "bs_Put cache h b' sc' = (Ret None, sc'')" "cinv sc''" "ccontent sc'' \<subseteq>\<^sub>m (ccontent sc')(h \<mapsto> b')"
        by blast
      from coh Some P(3) have "coherent (ccontent sc'') (ocontent so)" by (rule coherent_fill)
      with Some O P C x inv show ?thesis
        by (auto simp: CachingStore_Get_def ss cs_inv_def ret_def)
    qed
  qed
qed

end

text \<open>A cache in front of a store that is only read (an upstream server) is that store.\<close>

sublocale ro_caching \<subseteq> ro: ro_store "CachingStore_ops origin cache" cs_inv cs_content vh
proof unfold_locales
  fix s h e b
  assume s: "cs_inv s" and h: "vh h"
  show "\<exists>s'. bs_Has (CachingStore_ops origin cache) h s = (Ret (cs_content s h \<noteq> None, None), s') \<and> cs_inv s' \<and> cs_content s' = cs_content s"
    using Has_ok [OF s h] by (simp add: CachingStore_ops_def)
  show "\<exists>tr s'. bs_Get (CachingStore_ops origin cache) e h s = (Ret (b, tr, None), s') \<and> cs_inv s' \<and> cs_content s' = cs_content s"
    if "cs_content s h = Some b"
    using Get_ok [OF s h, of e] that by (auto simp: CachingStore_ops_def)
  show "\<exists>tr x s'. bs_Get (CachingStore_ops origin cache) e h s = (Ret ([], tr, Some x), s') \<and> not_found x \<and> cs_inv s' \<and> cs_content s' = cs_content s"
    if "cs_content s h = None"
    using Get_ok [OF s h, of e] that by (auto simp: CachingStore_ops_def)
qed

locale caching = ro_caching origin oinv ocontent cache cinv ccontent vh caddr csdaddr +
  o: live_store origin oinv ocontent vh oaddr osdaddr
  for origin :: "'a BlobStore" and oinv ocontent
    and cache :: "'b BlobStore" and cinv ccontent
    and vh oaddr osdaddr caddr csdaddr
begin

lemma Put_ok:
  assumes s: "cs_inv s" and h: "vh h" and b: "oaddr h b" "caddr h b"
  shows "\<exists>s'. CachingStore_Put origin cache h b s = (Ret None, s') \<and> cs_inv s' \<and> cs_content s' = (cs_content s)(h \<mapsto> b)"
proof -
  obtain so sc where ss: "s = (so, sc)" by (cases s)
  from s have inv: "oinv so" "cinv sc" "coherent (ccontent sc) (ocontent so)"
      "\<forall>h b. ocontent so h = Some b \<longrightarrow> caddr h b"
    by (auto simp: cs_inv_def ss)
  from o.Put_spec [OF inv(1) h b(1)] c.lossy_Put [OF inv(2) h b(2)] inv b(2) show ?thesis
    by (fastforce simp: CachingStore_Put_def ss cs_inv_def intro: coherent_upd)
qed

lemma PutSD_ok:
  assumes s: "cs_inv s" and h: "vh h" and b: "osdaddr h b" "csdaddr h b" "caddr h b"
  shows "\<exists>s'. CachingStore_PutSD origin cache h b s = (Ret None, s') \<and> cs_inv s' \<and> cs_content s' = (cs_content s)(h \<mapsto> b)"
proof -
  obtain so sc where ss: "s = (so, sc)" by (cases s)
  from s have inv: "oinv so" "cinv sc" "coherent (ccontent sc) (ocontent so)"
      "\<forall>h b. ocontent so h = Some b \<longrightarrow> caddr h b"
    by (auto simp: cs_inv_def ss)
  from o.PutSD_spec [OF inv(1) h b(1)] c.lossy_PutSD [OF inv(2) h b(2)] inv b(3) show ?thesis
    by (fastforce simp: CachingStore_PutSD_def ss cs_inv_def intro: coherent_upd)
qed

lemma Delete_ok:
  assumes s: "cs_inv s" and h: "vh h"
  shows "\<exists>s'. CachingStore_Delete origin cache h s = (Ret None, s') \<and> cs_inv s' \<and> cs_content s' = (cs_content s)(h := None)"
proof -
  obtain so sc where ss: "s = (so, sc)" by (cases s)
  from s have inv: "oinv so" "cinv sc" "coherent (ccontent sc) (ocontent so)"
      "\<forall>h b. ocontent so h = Some b \<longrightarrow> caddr h b"
    by (auto simp: cs_inv_def ss)
  from o.Delete_spec [OF inv(1) h] c.lossy_Delete [OF inv(2) h] inv show ?thesis
    by (fastforce simp: CachingStore_Delete_def ss cs_inv_def intro: coherent_upd split: if_splits)
qed

end

sublocale caching \<subseteq> cs: live_store "CachingStore_ops origin cache" cs_inv cs_content vh
    "\<lambda>h b. oaddr h b \<and> caddr h b" "\<lambda>h b. osdaddr h b \<and> csdaddr h b \<and> caddr h b"
proof unfold_locales
  fix s h b
  assume s: "cs_inv s" and h: "vh h"
  show "\<exists>s'. bs_Put (CachingStore_ops origin cache) h b s = (Ret None, s') \<and> cs_inv s' \<and> cs_content s' = (cs_content s)(h \<mapsto> b)"
    if "oaddr h b \<and> caddr h b"
    using Put_ok [OF s h] that by (simp add: CachingStore_ops_def)
  show "\<exists>s'. bs_PutSD (CachingStore_ops origin cache) h b s = (Ret None, s') \<and> cs_inv s' \<and> cs_content s' = (cs_content s)(h \<mapsto> b)"
    if "osdaddr h b \<and> csdaddr h b \<and> caddr h b"
    using PutSD_ok [OF s h] that by (simp add: CachingStore_ops_def)
  show "\<exists>s'. bs_Delete (CachingStore_ops origin cache) h s = (Ret None, s') \<and> cs_inv s' \<and> cs_content s' = (cs_content s)(h := None)"
    using Delete_ok [OF s h] by (simp add: CachingStore_ops_def)
qed

text \<open>\<open>NewCachingStore\<close> wraps both stores in single flight first.\<close>

locale new_caching =
  o: sf_live origin oinv ocontent vh oaddr osdaddr sfo +
  c: sf_lossy cache cinv ccontent vh caddr csdaddr sfc
  for origin :: "'a BlobStore" and oinv ocontent
    and cache :: "'b BlobStore" and cinv ccontent
    and vh oaddr osdaddr caddr csdaddr and sfo sfc

sublocale new_caching \<subseteq> nc: caching "WithSingleFlight sfo origin" oinv ocontent
    "WithSingleFlight sfc cache" cinv ccontent vh oaddr osdaddr caddr csdaddr
  by unfold_locales

locale new_ro_caching =
  o: sf_ro origin oinv ocontent vh sfo +
  c: sf_lossy cache cinv ccontent vh caddr csdaddr sfc
  for origin :: "'a BlobStore" and oinv ocontent
    and cache :: "'b BlobStore" and cinv ccontent
    and vh caddr csdaddr and sfo sfc

sublocale new_ro_caching \<subseteq> nc: ro_caching "WithSingleFlight sfo origin" oinv ocontent
    "WithSingleFlight sfc cache" cinv ccontent vh caddr csdaddr
  by unfold_locales

section \<open>Integrity under errors\<close>

locale safe_pair =
  o: safe_store origin oinv good +
  c: safe_store cache cinv good
  for origin :: "'a BlobStore" and oinv
    and cache :: "'b BlobStore" and cinv and good
begin

definition pair_inv :: "'a \<times> 'b \<Rightarrow> bool" where
  "pair_inv = (\<lambda>s. oinv (fst s) \<and> cinv (snd s))"

lemma on_o: "keeps_ret oinv Q m \<Longrightarrow> keeps_ret pair_inv Q (on_fst m)"
  unfolding pair_inv_def by (rule keeps_ret_on_fst)

lemma on_c: "keeps_ret cinv Q m \<Longrightarrow> keeps_ret pair_inv Q (on_snd m)"
  unfolding pair_inv_def by (rule keeps_ret_on_snd)

lemma Get_safe: "keeps_ret pair_inv (\<lambda>(b, tr, x). x = None \<longrightarrow> good h b) (CachingStore_Get origin cache e h)"
  unfolding CachingStore_Get_def
proof (rule keeps_ret_bnd3 [OF on_c [OF c.safe_Get]], rule keeps_ret_if)
  show "keeps_ret pair_inv (\<lambda>(b, tr, x). x = None \<longrightarrow> good h b)
          (bnd (on_fst (bs_Get origin (env_r e) h)) (\<lambda>(blob, trace, err).
            if err \<noteq> None then ret ([], BlobTrace_Stack e nameCaching trace, err)
            else bnd (on_snd (bs_Put cache h blob)) (\<lambda>_. ret (blob, BlobTrace_Stack e nameCaching trace, None))))"
    by (rule keeps_ret_bnd3 [OF on_o [OF o.safe_Get]])
      (auto intro!: keeps_ret_ret keeps_ret_bnd [OF on_c [OF c.safe_Put]])
qed (auto intro: keeps_ret_ret)

lemma ITTT_Get_safe: "keeps_ret pair_inv (\<lambda>(b, tr, x). x = None \<longrightarrow> good h b) (ITTTStore_Get origin cache e h)"
  unfolding ITTTStore_Get_def
  by (rule keeps_ret_bnd3 [OF on_o [OF o.safe_Get]])
    (auto intro!: keeps_ret_ret keeps_ret_bnd3 [OF on_c [OF c.safe_Get]])

end

sublocale safe_pair \<subseteq> safe_cs: safe_store "CachingStore_ops origin cache" pair_inv good
proof unfold_locales
  fix h e b
  show "keeps_ret pair_inv (\<lambda>_. True) (bs_Has (CachingStore_ops origin cache) h)"
    by (auto simp: CachingStore_ops_def CachingStore_Has_def
        intro!: keeps_ret_bnd [OF on_c [OF c.safe_Has]] keeps_ret_ret on_o [OF o.safe_Has])
  show "keeps_ret pair_inv (\<lambda>(b, tr, x). x = None \<longrightarrow> good h b) (bs_Get (CachingStore_ops origin cache) e h)"
    using Get_safe by (simp add: CachingStore_ops_def)
  show "keeps_ret pair_inv (\<lambda>_. True) (bs_Put (CachingStore_ops origin cache) h b)" if "good h b"
    using that by (auto simp: CachingStore_ops_def CachingStore_Put_def
        intro!: keeps_ret_bnd [OF on_o [OF o.safe_Put]] keeps_ret_ret on_c [OF c.safe_Put])
  show "keeps_ret pair_inv (\<lambda>_. True) (bs_PutSD (CachingStore_ops origin cache) h b)" if "good h b"
    using that by (auto simp: CachingStore_ops_def CachingStore_PutSD_def
        intro!: keeps_ret_bnd [OF on_o [OF o.safe_PutSD]] keeps_ret_ret on_c [OF c.safe_PutSD])
  show "keeps_ret pair_inv (\<lambda>_. True) (bs_Delete (CachingStore_ops origin cache) h)"
    by (auto simp: CachingStore_ops_def CachingStore_Delete_def
        intro!: keeps_ret_bnd [OF on_o [OF o.safe_Delete]] keeps_ret_ret on_c [OF c.safe_Delete])
qed

sublocale safe_pair \<subseteq> safe_ittt: safe_store "NewITTTStore origin cache" pair_inv good
proof unfold_locales
  fix h e b
  show "keeps_ret pair_inv (\<lambda>_. True) (bs_Has (NewITTTStore origin cache) h)"
    by (auto simp: NewITTTStore_def ITTTStore_Has_def
        intro!: keeps_ret_bnd [OF on_o [OF o.safe_Has]] keeps_ret_ret on_c [OF c.safe_Has])
  show "keeps_ret pair_inv (\<lambda>(b, tr, x). x = None \<longrightarrow> good h b) (bs_Get (NewITTTStore origin cache) e h)"
    using ITTT_Get_safe by (simp add: NewITTTStore_def)
qed (auto simp: NewITTTStore_def ITTTStore_Put_def ITTTStore_PutSD_def ITTTStore_Delete_def intro: keeps_ret_ret)

section \<open>If this then that\<close>

locale ittt =
  i: ro_store this iinv icontent vh +
  t: ro_store that tinv tcontent vh
  for this :: "'a BlobStore" and iinv icontent
    and that :: "'b BlobStore" and tinv tcontent and vh
begin

definition it_inv :: "'a \<times> 'b \<Rightarrow> bool" where
  "it_inv s \<longleftrightarrow> iinv (fst s) \<and> tinv (snd s)"

definition it_content :: "'a \<times> 'b \<Rightarrow> content" where
  "it_content s = tcontent (snd s) ++ icontent (fst s)"

lemma it_content_at [simp]:
  "icontent a h = Some x \<Longrightarrow> it_content (a, b) h = Some x"
  "icontent a h = None \<Longrightarrow> it_content (a, b) h = tcontent b h"
  by (auto simp: it_content_def map_add_def)

lemma it_content_cong:
  "icontent a = icontent a' \<Longrightarrow> tcontent b = tcontent b' \<Longrightarrow> it_content (a, b) = it_content (a', b')"
  by (simp add: it_content_def)

lemma ITTT_Get_ok:
  assumes s: "it_inv s" and h: "vh h"
  shows "\<exists>b tr x s'. ITTTStore_Get this that e h s = (Ret (b, tr, x), s') \<and> it_inv s' \<and> it_content s' = it_content s
           \<and> (case it_content s h of Some b' \<Rightarrow> b = b' \<and> x = None | None \<Rightarrow> b = [] \<and> err_not_found x)"
proof -
  obtain si sn where ss: "s = (si, sn)" by (cases s)
  from s have inv: "iinv si" "tinv sn" by (auto simp: it_inv_def ss)
  show ?thesis
  proof (cases "icontent si h")
    case (Some b)
    with i.Get_hit [OF inv(1) h Some, of "env_l e"] inv show ?thesis
      by (auto simp: ITTTStore_Get_def ss it_inv_def ret_def intro: it_content_cong)
  next
    case None
    from i.Get_miss [OF inv(1) h None, of "env_l e"] obtain tr x si' where
      I: "bs_Get this (env_l e) h si = (Ret ([], tr, Some x), si')" "iinv si'" "icontent si' = icontent si"
      by blast
    show ?thesis
    proof (cases "tcontent sn h")
      case None': None
      from t.Get_miss [OF inv(2) h None', of "env_r e"] I None None' show ?thesis
        by (auto simp: ITTTStore_Get_def ss it_inv_def ret_def intro: it_content_cong)
    next
      case (Some b)
      from t.Get_hit [OF inv(2) h Some, of "env_r e"] I None Some show ?thesis
        by (auto simp: ITTTStore_Get_def ss it_inv_def ret_def intro: it_content_cong)
    qed
  qed
qed

end

sublocale ittt \<subseteq> it: ro_store "NewITTTStore this that" it_inv it_content vh
proof unfold_locales
  fix s h e b
  assume s: "it_inv s" and h: "vh h"
  then obtain si sn where ss: "s = (si, sn)" "iinv si" "tinv sn" by (cases s) (auto simp: it_inv_def)
  show "\<exists>s'. bs_Has (NewITTTStore this that) h s = (Ret (it_content s h \<noteq> None, None), s') \<and> it_inv s' \<and> it_content s' = it_content s"
  proof -
    from i.Has_spec [OF ss(2) h] obtain si' where
      I: "bs_Has this h si = (Ret (icontent si h \<noteq> None, None), si')" "iinv si'" "icontent si' = icontent si"
      by blast
    from t.Has_spec [OF ss(3) h] I ss show ?thesis
      by (cases "icontent si h")
        (auto simp: NewITTTStore_def ITTTStore_Has_def it_inv_def ret_def intro: it_content_cong)
  qed
  show "\<exists>tr s'. bs_Get (NewITTTStore this that) e h s = (Ret (b, tr, None), s') \<and> it_inv s' \<and> it_content s' = it_content s"
    if "it_content s h = Some b"
    using ITTT_Get_ok [OF s h, of e] that by (auto simp: NewITTTStore_def)
  show "\<exists>tr x s'. bs_Get (NewITTTStore this that) e h s = (Ret ([], tr, Some x), s') \<and> not_found x \<and> it_inv s' \<and> it_content s' = it_content s"
    if "it_content s h = None"
    using ITTT_Get_ok [OF s h, of e] that by (auto simp: NewITTTStore_def)
qed

end
