(* ===== verification/Gcache_Store.thy ===== *)
theory Gcache_Store
  imports Caching_Correct
begin

text \<open>
  \<open>GcacheStore\<close> (src/store/gcache.go): a bounded store that tracks the hashes it holds in a cache of
  github.com/bluele/gcache and deletes a blob when its hash is evicted.

  The gcache package is a parameter, the record \<open>gcache\<close> of the calls the store makes. \<open>Set\<close> and
  \<open>Remove\<close> return the keys for which they call the eviction callback, in order. What the store
  relies on is the locale \<open>gcache_laws\<close>; \<open>lru_gcache\<close> is a small LRU cache that shows the laws can
  hold. The goroutine of \<open>NewGcacheStore\<close> that loads existing blobs is the operation
  \<open>GcacheStore_loadExisting\<close>.
\<close>

section \<open>Model\<close>

record 'c gcache =
  gc_Has :: "string \<Rightarrow> 'c \<Rightarrow> bool"
  gc_Get :: "string \<Rightarrow> 'c \<Rightarrow> go_error option \<times> 'c"
  gc_Set :: "string \<Rightarrow> 'c \<Rightarrow> string list \<times> 'c"
  gc_Remove :: "string \<Rightarrow> 'c \<Rightarrow> string list \<times> 'c"

datatype EvictionStrategy = LFU | ARC | LRU | SIMPLE

definition nameGcache :: string where
  "nameGcache = ''gcache''"

text \<open>\<open>evictFunc\<close>: delete the blob from the underlying store, ignoring the error.\<close>

definition evictFunc :: "'s BlobStore \<Rightarrow> string \<Rightarrow> ('s, unit) op" where
  "evictFunc store key = bnd (bs_Delete store key) (\<lambda>_. ret ())"

fun evict_each :: "'s BlobStore \<Rightarrow> string list \<Rightarrow> ('s, unit) op" where
  "evict_each store [] = ret ()"
| "evict_each store (k # ks) = bnd (evictFunc store k) (\<lambda>_. evict_each store ks)"

definition cache_Set :: "'c gcache \<Rightarrow> 's BlobStore \<Rightarrow> string \<Rightarrow> ('s \<times> 'c, unit) op" where
  "cache_Set gc store hash s =
     (let (evicted, c') = gc_Set gc hash (snd s) in on_fst (evict_each store evicted) (fst s, c'))"

definition cache_Remove :: "'c gcache \<Rightarrow> 's BlobStore \<Rightarrow> string \<Rightarrow> ('s \<times> 'c, unit) op" where
  "cache_Remove gc store hash s =
     (let (evicted, c') = gc_Remove gc hash (snd s) in on_fst (evict_each store evicted) (fst s, c'))"

definition cache_Get :: "'c gcache \<Rightarrow> string \<Rightarrow> ('s \<times> 'c, go_error option) op" where
  "cache_Get gc hash s = (let (err, c') = gc_Get gc hash (snd s) in (Ret err, (fst s, c')))"

definition GcacheStore_Has :: "'c gcache \<Rightarrow> string \<Rightarrow> ('s \<times> 'c, bool \<times> go_error option) op" where
  "GcacheStore_Has gc hash s = (Ret (gc_Has gc hash (snd s), None), s)"

definition GcacheStore_Get ::
  "'c gcache \<Rightarrow> 's BlobStore \<Rightarrow> call_env \<Rightarrow> string \<Rightarrow> ('s \<times> 'c, bytes \<times> BlobTrace \<times> go_error option) op" where
  "GcacheStore_Get gc store e hash =
     bnd (cache_Get gc hash) (\<lambda>err.
       if err \<noteq> None then ret ([], NewBlobTrace e nameGcache, Some ErrBlobNotFound)
       else
         bnd (on_fst (bs_Get store (env_l e) hash)) (\<lambda>(blob, stack, err).
           bnd (if err_not_found err then cache_Remove gc store hash else ret ()) (\<lambda>_.
             ret (blob, BlobTrace_Stack e nameGcache stack, err))))"

definition GcacheStore_Put :: "'c gcache \<Rightarrow> 's BlobStore \<Rightarrow> string \<Rightarrow> bytes \<Rightarrow> ('s \<times> 'c, go_error option) op" where
  "GcacheStore_Put gc store hash blob =
     bnd (cache_Set gc store hash) (\<lambda>_.
       bnd (GcacheStore_Has gc hash) (\<lambda>(has, _).
         if has then
           bnd (on_fst (bs_Put store hash blob)) (\<lambda>err. if err \<noteq> None then ret err else ret None)
         else ret None))"

definition GcacheStore_PutSD :: "'c gcache \<Rightarrow> 's BlobStore \<Rightarrow> string \<Rightarrow> bytes \<Rightarrow> ('s \<times> 'c, go_error option) op" where
  "GcacheStore_PutSD gc store hash blob =
     bnd (cache_Set gc store hash) (\<lambda>_.
       bnd (GcacheStore_Has gc hash) (\<lambda>(has, _).
         if has then
           bnd (on_fst (bs_PutSD store hash blob)) (\<lambda>err. if err \<noteq> None then ret err else ret None)
         else ret None))"

definition GcacheStore_Delete :: "'c gcache \<Rightarrow> 's BlobStore \<Rightarrow> string \<Rightarrow> ('s \<times> 'c, go_error option) op" where
  "GcacheStore_Delete gc store hash =
     bnd (on_fst (bs_Delete store hash)) (\<lambda>err.
       if err \<noteq> None then ret err
       else bnd (cache_Remove gc store hash) (\<lambda>_. ret None))"

text \<open>The loop of \<open>loadExisting\<close>; \<open>maxItems\<close> is a Go \<open>int\<close>.\<close>

fun load_loop :: "'c gcache \<Rightarrow> 's BlobStore \<Rightarrow> int \<Rightarrow> int \<Rightarrow> string list \<Rightarrow> ('s \<times> 'c, unit) op" where
  "load_loop gc store maxItems added [] = ret ()"
| "load_loop gc store maxItems added (h # hs) =
     bnd (cache_Set gc store h) (\<lambda>_.
       if maxItems > 0 \<and> added + 1 \<ge> maxItems
       then bnd (GcacheStore_Delete gc store h) (\<lambda>err. load_loop gc store maxItems (added + 1) hs)
       else load_loop gc store maxItems (added + 1) hs)"

definition GcacheStore_loadExisting ::
  "'c gcache \<Rightarrow> 's BlobStore \<Rightarrow> 's lister \<Rightarrow> int \<Rightarrow> ('s \<times> 'c, go_error option) op" where
  "GcacheStore_loadExisting gc store lstr maxItems =
     bnd (on_fst lstr) (\<lambda>(existing, err).
       if err \<noteq> None then ret err
       else bnd (load_loop gc store maxItems 0 existing) (\<lambda>_. ret None))"

definition GcacheStore_ops :: "'c gcache \<Rightarrow> 's BlobStore \<Rightarrow> ('s \<times> 'c) BlobStore" where
  "GcacheStore_ops gc store =
     \<lparr>bs_Name = nameGcache, bs_Has = GcacheStore_Has gc, bs_Get = GcacheStore_Get gc store,
      bs_Put = GcacheStore_Put gc store, bs_PutSD = GcacheStore_PutSD gc store,
      bs_Delete = GcacheStore_Delete gc store, bs_Shutdown = ret ()\<rparr>"

text \<open>
  A least-recently-used cache of capacity \<open>cap\<close>: the keys, most recent first. It stands for the
  package in witnesses only.
\<close>

definition lru_gcache :: "nat \<Rightarrow> string list gcache" where
  "lru_gcache cap =
     \<lparr>gc_Has = (\<lambda>k c. k \<in> set c),
      gc_Get = (\<lambda>k c. if k \<in> set c then (None, k # filter (\<lambda>x. x \<noteq> k) c) else (Some (Msg ''Key not found.''), c)),
      gc_Set = (\<lambda>k c. if k \<in> set c then ([], k # filter (\<lambda>x. x \<noteq> k) c)
                       else if cap \<le> length c \<and> c \<noteq> [] then ([last c], k # butlast c)
                       else ([], k # c)),
      gc_Remove = (\<lambda>k c. if k \<in> set c then ([k], filter (\<lambda>x. x \<noteq> k) c) else ([], c))\<rparr>"

section \<open>Laws of the cache package\<close>

locale gcache_laws =
  fixes gc :: "'c gcache"
    and keys :: "'c \<Rightarrow> string set"
    and wf :: "'c \<Rightarrow> bool"
    and maxSize :: nat
  assumes Has_keys: "wf c \<Longrightarrow> gc_Has gc k c \<longleftrightarrow> k \<in> keys c"
    and Get_keys: "wf c \<Longrightarrow> gc_Get gc k c = (x, c') \<Longrightarrow> wf c' \<and> keys c' = keys c \<and> (x = None \<longleftrightarrow> k \<in> keys c)"
    and Set_keys: "wf c \<Longrightarrow> gc_Set gc k c = (ev, c') \<Longrightarrow> wf c' \<and> keys c' = insert k (keys c) - set ev \<and> k \<notin> set ev \<and> set ev \<subseteq> keys c"
    and Remove_keys: "wf c \<Longrightarrow> gc_Remove gc k c = (ev, c') \<Longrightarrow> wf c' \<and> keys c' = keys c - {k} \<and> set ev \<subseteq> {k}"
    and Set_room: "wf c \<Longrightarrow> k \<in> keys c \<or> card (keys c) < maxSize \<Longrightarrow> gc_Set gc k c = (ev, c') \<Longrightarrow> ev = []"
    and keys_bound: "wf c \<Longrightarrow> finite (keys c) \<and> card (keys c) \<le> maxSize"

lemma lru_wf_Set:
  "distinct c \<Longrightarrow> length c \<le> cap \<Longrightarrow> 0 < cap \<Longrightarrow> gc_Set (lru_gcache cap) k c = (ev, c') \<Longrightarrow>
   distinct c' \<and> length c' \<le> cap \<and> set c' = insert k (set c) - set ev \<and> k \<notin> set ev \<and> set ev \<subseteq> set c"
proof -
  assume c: "distinct c" "length c \<le> cap" "0 < cap" and S: "gc_Set (lru_gcache cap) k c = (ev, c')"
  consider (old) "k \<in> set c" | (full) "k \<notin> set c" "cap \<le> length c" "c \<noteq> []"
    | (room) "k \<notin> set c" "\<not> (cap \<le> length c \<and> c \<noteq> [])" by blast
  then show ?thesis
  proof cases
    case old
    then have "length (filter (\<lambda>x. x \<noteq> k) c) < length c" by (simp add: length_filter_less)
    with old c S show ?thesis by (auto simp: lru_gcache_def)
  next
    case full
    then obtain xs x where x: "c = xs @ [x]" by (cases c rule: rev_cases) auto
    from full c S show ?thesis by (auto simp: lru_gcache_def x)
  next
    case room
    with c S show ?thesis by (auto simp: lru_gcache_def)
  qed
qed

locale positive_cap =
  fixes cap :: nat
  assumes cap_pos: "0 < cap"

sublocale positive_cap \<subseteq> lru: gcache_laws "lru_gcache cap" set "\<lambda>c. distinct c \<and> length c \<le> cap" cap
proof unfold_locales
  fix c c' :: "string list" and k x ev
  assume c: "distinct c \<and> length c \<le> cap"
  show "gc_Has (lru_gcache cap) k c = (k \<in> set c)" by (simp add: lru_gcache_def)
  show "(distinct c' \<and> length c' \<le> cap) \<and> set c' = set c \<and> (x = None) = (k \<in> set c)"
    if "gc_Get (lru_gcache cap) k c = (x, c')"
  proof (cases "k \<in> set c")
    case True
    then have "length (filter (\<lambda>x. x \<noteq> k) c) < length c" by (simp add: length_filter_less)
    with True c that show ?thesis by (auto simp: lru_gcache_def)
  next
    case False
    with c that show ?thesis by (auto simp: lru_gcache_def)
  qed
  show "(distinct c' \<and> length c' \<le> cap) \<and> set c' = insert k (set c) - set ev \<and> k \<notin> set ev \<and> set ev \<subseteq> set c"
    if "gc_Set (lru_gcache cap) k c = (ev, c')"
    using lru_wf_Set c cap_pos that by blast
  show "(distinct c' \<and> length c' \<le> cap) \<and> set c' = set c - {k} \<and> set ev \<subseteq> {k}"
    if "gc_Remove (lru_gcache cap) k c = (ev, c')"
    using c that le_trans [OF length_filter_le] by (fastforce simp: lru_gcache_def split: if_splits)
  show "ev = []" if "k \<in> set c \<or> card (set c) < cap" "gc_Set (lru_gcache cap) k c = (ev, c')"
    using c that by (auto simp: lru_gcache_def distinct_card split: if_splits)
  show "finite (set c) \<and> card (set c) \<le> cap"
    using c by (simp add: distinct_card)
qed

context positive_cap
begin

lemma lru_laws: "gcache_laws (lru_gcache cap) set (\<lambda>c. distinct c \<and> length c \<le> cap) cap"
  by (rule lru.gcache_laws_axioms)

end

section \<open>A bounded cache over a live store\<close>

locale gcache_live =
  s: live_store store sinv scontent vh addr sdaddr +
  g: gcache_laws gc keys wf maxSize
  for store :: "'s BlobStore" and sinv scontent vh addr sdaddr
    and gc :: "'c gcache" and keys wf maxSize
begin

text \<open>Every tracked hash has its blob in the underlying store (which may hold more: untracked blobs).\<close>

definition g_inv :: "'s \<times> 'c \<Rightarrow> bool" where
  "g_inv z \<longleftrightarrow> sinv (fst z) \<and> wf (snd z) \<and> keys (snd z) \<subseteq> dom (scontent (fst z)) \<and> (\<forall>k \<in> keys (snd z). vh k)"

definition g_content :: "'s \<times> 'c \<Rightarrow> content" where
  "g_content z = scontent (fst z) |` keys (snd z)"

text \<open>No blob is untracked: the state after loading, or of a store that started empty.\<close>

definition g_full :: "'s \<times> 'c \<Rightarrow> bool" where
  "g_full z \<longleftrightarrow> dom (scontent (fst z)) \<subseteq> keys (snd z)"

lemma evict_each_ok:
  "sinv a \<Longrightarrow> \<forall>k \<in> set ks. vh k \<Longrightarrow>
   \<exists>a'. evict_each store ks a = (Ret (), a') \<and> sinv a' \<and> scontent a' = scontent a |` (- set ks)"
proof (induction ks arbitrary: a)
  case Nil
  then show ?case by (simp add: ret_def)
next
  case (Cons k ks)
  from s.Delete_spec [OF Cons.prems(1), of k] Cons.prems(2) obtain a1 where
    D: "bs_Delete store k a = (Ret None, a1)" "sinv a1" "scontent a1 = (scontent a)(k := None)" by auto
  from Cons.IH [OF D(2)] Cons.prems(2) obtain a' where
    "evict_each store ks a1 = (Ret (), a')" "sinv a'" "scontent a' = scontent a1 |` (- set ks)" by auto
  with D show ?case
    by (auto simp: evictFunc_def restrict_map_def fun_eq_iff)
qed

lemma cache_Set_ok:
  assumes z: "g_inv z" and h: "vh h"
  shows "\<exists>z'. cache_Set gc store h z = (Ret (), z') \<and> sinv (fst z') \<and> wf (snd z') \<and> h \<in> keys (snd z')
     \<and> keys (snd z') \<subseteq> insert h (dom (scontent (fst z'))) \<and> (\<forall>k \<in> keys (snd z'). vh k)
     \<and> scontent (fst z') \<subseteq>\<^sub>m scontent (fst z) \<and> keys (snd z') \<subseteq> insert h (keys (snd z))
     \<and> (g_full z \<longrightarrow> dom (scontent (fst z')) \<subseteq> keys (snd z'))"
proof -
  obtain a c where zz: "z = (a, c)" by (cases z)
  obtain ev c' where S: "gc_Set gc h c = (ev, c')" by fastforce
  from z have inv: "sinv a" "wf c" "keys c \<subseteq> dom (scontent a)" "\<forall>k \<in> keys c. vh k"
    by (auto simp: g_inv_def zz)
  from g.Set_keys [OF inv(2) S] have K: "wf c'" "keys c' = insert h (keys c) - set ev" "h \<notin> set ev" "set ev \<subseteq> keys c"
    by auto
  from K(4) inv(4) have "\<forall>k \<in> set ev. vh k" by blast
  from evict_each_ok [OF inv(1) this] obtain a' where
    E: "evict_each store ev a = (Ret (), a')" "sinv a'" "scontent a' = scontent a |` (- set ev)" by blast
  with K inv h S show ?thesis
    by (auto simp: cache_Set_def zz g_full_def map_le_def)
qed

text \<open>\<open>Remove\<close> runs after the blob itself is gone, so its hash may be tracked without a blob.\<close>

lemma cache_Remove_ok:
  assumes z: "sinv a" "wf c" "keys c \<subseteq> insert h (dom (scontent a))" "\<forall>k \<in> keys c. vh k" and h: "vh h"
  shows "\<exists>z'. cache_Remove gc store h (a, c) = (Ret (), z') \<and> g_inv z' \<and> keys (snd z') = keys c - {h}
     \<and> (scontent (fst z') = scontent a \<or> scontent (fst z') = (scontent a)(h := None))"
proof -
  obtain ev c' where S: "gc_Remove gc h c = (ev, c')" by fastforce
  from g.Remove_keys [OF z(2) S] have K: "wf c'" "keys c' = keys c - {h}" "set ev \<subseteq> {h}" by auto
  from K(3) h have "\<forall>k \<in> set ev. vh k" by blast
  from evict_each_ok [OF z(1) this] obtain a' where
    E: "evict_each store ev a = (Ret (), a')" "sinv a'" "scontent a' = scontent a |` (- set ev)" by blast
  have "scontent a' = scontent a \<or> scontent a' = (scontent a)(h := None)"
    using E(3) K(3) by (cases "h \<in> set ev") (auto simp: restrict_map_def fun_eq_iff split: if_splits)
  with E K z S show ?thesis
    by (auto simp: cache_Remove_def g_inv_def)
qed

lemma g_Delete_ok:
  assumes z: "g_inv z" and h: "vh h"
  shows "\<exists>z'. GcacheStore_Delete gc store h z = (Ret None, z') \<and> g_inv z' \<and> g_content z' = (g_content z)(h := None)
     \<and> keys (snd z') = keys (snd z) - {h} \<and> scontent (fst z') = (scontent (fst z))(h := None)"
proof -
  obtain a c where zz: "z = (a, c)" by (cases z)
  from z have inv: "sinv a" "wf c" "keys c \<subseteq> dom (scontent a)" "\<forall>k \<in> keys c. vh k"
    by (auto simp: g_inv_def zz)
  from s.Delete_spec [OF inv(1) h] obtain a1 where
    D: "bs_Delete store h a = (Ret None, a1)" "sinv a1" "scontent a1 = (scontent a)(h := None)" by blast
  from inv(3) D(3) have "keys c \<subseteq> insert h (dom (scontent a1))" by auto
  from cache_Remove_ok [OF D(2) inv(2) this inv(4) h] obtain z' where
    R: "cache_Remove gc store h (a1, c) = (Ret (), z')" "g_inv z'" "keys (snd z') = keys c - {h}"
       "scontent (fst z') = (scontent a)(h := None)"
    using D(3) by auto
  with D show ?thesis
    by (auto simp: GcacheStore_Delete_def zz g_content_def ret_def restrict_map_def fun_eq_iff)
qed

lemma g_Get_ok:
  assumes z: "g_inv z" and h: "vh h"
  shows "\<exists>b tr x z'. GcacheStore_Get gc store e h z = (Ret (b, tr, x), z') \<and> g_inv z' \<and> g_content z' = g_content z
     \<and> (case g_content z h of Some b' \<Rightarrow> b = b' \<and> x = None | None \<Rightarrow> b = [] \<and> err_not_found x)
     \<and> keys (snd z') = keys (snd z) \<and> scontent (fst z') = scontent (fst z)"
proof -
  obtain a c where zz: "z = (a, c)" by (cases z)
  obtain x c' where G: "gc_Get gc h c = (x, c')" by fastforce
  from z have inv: "sinv a" "wf c" "keys c \<subseteq> dom (scontent a)" "\<forall>k \<in> keys c. vh k"
    by (auto simp: g_inv_def zz)
  from g.Get_keys [OF inv(2) G] have K: "wf c'" "keys c' = keys c" "x = None \<longleftrightarrow> h \<in> keys c" by auto
  show ?thesis
  proof (cases "h \<in> keys c")
    case False
    with K G inv show ?thesis
      by (auto simp: GcacheStore_Get_def cache_Get_def zz g_inv_def g_content_def ret_def bnd_def restrict_map_def)
  next
    case True
    with inv(3) obtain b where b: "scontent a h = Some b" by auto
    from s.Get_hit [OF inv(1) h b, of "env_l e"] obtain tr a' where
      "bs_Get store (env_l e) h a = (Ret (b, tr, None), a')" "sinv a'" "scontent a' = scontent a" by blast
    with True K G inv b show ?thesis
      by (auto simp: GcacheStore_Get_def cache_Get_def zz g_inv_def g_content_def ret_def bnd_def zoom_def)
  qed
qed

text \<open>
  Loading: the first \<open>maxSize - 1\<close> hashes are tracked and every later one is deleted, from the
  cache and from the store.
\<close>

lemma cache_Set_room:
  assumes z: "g_inv z" and "card (keys (snd z)) < maxSize" and h: "vh h" "scontent (fst z) h \<noteq> None"
  shows "\<exists>c'. cache_Set gc store h z = (Ret (), (fst z, c')) \<and> g_inv (fst z, c') \<and> keys c' = insert h (keys (snd z))"
proof -
  obtain a c where zz: "z = (a, c)" by (cases z)
  obtain ev c' where S: "gc_Set gc h c = (ev, c')" by fastforce
  from z have inv: "sinv a" "wf c" "keys c \<subseteq> dom (scontent a)" "\<forall>k \<in> keys c. vh k"
    by (auto simp: g_inv_def zz)
  from assms(2) have "ev = []" using g.Set_room [OF inv(2) _ S] by (simp add: zz)
  with g.Set_keys [OF inv(2) S] S inv h show ?thesis
    by (auto simp: cache_Set_def zz g_inv_def ret_def zoom_def)
qed

lemma load_loop_ok:
  assumes "g_inv z" "distinct hs" "set hs \<inter> keys (snd z) = {}" "\<forall>h \<in> set hs. vh h \<and> scontent (fst z) h \<noteq> None"
    and "card (keys (snd z)) = min n (maxSize - 1)" "0 < maxSize"
  shows "\<exists>z'. load_loop gc store (int maxSize) (int n) hs z = (Ret (), z') \<and> g_inv z'
     \<and> keys (snd z') = keys (snd z) \<union> set (take (maxSize - 1 - n) hs)
     \<and> scontent (fst z') = scontent (fst z) |` (- set (drop (maxSize - 1 - n) hs))"
  using assms
proof (induction hs arbitrary: z n)
  case Nil
  then show ?case by (simp add: ret_def)
next
  case (Cons h hs)
  from Cons.prems have room: "card (keys (snd z)) < maxSize" by simp
  have fin: "finite (keys (snd z))" using Cons.prems(1) g.keys_bound by (simp add: g_inv_def)
  from Cons.prems(4) have h: "vh h" "scontent (fst z) h \<noteq> None" by auto
  from cache_Set_room [OF Cons.prems(1) room h] obtain c1 where
    S: "cache_Set gc store h z = (Ret (), (fst z, c1))" "g_inv (fst z, c1)" "keys c1 = insert h (keys (snd z))"
    by blast
  show ?case
  proof (cases "maxSize \<le> Suc n")
    case True
    from g_Delete_ok [OF S(2) h(1)] obtain z2 where
      D: "GcacheStore_Delete gc store h (fst z, c1) = (Ret None, z2)" "g_inv z2"
         "keys (snd z2) = keys (snd z)" "scontent (fst z2) = (scontent (fst z))(h := None)"
      using S(3) Cons.prems(3) by auto
    have "\<forall>h \<in> set hs. vh h \<and> scontent (fst z2) h \<noteq> None" using Cons.prems(2,4) D(4) by auto
    with Cons.prems True D(3) have "\<exists>z'. load_loop gc store (int maxSize) (int (Suc n)) hs z2 = (Ret (), z') \<and> g_inv z'
        \<and> keys (snd z') = keys (snd z2) \<union> set (take (maxSize - 1 - Suc n) hs)
        \<and> scontent (fst z') = scontent (fst z2) |` (- set (drop (maxSize - 1 - Suc n) hs))"
      by (intro Cons.IH [OF D(2), of "Suc n"]) auto
    with True D(3,4) obtain z' where
      "load_loop gc store (int maxSize) (int (Suc n)) hs z2 = (Ret (), z')" "g_inv z'"
      "keys (snd z') = keys (snd z)" "scontent (fst z') = (scontent (fst z))(h := None) |` (- set hs)"
      by (auto simp del: fun_upd_apply)
    with S D True Cons.prems(6) show ?thesis
      by (auto simp: restrict_map_def fun_eq_iff algebra_simps)
  next
    case False
    from Cons.prems False fin S(3) have "card (keys c1) = min (Suc n) (maxSize - 1)" by auto
    with Cons.prems S Cons.IH [OF S(2), of "Suc n"] obtain z' where
      L: "load_loop gc store (int maxSize) (int (Suc n)) hs (fst z, c1) = (Ret (), z')" "g_inv z'"
      "keys (snd z') = insert h (keys (snd z)) \<union> set (take (maxSize - 1 - Suc n) hs)"
      "scontent (fst z') = scontent (fst z) |` (- set (drop (maxSize - 1 - Suc n) hs))"
      by auto
    moreover from False have "maxSize - 1 - n = Suc (maxSize - 1 - Suc n)" by arith
    ultimately show ?thesis using S(1) False
      by (auto simp: algebra_simps)
  qed
qed

lemma loadExisting_ok:
  assumes "g_inv z" "keys (snd z) = {}" "0 < maxSize"
    and L: "lstr (fst z) = (Ret (existing, None), fst z)"
    and "distinct existing" "\<forall>h \<in> set existing. vh h \<and> scontent (fst z) h \<noteq> None"
  shows "\<exists>z'. GcacheStore_loadExisting gc store lstr (int maxSize) z = (Ret None, z') \<and> g_inv z'
     \<and> keys (snd z') = set (take (maxSize - 1) existing)
     \<and> scontent (fst z') = scontent (fst z) |` (- set (drop (maxSize - 1) existing))"
proof -
  from assms load_loop_ok [OF assms(1,5), of 0] obtain z' where
    "load_loop gc store (int maxSize) 0 existing z = (Ret (), z')" "g_inv z'"
    "keys (snd z') = set (take (maxSize - 1) existing)"
    "scontent (fst z') = scontent (fst z) |` (- set (drop (maxSize - 1) existing))" by auto
  with L show ?thesis
    by (cases z) (auto simp: GcacheStore_loadExisting_def ret_def zoom_def)
qed

lemma g_card: "g_inv z \<Longrightarrow> g_full z \<Longrightarrow> finite (dom (scontent (fst z))) \<and> card (dom (scontent (fst z))) \<le> maxSize"
proof -
  assume "g_inv z" "g_full z"
  then have "dom (scontent (fst z)) = keys (snd z)" and "wf (snd z)" by (auto simp: g_inv_def g_full_def)
  with g.keys_bound show ?thesis by simp
qed

text \<open>\<open>Put\<close> and \<open>PutSD\<close> differ in the inner call only.\<close>

lemma put_ok:
  assumes z: "g_inv z" and h: "vh h"
    and P: "\<And>a. sinv a \<Longrightarrow> \<exists>a'. put a = (Ret None, a') \<and> sinv a' \<and> scontent a' = (scontent a)(h \<mapsto> b)"
  shows "\<exists>z'. bnd (cache_Set gc store h) (\<lambda>_. bnd (GcacheStore_Has gc h) (\<lambda>(has, _).
              if has then bnd (on_fst put) (\<lambda>err. if err \<noteq> None then ret err else ret None) else ret None)) z
            = (Ret None, z') \<and> g_inv z' \<and> g_content z' \<subseteq>\<^sub>m (g_content z)(h \<mapsto> b) \<and> g_content z' h = Some b
            \<and> (g_full z \<longrightarrow> g_full z')"
proof -
  from cache_Set_ok [OF z h] obtain a c where
    S: "cache_Set gc store h z = (Ret (), (a, c))" "sinv a" "wf c" "h \<in> keys c" "keys c \<subseteq> insert h (dom (scontent a))"
       "\<forall>k \<in> keys c. vh k" "scontent a \<subseteq>\<^sub>m scontent (fst z)" "keys c \<subseteq> insert h (keys (snd z))"
       "g_full z \<longrightarrow> dom (scontent a) \<subseteq> keys c"
    by auto
  from P [OF S(2)] obtain a' where A: "put a = (Ret None, a')" "sinv a'" "scontent a' = (scontent a)(h \<mapsto> b)" by blast
  have "g_content (a', c) \<subseteq>\<^sub>m (g_content z)(h \<mapsto> b)"
    using S(7,8) A(3) by (auto simp: g_content_def map_le_def restrict_map_def dom_def split: if_splits; metis)
  with S A show ?thesis
    by (auto simp: GcacheStore_Has_def g.Has_keys g_inv_def g_content_def g_full_def ret_def)
qed

lemma g_Put_ok:
  "g_inv z \<Longrightarrow> vh h \<Longrightarrow> addr h b \<Longrightarrow>
   \<exists>z'. GcacheStore_Put gc store h b z = (Ret None, z') \<and> g_inv z' \<and> g_content z' \<subseteq>\<^sub>m (g_content z)(h \<mapsto> b)
     \<and> g_content z' h = Some b \<and> (g_full z \<longrightarrow> g_full z')"
  unfolding GcacheStore_Put_def by (rule put_ok) (auto intro: s.Put_spec)

lemma g_PutSD_ok:
  "g_inv z \<Longrightarrow> vh h \<Longrightarrow> sdaddr h b \<Longrightarrow>
   \<exists>z'. GcacheStore_PutSD gc store h b z = (Ret None, z') \<and> g_inv z' \<and> g_content z' \<subseteq>\<^sub>m (g_content z)(h \<mapsto> b)
     \<and> g_content z' h = Some b \<and> (g_full z \<longrightarrow> g_full z')"
  unfolding GcacheStore_PutSD_def by (rule put_ok) (auto intro: s.PutSD_spec)

end

sublocale gcache_live \<subseteq> gs: lossy_store "GcacheStore_ops gc store" g_inv g_content vh addr sdaddr
proof unfold_locales
  fix z h e b
  assume z: "g_inv z" and h: "vh h"
  show "\<exists>b z'. bs_Has (GcacheStore_ops gc store) h z = (Ret (b, None), z') \<and> (b \<longrightarrow> g_content z h \<noteq> None) \<and> g_inv z' \<and> g_content z' \<subseteq>\<^sub>m g_content z"
    using z by (auto simp: GcacheStore_ops_def GcacheStore_Has_def g.Has_keys g_inv_def g_content_def restrict_map_def)
  show "\<exists>b tr x z'. bs_Get (GcacheStore_ops gc store) e h z = (Ret (b, tr, x), z') \<and> g_inv z' \<and> g_content z' \<subseteq>\<^sub>m g_content z
        \<and> (x = None \<and> g_content z h = Some b \<or> err_not_found x)"
    using g_Get_ok [OF z h, of e] by (auto simp: GcacheStore_ops_def split: option.splits)
  show "\<exists>z'. bs_Put (GcacheStore_ops gc store) h b z = (Ret None, z') \<and> g_inv z' \<and> g_content z' \<subseteq>\<^sub>m (g_content z)(h \<mapsto> b)"
    if "addr h b"
    using g_Put_ok [OF z h that] by (auto simp: GcacheStore_ops_def)
  show "\<exists>z'. bs_PutSD (GcacheStore_ops gc store) h b z = (Ret None, z') \<and> g_inv z' \<and> g_content z' \<subseteq>\<^sub>m (g_content z)(h \<mapsto> b)"
    if "sdaddr h b"
    using g_PutSD_ok [OF z h that] by (auto simp: GcacheStore_ops_def)
  show "\<exists>z'. bs_Delete (GcacheStore_ops gc store) h z = (Ret None, z') \<and> g_inv z' \<and> g_content z' \<subseteq>\<^sub>m (g_content z)(h := None)"
    using g_Delete_ok [OF z h] by (auto simp: GcacheStore_ops_def)
qed

end
