(* ===== verification/Go_Path.thy ===== *)
theory Go_Path
  imports Prelude
begin

text \<open>
  The parts of Go's \<open>strings\<close> and \<open>path\<close> packages the program uses: \<open>strings.Split\<close> on one
  character, \<open>strings.Contains\<close>, \<open>path.Clean\<close>, \<open>path.Join\<close> and \<open>path.Base\<close>.
\<close>

section \<open>Strings\<close>

fun split_on :: "char \<Rightarrow> string \<Rightarrow> string list" where
  "split_on d [] = [[]]"
| "split_on d (c # cs) =
     (if c = d then [] # split_on d cs
      else (case split_on d cs of [] \<Rightarrow> [[c]] | p # ps \<Rightarrow> (c # p) # ps))"

fun starts_with :: "string \<Rightarrow> string \<Rightarrow> bool" where
  "starts_with [] s = True"
| "starts_with (p # ps) [] = False"
| "starts_with (p # ps) (c # cs) = (p = c \<and> starts_with ps cs)"

fun strings_Contains :: "string \<Rightarrow> string \<Rightarrow> bool" where
  "strings_Contains [] sub = (sub = [])"
| "strings_Contains (c # cs) sub = (starts_with sub (c # cs) \<or> strings_Contains cs sub)"

section \<open>Paths\<close>

text \<open>One pass over the components, with the cleaned prefix reversed in \<open>acc\<close>.\<close>

fun clean_comps :: "bool \<Rightarrow> string list \<Rightarrow> string list \<Rightarrow> string list" where
  "clean_comps rooted acc [] = rev acc"
| "clean_comps rooted acc (c # cs) =
     (if c = [] \<or> c = ''.'' then clean_comps rooted acc cs
      else if c = ''..'' then
        (case acc of
           [] \<Rightarrow> if rooted then clean_comps rooted [] cs else clean_comps rooted [''..''] cs
         | a # as \<Rightarrow> if a = ''..'' then clean_comps rooted (''..'' # acc) cs else clean_comps rooted as cs)
      else clean_comps rooted (c # acc) cs)"

fun join_slash :: "string list \<Rightarrow> string" where
  "join_slash [] = []"
| "join_slash [c] = c"
| "join_slash (c # cs) = c @ ''/'' @ join_slash cs"

definition path_Clean :: "string \<Rightarrow> string" where
  "path_Clean p =
     (let rooted = (p \<noteq> [] \<and> hd p = CHR ''/'');
          cs = clean_comps rooted [] (split_on (CHR ''/'') p)
      in if rooted then ''/'' @ join_slash cs
         else if cs = [] then ''.'' else join_slash cs)"

definition path_Join :: "string \<Rightarrow> string \<Rightarrow> string" where
  "path_Join a b =
     (if a = [] \<and> b = [] then []
      else if a = [] then path_Clean b
      else if b = [] then path_Clean a
      else path_Clean (a @ ''/'' @ b))"

text \<open>\<open>path.Base\<close>: the last component after trailing slashes are dropped.\<close>

definition path_Base :: "string \<Rightarrow> string" where
  "path_Base p =
     (if p = [] then ''.''
      else let q = rev (dropWhile (\<lambda>c. c = CHR ''/'') (rev p))
           in if q = [] then ''/'' else last (split_on (CHR ''/'') q))"

text \<open>A file name: one component that is not special.\<close>

definition plain_name :: "string \<Rightarrow> bool" where
  "plain_name c \<longleftrightarrow> c \<noteq> [] \<and> CHR ''/'' \<notin> set c \<and> c \<noteq> ''.'' \<and> c \<noteq> ''..''"

text \<open>The absolute path with given components, and the components of a directory given by the user.\<close>

definition abs_path :: "string list \<Rightarrow> string" where
  "abs_path cs = ''/'' @ join_slash cs"

definition dir_comps :: "string \<Rightarrow> string list" where
  "dir_comps d = filter (\<lambda>c. c \<noteq> []) (split_on (CHR ''/'') d)"

definition abs_dir :: "string \<Rightarrow> bool" where
  "abs_dir d \<longleftrightarrow> d \<noteq> [] \<and> hd d = CHR ''/'' \<and> (\<forall>c \<in> set (dir_comps d). plain_name c)"

section \<open>Facts\<close>

lemma split_on_nonempty [simp]: "split_on d s \<noteq> []"
  by (cases s) (auto split: list.splits)

lemma split_on_plain: "d \<notin> set s \<Longrightarrow> split_on d s = [s]"
  by (induction s) auto

lemma split_on_append: "split_on d (s @ d # t) = split_on d s @ split_on d t"
  by (induction s) (auto split: list.splits)

lemma split_on_no_delim: "c \<in> set (split_on d s) \<Longrightarrow> d \<notin> set c"
  by (induction s arbitrary: c) (auto split: list.splits if_splits)

lemma split_on_join_slash:
  "cs \<noteq> [] \<Longrightarrow> \<forall>c \<in> set cs. CHR ''/'' \<notin> set c \<Longrightarrow> split_on (CHR ''/'') (join_slash cs) = cs"
  by (induction cs rule: join_slash.induct)
    (auto simp: split_on_plain split_on_append)

lemma clean_comps_plain:
  "\<forall>c \<in> set cs. plain_name c \<Longrightarrow> clean_comps r acc cs = rev acc @ cs"
  by (induction cs arbitrary: acc) (auto simp: plain_name_def)

lemma clean_comps_skip: "clean_comps r acc (filter (\<lambda>c. c \<noteq> []) cs) = clean_comps r acc cs"
  by (induction cs arbitrary: acc) (auto split: list.splits)

text \<open>Joining a plain file name to a user's absolute directory yields the expected path.\<close>

lemma path_Join_abs:
  assumes d: "abs_dir d" and x: "plain_name x"
  shows "path_Join d x = abs_path (dir_comps d @ [x])"
proof -
  have sp: "split_on (CHR ''/'') (d @ CHR ''/'' # x) = split_on (CHR ''/'') d @ [x]"
    using x by (simp add: split_on_append split_on_plain plain_name_def)
  have "clean_comps True [] (split_on (CHR ''/'') d @ [x])
      = clean_comps True [] (dir_comps d @ [x])"
    using x clean_comps_skip [of True "[]" "split_on (CHR ''/'') d @ [x]"]
    by (simp add: dir_comps_def plain_name_def)
  also have "\<dots> = dir_comps d @ [x]"
    using d x by (subst clean_comps_plain) (auto simp: abs_dir_def)
  finally show ?thesis
    using d x sp by (auto simp: path_Join_def path_Clean_def abs_path_def abs_dir_def plain_name_def)
qed

lemma dir_comps_abs_path:
  "\<forall>c \<in> set cs. plain_name c \<Longrightarrow> dir_comps (abs_path cs) = cs"
proof (cases "cs = []")
  case True
  then show ?thesis by (simp add: dir_comps_def abs_path_def)
next
  case False
  assume a: "\<forall>c \<in> set cs. plain_name c"
  with False have "split_on (CHR ''/'') (join_slash cs) = cs"
    by (intro split_on_join_slash) (auto simp: plain_name_def)
  with a show ?thesis by (auto simp: dir_comps_def abs_path_def plain_name_def filter_id_conv)
qed

lemma abs_dir_abs_path: "\<forall>c \<in> set cs. plain_name c \<Longrightarrow> abs_dir (abs_path cs)"
  by (simp add: abs_dir_def dir_comps_abs_path) (simp add: abs_path_def)

lemma abs_path_inj:
  "\<forall>c \<in> set cs. plain_name c \<Longrightarrow> \<forall>c \<in> set ds. plain_name c \<Longrightarrow> abs_path cs = abs_path ds \<longleftrightarrow> cs = ds"
  by (metis dir_comps_abs_path)

lemma path_Clean_abs_path:
  assumes "\<forall>c \<in> set cs. plain_name c"
  shows "path_Clean (abs_path cs) = abs_path cs"
proof -
  have "clean_comps True [] (split_on (CHR ''/'') (abs_path cs)) = clean_comps True [] (dir_comps (abs_path cs))"
    by (simp add: dir_comps_def clean_comps_skip)
  with assms show ?thesis
    by (simp add: dir_comps_abs_path clean_comps_plain path_Clean_def)
      (simp add: abs_path_def)
qed

end
