(* ===== verification/Disk_Store.thy ===== *)
theory Disk_Store
  imports Gcache_Store Go_Path Sha384 "HOL-Library.AList"
begin

text \<open>
  \<open>DiskStore\<close> (src/store/disk.go) over a model of the file system, and \<open>AllFiles\<close>
  (src/store/speedwalk/speedwalk.go).

  A path is its list of components from the root. \<open>fsys\<close> holds regular files and directories and
  a schedule of faults: each call of the operating system consumes one entry, and an entry
  \<open>Some err\<close> makes that call fail with no effect. The buffered direct-I/O writer of
  github.com/brk0v/directio is a parameter \<open>dio\<close>: the number of bytes it has written to the file
  before \<open>Flush\<close> (the rest is written by the deferred \<open>Flush\<close>, after the rename).
\<close>

section \<open>The file system\<close>

record fsys =
  files :: "(string list \<times> bytes) list"
  dirs :: "string list list"
  faults :: "go_error option list"

definition os_comps :: "string \<Rightarrow> string list" where
  "os_comps p = clean_comps True [] (split_on (CHR ''/'') p)"

definition os_call :: "(fsys \<Rightarrow> (go_error + 'a) \<times> fsys) \<Rightarrow> fsys \<Rightarrow> (go_error + 'a) \<times> fsys" where
  "os_call f fs =
     (case faults fs of
        [] \<Rightarrow> f fs
      | None # r \<Rightarrow> f (fs\<lparr>faults := r\<rparr>)
      | Some err # r \<Rightarrow> (Inl err, fs\<lparr>faults := r\<rparr>))"

definition fs_dir :: "fsys \<Rightarrow> string list \<Rightarrow> bool" where
  "fs_dir fs p \<longleftrightarrow> p = [] \<or> p \<in> set (dirs fs)"

definition under_file :: "fsys \<Rightarrow> string list \<Rightarrow> bool" where
  "under_file fs p \<longleftrightarrow> list_ex (\<lambda>n. map_of (files fs) (take n p) \<noteq> None) [0..<length p]"

definition os_Stat :: "string \<Rightarrow> fsys \<Rightarrow> (go_error + unit) \<times> fsys" where
  "os_Stat path = os_call (\<lambda>fs. let p = os_comps path in
     (if under_file fs p then Inl (Msg ''not a directory'')
      else if map_of (files fs) p \<noteq> None \<or> fs_dir fs p then Inr ()
      else Inl ErrNotExist, fs))"

definition os_ReadFile :: "string \<Rightarrow> fsys \<Rightarrow> (go_error + bytes) \<times> fsys" where
  "os_ReadFile path = os_call (\<lambda>fs. let p = os_comps path in
     (if under_file fs p then Inl (Msg ''not a directory'')
      else case map_of (files fs) p of
          Some b \<Rightarrow> Inr b
        | None \<Rightarrow> if fs_dir fs p then Inl (Msg ''is a directory'') else Inl ErrNotExist, fs))"

definition os_MkdirAll :: "string \<Rightarrow> fsys \<Rightarrow> (go_error + unit) \<times> fsys" where
  "os_MkdirAll path = os_call (\<lambda>fs. let p = os_comps path in
     if under_file fs p \<or> map_of (files fs) p \<noteq> None then (Inl (Msg ''not a directory''), fs)
     else (Inr (), fs\<lparr>dirs := dirs fs @ map (\<lambda>n. take n p) [1..<Suc (length p)]\<rparr>))"

text \<open>\<open>O_WRONLY | O_CREATE\<close> without \<open>O_TRUNC\<close>: an existing file keeps its content.\<close>

definition os_OpenFile :: "string \<Rightarrow> fsys \<Rightarrow> (go_error + unit) \<times> fsys" where
  "os_OpenFile path = os_call (\<lambda>fs. let p = os_comps path in
     if fs_dir fs p then (Inl (Msg ''is a directory''), fs)
     else if \<not> fs_dir fs (butlast p) then (Inl ErrNotExist, fs)
     else case map_of (files fs) p of
         Some b \<Rightarrow> (Inr (), fs)
       | None \<Rightarrow> (Inr (), fs\<lparr>files := AList.update p [] (files fs)\<rparr>))"

text \<open>Write \<open>data\<close> from the start of an open file.\<close>

definition os_Write :: "string \<Rightarrow> bytes \<Rightarrow> fsys \<Rightarrow> (go_error + unit) \<times> fsys" where
  "os_Write path data = os_call (\<lambda>fs. let p = os_comps path in
     case map_of (files fs) p of
       None \<Rightarrow> (Inl (Msg ''bad file descriptor''), fs)
     | Some old \<Rightarrow> (Inr (), fs\<lparr>files := AList.update p (data @ drop (length data) old) (files fs)\<rparr>))"

definition os_Rename :: "string \<Rightarrow> string \<Rightarrow> fsys \<Rightarrow> (go_error + unit) \<times> fsys" where
  "os_Rename oldpath newpath = os_call (\<lambda>fs. let p = os_comps oldpath; q = os_comps newpath in
     case map_of (files fs) p of
       None \<Rightarrow> (Inl ErrNotExist, fs)
     | Some b \<Rightarrow>
         if fs_dir fs q then (Inl (Msg ''file exists''), fs)
         else if \<not> fs_dir fs (butlast q) then (Inl ErrNotExist, fs)
         else (Inr (), fs\<lparr>files := AList.update q b (AList.delete p (files fs))\<rparr>))"

definition os_Remove :: "string \<Rightarrow> fsys \<Rightarrow> (go_error + unit) \<times> fsys" where
  "os_Remove path = os_call (\<lambda>fs. let p = os_comps path in
     if map_of (files fs) p \<noteq> None then (Inr (), fs\<lparr>files := AList.delete p (files fs)\<rparr>)
     else if p \<in> set (dirs fs) then
       (if list_ex (\<lambda>q. length p < length q \<and> take (length p) q = p) (map fst (files fs) @ dirs fs)
        then (Inl (Msg ''directory not empty''), fs)
        else (Inr (), fs\<lparr>dirs := filter (\<lambda>q. q \<noteq> p) (dirs fs)\<rparr>))
     else (Inl ErrNotExist, fs))"

text \<open>
  \<open>speedwalk.AllFiles\<close>: every regular file below \<open>startDir\<close>, in an order that depends on the
  scheduling of the walkers; the model lists them in the file table's order.
\<close>

definition AllFiles :: "string \<Rightarrow> bool \<Rightarrow> fsys \<Rightarrow> (go_error + string list) \<times> fsys" where
  "AllFiles startDir basename = os_call (\<lambda>fs. let d = os_comps startDir in
     if \<not> fs_dir fs d then (Inl ErrNotExist, fs)
     else (Inr (map (\<lambda>(q, _). if basename then last q else path_Join startDir (join_slash (drop (length d) q)))
                 (filter (\<lambda>(q, _). length d < length q \<and> take (length d) q = d)
                   (files fs))), fs))"

section \<open>DiskStore\<close>

record DiskStore =
  blobDir :: string
  prefixLength :: int
  initialized :: bool
  concurrentChecks :: int
  fs :: fsys

definition maxConcurrentChecks :: int where
  "maxConcurrentChecks = 30"

definition NewDiskStore :: "string \<Rightarrow> int \<Rightarrow> fsys \<Rightarrow> DiskStore" where
  "NewDiskStore dir n f =
     \<lparr>blobDir = dir, prefixLength = n, initialized = False, concurrentChecks = 0, fs = f\<rparr>"

definition nameDisk :: string where
  "nameDisk = ''disk''"

definition os :: "(fsys \<Rightarrow> (go_error + 'a) \<times> fsys) \<Rightarrow> (DiskStore, go_error + 'a) op" where
  "os f d = (case f (fs d) of (r, fs') \<Rightarrow> (Ret r, d\<lparr>fs := fs'\<rparr>))"

definition DiskStore_dir :: "DiskStore \<Rightarrow> string \<Rightarrow> string" where
  "DiskStore_dir d hash =
     (if prefixLength d \<le> 0 \<or> int (length hash) < prefixLength d then blobDir d
      else path_Join (blobDir d) (take (nat (prefixLength d)) hash))"

definition DiskStore_tmpDir :: "DiskStore \<Rightarrow> string \<Rightarrow> string" where
  "DiskStore_tmpDir d hash = path_Join (blobDir d) ''tmp''"

definition DiskStore_path :: "DiskStore \<Rightarrow> string \<Rightarrow> string" where
  "DiskStore_path d hash = path_Join (DiskStore_dir d hash) hash"

definition DiskStore_tmpPath :: "DiskStore \<Rightarrow> string \<Rightarrow> string" where
  "DiskStore_tmpPath d hash = path_Join (DiskStore_tmpDir d hash) hash"

definition ensureDirExists :: "string \<Rightarrow> (DiskStore, go_error option) op" where
  "ensureDirExists dir =
     bnd (os (os_MkdirAll dir)) (\<lambda>r. case r of Inl err \<Rightarrow> ret (Some err) | Inr _ \<Rightarrow> ret None)"

definition DiskStore_initOnce :: "(DiskStore, go_error option) op" where
  "DiskStore_initOnce =
     bnd get_st (\<lambda>d.
       if initialized d then ret None
       else
         bnd (ensureDirExists (blobDir d)) (\<lambda>err.
           if err \<noteq> None then ret err
           else
             bnd (ensureDirExists (path_Join (blobDir d) ''tmp'')) (\<lambda>err.
               if err \<noteq> None then ret err
               else bnd (modify (\<lambda>d. d\<lparr>initialized := True\<rparr>)) (\<lambda>_. ret None))))"

definition DiskStore_Has :: "string \<Rightarrow> (DiskStore, bool \<times> go_error option) op" where
  "DiskStore_Has hash =
     bnd DiskStore_initOnce (\<lambda>err.
       if err \<noteq> None then ret (False, err)
       else
         bnd get_st (\<lambda>d. bnd (os (os_Stat (DiskStore_path d hash))) (\<lambda>r.
           case r of
             Inl err \<Rightarrow> if err = ErrNotExist then ret (False, None) else ret (False, Some err)
           | Inr _ \<Rightarrow> ret (True, None))))"

definition DiskStore_Delete :: "string \<Rightarrow> (DiskStore, go_error option) op" where
  "DiskStore_Delete hash =
     bnd DiskStore_initOnce (\<lambda>err.
       if err \<noteq> None then ret err
       else
         bnd (DiskStore_Has hash) (\<lambda>(has, err).
           if err \<noteq> None then ret err
           else if \<not> has then ret None
           else
             bnd get_st (\<lambda>d. bnd (os (os_Remove (DiskStore_path d hash))) (\<lambda>r.
               case r of Inl err \<Rightarrow> ret (Some err) | Inr _ \<Rightarrow> ret None))))"

definition broken_message :: "string \<Rightarrow> string \<Rightarrow> string" where
  "broken_message hash readHash =
     ''['' @ hash @ ''] found a broken blob while reading from disk. Actual hash: '' @ readHash"

text \<open>The check of a blob that was read, between the increment and the deferred decrement.\<close>

definition DiskStore_check :: "call_env \<Rightarrow> string \<Rightarrow> bytes \<Rightarrow> (DiskStore, bytes \<times> BlobTrace \<times> go_error option) op" where
  "DiskStore_check e hash blob =
     (let readHash = BlobHash blob in
      if hash \<noteq> readHash then
        bnd (DiskStore_Delete hash) (\<lambda>err.
          if err \<noteq> None then ret ([], NewBlobTrace e nameDisk, err)
          else ret ([], NewBlobTrace e nameDisk, Some (Msg (broken_message hash readHash))))
      else ret (blob, NewBlobTrace e nameDisk, None))"

definition DiskStore_Get :: "call_env \<Rightarrow> string \<Rightarrow> (DiskStore, bytes \<times> BlobTrace \<times> go_error option) op" where
  "DiskStore_Get e hash =
     bnd DiskStore_initOnce (\<lambda>err.
       if err \<noteq> None then ret ([], NewBlobTrace e nameDisk, err)
       else
         bnd get_st (\<lambda>d. bnd (os (os_ReadFile (DiskStore_path d hash))) (\<lambda>r.
           case r of
             Inl err \<Rightarrow>
               if err = ErrNotExist then ret ([], NewBlobTrace e nameDisk, Some ErrBlobNotFound)
               else ret ([], NewBlobTrace e nameDisk, Some err)
           | Inr blob \<Rightarrow>
               bnd get_st (\<lambda>d.
                 if concurrentChecks d < maxConcurrentChecks then
                   bnd (modify (\<lambda>d. d\<lparr>concurrentChecks := concurrentChecks d + 1\<rparr>)) (\<lambda>_.
                     bnd (DiskStore_check e hash blob) (\<lambda>res.
                       bnd (modify (\<lambda>d. d\<lparr>concurrentChecks := concurrentChecks d - 1\<rparr>)) (\<lambda>_. ret res)))
                 else ret (blob, NewBlobTrace e nameDisk, None)))))"

text \<open>
  \<open>Put\<close>: the deferred \<open>Flush\<close> runs when the function returns, on the file wherever it is then, and
  its error is dropped.
\<close>

definition DiskStore_Put :: "(bytes \<Rightarrow> nat) \<Rightarrow> string \<Rightarrow> bytes \<Rightarrow> (DiskStore, go_error option) op" where
  "DiskStore_Put dio hash blob =
     bnd DiskStore_initOnce (\<lambda>err.
       if err \<noteq> None then ret err
       else bnd get_st (\<lambda>d.
         bnd (ensureDirExists (DiskStore_dir d hash)) (\<lambda>err.
           if err \<noteq> None then ret err
           else bnd (os (os_OpenFile (DiskStore_tmpPath d hash))) (\<lambda>r.
             case r of
               Inl err \<Rightarrow> ret (Some err)
             | Inr _ \<Rightarrow>
                 bnd (os (os_call (\<lambda>fs. (Inr (), fs)))) (\<lambda>r. \<comment> \<open>directio.New\<close>
                   case r of
                     Inl err \<Rightarrow> ret (Some err)
                   | Inr _ \<Rightarrow>
                       bnd (os (os_Write (DiskStore_tmpPath d hash) (take (dio blob) blob))) (\<lambda>r.
                         case r of
                           Inl err \<Rightarrow>
                             bnd (os (os_call (\<lambda>fs. (Inr (), fs)))) (\<lambda>_. ret (Some err)) \<comment> \<open>Flush\<close>
                         | Inr _ \<Rightarrow>
                             bnd (os (os_Rename (DiskStore_tmpPath d hash) (DiskStore_path d hash))) (\<lambda>r.
                               case r of
                                 Inl err \<Rightarrow>
                                   bnd (os (os_Write (DiskStore_tmpPath d hash) blob)) (\<lambda>_. ret (Some err))
                               | Inr _ \<Rightarrow>
                                   bnd (os (os_Write (DiskStore_path d hash) blob)) (\<lambda>_. ret None))))))))"

definition DiskStore_PutSD :: "(bytes \<Rightarrow> nat) \<Rightarrow> string \<Rightarrow> bytes \<Rightarrow> (DiskStore, go_error option) op" where
  "DiskStore_PutSD dio hash blob = DiskStore_Put dio hash blob"

definition DiskStore_list :: "DiskStore lister" where
  "DiskStore_list =
     bnd DiskStore_initOnce (\<lambda>err.
       if err \<noteq> None then ret ([], err)
       else
         bnd get_st (\<lambda>d. bnd (os (AllFiles (blobDir d) True)) (\<lambda>r.
           case r of Inl err \<Rightarrow> ret ([], Some err) | Inr xs \<Rightarrow> ret (xs, None))))"

definition DiskStore_ops :: "(bytes \<Rightarrow> nat) \<Rightarrow> DiskStore BlobStore" where
  "DiskStore_ops dio =
     \<lparr>bs_Name = nameDisk, bs_Has = DiskStore_Has, bs_Get = DiskStore_Get, bs_Put = DiskStore_Put dio,
      bs_PutSD = DiskStore_PutSD dio, bs_Delete = DiskStore_Delete, bs_Shutdown = ret ()\<rparr>"

end
