(* ===== verification/Disk_Correct.thy ===== *)
theory Disk_Correct
  imports Disk_Store
begin

text \<open>
  \<open>DiskStore\<close> implements the store contract for well-formed hashes and blobs stored under their
  own hash, on a disk that does not fail. Against a failing or corrupted disk it still never
  returns a blob that does not match its name while a check slot is free.
\<close>

section \<open>Where files live\<close>

definition bcomps :: "DiskStore \<Rightarrow> string list" where
  "bcomps d = dir_comps (blobDir d)"

definition dloc :: "DiskStore \<Rightarrow> string \<Rightarrow> string list" where
  "dloc d h = (if prefixLength d \<le> 0 \<or> int (length h) < prefixLength d then bcomps d
               else bcomps d @ [take (nat (prefixLength d)) h])"

definition loc :: "DiskStore \<Rightarrow> string \<Rightarrow> string list" where
  "loc d h = dloc d h @ [h]"

definition tloc :: "DiskStore \<Rightarrow> string \<Rightarrow> string list" where
  "tloc d h = bcomps d @ [''tmp'', h]"

lemma hex_plain: "set s \<subseteq> hex_chars \<Longrightarrow> s \<noteq> [] \<Longrightarrow> plain_name s"
  by (auto simp: plain_name_def hex_chars_def)

lemma valid_hash_plain: "valid_hash h \<Longrightarrow> plain_name h"
  by (rule hex_plain) (auto simp: valid_hash_def)

lemma valid_hash_prefix_plain: "valid_hash h \<Longrightarrow> 0 < n \<Longrightarrow> plain_name (take n h)"
  by (rule hex_plain) (auto simp: valid_hash_def dest: in_set_takeD)

lemma tmp_plain [simp]: "plain_name ''tmp''"
  by (simp add: plain_name_def)

lemma tmp_not_hex: "set s \<subseteq> hex_chars \<Longrightarrow> s \<noteq> ''tmp''"
  by (auto simp: hex_chars_def)

lemma os_comps_abs_path: "\<forall>c \<in> set cs. plain_name c \<Longrightarrow> os_comps (abs_path cs) = cs"
  using clean_comps_skip [of True "[]" "split_on (CHR ''/'') (abs_path cs)"] dir_comps_abs_path [of cs]
  by (simp add: os_comps_def dir_comps_def [symmetric] clean_comps_plain)

lemma os_comps_dir: "abs_dir d \<Longrightarrow> os_comps d = dir_comps d"
  using clean_comps_skip [of True "[]" "split_on (CHR ''/'') d"]
  by (simp add: os_comps_def dir_comps_def [symmetric] abs_dir_def clean_comps_plain)

lemma Join_os:
  assumes "abs_dir d" "plain_name x"
  shows "os_comps (path_Join d x) = dir_comps d @ [x]" "abs_dir (path_Join d x)" "dir_comps (path_Join d x) = dir_comps d @ [x]"
proof -
  have p: "\<forall>c \<in> set (dir_comps d @ [x]). plain_name c" using assms by (auto simp: abs_dir_def)
  show "os_comps (path_Join d x) = dir_comps d @ [x]"
    using assms p by (simp add: path_Join_abs os_comps_abs_path)
  show "abs_dir (path_Join d x)" using assms p by (simp add: path_Join_abs abs_dir_abs_path)
  show "dir_comps (path_Join d x) = dir_comps d @ [x]" using assms p by (simp add: path_Join_abs dir_comps_abs_path)
qed

lemma dir_os:
  assumes "abs_dir (blobDir d)" "valid_hash h"
  shows "os_comps (DiskStore_dir d h) = dloc d h" "abs_dir (DiskStore_dir d h)" "dir_comps (DiskStore_dir d h) = dloc d h"
proof -
  have "plain_name (take (nat (prefixLength d)) h)" if "\<not> prefixLength d \<le> 0"
    using that assms(2) by (intro valid_hash_prefix_plain) auto
  with assms show "os_comps (DiskStore_dir d h) = dloc d h" "abs_dir (DiskStore_dir d h)"
      "dir_comps (DiskStore_dir d h) = dloc d h"
    by (auto simp: DiskStore_dir_def dloc_def bcomps_def Join_os os_comps_dir)
qed

lemma path_os: "abs_dir (blobDir d) \<Longrightarrow> valid_hash h \<Longrightarrow> os_comps (DiskStore_path d h) = loc d h"
  using Join_os [OF dir_os(2) valid_hash_plain] by (simp add: DiskStore_path_def loc_def dir_os(3))

lemma tmpPath_os: "abs_dir (blobDir d) \<Longrightarrow> valid_hash h \<Longrightarrow> os_comps (DiskStore_tmpPath d h) = tloc d h"
  using Join_os [OF _ tmp_plain, of "blobDir d"]
  by (simp add: DiskStore_tmpPath_def DiskStore_tmpDir_def tloc_def bcomps_def Join_os valid_hash_plain)

lemma loc_inj: "valid_hash h \<Longrightarrow> valid_hash h' \<Longrightarrow> loc d h = loc d h' \<longleftrightarrow> h = h'"
  by (auto simp: loc_def)

lemma hex_take: "valid_hash h \<Longrightarrow> take n h \<noteq> ''tmp''"
  by (rule tmp_not_hex) (auto simp: valid_hash_def dest: in_set_takeD)

lemma loc_tloc: "valid_hash h \<Longrightarrow> valid_hash h' \<Longrightarrow> loc d h \<noteq> tloc d h'"
  using hex_take [of h "nat (prefixLength d)"] hex_take [of h 96]
  by (auto simp: loc_def tloc_def dloc_def)

section \<open>Invariant\<close>

definition file_at :: "DiskStore \<Rightarrow> string list \<Rightarrow> bytes option" where
  "file_at d p = map_of (files (fs d)) p"

definition disk_content :: "DiskStore \<Rightarrow> content" where
  "disk_content d h = (if valid_hash h then file_at d (loc d h) else None)"

definition layout_ok :: "DiskStore \<Rightarrow> bool" where
  "layout_ok d \<longleftrightarrow> abs_dir (blobDir d)
     \<and> (\<forall>n. file_at d (take n (bcomps d)) = None) \<and> file_at d (bcomps d @ [''tmp'']) = None
     \<and> (\<forall>h. valid_hash h \<longrightarrow> file_at d (dloc d h) = None
          \<and> loc d h \<notin> set (dirs (fs d)) \<and> tloc d h \<notin> set (dirs (fs d)))
     \<and> (initialized d \<longrightarrow> (\<forall>n. fs_dir (fs d) (take n (bcomps d))) \<and> fs_dir (fs d) (bcomps d @ [''tmp'']))"

definition disk_inv :: "DiskStore \<Rightarrow> bool" where
  "disk_inv d \<longleftrightarrow> layout_ok d \<and> faults (fs d) = [] \<and> 0 \<le> concurrentChecks d \<and> concurrentChecks d < maxConcurrentChecks
     \<and> (\<forall>h. valid_hash h \<longrightarrow> file_at d (tloc d h) = None)
     \<and> (\<forall>h b. disk_content d h = Some b \<longrightarrow> BlobHash b = h)"

text \<open>The store is the same but for the file system.\<close>

definition same_store :: "DiskStore \<Rightarrow> DiskStore \<Rightarrow> bool" where
  "same_store d d' \<longleftrightarrow> blobDir d' = blobDir d \<and> prefixLength d' = prefixLength d \<and> concurrentChecks d' = concurrentChecks d"

lemma same_store_loc:
  assumes "same_store d d'"
  shows "bcomps d' = bcomps d" "dloc d' = dloc d" "loc d' = loc d" "tloc d' = tloc d"
proof -
  from assms show b: "bcomps d' = bcomps d" by (simp add: bcomps_def same_store_def)
  with assms show dl: "dloc d' = dloc d" by (intro ext) (simp add: dloc_def same_store_def)
  then show "loc d' = loc d" by (intro ext) (simp add: loc_def)
  from b show "tloc d' = tloc d" by (intro ext) (simp add: tloc_def)
qed

lemma os_call_ok: "faults f = [] \<Longrightarrow> os_call g f = g f"
  by (simp add: os_call_def)

lemma under_file_iff: "under_file f p \<longleftrightarrow> (\<exists>n < length p. map_of (files f) (take n p) \<noteq> None)"
  by (auto simp: under_file_def list_ex_iff)

lemma take_dloc: "take n (dloc d h) = take n (bcomps d) \<or> take n (dloc d h) = dloc d h"
  by (cases "n \<le> length (bcomps d)") (auto simp: dloc_def)

lemma not_under_file_dloc:
  assumes "layout_ok d" "valid_hash h"
  shows "\<not> under_file (fs d) (dloc d h)"
  unfolding under_file_iff
proof clarify
  fix n y
  assume "map_of (files (fs d)) (take n (dloc d h)) = Some y"
  with assms take_dloc [of n d h] show False
    by (auto simp: layout_ok_def file_at_def)
qed

lemma not_under_file_loc:
  assumes "layout_ok d" "valid_hash h"
  shows "\<not> under_file (fs d) (loc d h)"
  unfolding under_file_iff
proof clarify
  fix n y
  assume n: "n < length (loc d h)" and y: "map_of (files (fs d)) (take n (loc d h)) = Some y"
  have "take n (loc d h) = take n (dloc d h)" using n by (simp add: loc_def)
  with assms take_dloc [of n d h] y show False
    by (auto simp: layout_ok_def file_at_def)
qed

lemma take_snoc:
  "B @ [h] \<noteq> take n B" "B @ [h] = take n (B @ [t]) \<Longrightarrow> h = t"
proof -
  show "B @ [h] \<noteq> take n B"
  proof (rule notI)
    assume "B @ [h] = take n B"
    then have "length (B @ [h]) = length (take n B)" by (rule arg_cong)
    then show False by simp
  qed
  assume eq: "B @ [h] = take n (B @ [t])"
  then have "length (B @ [h]) = length (take n (B @ [t]))" by (rule arg_cong)
  then have n: "Suc (length B) \<le> n" unfolding length_take length_append_singleton by (metis min.cobounded2)
  then have "take n (B @ [t]) = B @ [t]" by (intro take_all) simp
  with eq show "h = t" by (metis last_snoc)
qed

text \<open>Creating the directories of the layout keeps it.\<close>

lemma loc_not_prefix:
  assumes "valid_hash h" "q = bcomps d \<or> q = bcomps d @ [''tmp''] \<or> q = dloc d g" "valid_hash g"
  shows "loc d h \<noteq> take n q" "tloc d h \<noteq> take n q"
proof -
  show "tloc d h \<noteq> take n q"
  proof
    assume eq: "tloc d h = take n q"
    have "length q < length (tloc d h)" using assms(2) by (auto simp: tloc_def dloc_def)
    moreover have "length (tloc d h) \<le> length q" by (simp add: eq)
    ultimately show False by simp
  qed
  show "loc d h \<noteq> take n q"
  proof
    assume eq: "loc d h = take n q"
    have le: "length (loc d h) \<le> length q" by (simp add: eq)
    have lh: "length h = 96" "length g = 96" using assms by (auto simp: valid_hash_def)
    show False
    proof (cases "prefixLength d \<le> 0 \<or> 96 < prefixLength d")
      case True
      with lh have "loc d h = bcomps d @ [h]" "dloc d g = bcomps d" by (auto simp: loc_def dloc_def)
      moreover have "h \<noteq> ''tmp''" using assms(1) tmp_not_hex by (auto simp: valid_hash_def)
      ultimately show False using eq assms(2) take_snoc [of "bcomps d" h n] by metis
    next
      case False
      with lh have "length (loc d h) = length (bcomps d) + 2" by (auto simp: loc_def dloc_def)
      with le assms(2) show False by (auto simp: dloc_def split: if_splits)
    qed
  qed
qed

lemma mkdir_ok:
  assumes inv: "layout_ok d" "faults (fs d) = [] \<or> (\<exists>r. faults (fs d) = None # r)"
    and q: "os_comps p = q" "q = bcomps d \<or> q = bcomps d @ [''tmp''] \<or> (\<exists>g. valid_hash g \<and> q = dloc d g)"
  shows "\<exists>d'. ensureDirExists p d = (Ret None, d') \<and> layout_ok d' \<and> same_store d d' \<and> initialized d' = initialized d
     \<and> files (fs d') = files (fs d) \<and> faults (fs d') = tl (faults (fs d)) \<and> (\<forall>n. fs_dir (fs d') (take n q))
     \<and> (\<forall>r. fs_dir (fs d) r \<longrightarrow> fs_dir (fs d') r)"
proof -
  let ?ds = "map (\<lambda>n. take n q) [1..<Suc (length q)]"
  let ?d' = "d\<lparr>fs := (fs d)\<lparr>dirs := dirs (fs d) @ ?ds, faults := tl (faults (fs d))\<rparr>\<rparr>"
  have nf: "\<not> under_file (fs d) q \<and> map_of (files (fs d)) q = None"
  proof (cases "\<exists>g. valid_hash g \<and> q = dloc d g")
    case True
    with not_under_file_dloc [OF inv(1)] inv(1) show ?thesis by (auto simp: layout_ok_def file_at_def)
  next
    case False
    have "map_of (files (fs d)) (take n q) = None" for n
      using q(2) False inv(1) by (cases "n \<le> length (bcomps d)") (auto simp: layout_ok_def file_at_def)
    from this [of "length q"] this show ?thesis by (auto simp: under_file_iff)
  qed
  have same: "same_store d ?d'" by (simp add: same_store_def)
  have pre: "fs_dir (fs ?d') (take n q)" for n
  proof (cases "n = 0")
    case True
    then show ?thesis by (simp add: fs_dir_def)
  next
    case False
    have "take n q = take (min n (length q)) q" by (simp add: min_def)
    moreover have "q \<noteq> [] \<Longrightarrow> take (min n (length q)) q \<in> set ?ds"
      using False by (auto simp: image_iff Bex_def Suc_le_eq intro!: exI [of _ "min n (length q)"])
    ultimately show ?thesis by (cases "q = []") (auto simp: fs_dir_def)
  qed
  have new: "r \<in> set ?ds \<Longrightarrow> \<exists>n. r = take n q" for r by auto
  have notin: "loc d h \<notin> set ?ds \<and> tloc d h \<notin> set ?ds" if h: "valid_hash h" for h
  proof -
    obtain g where "valid_hash g" "q = bcomps d \<or> q = bcomps d @ [''tmp''] \<or> q = dloc d g"
      using q(2) h by blast
    from loc_not_prefix [OF h this(2,1)] show ?thesis using new by metis
  qed
  have fd: "fs_dir (fs d) r \<Longrightarrow> fs_dir (fs ?d') r" for r
    by (auto simp: fs_dir_def)
  have "layout_ok ?d'"
    using inv(1) notin fd unfolding layout_ok_def file_at_def same_store_loc [OF same] by auto
  moreover have "ensureDirExists p d = (Ret None, ?d')"
    using nf inv(2) q(1)
    by (auto simp: ensureDirExists_def os_def os_MkdirAll_def os_call_def Let_def bnd_def ret_def under_file_def)
  ultimately show ?thesis using same pre fd by (intro exI [of _ ?d']) simp
qed


section \<open>The operations on a disk that does not fail\<close>

lemma initOnce_ok:
  assumes inv: "disk_inv d"
  shows "\<exists>d'. DiskStore_initOnce d = (Ret None, d') \<and> disk_inv d' \<and> same_store d d' \<and> initialized d'
     \<and> files (fs d') = files (fs d)"
proof (cases "initialized d")
  case True
  with inv show ?thesis
    by (auto simp: DiskStore_initOnce_def get_st_def ret_def same_store_def)
next
  case False
  from inv have l: "layout_ok d" "faults (fs d) = []" and a: "abs_dir (blobDir d)"
    by (auto simp: disk_inv_def layout_ok_def)
  have b: "os_comps (blobDir d) = bcomps d" using a by (simp add: os_comps_dir bcomps_def)
  from mkdir_ok [OF l(1) disjI1 [OF l(2)] b] obtain d1 where
    1: "ensureDirExists (blobDir d) d = (Ret None, d1)" "layout_ok d1" "same_store d d1"
       "files (fs d1) = files (fs d)" "faults (fs d1) = []" "\<forall>n. fs_dir (fs d1) (take n (bcomps d))"
       "initialized d1 = initialized d"
    using l(2) by auto
  have t: "os_comps (path_Join (blobDir d) ''tmp'') = bcomps d1 @ [''tmp'']"
    using Join_os(1) [OF a tmp_plain] same_store_loc(1) [OF 1(3)] by (simp add: bcomps_def)
  from mkdir_ok [OF 1(2) disjI1 [OF 1(5)] t] obtain d2 where
    2: "ensureDirExists (path_Join (blobDir d) ''tmp'') d1 = (Ret None, d2)" "layout_ok d2" "same_store d1 d2"
       "files (fs d2) = files (fs d1)" "faults (fs d2) = []" "\<forall>n. fs_dir (fs d2) (take n (bcomps d1 @ [''tmp'']))"
       "\<forall>r. fs_dir (fs d1) r \<longrightarrow> fs_dir (fs d2) r"
    using 1(5) by auto
  let ?d' = "d2\<lparr>initialized := True\<rparr>"
  have same: "same_store d ?d'" using 1(3) 2(3) by (simp add: same_store_def)
  note L = same_store_loc [OF same] same_store_loc [OF 1(3)] same_store_loc [OF 2(3)]
  have "fs_dir (fs d2) (bcomps d @ [''tmp''])"
    using 2(6) [rule_format, of "Suc (length (bcomps d))"] L(5) by simp
  then have "layout_ok ?d'"
    using 2(2,7) 1(6) L unfolding layout_ok_def by (auto simp: file_at_def)
  moreover have "disk_content ?d' = disk_content d"
    using 1(4) 2(4) L by (auto simp: disk_content_def file_at_def)
  ultimately have "disk_inv ?d'"
    using inv 1(4) 2(4,5) L same by (auto simp: disk_inv_def file_at_def same_store_def)
  moreover have "DiskStore_initOnce d = (Ret None, ?d')"
    using False 1(1) 2(1) by (simp add: DiskStore_initOnce_def get_st_def bnd_def ret_def modify_def)
  ultimately show ?thesis using same 1(4) 2(4) by auto
qed

lemma disk_invD:
  assumes "disk_inv d"
  shows "layout_ok d" "abs_dir (blobDir d)" "faults (fs d) = []" "0 \<le> concurrentChecks d"
    "concurrentChecks d < maxConcurrentChecks"
    "valid_hash h \<Longrightarrow> file_at d (tloc d h) = None"
    "disk_content d h = Some b \<Longrightarrow> BlobHash b = h"
  using assms by (auto simp: disk_inv_def layout_ok_def)

lemma content_same:
  "same_store d d' \<Longrightarrow> files (fs d') = files (fs d) \<Longrightarrow> disk_content d' = disk_content d"
  by (intro ext) (simp add: disk_content_def file_at_def same_store_loc)

lemma loc_not_dir: "layout_ok d \<Longrightarrow> valid_hash h \<Longrightarrow> \<not> fs_dir (fs d) (loc d h)"
  by (auto simp: layout_ok_def fs_dir_def loc_def)

lemma tloc_not_dir: "layout_ok d \<Longrightarrow> valid_hash h \<Longrightarrow> \<not> fs_dir (fs d) (tloc d h)"
  by (auto simp: layout_ok_def fs_dir_def tloc_def)

lemma stat_ok:
  assumes "disk_inv d" "valid_hash h"
  shows "os (os_Stat (DiskStore_path d h)) d
      = (Ret (if disk_content d h = None then Inl ErrNotExist else Inr ()), d)"
  using assms not_under_file_loc [of d h] loc_not_dir [of d h] disk_invD(1,2,3) [OF assms(1)]
  by (auto simp: os_def os_Stat_def os_call_ok path_os Let_def disk_content_def file_at_def)

lemma read_ok:
  assumes "disk_inv d" "valid_hash h"
  shows "os (os_ReadFile (DiskStore_path d h)) d
      = (Ret (case disk_content d h of None \<Rightarrow> Inl ErrNotExist | Some b \<Rightarrow> Inr b), d)"
  using assms not_under_file_loc [of d h] loc_not_dir [of d h] disk_invD(1,2,3) [OF assms(1)]
  by (auto simp: os_def os_ReadFile_def os_call_ok path_os Let_def disk_content_def file_at_def split: option.splits)

lemma disk_Has_ok:
  assumes "disk_inv d" "valid_hash h"
  shows "\<exists>d'. DiskStore_Has h d = (Ret (disk_content d h \<noteq> None, None), d') \<and> disk_inv d' \<and> same_store d d'
     \<and> initialized d' \<and> files (fs d') = files (fs d)"
proof -
  from initOnce_ok [OF assms(1)] obtain d' where d': "DiskStore_initOnce d = (Ret None, d')" "disk_inv d'"
    "same_store d d'" "initialized d'" "files (fs d') = files (fs d)" by blast
  from stat_ok [OF d'(2) assms(2)] d' content_same [OF d'(3,5)] show ?thesis
    by (intro exI [of _ d']) (simp add: DiskStore_Has_def get_st_def bnd_def ret_def)
qed


lemma loc_parent: "butlast (loc d h) = dloc d h"
  by (simp add: loc_def)

lemma file_at_update: "fs d' = (fs d)\<lparr>files := AList.update p b (files (fs d))\<rparr> \<Longrightarrow>
    file_at d' q = (if q = p then Some b else file_at d q)"
  by (auto simp: file_at_def update_conv)

lemma file_at_delete: "fs d' = (fs d)\<lparr>files := AList.delete p (files (fs d))\<rparr> \<Longrightarrow>
    file_at d' q = (if q = p then None else file_at d q)"
  by (auto simp: file_at_def delete_conv)

text \<open>
  A change of the blob files only: the files at the blob paths \<open>loc\<close> become \<open>m\<close>, all else stays.
\<close>

lemma disk_inv_change:
  assumes inv: "disk_inv d" and same: "same_store d d'" and ini: "initialized d' = initialized d"
    and ds: "dirs (fs d') = dirs (fs d)" "faults (fs d') = []"
    and at: "\<And>p. (\<forall>h. valid_hash h \<longrightarrow> p \<noteq> loc d h) \<Longrightarrow> file_at d' p = file_at d p"
    and good: "\<And>h b. disk_content d' h = Some b \<Longrightarrow> BlobHash b = h"
  shows "disk_inv d'"
proof -
  note L = same_store_loc [OF same]
  have fd: "fs_dir (fs d') = fs_dir (fs d)" using ds by (auto simp: fs_dir_def)
  have v: "valid_hash (BlobHash [])" by (rule BlobHash_valid)
  have "file_at d' (take n (bcomps d)) = file_at d (take n (bcomps d))" for n
    using loc_not_prefix(1) [OF _ _ v, of _ "bcomps d" d n] by (intro at) metis
  moreover have "file_at d' (bcomps d @ [''tmp'']) = file_at d (bcomps d @ [''tmp''])"
    using loc_not_prefix(1) [OF _ _ v, of _ "bcomps d @ [''tmp'']" d "Suc (length (bcomps d))"]
    by (intro at) (fastforce dest: sym)
  moreover have "file_at d' (dloc d g) = file_at d (dloc d g)" if "valid_hash g" for g
    using loc_not_prefix(1) [OF _ _ that, of _ "dloc d g" d "length (dloc d g)"] by (intro at) (fastforce dest: sym)
  moreover have "file_at d' (tloc d h) = file_at d (tloc d h)" if "valid_hash h" for h
    using loc_tloc that by (intro at) metis
  ultimately show ?thesis
    using inv good same ds ini fd unfolding disk_inv_def layout_ok_def L by (auto simp: same_store_def)
qed

lemma disk_Delete_ok:
  assumes "disk_inv d" "valid_hash h"
  shows "\<exists>d'. DiskStore_Delete h d = (Ret None, d') \<and> disk_inv d' \<and> same_store d d'
     \<and> disk_content d' = (disk_content d)(h := None)"
proof -
  from initOnce_ok [OF assms(1)] obtain d0 where d0: "DiskStore_initOnce d = (Ret None, d0)" "disk_inv d0"
    "same_store d d0" "files (fs d0) = files (fs d)" by blast
  from disk_Has_ok [OF d0(2) assms(2)] obtain d1 where
    d1: "DiskStore_Has h d0 = (Ret (disk_content d0 h \<noteq> None, None), d1)" "disk_inv d1" "same_store d0 d1"
       "files (fs d1) = files (fs d0)" by blast
  have same: "same_store d d1" using d0(3) d1(3) by (simp add: same_store_def)
  have c: "disk_content d1 = disk_content d" "disk_content d0 = disk_content d"
    using content_same [OF d0(3,4)] content_same [OF d1(3,4)] by auto
  show ?thesis
  proof (cases "disk_content d h")
    case None
    with d0 d1 c same show ?thesis
      by (intro exI [of _ d1]) (auto simp: DiskStore_Delete_def bnd_def ret_def)
  next
    case (Some b)
    let ?d' = "d1\<lparr>fs := (fs d1)\<lparr>files := AList.delete (loc d1 h) (files (fs d1))\<rparr>\<rparr>"
    have at: "file_at ?d' q = (if q = loc d1 h then None else file_at d1 q)" for q
      by (rule file_at_delete) simp
    have s1: "same_store d1 ?d'" by (simp add: same_store_def)
    have cc: "disk_content ?d' = (disk_content d1)(h := None)"
      using assms(2) by (intro ext) (auto simp: disk_content_def at same_store_loc [OF s1] loc_inj)
    have inv: "disk_inv ?d'"
      using disk_invD(3,7) [OF d1(2)] assms(2) by (intro disk_inv_change [OF d1(2) s1]) (auto simp: at cc split: if_splits)
    have rm: "os (os_Remove (DiskStore_path d1 h)) d1 = (Ret (Inr ()), ?d')"
      using Some [folded c(1)] disk_invD(2,3) [OF d1(2)] assms(2)
      by (auto simp: os_def os_Remove_def os_call_ok path_os Let_def disk_content_def file_at_def)
    from Some d0 d1 c same rm inv cc s1 show ?thesis
      by (intro exI [of _ ?d']) (auto simp: DiskStore_Delete_def bnd_def ret_def get_st_def same_store_def)
  qed
qed

lemma disk_Get_ok:
  assumes "disk_inv d" "valid_hash h"
  shows "\<exists>d'. DiskStore_Get e h d = (Ret (case disk_content d h of
        None \<Rightarrow> ([], NewBlobTrace e nameDisk, Some ErrBlobNotFound)
      | Some b \<Rightarrow> (b, NewBlobTrace e nameDisk, None)), d') \<and> disk_inv d' \<and> disk_content d' = disk_content d"
proof -
  from initOnce_ok [OF assms(1)] obtain d0 where d0: "DiskStore_initOnce d = (Ret None, d0)" "disk_inv d0"
    "same_store d d0" "files (fs d0) = files (fs d)" by blast
  note c = content_same [OF d0(3,4)]
  show ?thesis
  proof (cases "disk_content d h")
    case None
    with d0 c read_ok [OF d0(2) assms(2)] show ?thesis
      by (intro exI [of _ d0]) (simp add: DiskStore_Get_def bnd_def ret_def get_st_def)
  next
    case (Some b)
    with d0 c read_ok [OF d0(2) assms(2)] disk_invD(4,5,7) [OF d0(2)] show ?thesis
      by (intro exI [of _ d0]) (auto simp: DiskStore_Get_def DiskStore_check_def bnd_def ret_def get_st_def modify_def Let_def)
  qed
qed


text \<open>
  \<open>Put\<close>: open, write the part \<open>dio\<close> writes, rename, and write all at the flush. The file that is
  left at the blob's path holds the whole blob.
\<close>

lemma disk_Put_ok:
  assumes inv: "disk_inv d" and h: "valid_hash h" and b: "BlobHash b = h"
  shows "\<exists>d'. DiskStore_Put dio h b d = (Ret None, d') \<and> disk_inv d' \<and> same_store d d'
     \<and> disk_content d' = (disk_content d)(h \<mapsto> b)"
proof -
  from initOnce_ok [OF inv] obtain d0 where d0: "DiskStore_initOnce d = (Ret None, d0)" "disk_inv d0"
    "same_store d d0" "initialized d0" "files (fs d0) = files (fs d)" by blast
  have o: "os_comps (DiskStore_dir d0 h) = dloc d0 h" by (rule dir_os [OF disk_invD(2) [OF d0(2)] h])
  from mkdir_ok [OF disk_invD(1) [OF d0(2)] disjI1 [OF disk_invD(3) [OF d0(2)]] o] h disk_invD(3) [OF d0(2)] obtain d1 where
    d1: "ensureDirExists (DiskStore_dir d0 h) d0 = (Ret None, d1)" "layout_ok d1" "same_store d0 d1"
      "initialized d1 = initialized d0" "files (fs d1) = files (fs d0)" "faults (fs d1) = []"
      "\<forall>n. fs_dir (fs d1) (take n (dloc d0 h))"
    by fastforce
  note L = same_store_loc [OF d1(3)]
  have same: "same_store d d1" using d0(3) d1(3) by (simp add: same_store_def)
  have c: "disk_content d1 = disk_content d" using d0(5) d1(5) by (intro content_same [OF same]) simp
  have inv1: "disk_inv d1"
    using d0(2) d1(2,6) content_same [OF d1(3,5)] d1(3,5) L
    unfolding disk_inv_def by (auto simp: same_store_def file_at_def)
  let ?t = "tloc d0 h" and ?p = "loc d0 h"
  have ne: "?t \<noteq> ?p" using loc_tloc [OF h h] by metis
  have paths: "os_comps (DiskStore_tmpPath d0 h) = ?t" "os_comps (DiskStore_path d0 h) = ?p"
    using tmpPath_os path_os disk_invD(2) [OF d0(2)] h by auto
  have tmpdir: "fs_dir (fs d1) (butlast ?t)"
    using d1(2,4) d0(4) L by (simp add: layout_ok_def tloc_def butlast_append)
  have pdir: "fs_dir (fs d1) (butlast ?p)"
    using d1(7) [rule_format, of "length (dloc d0 h)"] by (simp add: loc_def)
  have nodir: "\<not> fs_dir (fs d1) ?t" "\<not> fs_dir (fs d1) ?p"
    using tloc_not_dir [OF d1(2) h] loc_not_dir [OF d1(2) h] L by auto
  have notmp: "map_of (files (fs d1)) ?t = None"
    using disk_invD(6) [OF inv1 h] L by (simp add: file_at_def)
  let ?a = "AList.update ?t [] (files (fs d1))"
  let ?w = "AList.update ?t (take (dio b) b) ?a"
  let ?r = "AList.update ?p (take (dio b) b) (AList.delete ?t ?w)"
  let ?f = "AList.update ?p b ?r"
  let ?d' = "d1\<lparr>fs := (fs d1)\<lparr>files := ?f\<rparr>\<rparr>"
  have run: "DiskStore_Put dio h b d = (Ret None, ?d')"
    using d0(1) d1(1,6) tmpdir pdir nodir notmp ne
    by (simp add: DiskStore_Put_def bnd_def get_st_def ret_def os_def os_OpenFile_def os_Write_def os_Rename_def
        os_call_ok paths Let_def fs_dir_def update_conv delete_conv)
  have "file_at ?d' q = (if q = ?p then Some b else file_at d1 q)" for q
    using notmp ne by (auto simp: file_at_def update_conv delete_conv)
  moreover have "same_store d1 ?d'" by (simp add: same_store_def)
  ultimately obtain d' where d': "DiskStore_Put dio h b d = (Ret None, d')" "same_store d1 d'"
      "initialized d' = initialized d1" "dirs (fs d') = dirs (fs d1)" "faults (fs d') = []"
    and at: "\<And>q. file_at d' q = (if q = ?p then Some b else file_at d1 q)"
    using run d1(6) by (intro that [of ?d']) simp_all
  have cc: "disk_content d' = (disk_content d1)(h \<mapsto> b)"
    using h by (intro ext) (auto simp: disk_content_def at same_store_loc [OF d'(2)] L loc_inj)
  have "disk_inv d'"
    using disk_invD(7) [OF inv1] h b L d'(3-5)
    by (intro disk_inv_change [OF inv1 d'(2)]) (auto simp: at cc split: if_splits)
  with d'(1,2) same cc c show ?thesis by (auto simp: same_store_def)
qed

interpretation disk: live_store "DiskStore_ops dio" disk_inv disk_content valid_hash
    "\<lambda>h b. BlobHash b = h" "\<lambda>h b. BlobHash b = h" for dio
proof unfold_locales
  fix d h e b
  assume d: "disk_inv d" and h: "valid_hash h"
  show "\<exists>d'. bs_Has (DiskStore_ops dio) h d = (Ret (disk_content d h \<noteq> None, None), d') \<and> disk_inv d' \<and> disk_content d' = disk_content d"
    using disk_Has_ok [OF d h] content_same by (auto simp: DiskStore_ops_def)
  show "\<exists>tr d'. bs_Get (DiskStore_ops dio) e h d = (Ret (b, tr, None), d') \<and> disk_inv d' \<and> disk_content d' = disk_content d"
    if "disk_content d h = Some b"
    using disk_Get_ok [OF d h, of e] that by (auto simp: DiskStore_ops_def)
  show "\<exists>tr x d'. bs_Get (DiskStore_ops dio) e h d = (Ret ([], tr, Some x), d') \<and> not_found x \<and> disk_inv d' \<and> disk_content d' = disk_content d"
    if "disk_content d h = None"
    using disk_Get_ok [OF d h, of e] that by (auto simp: DiskStore_ops_def)
  show "\<exists>d'. bs_Delete (DiskStore_ops dio) h d = (Ret None, d') \<and> disk_inv d' \<and> disk_content d' = (disk_content d)(h := None)"
    using disk_Delete_ok [OF d h] by (auto simp: DiskStore_ops_def)
  show "\<exists>d'. bs_Put (DiskStore_ops dio) h b d = (Ret None, d') \<and> disk_inv d' \<and> disk_content d' = (disk_content d)(h \<mapsto> b)"
    if "BlobHash b = h"
    using disk_Put_ok [OF d h that] by (auto simp: DiskStore_ops_def)
  show "\<exists>d'. bs_PutSD (DiskStore_ops dio) h b d = (Ret None, d') \<and> disk_inv d' \<and> disk_content d' = (disk_content d)(h \<mapsto> b)"
    if "BlobHash b = h"
    using disk_Put_ok [OF d h that] by (auto simp: DiskStore_ops_def DiskStore_PutSD_def)
qed

end
