(* ===== verification/Disk_Props.thy ===== *)
theory Disk_Props
  imports Disk_Correct
begin

text \<open>
  What \<open>DiskStore\<close> guarantees, and where it does not: the refinement of a map, restart, integrity
  of what \<open>Get\<close> returns on an arbitrary disk, and the behaviours of \<open>Put\<close> that the missing
  \<open>O_TRUNC\<close> and the dropped error of \<open>Flush\<close> cause.
\<close>

section \<open>A new store\<close>

definition empty_fs :: fsys where
  "empty_fs = \<lparr>files = [], dirs = [], faults = []\<rparr>"

lemma NewDiskStore_inv: "abs_dir dir \<Longrightarrow> disk_inv (NewDiskStore dir n empty_fs)"
  by (auto simp: disk_inv_def layout_ok_def NewDiskStore_def empty_fs_def file_at_def disk_content_def maxConcurrentChecks_def)

lemma NewDiskStore_content: "disk_content (NewDiskStore dir n empty_fs) = Map.empty"
  by (auto simp: NewDiskStore_def empty_fs_def file_at_def disk_content_def)

text \<open>
  C5. A disk store on an empty directory of a disk that does not fail behaves as a map, for every
  prefix length and whatever part of a blob the direct-I/O writer leaves to its flush: any
  sequence of calls with well-formed hashes and blobs stored under their own hash gets the answers a plain map gives.
\<close>

theorem DiskStore_refines_map:
  assumes "abs_dir dir"
    and "\<forall>c \<in> set cs. call_ok valid_hash (\<lambda>h b. BlobHash b = h) (\<lambda>h b. BlobHash b = h) c"
    and "run_calls (DiskStore_ops dio) cs (NewDiskStore dir n empty_fs) = (obs, d)"
  shows "ref_trace cs Map.empty obs \<and> disk_content d = fold ref_call cs Map.empty"
  using disk.run_calls_refines [OF NewDiskStore_inv [OF assms(1)] assms(2,3)]
  by (simp add: NewDiskStore_content)

lemma abs_dir_example: "abs_dir ''/b''"
  by (simp add: abs_dir_def dir_comps_def plain_name_def)

theorem DiskStore_refines_map_witness:
  "ref_trace [CPut (BlobHash ''x'') ''x'', CGet env0 (BlobHash ''x'')] Map.empty
     (fst (run_calls (DiskStore_ops (\<lambda>_. 0)) [CPut (BlobHash ''x'') ''x'', CGet env0 (BlobHash ''x'')]
        (NewDiskStore ''/b'' 2 empty_fs)))"
proof -
  obtain obs d where r: "run_calls (DiskStore_ops (\<lambda>_. 0)) [CPut (BlobHash ''x'') ''x'', CGet env0 (BlobHash ''x'')]
        (NewDiskStore ''/b'' 2 empty_fs) = (obs, d)" by fastforce
  from DiskStore_refines_map [OF abs_dir_example _ r] r show ?thesis by (simp add: BlobHash_valid)
qed


section \<open>Restart\<close>

text \<open>
  What was put survives a restart: after \<open>Put\<close>, a new store on the same directory and file
  system returns the blob, although its in-memory state starts afresh.
\<close>

theorem DiskStore_Put_survives_restart:
  assumes "disk_inv d" "valid_hash h" "BlobHash b = h" "DiskStore_Put dio h b d = (r, d1)"
  shows "\<exists>tr d2. DiskStore_Get e h (NewDiskStore (blobDir d) (prefixLength d) (fs d1)) = (Ret (b, tr, None), d2)"
proof -
  from disk_Put_ok [OF assms(1-3), of dio] assms(4)
  have inv: "disk_inv d1" and c: "disk_content d1 = (disk_content d)(h \<mapsto> b)"
    and st: "blobDir d1 = blobDir d" "prefixLength d1 = prefixLength d"
    by (auto simp: same_store_def)
  let ?n = "NewDiskStore (blobDir d) (prefixLength d) (fs d1)"
  have L: "bcomps ?n = bcomps d1" "dloc ?n = dloc d1" "loc ?n = loc d1" "tloc ?n = tloc d1"
    using st by (auto simp: NewDiskStore_def bcomps_def dloc_def loc_def tloc_def fun_eq_iff)
  have f: "file_at ?n = file_at d1" by (auto simp: NewDiskStore_def file_at_def)
  have "disk_content ?n = disk_content d1" by (auto simp: disk_content_def f L)
  moreover have "disk_inv ?n"
    using inv st calculation unfolding disk_inv_def layout_ok_def L f
    by (simp add: NewDiskStore_def maxConcurrentChecks_def)
  ultimately show ?thesis using disk_Get_ok [of ?n h e] assms(2) c by auto
qed

theorem DiskStore_Put_survives_restart_witness:
  "\<exists>tr d2. DiskStore_Get env0 (BlobHash ''x'') (NewDiskStore ''/b'' 2
      (fs (snd (DiskStore_Put (\<lambda>_. 0) (BlobHash ''x'') ''x'' (NewDiskStore ''/b'' 2 empty_fs))))) = (Ret (''x'', tr, None), d2)"
proof -
  let ?d = "NewDiskStore ''/b'' 2 empty_fs"
  obtain r d1 where p: "DiskStore_Put (\<lambda>_. 0) (BlobHash ''x'') ''x'' ?d = (r, d1)" by fastforce
  from DiskStore_Put_survives_restart [OF NewDiskStore_inv [OF abs_dir_example] BlobHash_valid refl p, of env0] p
  show ?thesis by (simp add: NewDiskStore_def)
qed

section \<open>Integrity\<close>

lemma initOnce_checks: "DiskStore_initOnce d = (r, d') \<Longrightarrow> (\<forall>p. r \<noteq> Panic p) \<and> concurrentChecks d' = concurrentChecks d"
  by (auto simp: DiskStore_initOnce_def get_st_def ensureDirExists_def os_def modify_def ret_def bnd_def
      split: prod.splits sum.splits if_splits)

lemma Has_checks: "DiskStore_Has h d = (r, d') \<Longrightarrow> (\<forall>p. r \<noteq> Panic p) \<and> concurrentChecks d' = concurrentChecks d"
  by (auto simp: DiskStore_Has_def get_st_def os_def ret_def dest!: initOnce_checks elim!: bnd_cases
      split: prod.splits sum.splits if_splits)

lemma Delete_checks: "DiskStore_Delete h d = (r, d') \<Longrightarrow> (\<forall>p. r \<noteq> Panic p) \<and> concurrentChecks d' = concurrentChecks d"
  by (auto simp: DiskStore_Delete_def get_st_def os_def ret_def dest!: initOnce_checks Has_checks elim!: bnd_cases
      split: prod.splits sum.splits if_splits)

lemma get_checked:
  assumes "DiskStore_Get e hash d = (r, d')" "concurrentChecks d < maxConcurrentChecks"
  shows "concurrentChecks d' = concurrentChecks d \<and> (\<forall>b tr. r = Ret (b, tr, None) \<longrightarrow> BlobHash b = hash)"
  using assms
  by (auto simp: DiskStore_Get_def get_st_def os_def ret_def modify_def DiskStore_check_def Let_def elim!: bnd_cases
      dest!: initOnce_checks Delete_checks split: prod.splits sum.splits if_splits)

text \<open>
  Integrity on any disk: whatever the files hold and whichever system calls fail, a \<open>Get\<close> that
  finds a free check slot and returns no error returns a blob whose SHA-384 is the hash
  asked for, and it gives the slot back.
\<close>

theorem DiskStore_Get_integrity:
  assumes "concurrentChecks d < maxConcurrentChecks" "DiskStore_Get e hash d = (Ret (b, tr, None), d')"
  shows "BlobHash b = hash \<and> concurrentChecks d' = concurrentChecks d"
  using get_checked [OF assms(2,1)] by simp

theorem DiskStore_Get_integrity_witness:
  "\<exists>d tr d'. DiskStore_Get env0 (BlobHash ''x'') d = (Ret (''x'', tr, None), d') \<and> concurrentChecks d' = concurrentChecks d"
proof -
  let ?d = "NewDiskStore ''/b'' 2 empty_fs"
  from disk_Put_ok [OF NewDiskStore_inv [OF abs_dir_example] BlobHash_valid refl, of "\<lambda>_. 0" "''x''" 2]
  obtain d1 where d1: "disk_inv d1" "disk_content d1 (BlobHash ''x'') = Some ''x''" by auto
  from disk_Get_ok [OF d1(1) BlobHash_valid, of env0 "''x''"] d1(2) obtain tr d2
    where g: "DiskStore_Get env0 (BlobHash ''x'') d1 = (Ret (''x'', tr, None), d2)" by auto
  with DiskStore_Get_integrity [OF disk_invD(5) [OF d1(1)] g] show ?thesis by auto
qed

text \<open>The invariant without the condition on the contents of the blob files.\<close>

definition disk_ready :: "DiskStore \<Rightarrow> bool" where
  "disk_ready d \<longleftrightarrow> layout_ok d \<and> initialized d \<and> faults (fs d) = []"

lemma layout_ok_fewer:
  assumes "layout_ok d" "same_store d d'" "dirs (fs d') = dirs (fs d)" "initialized d' = initialized d"
    and "\<And>q. file_at d' q = None \<or> file_at d' q = file_at d q"
  shows "layout_ok d'"
proof -
  have "file_at d q = None \<Longrightarrow> file_at d' q = None" for q using assms(5) [of q] by auto
  then show ?thesis
    using assms(1-4) unfolding layout_ok_def same_store_loc [OF assms(2)] by (auto simp: fs_dir_def same_store_def)
qed

lemma ready_delete:
  "disk_ready d \<Longrightarrow> disk_ready (d\<lparr>fs := (fs d)\<lparr>files := AList.delete p (files (fs d))\<rparr>\<rparr>)"
  unfolding disk_ready_def
  by (auto intro!: layout_ok_fewer [of d] simp: same_store_def file_at_def delete_conv)

lemma ready_checks: "disk_ready (d\<lparr>concurrentChecks := n\<rparr>) = disk_ready d"
  by (simp add: disk_ready_def layout_ok_def file_at_def bcomps_def dloc_def loc_def tloc_def)

lemma loc_checks: "loc (d\<lparr>concurrentChecks := n\<rparr>) = loc d"
  by (simp add: fun_eq_iff loc_def dloc_def bcomps_def)

lemma init_skip: "initialized d \<Longrightarrow> DiskStore_initOnce d = (Ret None, d)"
  by (simp add: DiskStore_initOnce_def get_st_def bnd_def ret_def)

lemma ready_Has:
  assumes "disk_ready d" "valid_hash h"
  shows "DiskStore_Has h d = (Ret (file_at d (loc d h) \<noteq> None, None), d)"
  using assms not_under_file_loc [of d h] loc_not_dir [of d h]
  by (auto simp: DiskStore_Has_def init_skip disk_ready_def get_st_def bnd_def ret_def os_def os_Stat_def os_call_ok
      path_os layout_ok_def Let_def file_at_def)

lemma ready_Get_missing:
  assumes "disk_ready d" "valid_hash h" "file_at d (loc d h) = None"
  shows "DiskStore_Get e h d = (Ret ([], NewBlobTrace e nameDisk, Some ErrBlobNotFound), d)"
  using assms not_under_file_loc [of d h] loc_not_dir [of d h]
  by (simp add: DiskStore_Get_def init_skip disk_ready_def get_st_def bnd_def ret_def os_def os_ReadFile_def os_call_ok
      path_os layout_ok_def Let_def file_at_def)

lemma ready_Delete:
  assumes "disk_ready d" "valid_hash h" "file_at d (loc d h) = Some b"
  shows "DiskStore_Delete h d = (Ret None, d\<lparr>fs := (fs d)\<lparr>files := AList.delete (loc d h) (files (fs d))\<rparr>\<rparr>)"
  using assms ready_Has [of d h]
  by (simp add: DiskStore_Delete_def init_skip disk_ready_def get_st_def bnd_def ret_def os_def os_Remove_def os_call_ok
      path_os layout_ok_def Let_def file_at_def)

lemma ready_read:
  assumes "disk_ready d" "valid_hash h" "file_at d (loc d h) = Some b"
  shows "os (os_ReadFile (DiskStore_path d h)) d = (Ret (Inr b), d)"
  using assms not_under_file_loc [of d h]
  by (simp add: disk_ready_def os_def os_ReadFile_def os_call_ok path_os layout_ok_def Let_def file_at_def)

lemma broken_removed:
  assumes d: "disk_ready d" "concurrentChecks d < maxConcurrentChecks" and h: "valid_hash h"
    and f: "file_at d (loc d h) = Some b" and ne: "BlobHash b \<noteq> h"
  shows "\<exists>tr x d'. DiskStore_Get e h d = (Ret ([], tr, Some x), d') \<and> \<not> not_found x
     \<and> disk_ready d' \<and> file_at d' (loc d' h) = None"
proof -
  let ?d1 = "d\<lparr>concurrentChecks := concurrentChecks d + 1\<rparr>"
  let ?fs = "(fs d)\<lparr>files := AList.delete (loc d h) (files (fs d))\<rparr>"
  let ?d' = "d\<lparr>fs := ?fs\<rparr>"
  have del: "DiskStore_Delete h ?d1 = (Ret None, ?d1\<lparr>fs := ?fs\<rparr>)"
    using ready_Delete [of ?d1 h b] d h f by (simp add: ready_checks file_at_def loc_checks)
  have at: "file_at ?d' q = (if q = loc d h then None else file_at d q)" for q
    by (rule file_at_delete) simp
  have L: "loc ?d' = loc d" by (rule same_store_loc) (simp add: same_store_def)
  have "file_at ?d' (loc ?d' h) = None" using at L by simp
  moreover have "DiskStore_Get e h d = (Ret ([], NewBlobTrace e nameDisk, Some (Msg (broken_message h (BlobHash b)))), ?d')"
    using d ready_read [OF d(1) h f] del ne
    by (simp add: DiskStore_Get_def DiskStore_check_def init_skip disk_ready_def get_st_def bnd_def ret_def modify_def Let_def)
  ultimately show ?thesis using ready_delete [OF d(1)] by auto
qed

text \<open>
  A blob that does not match its name is never served: on a working disk \<open>Get\<close> reports it with an
  error that is not \<open>ErrBlobNotFound\<close>, and removes the file, so that the next \<open>Has\<close> denies it.
\<close>

theorem DiskStore_Get_broken:
  assumes d: "disk_ready d" "concurrentChecks d < maxConcurrentChecks" and h: "valid_hash h" and f: "file_at d (loc d h) = Some b" and ne: "BlobHash b \<noteq> h"
  shows "\<exists>tr x d'. DiskStore_Get e h d = (Ret ([], tr, Some x), d') \<and> \<not> not_found x
     \<and> DiskStore_Has h d' = (Ret (False, None), d')"
proof -
  from broken_removed [OF assms, of e] obtain tr x d' where
    g: "DiskStore_Get e h d = (Ret ([], tr, Some x), d')" "\<not> not_found x" "disk_ready d'" "file_at d' (loc d' h) = None"
    by blast
  from ready_Has [OF g(3) h] g show ?thesis by auto
qed


text \<open>A store whose only blob file holds one letter.\<close>

definition letter_disk :: "string \<Rightarrow> DiskStore" where
  "letter_disk h = \<lparr>blobDir = ''/b'', prefixLength = 0, initialized = True, concurrentChecks = 0,
     fs = \<lparr>files = [([''b'', h], ''x'')], dirs = [[''b''], [''b'', ''tmp'']], faults = []\<rparr>\<rparr>"

lemma letter_disk_loc:
  "bcomps (letter_disk h) = [''b'']" "dloc (letter_disk h) = (\<lambda>g. [''b''])"
  "loc (letter_disk h) = (\<lambda>g. [''b'', g])" "tloc (letter_disk h) = (\<lambda>g. [''b'', ''tmp'', g])"
  by (auto simp: bcomps_def dloc_def loc_def tloc_def letter_disk_def dir_comps_def)

lemma letter_disk_ready: "valid_hash h \<Longrightarrow> disk_ready (letter_disk h)"
  using tmp_not_hex [of h] tmp_not_hex
  unfolding disk_ready_def layout_ok_def letter_disk_loc
  by (auto simp: letter_disk_def file_at_def fs_dir_def valid_hash_def abs_dir_example take_Cons' split: if_splits)

lemma letter_disk_broken:
  obtains h where "valid_hash h" "disk_ready (letter_disk h)" "concurrentChecks (letter_disk h) < maxConcurrentChecks"
    "file_at (letter_disk h) (loc (letter_disk h) h) = Some ''x''" "BlobHash ''x'' \<noteq> h"
proof -
  define h where
    "h = (if BlobHash ''x'' = replicate 96 (CHR ''0'') then replicate 96 (CHR ''1'') else replicate 96 (CHR ''0''))"
  have v: "valid_hash h" by (simp add: h_def valid_hash_def hex_chars_def)
  show ?thesis
  proof (rule that [OF v letter_disk_ready [OF v]])
    show "concurrentChecks (letter_disk h) < maxConcurrentChecks" by (simp add: letter_disk_def maxConcurrentChecks_def)
    show "file_at (letter_disk h) (loc (letter_disk h) h) = Some ''x''"
      unfolding letter_disk_loc by (simp add: file_at_def letter_disk_def)
    show "BlobHash ''x'' \<noteq> h" by (auto simp: h_def numeral_eq_Suc)
  qed
qed

theorem DiskStore_Get_broken_witness:
  "\<exists>h tr x d'. valid_hash h \<and> DiskStore_Get env0 h (letter_disk h) = (Ret ([], tr, Some x), d') \<and> \<not> not_found x
     \<and> DiskStore_Has h d' = (Ret (False, None), d')"
proof -
  obtain h where "valid_hash h" "disk_ready (letter_disk h)" "concurrentChecks (letter_disk h) < maxConcurrentChecks"
    "file_at (letter_disk h) (loc (letter_disk h) h) = Some ''x''" "BlobHash ''x'' \<noteq> h"
    by (rule letter_disk_broken)
  from this(1) DiskStore_Get_broken [OF this(2,3,1,4,5), of env0] show ?thesis by blast
qed


section \<open>What Put leaves on the disk\<close>

text \<open>
  The calls of \<open>Put\<close> on an initialized store, whose schedule lets the first one (the directory)
  succeed: the state in which the temporary file is opened.
\<close>

lemma put_prepared:
  assumes d: "layout_ok d" "initialized d" and h: "valid_hash h"
    and f: "faults (fs d) = [] \<or> (\<exists>r. faults (fs d) = None # r)"
  obtains d1 where "ensureDirExists (DiskStore_dir d h) d = (Ret None, d1)" "files (fs d1) = files (fs d)"
    "faults (fs d1) = tl (faults (fs d))" "same_store d d1"
    "fs_dir (fs d1) (butlast (tloc d h))" "fs_dir (fs d1) (butlast (loc d h))"
    "\<not> fs_dir (fs d1) (tloc d h)" "\<not> fs_dir (fs d1) (loc d h)"
proof -
  have a: "abs_dir (blobDir d)" using d(1) by (simp add: layout_ok_def)
  from mkdir_ok [OF d(1) f dir_os(1) [OF a h]] h obtain d1 where
    d1: "ensureDirExists (DiskStore_dir d h) d = (Ret None, d1)" "layout_ok d1" "same_store d d1"
      "initialized d1 = initialized d" "files (fs d1) = files (fs d)" "faults (fs d1) = tl (faults (fs d))"
      "\<forall>n. fs_dir (fs d1) (take n (dloc d h))"
    by blast
  note L = same_store_loc [OF d1(3)]
  show ?thesis
  proof (rule that [OF d1(1,5,6,3)])
    show "fs_dir (fs d1) (butlast (tloc d h))"
      using d1(2,4) d(2) L by (simp add: layout_ok_def tloc_def butlast_append)
    show "fs_dir (fs d1) (butlast (loc d h))"
      using d1(7) [rule_format, of "length (dloc d h)"] by (simp add: loc_def)
    show "\<not> fs_dir (fs d1) (tloc d h)" "\<not> fs_dir (fs d1) (loc d h)"
      using tloc_not_dir [OF d1(2) h] loc_not_dir [OF d1(2) h] L by auto
  qed
qed

lemma ready_Put:
  assumes d: "disk_ready d" and h: "valid_hash h"
  shows "\<exists>d'. DiskStore_Put dio h b d = (Ret None, d')
     \<and> file_at d' (loc d h) = Some (b @ drop (length b) (case file_at d (tloc d h) of None \<Rightarrow> [] | Some old \<Rightarrow> old))"
proof -
  have r: "layout_ok d" "initialized d" "faults (fs d) = []" "abs_dir (blobDir d)"
    using d by (auto simp: disk_ready_def layout_ok_def)
  have ne: "tloc d h \<noteq> loc d h" using loc_tloc [OF h h] by metis
  obtain d1 where d1: "ensureDirExists (DiskStore_dir d h) d = (Ret None, d1)" "files (fs d1) = files (fs d)"
    "faults (fs d1) = []" "fs_dir (fs d1) (butlast (tloc d h))" "fs_dir (fs d1) (butlast (loc d h))"
    "\<not> fs_dir (fs d1) (tloc d h)" "\<not> fs_dir (fs d1) (loc d h)"
    using put_prepared [OF r(1,2) h disjI1 [OF r(3)]] r(3) by (metis list.sel(2))
  show ?thesis
    using d1 init_skip [OF r(2)] tmpPath_os [OF r(4) h] path_os [OF r(4) h] ne
    by (cases "file_at d (tloc d h)")
      (simp_all add: DiskStore_Put_def bnd_def get_st_def ret_def os_def os_OpenFile_def os_Write_def os_Rename_def
        os_call_ok Let_def fs_dir_def update_conv delete_conv file_at_def)
qed

text \<open>
  \<open>Put\<close> opens the temporary file without truncating it: when an interrupted \<open>Put\<close> left a longer
  one behind, \<open>Put\<close> returns no error and stores the new blob followed by the rest of the old file.
\<close>

theorem DiskStore_Put_stale_tmp:
  assumes "disk_ready d" "valid_hash h" "file_at d (tloc d h) = Some old"
  shows "\<exists>d'. DiskStore_Put dio h b d = (Ret None, d') \<and> file_at d' (loc d h) = Some (b @ drop (length b) old)"
  using ready_Put [OF assms(1,2), of dio b] assms(3) by simp

text \<open>A store whose only file is a temporary one.\<close>

definition tmp_disk :: "string \<Rightarrow> DiskStore" where
  "tmp_disk h = (letter_disk h)\<lparr>fs := \<lparr>files = [([''b'', ''tmp'', h], ''old'')], dirs = [[''b''], [''b'', ''tmp'']], faults = []\<rparr>\<rparr>"

lemma tmp_disk_loc:
  "bcomps (tmp_disk h) = [''b'']" "dloc (tmp_disk h) = (\<lambda>g. [''b''])"
  "loc (tmp_disk h) = (\<lambda>g. [''b'', g])" "tloc (tmp_disk h) = (\<lambda>g. [''b'', ''tmp'', g])"
  by (auto simp: bcomps_def dloc_def loc_def tloc_def letter_disk_def tmp_disk_def dir_comps_def)

lemma tmp_disk_ready: "valid_hash h \<Longrightarrow> disk_ready (tmp_disk h)"
  using tmp_not_hex [of h] tmp_not_hex
  unfolding disk_ready_def layout_ok_def tmp_disk_loc
  by (auto simp: letter_disk_def tmp_disk_def file_at_def fs_dir_def valid_hash_def abs_dir_example take_Cons' split: if_splits)

theorem DiskStore_Put_stale_tmp_witness:
  "\<exists>h d'. DiskStore_Put (\<lambda>_. 0) h ''x'' (tmp_disk h) = (Ret None, d') \<and> file_at d' (loc (tmp_disk h) h) = Some ''xld''"
proof -
  let ?h = "BlobHash []"
  have "file_at (tmp_disk ?h) (tloc (tmp_disk ?h) ?h) = Some ''old''"
    unfolding tmp_disk_loc by (simp add: file_at_def tmp_disk_def)
  from DiskStore_Put_stale_tmp [OF tmp_disk_ready [OF BlobHash_valid] BlobHash_valid this, of "\<lambda>_. 0" "''x''"]
  show ?thesis by auto
qed

text \<open>
  \<open>Put\<close> renames the file before the direct-I/O writer is flushed and drops the flush's error:
  when that last write fails, \<open>Put\<close> still returns no error, and what the store holds under the
  hash is the part of the blob that was written before the flush.
\<close>

theorem DiskStore_Put_flush_error_lost:
  assumes d: "layout_ok d" "initialized d" and h: "valid_hash h" and tmp: "file_at d (tloc d h) = None"
    and f: "faults (fs d) = [None, None, None, None, None, Some err]"
  shows "\<exists>d'. DiskStore_Put dio h b d = (Ret None, d') \<and> file_at d' (loc d h) = Some (take (dio b) b)"
proof -
  have a: "abs_dir (blobDir d)" using d by (simp add: layout_ok_def)
  have ne: "tloc d h \<noteq> loc d h" using loc_tloc [OF h h] by metis
  obtain d1 where d1: "ensureDirExists (DiskStore_dir d h) d = (Ret None, d1)" "files (fs d1) = files (fs d)"
    "faults (fs d1) = [None, None, None, None, Some err]" "fs_dir (fs d1) (butlast (tloc d h))" "fs_dir (fs d1) (butlast (loc d h))"
    "\<not> fs_dir (fs d1) (tloc d h)" "\<not> fs_dir (fs d1) (loc d h)"
    using put_prepared [OF d h] f by (metis list.sel(3))
  show ?thesis
    using d1 init_skip [OF d(2)] tmpPath_os [OF a h] path_os [OF a h] tmp ne
    by (simp add: DiskStore_Put_def bnd_def get_st_def ret_def os_def os_OpenFile_def os_Write_def os_Rename_def
        os_call_def Let_def fs_dir_def update_conv delete_conv file_at_def)
qed

theorem DiskStore_Put_flush_error_lost_witness:
  "\<exists>d h d'. DiskStore_Put (\<lambda>_. 1) h ''xyz'' d = (Ret None, d') \<and> file_at d' (loc d h) = Some ''x''"
proof -
  let ?h = "BlobHash []"
  let ?d = "(letter_disk ?h)\<lparr>fs := (fs (letter_disk ?h))\<lparr>faults := [None, None, None, None, None, Some EOF]\<rparr>\<rparr>"
  have s: "same_store (letter_disk ?h) ?d" by (simp add: same_store_def)
  have "layout_ok ?d" using letter_disk_ready [OF BlobHash_valid, of "[]"]
    by (intro layout_ok_fewer [OF _ s]) (auto simp: disk_ready_def file_at_def)
  moreover have "file_at ?d (tloc ?d ?h) = None"
    unfolding same_store_loc [OF s] letter_disk_loc by (simp add: file_at_def letter_disk_def)
  ultimately show ?thesis
    using DiskStore_Put_flush_error_lost [OF _ _ BlobHash_valid, of ?d "[]" EOF "\<lambda>_. 1" "''xyz''"]
    by (auto simp: letter_disk_def)
qed

section \<open>Hashes that are paths\<close>

text \<open>A store in \<open>/b\<close> on a disk with a file \<open>/secret\<close> outside it.\<close>

definition outside_disk :: "bytes \<Rightarrow> DiskStore" where
  "outside_disk c = (letter_disk [])\<lparr>fs := \<lparr>files = [([''secret''], c)], dirs = [[''b''], [''b'', ''tmp'']], faults = []\<rparr>\<rparr>"

text \<open>
  The store does not check that a hash is a hash: asked for \<open>../secret\<close> it reads the file outside its
  directory, finds that its content does not hash to the name, and deletes that file.
\<close>

theorem DiskStore_Get_deletes_outside:
  "file_at (outside_disk c) [''secret''] = Some c \<and>
   (\<exists>tr x d'. DiskStore_Get e ''../secret'' (outside_disk c) = (Ret ([], tr, Some x), d') \<and> file_at d' [''secret''] = None)"
proof -
  have ne: "''../secret'' \<noteq> BlobHash c"
  proof
    assume "''../secret'' = BlobHash c"
    then have "length ''../secret'' = length (BlobHash c)" by (rule arg_cong)
    then show False by (simp add: BlobHash_length)
  qed
  have p: "os_comps (DiskStore_path d ''../secret'') = [''secret'']" if "blobDir d = ''/b''" "prefixLength d = 0" for d
    using that by (simp add: DiskStore_path_def DiskStore_dir_def path_Join_def path_Clean_def os_comps_def)
  have init: "initialized (outside_disk c)" "blobDir (outside_disk c) = ''/b''" "prefixLength (outside_disk c) = 0"
      "concurrentChecks (outside_disk c) = 0"
      "fs (outside_disk c) = \<lparr>files = [([''secret''], c)], dirs = [[''b''], [''b'', ''tmp'']], faults = []\<rparr>"
    by (simp_all add: outside_disk_def letter_disk_def)
  then have *: "DiskStore_Delete ''../secret'' ((outside_disk c)\<lparr>concurrentChecks := 1\<rparr>) = (Ret None,
      (outside_disk c)\<lparr>concurrentChecks := 1, fs := (fs (outside_disk c))\<lparr>files := []\<rparr>\<rparr>)"
    by (simp add: DiskStore_Delete_def DiskStore_Has_def init_skip bnd_def get_st_def ret_def os_def
        os_Stat_def os_Remove_def os_call_def p Let_def under_file_def fs_dir_def)
  have rd: "os (os_ReadFile (DiskStore_path (outside_disk c) ''../secret'')) (outside_disk c) = (Ret (Inr c), outside_disk c)"
    using init by (simp add: os_def os_ReadFile_def os_call_def p Let_def under_file_def)
  show ?thesis
    using init ne * rd
    by (simp add: file_at_def DiskStore_Get_def DiskStore_check_def init_skip bnd_def get_st_def ret_def modify_def
        Let_def maxConcurrentChecks_def)
qed

end
