(* ===== verification/Stack_Props.thy ===== *)
theory Stack_Props
  imports Disk_Props
begin

text \<open>
  The stacks of stores the commands build (src/cmd): an origin behind a bounded cache and
  \<open>NewCachingStore\<close>, with the contracts of every layer discharged here, and the behaviour of the
  combining stores when something fails or calls share a flight.
\<close>

section \<open>An origin, a bounded cache, single flight\<close>

locale stack =
  o: live_store origin oinv ocontent vh oaddr osdaddr +
  c: gcache_live store sinv scontent vh caddr csdaddr gc keys wf maxSize
  for origin :: "'a BlobStore" and oinv ocontent
    and store :: "'b BlobStore" and sinv scontent
    and vh oaddr osdaddr caddr csdaddr
    and gc :: "'c gcache" and keys wf maxSize +
  fixes sfo :: "'a sf_group" and sfc :: "('b \<times> 'c) sf_group"
  assumes o_alone: "sfo k f = f" and c_alone: "sfc k g = g"

sublocale stack \<subseteq> st: new_caching origin oinv ocontent "GcacheStore_ops gc store" c.g_inv c.g_content
    vh oaddr osdaddr caddr csdaddr sfo sfc
  by unfold_locales (rule o_alone c_alone)+

context stack
begin

lemma stack_refines:
  assumes "oinv so" "ocontent so = Map.empty" "sinv sc" "wf c0" "keys c0 = {}"
    and "\<forall>c \<in> set cs. call_ok vh (\<lambda>h b. oaddr h b \<and> caddr h b) (\<lambda>h b. osdaddr h b \<and> csdaddr h b \<and> caddr h b) c"
    and "run_calls (NewCachingStore sfo sfc origin (GcacheStore_ops gc store)) cs (so, (sc, c0)) = (obs, s')"
  shows "ref_trace cs Map.empty obs \<and> ocontent (fst s') = fold ref_call cs Map.empty"
proof -
  have "st.nc.cs_inv (so, (sc, c0))"
    using assms(1-5) by (simp add: st.nc.cs_inv_def c.g_inv_def c.g_content_def coherent_def)
  from st.nc.cs.run_calls_refines [OF this assms(6) assms(7) [unfolded NewCachingStore_def]] assms(2)
  show ?thesis by simp
qed

end

text \<open>
  The production stack: \<open>NewCachingStore\<close> over a disk origin and a bounded cache on another disk,
  for any cache package that keeps its laws. Whatever sequence of calls a client makes, with
  well-formed hashes and blobs stored under their own hash, every answer is the one a plain map gives: cache
  misses, fills, evictions and deletions are invisible, nothing is lost, and no call fails.
\<close>

theorem caching_stack_refines_map:
  assumes "gcache_laws gc keys gwf maxSize" "gwf c0" "keys c0 = {}"
    and "\<forall>k f. sfo k f = f" "\<forall>k f. sfc k f = f" "abs_dir dir" "abs_dir cdir"
    and "\<forall>c \<in> set cs. call_ok valid_hash (\<lambda>h b. BlobHash b = h) (\<lambda>h b. BlobHash b = h) c"
    and "run_calls (NewCachingStore sfo sfc (DiskStore_ops dio) (GcacheStore_ops gc (DiskStore_ops dio))) cs
           (NewDiskStore dir n empty_fs, (NewDiskStore cdir m empty_fs, c0)) = (obs, s)"
  shows "ref_trace cs Map.empty obs \<and> disk_content (fst s) = fold ref_call cs Map.empty"
proof -
  have st: "stack (DiskStore_ops dio) disk_inv disk_content (DiskStore_ops dio) disk_inv disk_content valid_hash
      (\<lambda>h b. BlobHash b = h) (\<lambda>h b. BlobHash b = h) (\<lambda>h b. BlobHash b = h) (\<lambda>h b. BlobHash b = h) gc keys gwf maxSize sfo sfc"
    using assms(1,4,5) by (intro stack.intro gcache_live.intro disk.live_store_axioms stack_axioms.intro) auto
  from stack.stack_refines [OF st NewDiskStore_inv [OF assms(6)] NewDiskStore_content NewDiskStore_inv [OF assms(7)] assms(2,3) _ assms(9)]
    assms(8)
  show ?thesis by simp
qed

text \<open>A small LRU cache keeps the laws, so the contracts of the stack are discharged on it.\<close>

interpretation lru3: positive_cap 3
  by unfold_locales simp

interpretation stk: stack "DiskStore_ops dio" disk_inv disk_content "DiskStore_ops dio" disk_inv disk_content valid_hash
    "\<lambda>h b. BlobHash b = h" "\<lambda>h b. BlobHash b = h" "\<lambda>h b. BlobHash b = h" "\<lambda>h b. BlobHash b = h"
    "lru_gcache 3" set "\<lambda>c. distinct c \<and> length c \<le> 3" 3 "\<lambda>k f. f" "\<lambda>k f. f" for dio
  by unfold_locales simp_all

theorem caching_stack_refines_map_witness:
  "ref_trace [CPut (BlobHash ''x'') ''x'', CGet env0 (BlobHash ''x''), CDelete (BlobHash ''x''), CHas (BlobHash ''x'')] Map.empty
     (fst (run_calls (NewCachingStore (\<lambda>k f. f) (\<lambda>k f. f) (DiskStore_ops (\<lambda>_. 0)) (GcacheStore_ops (lru_gcache 3) (DiskStore_ops (\<lambda>_. 0))))
        [CPut (BlobHash ''x'') ''x'', CGet env0 (BlobHash ''x''), CDelete (BlobHash ''x''), CHas (BlobHash ''x'')]
        (NewDiskStore ''/b'' 2 empty_fs, (NewDiskStore ''/b'' 2 empty_fs, []))))"
proof -
  obtain obs s where r: "run_calls (NewCachingStore (\<lambda>k f. f) (\<lambda>k f. f) (DiskStore_ops (\<lambda>_. 0)) (GcacheStore_ops (lru_gcache 3) (DiskStore_ops (\<lambda>_. 0))))
        [CPut (BlobHash ''x'') ''x'', CGet env0 (BlobHash ''x''), CDelete (BlobHash ''x''), CHas (BlobHash ''x'')]
        (NewDiskStore ''/b'' 2 empty_fs, (NewDiskStore ''/b'' 2 empty_fs, [])) = (obs, s)"
    by (metis surj_pair)
  from caching_stack_refines_map [OF lru3.lru.gcache_laws_axioms _ _ _ _ abs_dir_example abs_dir_example _ r] r
  show ?thesis by (simp add: BlobHash_valid)
qed


section \<open>The bounded cache\<close>

context gcache_live
begin

lemma run_calls_bounded:
  "g_inv z \<Longrightarrow> g_full z \<Longrightarrow> \<forall>c \<in> set cs. call_ok vh addr sdaddr c \<Longrightarrow>
   run_calls (GcacheStore_ops gc store) cs z = (obs, z') \<Longrightarrow> g_inv z' \<and> g_full z'"
proof (induction cs arbitrary: z obs)
  case Nil
  then show ?case by simp
next
  case (Cons c cs)
  obtain o1 z1 where 1: "run_call (GcacheStore_ops gc store) c z = (o1, z1)" by (metis surj_pair)
  with Cons.prems(4) obtain os2 where 2: "run_calls (GcacheStore_ops gc store) cs z1 = (os2, z')"
    by (auto split: prod.splits)
  have "g_inv z1 \<and> g_full z1"
  proof (cases c)
    case (CHas h)
    with 1 Cons.prems show ?thesis by (auto simp: GcacheStore_ops_def GcacheStore_Has_def)
  next
    case (CGet e h)
    from g_Get_ok [OF Cons.prems(1), of h e] CGet Cons.prems(3) obtain b tr x z2 where
      "GcacheStore_Get gc store e h z = (Ret (b, tr, x), z2)" "g_inv z2" "keys (snd z2) = keys (snd z)"
      "scontent (fst z2) = scontent (fst z)"
      by auto
    with CGet 1 Cons.prems(2) show ?thesis by (simp add: GcacheStore_ops_def g_full_def)
  next
    case (CPut h b)
    with Cons.prems g_Put_ok [OF Cons.prems(1), of h b] 1 show ?thesis by (auto simp: GcacheStore_ops_def)
  next
    case (CPutSD h b)
    with Cons.prems g_PutSD_ok [OF Cons.prems(1), of h b] 1 show ?thesis by (auto simp: GcacheStore_ops_def)
  next
    case (CDelete h)
    from g_Delete_ok [OF Cons.prems(1), of h] CDelete Cons.prems(3) obtain z2 where
      "GcacheStore_Delete gc store h z = (Ret None, z2)" "g_inv z2" "keys (snd z2) = keys (snd z) - {h}"
      "scontent (fst z2) = (scontent (fst z))(h := None)"
      by auto
    with CDelete 1 Cons.prems(2) show ?thesis by (auto simp: GcacheStore_ops_def g_full_def)
  qed
  with Cons.IH [OF _ _ _ 2] Cons.prems(3) show ?case by simp
qed

end



text \<open>
  Loading an existing directory into the cache: of the listed blobs the first \<open>maxSize - 1\<close> are kept
  and tracked, and every other one is deleted from the disk. The last free slot is not
  used: the blob that would fill the cache is deleted too.
\<close>

theorem GcacheStore_loadExisting_keeps:
  assumes "gcache_laws gc keys gwf maxSize" "gwf c0" "keys c0 = {}" "0 < maxSize" "disk_inv d"
    and "DiskStore_list d = (Ret (existing, None), d)" "distinct existing"
    and "\<forall>h \<in> set existing. valid_hash h \<and> disk_content d h \<noteq> None"
  shows "\<exists>d' c'. GcacheStore_loadExisting gc (DiskStore_ops dio) DiskStore_list (int maxSize) (d, c0) = (Ret None, (d', c'))
     \<and> keys c' = set (take (maxSize - 1) existing)
     \<and> disk_content d' = disk_content d |` (- set (drop (maxSize - 1) existing))"
proof -
  have g: "gcache_live (DiskStore_ops dio) disk_inv disk_content valid_hash
      (\<lambda>h b. BlobHash b = h) (\<lambda>h b. BlobHash b = h) gc keys gwf maxSize"
    using assms(1) by (intro gcache_live.intro disk.live_store_axioms)
  have "gcache_live.g_inv disk_inv disk_content valid_hash keys gwf (d, c0)"
    using assms(2,3,5) by (simp add: gcache_live.g_inv_def [OF g])
  from gcache_live.loadExisting_ok [OF g this, of DiskStore_list existing] assms(3,4,6-8) show ?thesis by auto
qed


text \<open>A disk with one blob, listed by name.\<close>

definition one_blob_disk :: DiskStore where
  "one_blob_disk = letter_disk (BlobHash ''x'')"

lemma one_blob_content: "disk_content one_blob_disk = [BlobHash ''x'' \<mapsto> ''x'']"
  using BlobHash_valid unfolding disk_content_def one_blob_disk_def letter_disk_loc
  by (auto simp: file_at_def letter_disk_def)

lemma one_blob_inv: "disk_inv one_blob_disk"
proof -
  have "file_at one_blob_disk (tloc one_blob_disk h) = None" for h
    unfolding one_blob_disk_def letter_disk_loc by (simp add: file_at_def letter_disk_def)
  then show ?thesis
    using letter_disk_ready [OF BlobHash_valid, of "''x''"] unfolding disk_inv_def
    by (auto simp: one_blob_content disk_ready_def one_blob_disk_def [symmetric] split: if_splits)
      (simp_all add: one_blob_disk_def letter_disk_def maxConcurrentChecks_def)
qed

lemma one_blob_list: "DiskStore_list one_blob_disk = (Ret ([BlobHash ''x''], None), one_blob_disk)"
  by (simp add: DiskStore_list_def one_blob_disk_def letter_disk_def init_skip bnd_def get_st_def ret_def os_def AllFiles_def
      os_call_def os_comps_def fs_dir_def)

theorem GcacheStore_loadExisting_keeps_witness:
  "\<exists>d' c'. GcacheStore_loadExisting (lru_gcache 1) (DiskStore_ops (\<lambda>_. 0)) DiskStore_list 1 (one_blob_disk, []) = (Ret None, (d', c'))
     \<and> disk_content one_blob_disk (BlobHash ''x'') = Some ''x'' \<and> disk_content d' = Map.empty"
proof -
  have "gcache_laws (lru_gcache 1) set (\<lambda>c. distinct c \<and> length c \<le> 1) 1"
    by (rule positive_cap.lru_laws) (simp add: positive_cap_def)
  from GcacheStore_loadExisting_keeps [OF this _ _ _ one_blob_inv one_blob_list, of "[]" "\<lambda>_. 0"] show ?thesis
    by (auto simp: one_blob_content BlobHash_valid)
qed

section \<open>A corrupt blob in the cache\<close>

text \<open>
  A corrupt blob in a disk cache heals: with the origin holding the blob, the first \<open>Get\<close> reports the
  corruption (the origin is not asked), and the next one returns the origin's blob.
\<close>

theorem CachingStore_heals:
  assumes d: "disk_ready d" "concurrentChecks d < maxConcurrentChecks" and h: "valid_hash h"
    and f: "file_at d (loc d h) = Some junk" "BlobHash junk \<noteq> h" and m: "blobs m h = Some b"
  shows "\<exists>tr x s1. CachingStore_Get MemStore_ops (DiskStore_ops dio) e h (m, d) = (Ret ([], tr, Some x), s1) \<and> \<not> not_found x
     \<and> (\<exists>tr' s2. CachingStore_Get MemStore_ops (DiskStore_ops dio) e' h s1 = (Ret (b, tr', None), s2))"
proof -
  from broken_removed [OF d h f, of "env_l e"] obtain tr x d1 where
    g: "DiskStore_Get (env_l e) h d = (Ret ([], tr, Some x), d1)" "\<not> not_found x" "disk_ready d1" "file_at d1 (loc d1 h) = None"
    by blast
  from ready_Put [OF g(3) h, of dio b] obtain d2 where p: "DiskStore_Put dio h b d1 = (Ret None, d2)" by blast
  show ?thesis
    using g p m ready_Get_missing [OF g(3) h g(4), of "env_l e'"]
    by (simp add: CachingStore_Get_def MemStore_defs DiskStore_ops_def bnd_def ret_def zoom_def)
qed

theorem CachingStore_heals_witness:
  "\<exists>h d m tr x s1 tr' s2. CachingStore_Get MemStore_ops (DiskStore_ops (\<lambda>_. 0)) env0 h (m, d) = (Ret ([], tr, Some x), s1)
     \<and> CachingStore_Get MemStore_ops (DiskStore_ops (\<lambda>_. 0)) env0 h s1 = (Ret (''y'', tr', None), s2)"
proof -
  obtain h where h: "valid_hash h" "disk_ready (letter_disk h)" "concurrentChecks (letter_disk h) < maxConcurrentChecks"
    "file_at (letter_disk h) (loc (letter_disk h) h) = Some ''x''" "BlobHash ''x'' \<noteq> h"
    by (rule letter_disk_broken)
  have "blobs \<lparr>blobs = [h \<mapsto> ''y'']\<rparr> h = Some ''y''" by simp
  from CachingStore_heals [OF h(2,3,1,4,5) this, of "\<lambda>_. 0" env0 env0] show ?thesis by blast
qed

section \<open>Integrity of a cache over a failing disk\<close>

definition checks_free :: "DiskStore \<Rightarrow> bool" where
  "checks_free d \<longleftrightarrow> concurrentChecks d < maxConcurrentChecks"

lemma keeps_checks:
  "(\<And>d r d'. m d = (r, d') \<Longrightarrow> concurrentChecks d' = concurrentChecks d) \<Longrightarrow> keeps_ret checks_free (\<lambda>_. True) m"
  by (auto simp: keeps_ret_def checks_free_def)

lemma keeps_checks_os: "keeps_ret checks_free (\<lambda>_. True) (os f)"
  by (rule keeps_checks) (auto simp: os_def split: prod.splits)

lemma keeps_checks_init: "keeps_ret checks_free (\<lambda>_. True) DiskStore_initOnce"
  by (rule keeps_checks) (simp add: initOnce_checks)

lemma keeps_checks_get: "keeps_ret checks_free (\<lambda>_. True) get_st"
  by (rule keeps_checks) (auto simp: get_st_def)

lemma keeps_checks_ensure: "keeps_ret checks_free (\<lambda>_. True) (ensureDirExists p)"
  unfolding ensureDirExists_def
  by (rule keeps_ret_bnd [OF keeps_checks_os]) (auto split: sum.split intro: keeps_intros)

lemma keeps_checks_Put: "keeps_ret checks_free (\<lambda>_. True) (DiskStore_Put dio h b)"
  unfolding DiskStore_Put_def
  by (auto intro!: keeps_ret_bnd [OF keeps_checks_init] keeps_ret_bnd [OF keeps_checks_get] keeps_ret_bnd [OF keeps_checks_ensure]
      keeps_ret_bnd [OF keeps_checks_os] keeps_ret_ret split: sum.split)

interpretation disk_safe: safe_store "DiskStore_ops dio" checks_free "\<lambda>h b. BlobHash b = h" for dio
proof unfold_locales
  fix h b e
  show "keeps_ret checks_free (\<lambda>_. True) (bs_Has (DiskStore_ops dio) h)"
    using Has_checks by (auto simp: DiskStore_ops_def intro: keeps_checks)
  show "keeps_ret checks_free (\<lambda>_. True) (bs_Delete (DiskStore_ops dio) h)"
    using Delete_checks by (auto simp: DiskStore_ops_def intro: keeps_checks)
  show "keeps_ret checks_free (\<lambda>_. True) (bs_Put (DiskStore_ops dio) h b)"
    "keeps_ret checks_free (\<lambda>_. True) (bs_PutSD (DiskStore_ops dio) h b)"
    using keeps_checks_Put by (auto simp: DiskStore_ops_def DiskStore_PutSD_def)
  show "keeps_ret checks_free (\<lambda>(b, tr, x). x = None \<longrightarrow> BlobHash b = h) (bs_Get (DiskStore_ops dio) e h)"
    using get_checked [of e h] by (auto simp: DiskStore_ops_def checks_free_def keeps_ret_def)
qed


interpretation safe_disks: safe_pair "DiskStore_ops dio" checks_free "DiskStore_ops dio" checks_free "\<lambda>h b. BlobHash b = h" for dio
  by unfold_locales



section \<open>If this then that\<close>

interpretation mem_or_disk: ittt MemStore_ops "\<lambda>_. True" blobs "DiskStore_ops dio" disk_inv disk_content valid_hash for dio
  by unfold_locales (auto simp: MemStore_defs)

text \<open>
  An \<open>ITTTStore\<close> reads the union of its stores, the first winning: a blob of the first store is returned
  from it, any other from the second, and \<open>ErrBlobNotFound\<close> only when neither has it; it is read-only.
\<close>

theorem ITTTStore_reads_union:
  assumes "disk_inv d" "valid_hash h"
  shows "\<exists>b tr x s'. ITTTStore_Get MemStore_ops (DiskStore_ops dio) e h (m, d) = (Ret (b, tr, x), s')
     \<and> (case (disk_content d ++ blobs m) h of Some b' \<Rightarrow> b = b' \<and> x = None | None \<Rightarrow> b = [] \<and> err_not_found x)
     \<and> disk_content (snd s') ++ blobs (fst s') = disk_content d ++ blobs m
     \<and> bs_Put (NewITTTStore MemStore_ops (DiskStore_ops dio)) h p s' = (Ret (Some ErrNotImplemented), s')"
proof -
  have "mem_or_disk.it_inv (m, d)" using assms(1) by (simp add: mem_or_disk.it_inv_def)
  from mem_or_disk.ITTT_Get_ok [OF this assms(2), of dio e] show ?thesis
    by (auto simp: mem_or_disk.it_content_def NewITTTStore_def ITTTStore_Put_def ret_def)
qed

theorem ITTTStore_reads_union_witness:
  "\<exists>tr s'. ITTTStore_Get MemStore_ops (DiskStore_ops (\<lambda>_. 0)) env0 (BlobHash ''x'') (NewMemStore, one_blob_disk) = (Ret (''x'', tr, None), s')"
  using ITTTStore_reads_union [OF one_blob_inv BlobHash_valid, of "\<lambda>_. 0" env0 "''x''" NewMemStore "[]"]
  by (auto simp: one_blob_content NewMemStore_def map_add_def)

section \<open>Shared flights\<close>

text \<open>
  A call of \<open>sf.Do\<close> that finds a call in flight for its key: it does not run its function and gets the result of
  that call.
\<close>

definition joined :: "sf_value \<times> go_error option \<Rightarrow> 's sf_group" where
  "joined v k f = ret v"

text \<open>
  Gets and puts of one hash share a flight. A \<open>Put\<close> that joins a successful \<open>Get\<close> returns no error and stores
  nothing; a \<open>Put\<close> that joins a failing \<open>Get\<close> returns the \<open>Get\<close>'s error (\<open>ErrBlobNotFound\<close> when the blob is new);
  a \<open>Get\<close> that joins a successful \<open>Put\<close> fails, though the blob is being stored.
\<close>

theorem singleflight_cross_talk:
  "singleflightStore_Put (joined (getterResponse b' tr, None)) st h b s = (Ret None, s)
   \<and> singleflightStore_Put (joined (case singleflightStore_getter MemStore_ops e h NewMemStore of (Ret v, _) \<Rightarrow> v | (Panic _, _) \<Rightarrow> (NilValue, None)))
          MemStore_ops h b NewMemStore = (Ret (Some ErrBlobNotFound), NewMemStore)
   \<and> (\<exists>tr'. singleflightStore_Get (joined (case singleflightStore_putter MemStore_ops h b NewMemStore of (Ret v, _) \<Rightarrow> v | (Panic _, _) \<Rightarrow> (NilValue, None)))
          MemStore_ops e h NewMemStore = (Ret ([], tr', Some (Msg ''getter response is nil'')), NewMemStore))"
  by (simp add: joined_def sf_defs bnd_def ret_def MemStore_defs NewMemStore_def)

end
