(* ===== verification/Db_Store.thy ===== *)
theory Db_Store
  imports Db_Streams Trace_Json Stack_Props
begin

text \<open>
  \<open>DBBackedStore\<close> (src/store/dbbacked.go): a store whose contents are tracked in the database, with the block list. Its state is the
  state of the inner store, the database and the in-memory set of blocked hashes (nil until it is first needed). Each access to
  that set is under its lock, so it is one step.
\<close>

section \<open>The sd blob\<close>

fun dec_sd_info :: "json \<Rightarrow> sd_blob_info option" where
  "dec_sd_info (JObj ms) =
     (case (dec_field dec_int 0 ''length'' ms, dec_field dec_int 0 ''blob_num'' ms, dec_field dec_str [] ''blob_hash'' ms, dec_field dec_str [] ''iv'' ms) of
        (Some l, Some n, Some h, Some iv) \<Rightarrow> Some \<lparr>Length = l, BlobNum = n, BlobHash' = h, IV = iv\<rparr>
      | _ \<Rightarrow> None)"
| "dec_sd_info JNull = Some \<lparr>Length = 0, BlobNum = 0, BlobHash' = [], IV = []\<rparr>"
| "dec_sd_info _ = None"

fun dec_sd_blob :: "json \<Rightarrow> SdBlob option" where
  "dec_sd_blob (JObj ms) =
     (case (dec_field dec_str [] ''stream_name'' ms, dec_field (dec_list dec_sd_info) [] ''blobs'' ms, dec_field dec_str [] ''stream_type'' ms,
            dec_field dec_str [] ''key'' ms, dec_field dec_str [] ''suggested_file_name'' ms, dec_field dec_str [] ''stream_hash'' ms) of
        (Some sn, Some bs, Some st, Some k, Some fn, Some sh) \<Rightarrow>
          Some \<lparr>StreamName = sn, Blobs = bs, StreamType = st, Key = k, SuggestedFileName = fn, StreamHash = sh\<rparr>
      | _ \<Rightarrow> None)"
| "dec_sd_blob JNull = Some \<lparr>StreamName = [], Blobs = [], StreamType = [], Key = [], SuggestedFileName = [], StreamHash = []\<rparr>"
| "dec_sd_blob _ = None"

definition unmarshal_sd_blob :: "bytes \<Rightarrow> go_error + SdBlob" where
  "unmarshal_sd_blob b =
     (case json_unmarshal b of
        None \<Rightarrow> Inl (Msg ''invalid JSON'')
      | Some v \<Rightarrow> (case dec_sd_blob v of None \<Rightarrow> Inl (Msg ''cannot unmarshal'') | Some sd \<Rightarrow> Inr sd))"

section \<open>DBBackedStore\<close>

record 's DBBackedStore =
  dbs_blobs :: 's
  dbs_db :: SQL
  dbs_blocked :: "string set option"

definition NewDBBackedStore :: "'s \<Rightarrow> SQL \<Rightarrow> 's DBBackedStore" where
  "NewDBBackedStore b d = \<lparr>dbs_blobs = b, dbs_db = d, dbs_blocked = None\<rparr>"

definition nameDBBacked :: string where
  "nameDBBacked = ''db-backed''"

definition on_blobs :: "('s, 'a) op \<Rightarrow> ('s DBBackedStore, 'a) op" where
  "on_blobs = zoom dbs_blobs (\<lambda>b d. d\<lparr>dbs_blobs := b\<rparr>)"

definition on_db :: "(SQL, 'a) op \<Rightarrow> ('s DBBackedStore, 'a) op" where
  "on_db = zoom dbs_db (\<lambda>b d. d\<lparr>dbs_db := b\<rparr>)"

definition DBBackedStore_Has :: "string \<Rightarrow> ('s DBBackedStore, bool \<times> go_error option) op" where
  "DBBackedStore_Has hash = on_db (HasBlob hash False)"

definition DBBackedStore_Delete :: "'s BlobStore \<Rightarrow> string \<Rightarrow> ('s DBBackedStore, go_error option) op" where
  "DBBackedStore_Delete inner hash =
     bnd (on_blobs (bs_Delete inner hash)) (\<lambda>err.
       if err \<noteq> None then ret err else on_db (SQL_Delete hash))"

definition DBBackedStore_Get ::
  "bool \<Rightarrow> 's BlobStore \<Rightarrow> call_env \<Rightarrow> string \<Rightarrow> ('s DBBackedStore, bytes \<times> BlobTrace \<times> go_error option) op" where
  "DBBackedStore_Get deleteOnMiss inner e hash =
     bnd (on_db (HasBlob hash True)) (\<lambda>(has, err).
       if err \<noteq> None then ret ([], NewBlobTrace e nameDBBacked, err)
       else if \<not> has then ret ([], NewBlobTrace e nameDBBacked, Some ErrBlobNotFound)
       else
         bnd (on_blobs (bs_Get inner (env_l e) hash)) (\<lambda>(b, stack, err).
           bnd (if deleteOnMiss \<and> err_not_found err then bnd (DBBackedStore_Delete inner hash) (\<lambda>_. ret ()) else ret ()) (\<lambda>_.
             ret (b, BlobTrace_Stack e nameDBBacked stack, err))))"

definition DBBackedStore_Put :: "(nat \<Rightarrow> nat) \<Rightarrow> 's BlobStore \<Rightarrow> string \<Rightarrow> bytes \<Rightarrow> ('s DBBackedStore, go_error option) op" where
  "DBBackedStore_Put dup inner hash blob =
     bnd (on_blobs (bs_Put inner hash blob)) (\<lambda>err.
       if err \<noteq> None then ret err else on_db (AddBlob dup hash (int (length blob)) True))"

definition DBBackedStore_PutSD :: "(nat \<Rightarrow> nat) \<Rightarrow> 's BlobStore \<Rightarrow> string \<Rightarrow> bytes \<Rightarrow> ('s DBBackedStore, go_error option) op" where
  "DBBackedStore_PutSD dup inner hash blob =
     (case unmarshal_sd_blob blob of
        Inl err \<Rightarrow> ret (Some err)
      | Inr blobContents \<Rightarrow>
          if StreamHash blobContents = [] then ret (Some (Msg ''sd blob is missing stream hash''))
          else
            bnd (on_blobs (bs_PutSD inner hash blob)) (\<lambda>err.
              if err \<noteq> None then ret err else on_db (AddSDBlob dup hash (int (length blob)) blobContents)))"

definition DBBackedStore_initBlocked :: "('s DBBackedStore, go_error option) op" where
  "DBBackedStore_initBlocked =
     bnd get_st (\<lambda>d.
       if dbs_blocked d \<noteq> None then ret None
       else
         bnd (on_db GetBlocked) (\<lambda>r.
           case r of
             Inl err \<Rightarrow> bnd (modify (\<lambda>d. d\<lparr>dbs_blocked := None\<rparr>)) (\<lambda>_. ret (Some err))
           | Inr b \<Rightarrow> bnd (modify (\<lambda>d. d\<lparr>dbs_blocked := Some b\<rparr>)) (\<lambda>_. ret None)))"

definition DBBackedStore_isBlocked :: "string \<Rightarrow> ('s DBBackedStore, bool \<times> go_error option) op" where
  "DBBackedStore_isBlocked hash =
     bnd DBBackedStore_initBlocked (\<lambda>err.
       if err \<noteq> None then ret (False, err)
       else bnd get_st (\<lambda>d. ret (case dbs_blocked d of Some b \<Rightarrow> hash \<in> b | None \<Rightarrow> False, None)))"

definition DBBackedStore_markBlocked :: "string \<Rightarrow> ('s DBBackedStore, go_error option) op" where
  "DBBackedStore_markBlocked hash =
     bnd DBBackedStore_initBlocked (\<lambda>err.
       if err \<noteq> None then ret err
       else bnd (modify (\<lambda>d. d\<lparr>dbs_blocked := map_option (insert hash) (dbs_blocked d)\<rparr>)) (\<lambda>_. ret None))"

definition DBBackedStore_Block :: "'s BlobStore \<Rightarrow> string \<Rightarrow> ('s DBBackedStore, go_error option) op" where
  "DBBackedStore_Block inner hash =
     bnd (DBBackedStore_isBlocked hash) (\<lambda>(blocked, err).
       if blocked \<or> err \<noteq> None then ret err
       else
         bnd (on_db (SQL_Block hash)) (\<lambda>err.
           if err \<noteq> None then ret err
           else
             bnd (on_db (HasBlob hash False)) (\<lambda>(has, err).
               if err \<noteq> None then ret err
               else
                 bnd (if has then
                        bnd (on_blobs (bs_Delete inner hash)) (\<lambda>err.
                          if err \<noteq> None then ret err else on_db (SQL_Delete hash))
                      else ret None) (\<lambda>err.
                   if err \<noteq> None then ret err else DBBackedStore_markBlocked hash))))"

definition DBBackedStore_Wants :: "string \<Rightarrow> ('s DBBackedStore, bool \<times> go_error option) op" where
  "DBBackedStore_Wants hash =
     bnd (DBBackedStore_isBlocked hash) (\<lambda>(blocked, err).
       if blocked \<or> err \<noteq> None then ret (False, err)
       else bnd (DBBackedStore_Has hash) (\<lambda>(has, err). ret (\<not> has, err)))"

definition DBBackedStore_MissingBlobsForKnownStream :: "string \<Rightarrow> ('s DBBackedStore, string list \<times> go_error option) op" where
  "DBBackedStore_MissingBlobsForKnownStream sdHash =
     bnd (on_db (MissingBlobsForKnownStream sdHash)) (\<lambda>r. case r of Inl err \<Rightarrow> ret ([], Some err) | Inr m \<Rightarrow> ret (m, None))"

definition DBBackedStore_ops :: "bool \<Rightarrow> (nat \<Rightarrow> nat) \<Rightarrow> 's BlobStore \<Rightarrow> 's DBBackedStore BlobStore" where
  "DBBackedStore_ops deleteOnMiss dup inner =
     \<lparr>bs_Name = nameDBBacked, bs_Has = DBBackedStore_Has, bs_Get = DBBackedStore_Get deleteOnMiss inner, bs_Put = DBBackedStore_Put dup inner,
      bs_PutSD = DBBackedStore_PutSD dup inner, bs_Delete = DBBackedStore_Delete inner, bs_Shutdown = on_blobs (bs_Shutdown inner)\<rparr>"

definition DBBackedStore_blocklister :: "'s BlobStore \<Rightarrow> 's DBBackedStore Blocklister" where
  "DBBackedStore_blocklister inner = \<lparr>bl_Block = DBBackedStore_Block inner, bl_Wants = DBBackedStore_Wants\<rparr>"

end
