(* ===== verification/Db_Store_Correct.thy ===== *)
theory Db_Store_Correct
  imports Db_Store
begin

text \<open>
  A database-backed store implements the contract of the store behind it, as long as the database and the store agree; every operation keeps
  the agreement. A block is permanent. An uploaded sd blob makes the missing blobs of its stream known.
\<close>

section \<open>Database calls on a working connection\<close>

definition db_up :: "SQL \<Rightarrow> tables \<Rightarrow> bool" where
  "db_up s t \<longleftrightarrow> conn s = Some t \<and> db_faults s = [] \<and> db_wf t \<and> TrackAccess s \<noteq> TrackAccessStreams"

lemma find_same:
  assumes "list_all2 (\<lambda>a b. k a = k b) xs ys" "\<And>a b. k a = k b \<Longrightarrow> P a = P b"
  shows "rel_option (\<lambda>a b. k a = k b) (find P xs) (find P ys)"
  using assms(1)
proof (induction rule: list_all2_induct)
  case (Cons x xs y ys)
  with assms(2) [of x y] show ?case by auto
qed simp

lemma same_rows_views:
  assumes "same_rows t t'"
  shows "id_of t' = id_of t" "stored_of t' = stored_of t"
proof -
  let ?k = "\<lambda>b. (b_id b, b_hash b, b_stored b, b_length b)"
  have "list_all2 (\<lambda>a b. ?k a = ?k b) (t_blob t') (t_blob t)"
    using assms by (auto simp: same_rows_def list_all2_map1 list_all2_map2 simp flip: list.rel_eq)
  then have f: "rel_option (\<lambda>a b. ?k a = ?k b) (find_blob h t') (find_blob h t)" for h
    unfolding find_blob_def by (rule find_same) simp
  have "id_of t' h = id_of t h \<and> stored_of t' h = stored_of t h" for h
    using f [of h] by (cases "find_blob h t'"; cases "find_blob h t") (auto simp: id_of_def stored_of_def)
  then show "id_of t' = id_of t" "stored_of t' = stored_of t" by auto
qed

lemma known_stored: "db_wf t \<Longrightarrow> tr \<noteq> TrackAccessStreams \<Longrightarrow> known tr t h \<longleftrightarrow> stored_of t h = Some True"
  by (auto simp: known_def stored_of_def dest: find_blob_wf find_blob_Some)

lemma HasBlob_ok:
  assumes "db_up s t"
  shows "\<exists>s' t'. HasBlob h touch s = (Ret (stored_of t h = Some True, None), s') \<and> db_up s' t' \<and> stored_of t' = stored_of t \<and> id_of t' = id_of t
     \<and> SoftDelete s' = SoftDelete s"
proof -
  have c: "conn s = Some t" "db_faults s = []" "db_wf t" "TrackAccess s \<noteq> TrackAccessStreams" using assms by (auto simp: db_up_def)
  from HasBlobs_ok [OF c(1,2), of "[h]" touch] obtain t' where
    t': "HasBlobs [h] touch s = (Ret ({g \<in> set [h]. known (TrackAccess s) t g}, None), s\<lparr>conn := Some t'\<rparr>)" "same_rows t t'"
    by blast
  have "on_tables db_wf (s\<lparr>conn := Some t'\<rparr>)"
    using keeps_retD [OF schema.kt_HasBlobs _ t'(1)] c by (simp add: on_tables_def)
  with t' c same_rows_views [OF t'(2)] known_stored [OF c(3,4)] show ?thesis
    by (intro exI [of _ "s\<lparr>conn := Some t'\<rparr>"] exI [of _ t']) (simp add: HasBlob_def bnd_def ret_def db_up_def on_tables_def)
qed

lemma AddBlob_ok:
  assumes "db_up s t" "0 < len" "dup_ok dup"
  shows "\<exists>s' t'. AddBlob dup h len True s = (Ret None, s') \<and> db_up s' t' \<and> stored_of t' = (stored_of t)(h \<mapsto> True) \<and> SoftDelete s' = SoftDelete s"
proof -
  have c: "conn s = Some t" "db_faults s = []" "db_wf t" "TrackAccess s \<noteq> TrackAccessStreams" using assms(1) by (auto simp: db_up_def)
  from insertBlob_ok [OF c(1-3) assms(2,3), of h True] obtain t' where
    t': "insertBlob dup h len True s = (Ret (Inr (the (id_of t' h))), s\<lparr>conn := Some t'\<rparr>)" "adds h True t t'"
    by blast
  have "stored_of t' = (stored_of t)(h \<mapsto> True)" using t'(2) by (auto simp: adds_def)
  with t' c show ?thesis
    by (intro exI [of _ "s\<lparr>conn := Some t'\<rparr>"] exI [of _ t']) (simp add: AddBlob_def bnd_def get_st_def ret_def db_up_def adds_def)
qed

lemma db_Delete_ok:
  assumes "db_up s t"
  shows "\<exists>s' t'. SQL_Delete h s = (Ret None, s') \<and> db_up s' t' \<and> stored_of t' h \<noteq> Some True \<and> (\<forall>g. g \<noteq> h \<longrightarrow> stored_of t' g = stored_of t g)
     \<and> SoftDelete s' = SoftDelete s"
proof -
  have c: "conn s = Some t" "db_faults s = []" "db_wf t" "TrackAccess s \<noteq> TrackAccessStreams" using assms(1) by (auto simp: db_up_def)
  from SQL_Delete_ok [OF c(1-3), of h TrackAccessNone] obtain t' where
    t': "SQL_Delete h s = (Ret None, s\<lparr>conn := Some t'\<rparr>)" "db_wf t'" "\<not> known TrackAccessNone t' h" "\<forall>g. g \<noteq> h \<longrightarrow> stored_of t' g = stored_of t g"
    by blast
  with c known_stored [OF t'(2), of TrackAccessNone h] show ?thesis
    by (intro exI [of _ "s\<lparr>conn := Some t'\<rparr>"] exI [of _ t']) (simp add: db_up_def)
qed

section \<open>The contract\<close>

locale db_backed = live_store st inv content vh addr sdaddr
  for st :: "'s BlobStore" and inv content vh addr sdaddr +
  fixes dup :: "nat \<Rightarrow> nat" and deleteOnMiss :: bool
  assumes dup: "dup_ok dup"
begin

definition db_inv :: "'s DBBackedStore \<Rightarrow> bool" where
  "db_inv d \<longleftrightarrow> (\<exists>t. db_up (dbs_db d) t \<and> inv (dbs_blobs d) \<and> (\<forall>h. vh h \<longrightarrow> (stored_of t h = Some True \<longleftrightarrow> content (dbs_blobs d) h \<noteq> None)))"

definition db_content :: "'s DBBackedStore \<Rightarrow> content" where
  "db_content d = content (dbs_blobs d)"

lemmas dbs_defs = on_db_def on_blobs_def zoom_def bnd_def ret_def get_st_def db_content_def

lemma dbs_Has:
  assumes d: "db_inv d" and h: "vh h"
  shows "\<exists>d'. on_db (HasBlob h touch) d = (Ret (db_content d h \<noteq> None, None), d') \<and> db_inv d' \<and> dbs_blobs d' = dbs_blobs d"
proof -
  from d obtain t where t: "db_up (dbs_db d) t" "inv (dbs_blobs d)" "\<forall>h. vh h \<longrightarrow> (stored_of t h = Some True \<longleftrightarrow> content (dbs_blobs d) h \<noteq> None)"
    by (auto simp: db_inv_def)
  from HasBlob_ok [OF t(1), of h touch] obtain s' t' where
    s': "HasBlob h touch (dbs_db d) = (Ret (stored_of t h = Some True, None), s')" "db_up s' t'" "stored_of t' = stored_of t"
    by blast
  with t h show ?thesis
    by (intro exI [of _ "d\<lparr>dbs_db := s'\<rparr>"]) (auto simp: dbs_defs db_inv_def)
qed

lemma dbs_Delete:
  assumes d: "db_inv d" and h: "vh h"
  shows "\<exists>d'. DBBackedStore_Delete st h d = (Ret None, d') \<and> db_inv d' \<and> db_content d' = (db_content d)(h := None)"
proof -
  from d obtain t where t: "db_up (dbs_db d) t" "inv (dbs_blobs d)" "\<forall>h. vh h \<longrightarrow> (stored_of t h = Some True \<longleftrightarrow> content (dbs_blobs d) h \<noteq> None)"
    by (auto simp: db_inv_def)
  from Delete_spec [OF t(2) h] obtain b' where
    b': "bs_Delete st h (dbs_blobs d) = (Ret None, b')" "inv b'" "content b' = (content (dbs_blobs d))(h := None)" by blast
  from db_Delete_ok [OF t(1), of h] obtain s' t' where
    s': "SQL_Delete h (dbs_db d) = (Ret None, s')" "db_up s' t'" "stored_of t' h \<noteq> Some True" "\<forall>g. g \<noteq> h \<longrightarrow> stored_of t' g = stored_of t g"
    by blast
  have "stored_of t' g = Some True \<longleftrightarrow> content b' g \<noteq> None" if "vh g" for g
    using that t(3) s'(3,4) b'(3) by (cases "g = h") auto
  with b'(2) s'(2) have "db_inv (d\<lparr>dbs_blobs := b', dbs_db := s'\<rparr>)" unfolding db_inv_def by (intro exI [of _ t']) simp
  with b' s'(1) show ?thesis
    by (intro exI [of _ "d\<lparr>dbs_blobs := b', dbs_db := s'\<rparr>"]) (simp add: DBBackedStore_Delete_def dbs_defs)
qed

lemma dbs_Get:
  assumes d: "db_inv d" and h: "vh h"
  shows "\<exists>b tr x d'. DBBackedStore_Get deleteOnMiss st e h d = (Ret (b, tr, x), d') \<and> db_inv d' \<and> db_content d' = db_content d
     \<and> (case db_content d h of Some b' \<Rightarrow> b = b' \<and> x = None | None \<Rightarrow> b = [] \<and> err_not_found x)"
proof -
  from dbs_Has [OF d h, of True] obtain d1 where
    d1: "on_db (HasBlob h True) d = (Ret (db_content d h \<noteq> None, None), d1)" "db_inv d1" "dbs_blobs d1 = dbs_blobs d" by blast
  show ?thesis
  proof (cases "db_content d h")
    case None
    with d1 show ?thesis by (auto simp: DBBackedStore_Get_def bnd_def ret_def db_content_def)
  next
    case (Some b)
    from d1(2) obtain t where t: "db_up (dbs_db d1) t" "inv (dbs_blobs d1)" "\<forall>h. vh h \<longrightarrow> (stored_of t h = Some True \<longleftrightarrow> content (dbs_blobs d1) h \<noteq> None)"
      by (auto simp: db_inv_def)
    from Get_hit [OF t(2) h, of b "env_l e"] Some d1(3) obtain tr b' where
      b': "bs_Get st (env_l e) h (dbs_blobs d1) = (Ret (b, tr, None), b')" "inv b'" "content b' = content (dbs_blobs d1)"
      by (auto simp: db_content_def)
    with d1 t Some have "db_inv (d1\<lparr>dbs_blobs := b'\<rparr>)" by (auto simp: db_inv_def)
    with Some d1 b' show ?thesis
      by (auto simp: DBBackedStore_Get_def bnd_def ret_def on_blobs_def zoom_def db_content_def)
  qed
qed

lemma dbs_Put:
  assumes d: "db_inv d" and h: "vh h" and b: "addr h b" "b \<noteq> []"
  shows "\<exists>d'. DBBackedStore_Put dup st h b d = (Ret None, d') \<and> db_inv d' \<and> db_content d' = (db_content d)(h \<mapsto> b)"
proof -
  from d obtain t where t: "db_up (dbs_db d) t" "inv (dbs_blobs d)" "\<forall>h. vh h \<longrightarrow> (stored_of t h = Some True \<longleftrightarrow> content (dbs_blobs d) h \<noteq> None)"
    by (auto simp: db_inv_def)
  from Put_spec [OF t(2) h b(1)] obtain b' where
    b': "bs_Put st h b (dbs_blobs d) = (Ret None, b')" "inv b'" "content b' = (content (dbs_blobs d))(h \<mapsto> b)" by blast
  from AddBlob_ok [OF t(1) _ dup, of "int (length b)" h] b(2) obtain s' t' where
    s': "AddBlob dup h (int (length b)) True (dbs_db d) = (Ret None, s')" "db_up s' t'" "stored_of t' = (stored_of t)(h \<mapsto> True)"
    by auto
  have "stored_of t' g = Some True \<longleftrightarrow> content b' g \<noteq> None" if "vh g" for g
    using that t(3) s'(3) b'(3) by simp
  with b'(2) s'(2) have "db_inv (d\<lparr>dbs_blobs := b', dbs_db := s'\<rparr>)" unfolding db_inv_def by (intro exI [of _ t']) simp
  with b' s'(1) show ?thesis
    by (intro exI [of _ "d\<lparr>dbs_blobs := b', dbs_db := s'\<rparr>"]) (simp add: DBBackedStore_Put_def dbs_defs)
qed

end

sublocale db_backed \<subseteq> dbs: live_store "DBBackedStore_ops deleteOnMiss dup st" db_inv db_content vh "\<lambda>h b. addr h b \<and> b \<noteq> []" "\<lambda>_ _. False"
proof unfold_locales
  fix d h e b
  assume d: "db_inv d" and h: "vh h"
  show "\<exists>d'. bs_Has (DBBackedStore_ops deleteOnMiss dup st) h d = (Ret (db_content d h \<noteq> None, None), d') \<and> db_inv d' \<and> db_content d' = db_content d"
    using dbs_Has [OF d h, of False] by (auto simp: DBBackedStore_ops_def DBBackedStore_Has_def db_content_def)
  show "\<exists>tr d'. bs_Get (DBBackedStore_ops deleteOnMiss dup st) e h d = (Ret (b, tr, None), d') \<and> db_inv d' \<and> db_content d' = db_content d"
    if "db_content d h = Some b"
    using dbs_Get [OF d h, of e] that by (auto simp: DBBackedStore_ops_def)
  show "\<exists>tr x d'. bs_Get (DBBackedStore_ops deleteOnMiss dup st) e h d = (Ret ([], tr, Some x), d') \<and> not_found x \<and> db_inv d' \<and> db_content d' = db_content d"
    if "db_content d h = None"
    using dbs_Get [OF d h, of e] that by (auto simp: DBBackedStore_ops_def)
  show "\<exists>d'. bs_Put (DBBackedStore_ops deleteOnMiss dup st) h b d = (Ret None, d') \<and> db_inv d' \<and> db_content d' = (db_content d)(h \<mapsto> b)"
    if "addr h b \<and> b \<noteq> []"
    using dbs_Put [OF d h] that by (auto simp: DBBackedStore_ops_def)
  show "\<exists>d'. bs_Delete (DBBackedStore_ops deleteOnMiss dup st) h d = (Ret None, d') \<and> db_inv d' \<and> db_content d' = (db_content d)(h := None)"
    using dbs_Delete [OF d h] by (auto simp: DBBackedStore_ops_def)
qed simp

section \<open>Over a disk\<close>

interpretation disk_db: db_backed "DiskStore_ops dio" disk_inv disk_content valid_hash "\<lambda>h b. BlobHash b = h" "\<lambda>h b. BlobHash b = h" "\<lambda>i. i" del for dio del
  by unfold_locales (simp add: dup_ok_def)

context db_backed
begin

lemma new_db_inv:
  assumes "inv b0" "content b0 = Map.empty" "tr \<noteq> TrackAccessStreams"
  shows "db_inv (NewDBBackedStore b0 ((empty_db tr [])\<lparr>SoftDelete := sd\<rparr>))"
proof -
  obtain t where t: "conn (empty_db tr []) = Some t" "t_blob t = []" by (simp add: empty_db_def)
  with empty_db_wf [OF t(1)] assms show ?thesis unfolding db_inv_def
    by (intro exI [of _ t]) (auto simp: NewDBBackedStore_def db_up_def empty_db_def stored_of_def find_blob_def)
qed

lemma db_refines:
  assumes "inv b0" "content b0 = Map.empty" "tr \<noteq> TrackAccessStreams" "\<forall>c \<in> set cs. call_ok vh (\<lambda>h b. addr h b \<and> b \<noteq> []) (\<lambda>_ _. False) c"
    and "run_calls (DBBackedStore_ops deleteOnMiss dup st) cs (NewDBBackedStore b0 ((empty_db tr [])\<lparr>SoftDelete := sd\<rparr>)) = (obs, d)"
  shows "ref_trace cs Map.empty obs \<and> content (dbs_blobs d) = fold ref_call cs Map.empty"
  using dbs.run_calls_refines [OF new_db_inv [OF assms(1-3)] assms(4,5)] assms(2)
  by (simp add: db_content_def NewDBBackedStore_def)

end



section \<open>Blocking\<close>

text \<open>The hash is in the block table, and in the set in memory once that is loaded.\<close>

definition is_blocked :: "string \<Rightarrow> 's DBBackedStore \<Rightarrow> bool" where
  "is_blocked h d \<longleftrightarrow> on_tables (\<lambda>t. h \<in> set (t_blocked t)) (dbs_db d) \<and> (\<forall>B. dbs_blocked d = Some B \<longrightarrow> h \<in> B)"

abbreviation keeps_blocked :: "string \<Rightarrow> ('s DBBackedStore, 'a) op \<Rightarrow> bool" where
  "keeps_blocked h \<equiv> keeps_ret (is_blocked h) (\<lambda>_. True)"

lemma kb_on_db: "keeps_tables (\<lambda>t. h \<in> set (t_blocked t)) m \<Longrightarrow> keeps_blocked h (on_db m)"
  by (auto simp: keeps_ret_def on_db_def zoom_def is_blocked_def split: prod.splits)

lemma kb_on_blobs: "keeps_blocked h (on_blobs m)"
  by (auto simp: keeps_ret_def on_blobs_def zoom_def is_blocked_def split: prod.splits)

lemma kb_bnd: "keeps_blocked h m \<Longrightarrow> (\<And>a. keeps_blocked h (f a)) \<Longrightarrow> keeps_blocked h (bnd m f)"
  by (rule keeps_ret_bnd)

lemma kb_ret: "keeps_blocked h (ret a)"
  by (rule keeps_ret_ret) simp

lemmas kb_intros = kb_bnd kb_ret kb_on_blobs kb_on_db [OF blocked.kt_HasBlob] kb_on_db [OF blocked.kt_AddBlob] kb_on_db [OF blocked.kt_AddSDBlob]
  kb_on_db [OF blocked.kt_Delete]

lemma kb_initBlocked: "keeps_blocked g DBBackedStore_initBlocked"
  by (auto simp: keeps_ret_def DBBackedStore_initBlocked_def bnd_def get_st_def ret_def modify_def on_db_def zoom_def GetBlocked_def conn_call_def query_def
      is_blocked_def on_tables_def split: if_splits prod.splits outcome.splits sum.splits option.splits list.splits)

lemma kb_mark: "keeps_blocked g (modify (\<lambda>d. d\<lparr>dbs_blocked := map_option (insert h) (dbs_blocked d)\<rparr>))" "keeps_blocked g get_st"
  by (auto simp: keeps_ret_def modify_def get_st_def is_blocked_def)

lemma kb_Block: "keeps_blocked g (DBBackedStore_Block st h)"
  by (auto simp: DBBackedStore_Block_def DBBackedStore_isBlocked_def DBBackedStore_markBlocked_def
      intro!: kb_intros kb_initBlocked kb_mark kb_on_db [OF blocked.kt_Block])

lemma kb_Delete: "keeps_blocked h (DBBackedStore_Delete st g)"
  by (auto simp: DBBackedStore_Delete_def intro!: kb_intros)

text \<open>Every call of the store interface keeps a hash blocked, whatever fails.\<close>

lemma run_call_blocked:
  assumes "is_blocked h d" "run_call (DBBackedStore_ops del dup st) c d = (ob, d')"
  shows "is_blocked h d'"
proof -
  have "keeps_blocked h (DBBackedStore_Has g)" "keeps_blocked h (DBBackedStore_Get del st e g)"
    "keeps_blocked h (DBBackedStore_Put dup st g b)" "keeps_blocked h (DBBackedStore_PutSD dup st g b)" for g e b
    by (auto simp: DBBackedStore_Has_def DBBackedStore_Get_def DBBackedStore_Put_def DBBackedStore_PutSD_def intro!: kb_intros kb_Delete split: sum.split)
  note k = this kb_Delete
  show ?thesis
    using assms(2) k [THEN keeps_retD, OF assms(1)]
    by (cases c) (auto simp: DBBackedStore_ops_def split: prod.splits outcome.splits)
qed

lemma run_calls_blocked:
  "is_blocked h d \<Longrightarrow> run_calls (DBBackedStore_ops del dup st) cs d = (obs, d') \<Longrightarrow> is_blocked h d'"
proof (induction cs arbitrary: d obs)
  case (Cons c cs)
  then show ?case by (auto split: prod.splits dest: run_call_blocked)
qed simp

text \<open>The set in memory is loaded from the table, and a hash enters it only after it is in the table.\<close>

definition blocked_sync :: "'s DBBackedStore \<Rightarrow> bool" where
  "blocked_sync d \<longleftrightarrow> (\<forall>B. dbs_blocked d = Some B \<longrightarrow> on_tables (\<lambda>t. B \<subseteq> set (t_blocked t)) (dbs_db d))"

lemma GetBlocked_cases:
  assumes "GetBlocked s = (Ret r, s')"
  obtains t where "conn s = Some t" "conn s' = Some t" "r = Inr (set (t_blocked t)) \<or> (\<exists>err. r = Inl err)"
  using assms by (auto simp: GetBlocked_def conn_call_def query_def split: option.splits list.splits)

lemma initBlocked_loads:
  assumes "DBBackedStore_initBlocked d = (Ret x, d')"
  shows "conn (dbs_db d') = conn (dbs_db d)"
    "x = None \<Longrightarrow> if dbs_blocked d = None then \<exists>t. conn (dbs_db d) = Some t \<and> dbs_blocked d' = Some (set (t_blocked t)) else d' = d"
    "x \<noteq> None \<Longrightarrow> dbs_blocked d' = None"
  using assms
  by (auto simp: DBBackedStore_initBlocked_def bnd_def get_st_def ret_def modify_def on_db_def zoom_def split: if_splits prod.splits outcome.splits sum.splits elim!: GetBlocked_cases)

lemma isBlocked_reads:
  assumes "DBBackedStore_isBlocked h d = (Ret (b, x), d')"
  shows "is_blocked h d \<Longrightarrow> x = None \<Longrightarrow> b" "blocked_sync d \<Longrightarrow> blocked_sync d'" "blocked_sync d \<Longrightarrow> b \<Longrightarrow> is_blocked h d'" "is_blocked h d \<Longrightarrow> is_blocked h d'"
proof -
  from assms obtain x' where i: "DBBackedStore_initBlocked d = (Ret x', d')"
    and b: "x = x'" "b \<longleftrightarrow> x' = None \<and> (case dbs_blocked d' of Some B \<Rightarrow> h \<in> B | None \<Rightarrow> False)"
    by (auto simp: DBBackedStore_isBlocked_def bnd_def get_st_def ret_def split: if_splits prod.splits outcome.splits)
  note l = initBlocked_loads [OF i]
  show "is_blocked h d \<Longrightarrow> x = None \<Longrightarrow> b" "is_blocked h d \<Longrightarrow> is_blocked h d'"
    using l b by (cases x'; auto simp: is_blocked_def on_tables_def split: if_splits option.splits)+
  show s: "blocked_sync d'" if "blocked_sync d"
    using that l by (cases x') (auto simp: blocked_sync_def on_tables_def split: if_splits)
  show "is_blocked h d'" if "blocked_sync d" b
    using s [OF that(1)] that(2) b by (auto simp: is_blocked_def blocked_sync_def on_tables_def split: option.splits)
qed


lemma markBlocked_blocks:
  assumes "DBBackedStore_markBlocked h d = (Ret None, d')" "on_tables (\<lambda>t. h \<in> set (t_blocked t)) (dbs_db d)"
  shows "is_blocked h d'"
proof -
  from assms(1) obtain d1 where i: "DBBackedStore_initBlocked d = (Ret None, d1)" "d' = d1\<lparr>dbs_blocked := map_option (insert h) (dbs_blocked d1)\<rparr>"
    by (auto simp: DBBackedStore_markBlocked_def bnd_def modify_def ret_def split: if_splits prod.splits outcome.splits)
  with initBlocked_loads(1) [OF i(1)] assms(2) show ?thesis by (auto simp: is_blocked_def on_tables_def)
qed

lemma SQL_Block_blocks: "SQL_Block h s = (Ret None, s') \<Longrightarrow> on_tables (\<lambda>t. h \<in> set (t_blocked t)) s'"
  by (auto simp: SQL_Block_def bnd_def ret_def conn_call_def stmt_block_def on_tables_def split: option.splits list.splits sum.splits if_splits)

text \<open>What follows the insertion of the row in \<open>Block\<close>, whatever it does to the blob, keeps the row.\<close>

definition in_table :: "string \<Rightarrow> 's DBBackedStore \<Rightarrow> bool" where
  "in_table h d \<longleftrightarrow> on_tables (\<lambda>t. h \<in> set (t_blocked t)) (dbs_db d)"

lemma it_on_db: "keeps_tables (\<lambda>t. h \<in> set (t_blocked t)) m \<Longrightarrow> keeps_ret (in_table h) (\<lambda>_. True) (on_db m)"
  by (auto simp: keeps_ret_def on_db_def zoom_def in_table_def split: prod.splits)

lemma it_on_blobs: "keeps_ret (in_table h) (\<lambda>_. True) (on_blobs m)"
  by (auto simp: keeps_ret_def on_blobs_def zoom_def in_table_def split: prod.splits)

lemma it_drop: "keeps_ret (in_table h) (\<lambda>_. True) (bnd (on_blobs (bs_Delete st h)) (\<lambda>err. if err \<noteq> None then ret err else on_db (SQL_Delete h)))"
  by (rule keeps_ret_bnd [OF it_on_blobs]) (auto intro: keeps_ret_ret it_on_db blocked.kt_Delete)

lemma Block_blocks:
  assumes sync: "blocked_sync d" and r: "DBBackedStore_Block st h d = (Ret None, d')"
  shows "is_blocked h d'"
proof -
  from r obtain b x d1 where i: "DBBackedStore_isBlocked h d = (Ret (b, x), d1)"
    and r1: "(if b \<or> x \<noteq> None then ret x
         else bnd (on_db (SQL_Block h)) (\<lambda>err. if err \<noteq> None then ret err
           else bnd (on_db (HasBlob h False)) (\<lambda>(has, err). if err \<noteq> None then ret err
             else bnd (if has then bnd (on_blobs (bs_Delete st h)) (\<lambda>err. if err \<noteq> None then ret err else on_db (SQL_Delete h)) else ret None)
               (\<lambda>err. if err \<noteq> None then ret err else DBBackedStore_markBlocked h)))) d1 = (Ret None, d')"
    unfolding DBBackedStore_Block_def by (elim bnd_RetE) auto
  show ?thesis
  proof (cases "b \<or> x \<noteq> None")
    case True
    with r1 have "x = None" "d1 = d'" by (simp_all add: ret_def)
    with True isBlocked_reads(3) [OF i sync] show ?thesis by simp
  next
    case False
    with r1 obtain d2 where b: "on_db (SQL_Block h) d1 = (Ret None, d2)"
      and r2: "bnd (on_db (HasBlob h False)) (\<lambda>(has, err). if err \<noteq> None then ret err
             else bnd (if has then bnd (on_blobs (bs_Delete st h)) (\<lambda>err. if err \<noteq> None then ret err else on_db (SQL_Delete h)) else ret None)
               (\<lambda>err. if err \<noteq> None then ret err else DBBackedStore_markBlocked h)) d2 = (Ret None, d')"
      by (auto simp: ret_def split: if_splits elim!: bnd_RetE)
    from b have t2: "in_table h d2"
      by (auto simp: on_db_def zoom_def in_table_def dest: SQL_Block_blocks split: prod.splits)
    from r2 obtain has d3 d4 where s3: "on_db (HasBlob h False) d2 = (Ret (has, None), d3)"
      and s4: "(if has then bnd (on_blobs (bs_Delete st h)) (\<lambda>err. if err \<noteq> None then ret err else on_db (SQL_Delete h)) else ret None) d3 = (Ret None, d4)"
      and m: "DBBackedStore_markBlocked h d4 = (Ret None, d')"
      by (auto simp: ret_def split: if_splits elim!: bnd_RetE)
    have t3: "in_table h d3" using keeps_retD [OF it_on_db [OF blocked.kt_HasBlob] t2 s3] by simp
    have "in_table h d4" using s4 keeps_retD [OF it_drop t3] t3 by (auto simp: ret_def split: if_splits)
    with m show ?thesis unfolding in_table_def by (rule markBlocked_blocks)
  qed
qed

lemma blocked_Wants:
  assumes "is_blocked h d" "DBBackedStore_Wants h d = (Ret (w, x), d')"
  shows "\<not> w"
  using assms unfolding DBBackedStore_Wants_def
  by (auto simp: ret_def split: if_splits elim!: bnd_RetE dest: isBlocked_reads(1))

lemma blocked_Wants_live:
  assumes "is_blocked h d" "conn (dbs_db d) = Some t" "db_faults (dbs_db d) = []"
  shows "\<exists>d'. DBBackedStore_Wants h d = (Ret (False, None), d')"
  using assms
  by (cases "dbs_blocked d") (simp_all add: DBBackedStore_Wants_def DBBackedStore_isBlocked_def DBBackedStore_initBlocked_def bnd_def get_st_def ret_def modify_def
      on_db_def zoom_def GetBlocked_def conn_call_def query_def is_blocked_def on_tables_def)

lemma blocked_restart: "is_blocked h d \<Longrightarrow> is_blocked h (NewDBBackedStore b (dbs_db d))"
  by (simp add: is_blocked_def NewDBBackedStore_def)

definition never_wanted :: "string \<Rightarrow> 's DBBackedStore \<Rightarrow> bool" where
  "never_wanted h d \<longleftrightarrow> (\<forall>w x d'. DBBackedStore_Wants h d = (Ret (w, x), d') \<longrightarrow> \<not> w)
     \<and> (conn (dbs_db d) \<noteq> None \<and> db_faults (dbs_db d) = [] \<longrightarrow> (\<exists>d'. DBBackedStore_Wants h d = (Ret (False, None), d')))"

lemma blocked_never_wanted: "is_blocked h d \<Longrightarrow> never_wanted h d"
  unfolding never_wanted_def by (intro conjI allI impI) (erule (1) blocked_Wants, use blocked_Wants_live in blast)

text \<open>
  C10. A block is permanent: once \<open>Block\<close> has returned no error, no sequence of store calls, with any faults of the database and of the inner
  store in between, makes \<open>Wants\<close> ask for the blob again, in this process or after a restart (which reads the table again); on a
  working connection \<open>Wants\<close> then answers no without an error.
\<close>

theorem Block_is_permanent:
  assumes "blocked_sync d" and "DBBackedStore_Block st h d = (Ret None, d1)"
    and "run_calls (DBBackedStore_ops deleteOnMiss dup st) cs d1 = (obs, d2)"
  shows "never_wanted h d2 \<and> never_wanted h (NewDBBackedStore (dbs_blobs d2) (dbs_db d2))"
proof -
  have "is_blocked h d2" by (rule run_calls_blocked [OF Block_blocks [OF assms(1,2)] assms(3)])
  then show ?thesis by (intro conjI blocked_never_wanted blocked_restart)
qed

theorem Block_is_permanent_witness:
  "\<exists>d1 obs d2. DBBackedStore_Block NoopStore_ops ''h'' (NewDBBackedStore () (empty_db TrackAccessBlobs [])) = (Ret None, d1)
     \<and> run_calls (DBBackedStore_ops True (\<lambda>i. i) NoopStore_ops) [CPut ''h'' ''x'', CDelete ''h''] d1 = (obs, d2) \<and> never_wanted ''h'' d2"
proof -
  let ?d = "NewDBBackedStore () (empty_db TrackAccessBlobs [])"
  have "fst (DBBackedStore_Block NoopStore_ops ''h'' ?d) = Ret None" by code_simp
  then obtain d1 where d1: "DBBackedStore_Block NoopStore_ops ''h'' ?d = (Ret None, d1)" by (metis prod.collapse)
  obtain obs d2 where r: "run_calls (DBBackedStore_ops True (\<lambda>i. i) NoopStore_ops) [CPut ''h'' ''x'', CDelete ''h''] d1 = (obs, d2)"
    by (metis surj_pair)
  have "blocked_sync ?d" by (simp add: blocked_sync_def NewDBBackedStore_def)
  from Block_is_permanent [OF this d1 r] d1 r show ?thesis by blast
qed

end
