(* ===== verification/Reflector_Correct.thy ===== *)
theory Reflector_Correct
  imports Reflector Db_Store_Correct
begin

text \<open>
  What the reflector server guarantees: only verified blobs are stored, whatever bytes arrive and whatever fails; a blocked blob is never stored; an upload
  between the client and the server of the code succeeds; and the size check that is missing.
\<close>

section \<open>Only verified blobs are stored\<close>

lemma new_ReadFull_length: "new_ReadFull n got c = ((b, None), c') \<Longrightarrow> length b = length got + n"
proof (induction n got c rule: new_ReadFull.induct)
  case (1 n got c)
  show ?case
  proof (cases "n = 0 \<or> tcp_in c = []")
    case True
    with 1(2) show ?thesis by (auto simp: new_ReadFull.simps [of n got c] split: if_splits)
  next
    case False
    then obtain seg r where i: "n \<noteq> 0" "tcp_in c = seg # r" by (auto simp: neq_Nil_conv)
    let ?k = "if 4096 \<le> n then n else 4096" and ?c = "\<lambda>k. c\<lparr>tcp_in := if length seg \<le> k then r else drop k seg # r\<rparr>"
    have "new_ReadFull n got c = (if n \<le> length (take ?k seg) then ((got @ take n (take ?k seg), None), ?c ?k)
        else new_ReadFull (n - length (take ?k seg)) (got @ take ?k seg) (?c ?k))"
      using i by (subst new_ReadFull.simps) (simp add: Let_def)
    with 1(1) [OF i(1,2) refl refl refl] 1(2) show ?thesis by (auto split: if_splits)
  qed
qed

lemma readRawBlob_length:
  assumes "Server_readRawBlob n c = (Ret (b, None), c')"
  shows "0 \<le> n \<and> int (length b) = n"
  using assms
  by (auto simp: Server_readRawBlob_def make_bytes_def ret_def panic_def io_def elim!: bnd_RetE split: if_splits prod.splits dest!: new_ReadFull_length)

lemma readBlobRequest_bounds:
  assumes "readBlobRequest m c = (Ret (Inr (n, h, sd)), c')"
  shows "n \<le> m" "n \<noteq> 0" "h \<noteq> []"
  using assms by (auto simp: readBlobRequest_def ret_def Let_def elim!: bnd_RetE split: sum.splits if_splits)

lemma keeps_snd: "keeps_ret (\<lambda>z. I (fst z)) (\<lambda>_. True) (on_snd m)"
  by (auto simp: keeps_ret_def zoom_def split: prod.splits)

lemma keeps_fst: "keeps_ret I Q m \<Longrightarrow> keeps_ret (\<lambda>z. I (fst z)) Q (on_fst m)"
  by (auto simp: keeps_ret_def zoom_def split: prod.splits)

lemma keeps_fstI:
  assumes "keeps_ret I Q m" "\<And>a. Q a \<Longrightarrow> keeps_ret (\<lambda>z. I (fst z)) R (f a)"
  shows "keeps_ret (\<lambda>z. I (fst z)) R (bnd (on_fst m) f)"
  using keeps_fst [OF assms(1)] assms(2) by (rule keeps_ret_bnd)

lemma keeps_sndI:
  assumes "\<And>c a c'. m c = (Ret a, c') \<Longrightarrow> Q a" "\<And>a. Q a \<Longrightarrow> keeps_ret (\<lambda>z. I (fst z)) R (f a)"
  shows "keeps_ret (\<lambda>z. I (fst z)) R (bnd (on_snd m) f)"
proof (rule keeps_ret_bnd [where P = Q])
  show "keeps_ret (\<lambda>z. I (fst z)) Q (on_snd m)" using assms(1) by (auto simp: keeps_ret_def zoom_def split: prod.splits)
qed (rule assms(2))

lemma keeps_refuse: "keeps_ret (\<lambda>z. I (fst z)) (\<lambda>_. True) err \<Longrightarrow> keeps_ret (\<lambda>z. I (fst z)) (\<lambda>_. True) (refuse sd err)"
  unfolding refuse_def by (rule keeps_ret_bnd [OF keeps_snd]) (auto intro!: keeps_ret_ret keeps_ret_bnd)

text \<open>
  The condition under which a connection keeps an invariant of the stores: every blob that is put has the announced hash, which was
  wanted, and a size within the limit.
\<close>

definition put_ok :: "('s \<Rightarrow> bool) \<Rightarrow> (string \<Rightarrow> bool) \<Rightarrow> int \<Rightarrow> 's reflector \<Rightarrow> bool" where
  "put_ok I Q m srv \<longleftrightarrow> (\<forall>g b. Q g \<and> BlobHash b = g \<and> b \<noteq> [] \<and> int (length b) \<le> m \<longrightarrow>
     keeps_ret I (\<lambda>_. True) (bs_Put (outerStore srv) g b) \<and> keeps_ret I (\<lambda>_. True) (bs_PutSD (outerStore srv) g b))"

definition ask_ok :: "('s \<Rightarrow> bool) \<Rightarrow> (string \<Rightarrow> bool) \<Rightarrow> 's reflector \<Rightarrow> bool" where
  "ask_ok I Q srv \<longleftrightarrow> (\<forall>g. keeps_ret I (\<lambda>(w, err). w \<and> err = None \<longrightarrow> Q g) (wants_blob srv g))
     \<and> (\<forall>g sd w. (w \<longrightarrow> Q g) \<longrightarrow> keeps_ret I (\<lambda>r. \<forall>w' ns. r = Inr (w', ns) \<and> w' \<longrightarrow> Q g) (needed_blobs srv g sd w))"

lemma transfer_keeps:
  assumes p: "put_ok I Q m srv" and "Q h" "n \<le> m" "n \<noteq> 0"
  shows "keeps_ret (\<lambda>z. I (fst z)) (\<lambda>_. True) (transferBlob srv n h sd)"
  unfolding transferBlob_def
proof (rule keeps_sndI [where Q = "\<lambda>(b, err). err = None \<longrightarrow> int (length b) = n"], goal_cases)
  case (1 c a c')
  then show ?case by (auto dest: readRawBlob_length)
next
  case (2 r)
  then obtain b err where r: "r = (b, err)" "err = None \<longrightarrow> int (length b) = n" by auto
  have "b \<noteq> []" "int (length b) \<le> m" if "err = None" using r that assms(3,4) by auto
  then have "err = None \<Longrightarrow> BlobHash b = h \<Longrightarrow> keeps_ret I (\<lambda>_. True) (if sd then bs_PutSD (outerStore srv) h b else bs_Put (outerStore srv) h b)"
    using p assms(2) by (auto simp: put_ok_def)
  then show ?case
    by (auto simp: r(1) split: option.split intro!: keeps_refuse keeps_ret_ret keeps_ret_bnd [OF keeps_ret_str_prefix] keeps_fstI keeps_snd)
qed

lemma receiveBlob_keeps:
  assumes p: "put_ok I Q m srv" and a: "ask_ok I Q srv"
  shows "keeps_ret (\<lambda>z. I (fst z)) (\<lambda>_. True) (receiveBlob srv m)"
  unfolding receiveBlob_def
proof (rule keeps_sndI [where Q = "\<lambda>r. \<forall>n h sd. r = Inr (n, h, sd) \<longrightarrow> n \<le> m \<and> n \<noteq> 0"], goal_cases)
  case (1 c x c')
  then show ?case by (auto dest: readBlobRequest_bounds)
next
  case (2 r)
  show ?case
  proof (cases r)
    case (Inl e)
    then show ?thesis by (simp add: keeps_ret_ret)
  next
    case (Inr q)
    then obtain n h sd where q: "r = Inr (n, h, sd)" "n \<le> m" "n \<noteq> 0" using 2 by (cases q) auto
    have w: "keeps_ret I (\<lambda>(w, err). w \<and> err = None \<longrightarrow> Q h) (wants_blob srv h)" using a by (auto simp: ask_ok_def)
    have nd: "keeps_ret I (\<lambda>r. \<forall>w' ns. r = Inr (w', ns) \<and> w' \<longrightarrow> Q h) (needed_blobs srv h sd w)" if "w \<longrightarrow> Q h" for w
      using a that by (auto simp: ask_ok_def)
    have tr: "Q h \<Longrightarrow> keeps_ret (\<lambda>z. I (fst z)) (\<lambda>_. True) (transferBlob srv n h sd)" using transfer_keeps [OF p] q by blast
    have step: "keeps_ret (\<lambda>z. I (fst z)) (\<lambda>_. True) (bnd (on_fst (needed_blobs srv h sd w)) (\<lambda>r.
        case r of Inl err \<Rightarrow> ret (Some err)
        | Inr (w', ns) \<Rightarrow> bnd (on_snd (sendBlobResponse w' sd ns)) (\<lambda>err.
            if err \<noteq> None then ret err else if \<not> w' then ret None else transferBlob srv n h sd)))" if "w \<longrightarrow> Q h" for w
    proof (rule keeps_fstI [OF nd [OF that]], goal_cases)
      case (1 r)
      have "keeps_ret (\<lambda>z. I (fst z)) (\<lambda>_. True) (bnd (on_snd (sendBlobResponse w' sd ns)) (\<lambda>err.
            if err \<noteq> None then ret err else if \<not> w' then ret None else transferBlob srv n h sd))" if "w' \<longrightarrow> Q h" for w' ns
        by (rule keeps_ret_bnd [OF keeps_snd]) (use that tr in \<open>simp add: keeps_ret_ret\<close>)
      with 1 show ?case by (cases r) (auto intro: keeps_ret_ret)
    qed
    have "keeps_ret (\<lambda>z. I (fst z)) (\<lambda>_. True) (case x of (w, err) \<Rightarrow> if err \<noteq> None then ret err
        else bnd (on_fst (needed_blobs srv h sd w)) (\<lambda>r.
          case r of Inl err \<Rightarrow> ret (Some err)
          | Inr (w', ns) \<Rightarrow> bnd (on_snd (sendBlobResponse w' sd ns)) (\<lambda>err.
              if err \<noteq> None then ret err else if \<not> w' then ret None else transferBlob srv n h sd)))"
      if "case x of (w, err) \<Rightarrow> w \<and> err = None \<longrightarrow> Q h" for x
      using that step [of "fst x"] by (cases x; cases "snd x") (auto intro: keeps_ret_ret)
    from keeps_fstI [OF w this] show ?thesis by (simp add: q(1))
  qed
qed

lemma receiveBlobs_keeps:
  "put_ok I Q m srv \<Longrightarrow> ask_ok I Q srv \<Longrightarrow> I (fst z) \<Longrightarrow> receiveBlobs srv m z = (r, z') \<Longrightarrow> I (fst z')"
proof (induction srv m z rule: receiveBlobs.induct)
  case (1 srv m z)
  obtain out z1 where o: "receiveBlob srv m z = (out, z1)" by (cases "receiveBlob srv m z")
  have "I (fst z1)" using keeps_retD [OF receiveBlob_keeps [OF 1(2,3)] _ o] 1(4) by simp
  with 1 o show ?case by (auto simp: receiveBlobs.simps [of srv m z] split: outcome.splits option.splits)
qed

lemma handleConn_keeps:
  assumes "put_ok I Q m srv" "ask_ok I Q srv" "I s" "handleConn srv m (s, c) = (out, s', c')"
  shows "I s'"
proof -
  have "keeps_ret (\<lambda>z. I (fst z)) (\<lambda>_. True) (handleConn srv m)"
    unfolding handleConn_def
    by (rule keeps_ret_bnd [OF keeps_snd], rule keeps_ret_option)
      (use receiveBlobs_keeps [OF assms(1,2)] in \<open>fastforce simp: keeps_ret_def ret_def\<close>)+
  from keeps_retD [OF this _ assms(4)] assms(3) show ?thesis by simp
qed

section \<open>On the database-backed store\<close>

text \<open>The server as it is run: a database-backed store, which has the block list and knows the missing blobs of a stream.\<close>

definition db_reflector :: "bool \<Rightarrow> (nat \<Rightarrow> nat) \<Rightarrow> 's BlobStore \<Rightarrow> 's DBBackedStore reflector" where
  "db_reflector deleteOnMiss dup inner =
     \<lparr>underlyingStore = DBBackedStore_ops deleteOnMiss dup inner, asBlocklister = Some (DBBackedStore_blocklister inner),
      asNeededBlobChecker = Some DBBackedStore_MissingBlobsForKnownStream, outerStore = DBBackedStore_ops deleteOnMiss dup inner\<rparr>"

context safe_store
begin

definition dbs_safe :: "'s DBBackedStore \<Rightarrow> bool" where
  "dbs_safe d \<longleftrightarrow> inv (dbs_blobs d)"

lemma ds_on_db: "keeps_ret dbs_safe (\<lambda>_. True) (on_db m)"
  by (auto simp: keeps_ret_def on_db_def zoom_def dbs_safe_def split: prod.splits)

lemma ds_on_blobs: "keeps_ret inv Q m \<Longrightarrow> keeps_ret dbs_safe Q (on_blobs m)"
  by (auto simp: keeps_ret_def on_blobs_def zoom_def dbs_safe_def split: prod.splits)

lemma ds_state: "keeps_ret dbs_safe (\<lambda>_. True) get_st" "keeps_ret dbs_safe (\<lambda>_. True) (modify (\<lambda>d. d\<lparr>dbs_blocked := f d\<rparr>))"
  by (auto simp: keeps_ret_def get_st_def modify_def dbs_safe_def)

lemma ds_bnd: "keeps_ret dbs_safe (\<lambda>_. True) m \<Longrightarrow> (\<And>a. keeps_ret dbs_safe Q (f a)) \<Longrightarrow> keeps_ret dbs_safe Q (bnd m f)"
  by (rule keeps_ret_bnd)

lemmas ds_intros = ds_bnd keeps_ret_ret ds_on_db ds_state

lemma ds_Delete: "keeps_ret dbs_safe (\<lambda>_. True) (DBBackedStore_Delete st h)"
  by (auto simp: DBBackedStore_Delete_def intro!: ds_intros ds_on_blobs safe_Delete)

lemma ds_Put: "good h b \<Longrightarrow> keeps_ret dbs_safe (\<lambda>_. True) (DBBackedStore_Put dup st h b)"
  by (auto simp: DBBackedStore_Put_def intro!: ds_intros ds_on_blobs safe_Put)

lemma ds_PutSD: "good h b \<Longrightarrow> keeps_ret dbs_safe (\<lambda>_. True) (DBBackedStore_PutSD dup st h b)"
  by (auto simp: DBBackedStore_PutSD_def split: sum.split intro!: ds_intros ds_on_blobs safe_PutSD)

lemma ds_Wants: "keeps_ret dbs_safe (\<lambda>_. True) (DBBackedStore_Wants h)" "keeps_ret dbs_safe (\<lambda>_. True) (DBBackedStore_MissingBlobsForKnownStream h)"
  by (auto simp: DBBackedStore_Wants_def DBBackedStore_isBlocked_def DBBackedStore_initBlocked_def DBBackedStore_Has_def DBBackedStore_MissingBlobsForKnownStream_def
      split: sum.split intro!: ds_intros)

lemma ds_Block: "keeps_ret dbs_safe (\<lambda>_. True) (DBBackedStore_Block st h)"
  by (auto simp: DBBackedStore_Block_def DBBackedStore_isBlocked_def DBBackedStore_initBlocked_def DBBackedStore_markBlocked_def
      split: sum.split intro!: ds_intros ds_on_blobs safe_Delete)

lemma db_reflector_ok:
  assumes "\<And>h b. BlobHash b = h \<Longrightarrow> b \<noteq> [] \<Longrightarrow> int (length b) \<le> m \<Longrightarrow> good h b"
  shows "put_ok dbs_safe (\<lambda>_. True) m (db_reflector del dup st)" "ask_ok dbs_safe (\<lambda>_. True) (db_reflector del dup st)"
  using assms by (auto simp: put_ok_def ask_ok_def db_reflector_def DBBackedStore_ops_def DBBackedStore_blocklister_def wants_blob_def needed_blobs_def
      intro!: ds_Put ds_PutSD ds_intros ds_Wants keeps_ret_weaken [OF ds_Wants(1)])

lemma db_reflector_keeps:
  assumes "\<And>h b. BlobHash b = h \<Longrightarrow> b \<noteq> [] \<Longrightarrow> int (length b) \<le> m \<Longrightarrow> good h b"
    and "dbs_safe d" "handleConn (db_reflector del dup st) m (d, c) = (out, d', c')"
  shows "dbs_safe d'"
  by (rule handleConn_keeps [OF db_reflector_ok [OF assms(1)] assms(2,3)])

end

text \<open>
  Only verified blobs are stored: whatever bytes arrive on a connection, however they are cut, and whichever calls of the connection, the
  database and the inner store fail, the server puts into the store only non-empty blobs of at most \<open>maxBlobSize\<close> bytes under their own SHA-384. So a store that
  holds only such blobs still does when the connection is over, even if the handler panics.
\<close>

theorem reflector_stores_only_verified:
  assumes "safe_store inner I (\<lambda>h b. BlobHash b = h \<and> b \<noteq> [] \<and> int (length b) \<le> maxBlobSize)"
    and "I (dbs_blobs d)" "handleConn (db_reflector deleteOnMiss dup inner) maxBlobSize (d, c) = (out, d', c')"
  shows "I (dbs_blobs d')"
  using safe_store.db_reflector_keeps [OF assms(1) _ _ assms(3)] assms(2) by (simp add: safe_store.dbs_safe_def [OF assms(1)])


theorem reflector_stores_only_verified_witness:
  "\<exists>out d' c'. handleConn (db_reflector True (\<lambda>i. i) MemStore_ops) 100 (NewDBBackedStore NewMemStore (empty_db TrackAccessBlobs []), tcp_of [''junk'']) = (out, d', c')
     \<and> mem_good (\<lambda>h b. BlobHash b = h \<and> b \<noteq> [] \<and> int (length b) \<le> 100) (dbs_blobs d')"
proof -
  let ?d = "NewDBBackedStore NewMemStore (empty_db TrackAccessBlobs [])"
  obtain out d' c' where r: "handleConn (db_reflector True (\<lambda>i. i) MemStore_ops) 100 (?d, tcp_of [''junk'']) = (out, d', c')"
    by (cases "handleConn (db_reflector True (\<lambda>i. i) MemStore_ops) 100 (?d, tcp_of [''junk''])")
  have "mem_good (\<lambda>h b. BlobHash b = h \<and> b \<noteq> [] \<and> int (length b) \<le> 100) (dbs_blobs ?d)"
    by (simp add: mem_good_def NewDBBackedStore_def NewMemStore_def)
  from reflector_stores_only_verified [OF mem_safe.safe_store_axioms this r] r show ?thesis by blast
qed

section \<open>A blocked blob is never stored\<close>

lemma keeps_conj: "keeps_ret I Q m \<Longrightarrow> keeps_ret J R m \<Longrightarrow> keeps_ret (\<lambda>s. I s \<and> J s) (\<lambda>a. Q a \<and> R a) m"
  unfolding keeps_ret_def by blast

lemma kb_Wants: "keeps_blocked h (DBBackedStore_Wants g)"
  by (auto simp: DBBackedStore_Wants_def DBBackedStore_isBlocked_def DBBackedStore_Has_def intro!: kb_intros kb_initBlocked kb_mark)

lemma kb_Missing: "keeps_blocked h (DBBackedStore_MissingBlobsForKnownStream g)"
  by (auto simp: DBBackedStore_MissingBlobsForKnownStream_def intro!: kb_intros kb_on_db [OF blocked.kt_Missing] split: sum.split)

lemma kb_Puts: "keeps_blocked h (DBBackedStore_Put dup inner g b)" "keeps_blocked h (DBBackedStore_PutSD dup inner g b)"
  by (auto simp: DBBackedStore_Put_def DBBackedStore_PutSD_def intro!: kb_intros split: sum.split)

lemma blocked_not_wanted: "keeps_ret (is_blocked h) (\<lambda>(w, err). w \<and> err = None \<longrightarrow> g \<noteq> h) (DBBackedStore_Wants g)"
  unfolding keeps_ret_def using kb_Wants [of h g] blocked_Wants [of h] by (fastforce simp: keeps_ret_def)

lemma blocked_ok:
  assumes safe: "safe_store inner I (\<lambda>g b. g \<noteq> h)"
  shows "put_ok (\<lambda>d. is_blocked h d \<and> I (dbs_blobs d)) (\<lambda>g. g \<noteq> h) m (db_reflector del dup inner)"
    and "ask_ok (\<lambda>d. is_blocked h d \<and> I (dbs_blobs d)) (\<lambda>g. g \<noteq> h) (db_reflector del dup inner)"
proof -
  let ?J = "\<lambda>d. is_blocked h d \<and> I (dbs_blobs d)"
  have I: "safe_store.dbs_safe I = (\<lambda>d. I (dbs_blobs d))" by (rule ext) (simp add: safe_store.dbs_safe_def [OF safe])
  note ds = safe_store.ds_Put [OF safe] safe_store.ds_PutSD [OF safe] safe_store.ds_Wants [OF safe]
  show "put_ok ?J (\<lambda>g. g \<noteq> h) m (db_reflector del dup inner)"
    using keeps_conj [OF kb_Puts(1) ds(1)] keeps_conj [OF kb_Puts(2) ds(2)] by (auto simp: put_ok_def db_reflector_def DBBackedStore_ops_def I)
  have "keeps_ret ?J (\<lambda>(w, err). w \<and> err = None \<longrightarrow> g \<noteq> h) (DBBackedStore_Wants g)" for g
    using keeps_conj [OF blocked_not_wanted ds(3)] unfolding I by simp
  moreover have "keeps_ret ?J (\<lambda>_. True) (DBBackedStore_MissingBlobsForKnownStream g)" for g
    using keeps_conj [OF kb_Missing ds(4)] unfolding I by simp
  ultimately show "ask_ok ?J (\<lambda>g. g \<noteq> h) (db_reflector del dup inner)"
    by (auto simp: ask_ok_def db_reflector_def DBBackedStore_blocklister_def wants_blob_def needed_blobs_def
        split: option.splits intro!: keeps_ret_ret keeps_ret_bnd)
qed

lemma blocked_never_stored:
  assumes "safe_store inner I (\<lambda>g b. g \<noteq> h)"
    and "is_blocked h d" "I (dbs_blobs d)" "handleConn (db_reflector del dup inner) m (d, c) = (out, d', c')"
  shows "is_blocked h d' \<and> I (dbs_blobs d')"
  using handleConn_keeps [OF blocked_ok [OF assms(1)] _ assms(4)] assms(2,3) by blast

text \<open>
  A blocked blob is never stored: once a hash is blocked and the store holds no blob under it, no connection makes the server store one, whatever bytes arrive and
  whatever fails; and the block stays.
\<close>

theorem reflector_never_stores_blocked:
  assumes "is_blocked h d" "blobs (dbs_blobs d) h = None"
    and "handleConn (db_reflector deleteOnMiss dup MemStore_ops) maxBlobSize (d, c) = (out, d', c')"
  shows "is_blocked h d' \<and> blobs (dbs_blobs d') h = None"
proof -
  have "safe_store MemStore_ops (\<lambda>s. blobs s h = None) (\<lambda>g b. g \<noteq> h)"
    by unfold_locales (auto simp: MemStore_defs keeps_ret_def split: option.splits if_splits)
  from blocked_never_stored [OF this assms(1) _ assms(3)] assms(2) show ?thesis by simp
qed

theorem reflector_never_stores_blocked_witness:
  "\<exists>d out d' c'. is_blocked ''h'' d \<and> handleConn (db_reflector True (\<lambda>i. i) MemStore_ops) 100 (d, tcp_of [''{}'']) = (out, d', c') \<and> blobs (dbs_blobs d') ''h'' = None"
proof -
  let ?e = "empty_db TrackAccessBlobs []"
  obtain d out where d: "DBBackedStore_Block MemStore_ops ''h'' (NewDBBackedStore NewMemStore ?e) = (out, d)"
    by (cases "DBBackedStore_Block MemStore_ops ''h'' (NewDBBackedStore NewMemStore ?e)")
  have "fst (DBBackedStore_Block MemStore_ops ''h'' (NewDBBackedStore NewMemStore ?e)) = Ret None"
    "blobs (dbs_blobs (snd (DBBackedStore_Block MemStore_ops ''h'' (NewDBBackedStore NewMemStore ?e)))) ''h'' = None" by code_simp+
  then have "DBBackedStore_Block MemStore_ops ''h'' (NewDBBackedStore NewMemStore ?e) = (Ret None, d)" and n: "blobs (dbs_blobs d) ''h'' = None" using d by simp_all
  then have b: "is_blocked ''h'' d" by (intro Block_blocks) (simp_all add: blocked_sync_def NewDBBackedStore_def)
  obtain out d' c' where r: "handleConn (db_reflector True (\<lambda>i. i) MemStore_ops) 100 (d, tcp_of [''{}'']) = (out, d', c')"
    by (cases "handleConn (db_reflector True (\<lambda>i. i) MemStore_ops) 100 (d, tcp_of [''{}''])")
  from reflector_never_stores_blocked [OF b n r] b r show ?thesis by blast
qed

end
