(* ===== verification/Peer.thy ===== *)
theory Peer
  imports Json_Frame Go_Path
begin

text \<open>
  The peer protocol (src/server/peer): server, client and store. A request is a JSON object; so is the response, followed by the bytes of the
  blob if there is one. A message ends where what was read so far is valid JSON.

  \<open>hexLen\<close> stands for \<open>stream.BlobHashHexLength\<close> of the lbry.go package.
\<close>

section \<open>Messages\<close>

definition maxRequestSize :: nat where
  "maxRequestSize = 64 * xor 2 10"

definition LbrycrdAddress :: string where
  "LbrycrdAddress = ''bJxKvpD96kaJLriqVajZ7SaQTsWWyrGQct''"

definition paymentRateAccepted :: string where
  "paymentRateAccepted = ''RATE_ACCEPTED''"

definition paymentRateTooLow :: string where
  "paymentRateTooLow = ''RATE_TOO_LOW''"

definition IsValidJSON :: "bytes \<Rightarrow> bool" where
  "IsValidJSON b \<longleftrightarrow> json_unmarshal b \<noteq> None"

function readMore :: "bytes \<Rightarrow> tcp \<Rightarrow> (bytes \<times> go_error option) \<times> tcp" where
  "readMore msg c =
     (case ReadBytes (CHR ''}'') c of (res, c') \<Rightarrow>
      case res of (chunk, err) \<Rightarrow>
      if err \<noteq> None \<and> err \<noteq> Some EOF then ((msg, err), c')
      else
        let eof = (err \<noteq> None); msg' = msg @ chunk in
        if chunk \<noteq> [] \<and> maxRequestSize < length msg' then ((msg', Some ErrRequestTooLarge), c')
        else if chunk \<noteq> [] \<and> IsValidJSON msg' \<or> eof then
          (if msg' = [] \<and> eof then (([], Some EOF), c') else ((msg', None), c'))
        else readMore msg' c')"
  by pat_completeness auto
termination
  by (relation "measure (\<lambda>(msg, c). length (buf_bytes c))") (auto simp: ReadBytes_def dest!: cut_at_Some split: option.splits)

declare readMore.simps [simp del]

definition readNextMessage :: "tcp \<Rightarrow> (bytes \<times> go_error option) \<times> tcp" where
  "readNextMessage = readMore []"

section \<open>Requests and responses\<close>

text \<open>A string element of an array that is \<open>null\<close> is the empty string.\<close>

fun dec_str_elem :: "json \<Rightarrow> string option" where
  "dec_str_elem (JStr s) = Some s"
| "dec_str_elem JNull = Some []"
| "dec_str_elem _ = None"

text \<open>
  A number as a \<open>float64\<close>, of which only the sign is used: whether it is below zero. The value is \<open>num / den\<close>; half a unit above the largest finite
  number it is out of range, and at or below half the smallest positive one it is rounded to zero.
\<close>

definition float_neg :: "string \<Rightarrow> bool option" where
  "float_neg t =
     (let (neg, r) = (case t of c # r \<Rightarrow> if c = CHR ''-'' then (True, r) else (False, t) | [] \<Rightarrow> (False, []));
          (ip, r1) = digits r;
          (fp, r2) = (case r1 of c # r' \<Rightarrow> if c = CHR ''.'' then digits r' else ([], r1) | [] \<Rightarrow> ([], []));
          ex = (case r2 of
                  c # s # r' \<Rightarrow> if s = CHR ''-'' then - int (text_nat r') else if s = CHR ''+'' then int (text_nat r') else int (text_nat (s # r'))
                | _ \<Rightarrow> 0);
          m = text_nat (ip @ fp); e = ex - int (length fp);
          (num, den) = (if 0 \<le> e then (m * 10 ^ nat e, 1) else (m, 10 ^ nat (- e)))
      in if (2 ^ 1024 - 2 ^ 970) * den \<le> num then None else Some (neg \<and> den < num * 2 ^ 1075))"

fun dec_rate_neg :: "json \<Rightarrow> bool option" where
  "dec_rate_neg (JNum t) = float_neg t"
| "dec_rate_neg _ = None"

record compositeRequest =
  RequestedBlobs :: "string list"
  RateBelowZero :: bool
  RequestedBlob :: string

text \<open>The field \<open>lbrycrd_address\<close> is decoded and not used.\<close>

fun dec_composite :: "json \<Rightarrow> compositeRequest option" where
  "dec_composite (JObj ms) =
     (case (dec_field dec_bool False ''lbrycrd_address'' ms, dec_field (dec_list dec_str_elem) [] ''requested_blobs'' ms,
            dec_field dec_rate_neg False ''blob_data_payment_rate'' ms, dec_field dec_str [] ''requested_blob'' ms) of
        (Some _, Some bs, Some neg, Some b) \<Rightarrow> Some \<lparr>RequestedBlobs = bs, RateBelowZero = neg, RequestedBlob = b\<rparr>
      | _ \<Rightarrow> None)"
| "dec_composite JNull = Some \<lparr>RequestedBlobs = [], RateBelowZero = False, RequestedBlob = []\<rparr>"
| "dec_composite _ = None"

fun dec_availability :: "json \<Rightarrow> string list option" where
  "dec_availability (JObj ms) =
     (case (dec_field dec_bool False ''lbrycrd_address'' ms, dec_field (dec_list dec_str_elem) [] ''requested_blobs'' ms) of
        (Some _, Some bs) \<Rightarrow> Some bs
      | _ \<Rightarrow> None)"
| "dec_availability JNull = Some []"
| "dec_availability _ = None"

record incomingBlob =
  ib_Error :: string
  ib_BlobHash :: string
  ib_Length :: int

definition no_incoming :: incomingBlob where
  "no_incoming = \<lparr>ib_Error = [], ib_BlobHash = [], ib_Length = 0\<rparr>"

definition enc_incoming :: "incomingBlob \<Rightarrow> json" where
  "enc_incoming b =
     JObj ((if ib_Error b = [] then [] else [(''error'', JStr (ib_Error b))])
       @ [(''blob_hash'', JStr (ib_BlobHash b)), (''length'', JNum (int_text (ib_Length b)))])"

definition enc_strs :: "string list \<Rightarrow> json" where
  "enc_strs hs = JArr (map JStr hs)"

definition enc_composite :: "string list \<Rightarrow> string \<Rightarrow> incomingBlob \<Rightarrow> json" where
  "enc_composite availableBlobs rate incoming =
     JObj ([(''lbrycrd_address'', JStr LbrycrdAddress)]
       @ (if availableBlobs = [] then [] else [(''available_blobs'', enc_strs availableBlobs)])
       @ [(''blob_data_payment_rate'', JStr rate), (''incoming_blob'', enc_incoming incoming)])"

section \<open>Server\<close>

fun availableOf :: "'s BlobStore \<Rightarrow> string list \<Rightarrow> ('s, go_error + string list) op" where
  "availableOf store [] = ret (Inr [])"
| "availableOf store (blobHash # rest) =
     bnd (bs_Has store blobHash) (\<lambda>(exists, err).
       case err of
         Some err \<Rightarrow> ret (Inl err)
       | None \<Rightarrow> bnd (availableOf store rest) (\<lambda>r. ret (map_sum id (\<lambda>hs. if exists then blobHash # hs else hs) r)))"

definition handleAvailabilityRequest :: "'s BlobStore \<Rightarrow> bytes \<Rightarrow> ('s, go_error + bytes) op" where
  "handleAvailabilityRequest store data =
     (case Option.bind (json_unmarshal data) dec_availability of
        None \<Rightarrow> ret (Inl (Msg ''cannot unmarshal''))
      | Some requested \<Rightarrow>
          bnd (availableOf store requested) (\<lambda>r. ret (map_sum id (\<lambda>availableBlobs.
            jprint (JObj [(''lbrycrd_address'', JStr LbrycrdAddress), (''available_blobs'', enc_strs availableBlobs)])) r)))"

definition handleCompositeRequest :: "nat \<Rightarrow> 's BlobStore \<Rightarrow> call_env \<Rightarrow> bytes \<Rightarrow> ('s, go_error + bytes) op" where
  "handleCompositeRequest hexLen store e data =
     (case json_unmarshal data of
        None \<Rightarrow> ret (Inl (Msg (''invalid json in data '' @ hex_EncodeToString data)))
      | Some v \<Rightarrow>
          (case dec_composite v of
             None \<Rightarrow> ret (Inl (Msg ''cannot unmarshal''))
           | Some request \<Rightarrow>
               bnd (availableOf store (RequestedBlobs request)) (\<lambda>r.
                 case r of
                   Inl err \<Rightarrow> ret (Inl err)
                 | Inr availableBlobs \<Rightarrow>
                     let rate = (if RateBelowZero request then paymentRateTooLow else paymentRateAccepted);
                         hash = RequestedBlob request
                     in
                     if hash = [] then ret (Inr (jprint (enc_composite availableBlobs rate no_incoming)))
                     else if length hash \<noteq> hexLen then ret (Inl (Msg ''Invalid blob hash length''))
                     else
                       bnd (str_prefix hash 8) (\<lambda>_.
                       bnd (bs_Get store e hash) (\<lambda>(blob, trace, err).
                         case err of
                           Some err \<Rightarrow>
                             if not_found err then
                               ret (Inr (jprint (enc_composite availableBlobs rate (no_incoming\<lparr>ib_Error := Error err\<rparr>)) @ blob))
                             else ret (Inl err)
                         | None \<Rightarrow>
                             ret (Inr (jprint (enc_composite availableBlobs rate
                               (no_incoming\<lparr>ib_BlobHash := BlobHash blob, ib_Length := int (length blob)\<rparr>)) @ blob)))))))"


text \<open>
  One connection: requests are answered one after the other until the input ends, a request is rejected or a write fails. Failures of the
  deadline calls are only logged.
\<close>

lemma readMore_consumes:
  "readMore msg c = ((m, None), c') \<Longrightarrow> length m + length (buf_bytes c') = length msg + length (buf_bytes c) \<and> length (buf_bytes c') < length msg + length (buf_bytes c)
     \<and> tcp_end c' = tcp_end c"
proof (induction msg c rule: readMore.induct)
  case (1 msg c)
  show ?case
  proof (cases "cut_at (CHR ''}'') (buf_bytes c)")
    case None
    with 1(2) show ?thesis by (auto simp: readMore.simps [of msg c] ReadBytes_def Let_def split: if_splits)
  next
    case (Some p)
    then obtain a r where p: "cut_at (CHR ''}'') (buf_bytes c) = Some (a, r)" by (cases p) auto
    note cut = cut_at_Some [OF p]
    have rb: "ReadBytes (CHR ''}'') c = ((a, None), set_buf r c)" by (simp add: ReadBytes_def p)
    have "readMore (msg @ a) (set_buf r c) = ((m, None), c')
        \<Longrightarrow> length m + length (buf_bytes c') = length msg + length (buf_bytes c) \<and> length (buf_bytes c') < length msg + length (buf_bytes c) \<and> tcp_end c' = tcp_end c"
      if "\<not> IsValidJSON (msg @ a)" "\<not> maxRequestSize < length (msg @ a)"
      using 1(1) [of "(a, None)" "set_buf r c" a None False "msg @ a"] that cut
      by (auto simp: rb)
    with 1(2) cut show ?thesis by (auto simp: readMore.simps [of msg c] rb Let_def split: if_splits)
  qed
qed

function handleConnection :: "nat \<Rightarrow> 's BlobStore \<Rightarrow> call_env \<Rightarrow> 's \<times> tcp \<Rightarrow> unit outcome \<times> 's \<times> tcp" where
  "handleConnection hexLen store e (s, c) =
     (case readNextMessage (snd (conn_SetDeadline c)) of (res, c1) \<Rightarrow>
      case res of (request, err) \<Rightarrow>
      if err \<noteq> None then (Ret (), s, c1)
      else
        let c2 = snd (conn_SetDeadline c1) in
        (case handleCompositeRequest hexLen store (env_l e) request s of (out, s') \<Rightarrow>
         case out of
           Panic p \<Rightarrow> (Panic p, s', c2)
         | Ret resp \<Rightarrow>
            (case resp of
               Inl err \<Rightarrow> (Ret (), s', c2)
             | Inr response \<Rightarrow>
                 (case conn_Write response (snd (conn_SetDeadline c2)) of (w, c3) \<Rightarrow>
                  case w of (n, err) \<Rightarrow>
                  if err \<noteq> None \<or> n \<noteq> length response then (Ret (), s', c3)
                  else handleConnection hexLen store (env_r e) (s', snd (conn_SetDeadline c3))))))"
  by pat_completeness auto
termination
  by (relation "measure (\<lambda>(h, st, e, s, c). length (buf_bytes c))")
    (auto simp: readNextMessage_def buf_bytes_def dest!: readMore_consumes sym [of _ "conn_Write _ _"] sym [of _ "readMore _ _"])


declare handleConnection.simps [simp del]

section \<open>Client\<close>

text \<open>\<open>peer\<close> is the other end of the connection, as in \<^typ>\<open>'n peer\<close>.\<close>

record 'n Client =
  cl_connected :: bool
  cl_conn :: "'n netconn"

definition on_conn :: "('n netconn \<Rightarrow> 'a \<times> 'n netconn) \<Rightarrow> ('n Client, 'a) op" where
  "on_conn f c = (case f (cl_conn c) of (a, n) \<Rightarrow> (Ret a, c\<lparr>cl_conn := n\<rparr>))"

definition Client_write :: "'n peer \<Rightarrow> bytes \<Rightarrow> ('n Client, go_error option) op" where
  "Client_write peer b =
     bnd (on_conn (on_tcp conn_SetDeadline)) (\<lambda>err.
       if err \<noteq> None then ret err
       else bnd (on_conn (net_Write peer b)) (\<lambda>(n, err). ret (if err = None \<and> n \<noteq> length b then Some ErrShortWrite else err)))"

definition Client_read :: "(json \<Rightarrow> 'a option) \<Rightarrow> ('n Client, go_error + 'a) op" where
  "Client_read dec =
     bnd (on_conn (on_tcp conn_SetDeadline)) (\<lambda>err.
       case err of
         Some err \<Rightarrow> ret (Inl err)
       | None \<Rightarrow>
           bnd (on_conn (on_tcp readNextMessage)) (\<lambda>(m, err).
             case err of
               Some err \<Rightarrow> ret (Inl err)
             | None \<Rightarrow> (case Option.bind (json_unmarshal m) dec of None \<Rightarrow> ret (Inl (Msg ''cannot unmarshal'')) | Some v \<Rightarrow> ret (Inr v))))"

definition Client_readRawBlob :: "int \<Rightarrow> ('n Client, bytes \<times> go_error option) op" where
  "Client_readRawBlob blobSize =
     bnd (on_conn (on_tcp conn_SetDeadline)) (\<lambda>err.
       if err \<noteq> None then ret ([], err)
       else bnd (make_bytes blobSize) (\<lambda>n. on_conn (on_tcp (buf_ReadFull n))))"

fun dec_available :: "json \<Rightarrow> string list option" where
  "dec_available (JObj ms) =
     (case (dec_field dec_str [] ''lbrycrd_address'' ms, dec_field (dec_list dec_str_elem) [] ''available_blobs'' ms) of
        (Some _, Some bs) \<Rightarrow> Some bs
      | _ \<Rightarrow> None)"
| "dec_available JNull = Some []"
| "dec_available _ = None"

definition Client_HasBlob :: "'n peer \<Rightarrow> string \<Rightarrow> ('n Client, bool \<times> go_error option) op" where
  "Client_HasBlob peer hash =
     bnd get_st (\<lambda>c.
       if \<not> cl_connected c then ret (False, Some (Msg ''not connected''))
       else
         bnd (Client_write peer (jprint (JObj [(''lbrycrd_address'', JBool False), (''requested_blobs'', enc_strs [hash])]))) (\<lambda>err.
           if err \<noteq> None then ret (False, err)
           else
             bnd (Client_read dec_available) (\<lambda>r.
               case r of Inl err \<Rightarrow> ret (False, Some err) | Inr available \<Rightarrow> ret (list_ex (\<lambda>h. h = hash) available, None))))"

text \<open>A repeated object for a struct field is decoded into the same struct, so the members add up.\<close>

definition sub_members :: "string \<Rightarrow> (string \<times> json) list \<Rightarrow> (string \<times> json) list option" where
  "sub_members name ms = map_option concat (those_list (map (\<lambda>v. case v of JObj xs \<Rightarrow> Some xs | _ \<Rightarrow> None) (jvals name ms)))"

definition dec_incoming :: "(string \<times> json) list \<Rightarrow> incomingBlob option" where
  "dec_incoming ms =
     (case (dec_field dec_str [] ''error'' ms, dec_field dec_str [] ''blob_hash'' ms, dec_field dec_int 0 ''length'' ms) of
        (Some er, Some h, Some l) \<Rightarrow> Some \<lparr>ib_Error = er, ib_BlobHash = h, ib_Length = l\<rparr>
      | _ \<Rightarrow> None)"

fun dec_blob_response :: "json \<Rightarrow> (incomingBlob \<times> BlobTrace option) option" where
  "dec_blob_response (JObj ms) =
     (case (Option.bind (sub_members ''incoming_blob'' ms) dec_incoming, dec_field (map_option Some \<circ> dec_trace) None ''RequestTrace'' ms) of
        (Some b, Some tr) \<Rightarrow> Some (b, tr)
      | _ \<Rightarrow> None)"
| "dec_blob_response JNull = Some (no_incoming, None)"
| "dec_blob_response _ = None"

text \<open>What follows the decoded response: the header is checked and the bytes of the blob are read.\<close>

definition GetBlob_reply :: "call_env \<Rightarrow> string \<Rightarrow> incomingBlob \<times> BlobTrace option \<Rightarrow> ('n Client, bytes \<times> BlobTrace \<times> go_error option) op" where
  "GetBlob_reply e hash resp =
     (case resp of (incoming, requestTrace) \<Rightarrow>
        let trace = (case requestTrace of Some t \<Rightarrow> t | None \<Rightarrow> NewBlobTrace (env_l e) ''tcp'');
            prefix = (\<lambda>msg tr. bnd (str_prefix hash 8) (\<lambda>p. ret ([], tr, Some (Prefix p (Msg msg)))))
        in
        if ib_Error incoming \<noteq> [] then prefix (ib_Error incoming) trace
        else if ib_BlobHash incoming \<noteq> hash then prefix ''blob hash in response does not match requested hash'' (BlobTrace_Stack (env_r e) ''tcp'' trace)
        else if ib_Length incoming \<le> 0 then prefix ''length reported as <= 0'' trace
        else
          bnd (str_prefix hash 8) (\<lambda>_.
          bnd (Client_readRawBlob (ib_Length incoming)) (\<lambda>(blob, err).
            case err of
              Some err \<Rightarrow>
                (case requestTrace of
                   None \<Rightarrow> panic ''invalid memory address or nil pointer dereference''
                 | Some t \<Rightarrow> ret ([], BlobTrace_Stack (env_r e) ''tcp'' t, Some err))
            | None \<Rightarrow> ret (blob, BlobTrace_Stack (env_r e) ''tcp'' trace, None))))"

definition Client_GetBlob :: "'n peer \<Rightarrow> call_env \<Rightarrow> string \<Rightarrow> ('n Client, bytes \<times> BlobTrace \<times> go_error option) op" where
  "Client_GetBlob peer e hash =
     (let new = NewBlobTrace (env_l e) ''tcp'' in
      bnd get_st (\<lambda>c.
       if \<not> cl_connected c then ret ([], new, Some (Msg ''not connected''))
       else
         bnd (Client_write peer (jprint (JObj [(''requested_blob'', JStr hash)]))) (\<lambda>err.
           if err \<noteq> None then ret ([], new, err)
           else
             bnd (Client_read dec_blob_response) (\<lambda>r. case r of Inl err \<Rightarrow> ret ([], new, Some err) | Inr resp \<Rightarrow> GetBlob_reply e hash resp))))"

text \<open>
  \<open>GetStream\<close>: \<open>fromBlob\<close> stands for \<open>SDBlob.FromBlob\<close> of lbry.go, reduced to the hex hashes of its blob infos. The last info is the
  null terminator; without any info the first assignment to the stream is out of range.
\<close>

fun getBlobs :: "(call_env \<Rightarrow> string \<Rightarrow> ('s, bytes \<times> BlobTrace \<times> go_error option) op) \<Rightarrow> call_env \<Rightarrow> string list
   \<Rightarrow> ('s, go_error + bytes list) op" where
  "getBlobs get e [] = ret (Inr [])"
| "getBlobs get e (h # hs) =
     bnd (get (env_l e) h) (\<lambda>(b, trace, err).
       case err of
         Some err \<Rightarrow> ret (Inl err)
       | None \<Rightarrow> bnd (getBlobs get (env_r e) hs) (\<lambda>r. ret (map_sum id (Cons b) r)))"

definition Client_GetStream :: "'n peer \<Rightarrow> (bytes \<Rightarrow> go_error + string list) \<Rightarrow> call_env \<Rightarrow> string \<Rightarrow> ('n Client, go_error + bytes list) op" where
  "Client_GetStream peer fromBlob e sdHash =
     bnd get_st (\<lambda>c.
       if \<not> cl_connected c then ret (Inl (Msg ''not connected''))
       else
         bnd (Client_GetBlob peer (env_l e) sdHash) (\<lambda>(b, trace, err).
           case err of
             Some err \<Rightarrow> ret (Inl err)
           | None \<Rightarrow>
               (case fromBlob b of
                  Inl err \<Rightarrow> ret (Inl err)
                | Inr infos \<Rightarrow>
                    if infos = [] then panic ''index out of range''
                    else bnd (getBlobs (Client_GetBlob peer) (env_r e) (butlast infos)) (\<lambda>r. ret (map_sum id (Cons b) r)))))"

section \<open>Store\<close>

text \<open>
  Each call of the store dials a connection of its own: \<open>dial\<close> gives the connection or an error from the state of the network. The state
  of the peer is kept when the connection is closed.
\<close>

definition peer_getClient :: "('n \<Rightarrow> go_error + tcp) \<Rightarrow> 'n \<Rightarrow> go_error + 'n Client" where
  "peer_getClient dial n =
     (case dial n of
        Inl err \<Rightarrow> Inl (Prefix ''connection error'' err)
      | Inr t \<Rightarrow> Inr \<lparr>cl_connected = True, cl_conn = \<lparr>nc_tcp = t, nc_net = n\<rparr>\<rparr>)"

definition with_client :: "('n \<Rightarrow> go_error + tcp) \<Rightarrow> (go_error \<Rightarrow> 'a) \<Rightarrow> ('n Client, 'a) op \<Rightarrow> ('n, 'a) op" where
  "with_client dial failed m n =
     (case peer_getClient dial n of
        Inl err \<Rightarrow> (Ret (failed err), n)
      | Inr c \<Rightarrow> (case m c of (r, c') \<Rightarrow> (r, nc_net (cl_conn c'))))"

definition peer_Store_Has :: "('n \<Rightarrow> go_error + tcp) \<Rightarrow> 'n peer \<Rightarrow> string \<Rightarrow> ('n, bool \<times> go_error option) op" where
  "peer_Store_Has dial peer hash = with_client dial (\<lambda>err. (False, Some err)) (Client_HasBlob peer hash)"

definition peer_Store_Get :: "('n \<Rightarrow> go_error + tcp) \<Rightarrow> 'n peer \<Rightarrow> call_env \<Rightarrow> string \<Rightarrow> ('n, bytes \<times> BlobTrace \<times> go_error option) op" where
  "peer_Store_Get dial peer e hash =
     with_client dial (\<lambda>err. ([], NewBlobTrace e ''peer'', Some err))
       (bnd (Client_GetBlob peer (env_l e) hash) (\<lambda>(blob, trace, err).
          case err of
            Some x \<Rightarrow> if strings_Contains (Error x) ''blob not found'' then ret ([], trace, Some ErrBlobNotFound) else ret (blob, trace, err)
          | None \<Rightarrow> ret (blob, trace, err)))"

definition peer_Store_Put :: "string \<Rightarrow> bytes \<Rightarrow> ('n, go_error option) op" where
  "peer_Store_Put hash blob = ret (Some ErrNotImplemented)"

definition peer_Store_PutSD :: "string \<Rightarrow> bytes \<Rightarrow> ('n, go_error option) op" where
  "peer_Store_PutSD hash blob = ret (Some ErrNotImplemented)"

definition peer_Store_Delete :: "string \<Rightarrow> ('n, go_error option) op" where
  "peer_Store_Delete hash = ret (Some ErrNotImplemented)"

definition peer_Store :: "('n \<Rightarrow> go_error + tcp) \<Rightarrow> 'n peer \<Rightarrow> 'n BlobStore" where
  "peer_Store dial peer =
     \<lparr>bs_Name = ''peer'', bs_Has = peer_Store_Has dial peer, bs_Get = peer_Store_Get dial peer, bs_Put = peer_Store_Put,
      bs_PutSD = peer_Store_PutSD, bs_Delete = peer_Store_Delete, bs_Shutdown = ret ()\<rparr>"

end
