(* ===== verification/Peer_Correct.thy ===== *)
theory Peer_Correct
  imports Peer Stack_Props
begin

text \<open>
  The peer protocol is correct: messages are framed exactly, whatever follows them; reading from a peer is reading the peer's store; and the
  limits of the code as it is.
\<close>

section \<open>Framing\<close>

lemma maxRequestSize_eq [simp]: "maxRequestSize = 512"
  by (simp add: maxRequestSize_def)

lemma set_buf_set_buf [simp]: "set_buf r (set_buf r' c) = set_buf r c"
  by (simp add: set_buf_def)

lemma jprint_object_last: "last (jprint (JObj ms)) = CHR ''}''" "jprint (JObj ms) \<noteq> []"
  by simp_all

lemma cut_at_in:
  assumes "d \<in> set q"
  obtains a q' where "q = a @ q'" "cut_at d (q @ rest) = Some (a, q' @ rest)" "a \<noteq> []"
proof -
  from split_list_first [OF assms] obtain x y where "q = x @ d # y" "d \<notin> set x" by blast
  with that [of "x @ [d]" y] cut_at_append [of d x "y @ rest"] show thesis by simp
qed

lemma readMore_object:
  assumes w: "wf_json (JObj ms)" and len: "length (jprint (JObj ms)) \<le> 512"
  shows "p @ q = jprint (JObj ms) \<Longrightarrow> q \<noteq> [] \<Longrightarrow> buf_bytes c = q @ rest
    \<Longrightarrow> readMore p c = ((jprint (JObj ms), None), set_buf rest c)"
proof (induction "length q" arbitrary: p q c rule: less_induct)
  case less
  let ?m = "jprint (JObj ms)"
  have "last q = CHR ''}''" using less.prems(1,2) jprint_object_last(1) [of ms] by (metis last_appendR)
  then have "CHR ''}'' \<in> set q" using less.prems(2) by (metis last_in_set)
  then obtain a q' where a: "q = a @ q'" "cut_at (CHR ''}'') (q @ rest) = Some (a, q' @ rest)" "a \<noteq> []" by (rule cut_at_in)
  then have rb: "ReadBytes (CHR ''}'') c = ((a, None), set_buf (q' @ rest) c)" by (simp add: ReadBytes_def less.prems(3))
  have m: "(p @ a) @ q' = ?m" using less.prems(1) a(1) by simp
  have size: "length (p @ a) \<le> 512" using len m by (metis length_append le_add1 order_trans)
  show ?case
  proof (cases "q' = []")
    case True
    with m have "p @ a = ?m" by simp
    moreover have "IsValidJSON ?m" using json_unmarshal_print [OF w] by (simp add: IsValidJSON_def)
    ultimately show ?thesis using a True size by (simp add: readMore.simps [of p c] rb Let_def)
  next
    case False
    have "json_decode ?m = POk (JObj ms) []" using json_decode_print [OF w, of "[]"] by (simp add: num_end_def)
    then have "json_unmarshal (p @ a) = None"
      using object_prefix_invalid [of "tl ?m" _ "p @ a" q'] m False jprint_object [of ms] by simp
    moreover have "readMore (p @ a) (set_buf (q' @ rest) c) = ((?m, None), set_buf rest (set_buf (q' @ rest) c))"
      using a by (intro less.hyps [OF _ m False]) simp_all
    ultimately show ?thesis using a size by (simp add: readMore.simps [of p c] rb Let_def IsValidJSON_def)
  qed
qed

lemma readNextMessage_object:
  assumes "wf_json (JObj ms)" "length (jprint (JObj ms)) \<le> 512" "buf_bytes c = jprint (JObj ms) @ rest"
  shows "readNextMessage c = ((jprint (JObj ms), None), set_buf rest c)"
  unfolding readNextMessage_def using assms by (intro readMore_object) simp_all

text \<open>
  C26. The framing of the peer protocol is exact: of a JSON object of at most 512 bytes followed by any bytes (a blob, or the next
  request), however the network cut them, \<open>readNextMessage\<close> returns the object and leaves the bytes after it.
\<close>

theorem readNextMessage_exact:
  assumes "wf_json (JObj ms)" "length (jprint (JObj ms)) \<le> maxRequestSize" "concat (tcp_in c) = jprint (JObj ms) @ rest"
  shows "\<exists>c'. readNextMessage c = ((jprint (JObj ms), None), c') \<and> concat (tcp_in c') = rest \<and> tcp_out c' = tcp_out c"
  using readNextMessage_object [of ms c rest] assms buf_set_buf(1) [of rest c]
  by (simp only: maxRequestSize_eq buf_bytes_def) simp

theorem readNextMessage_exact_witness:
  "\<exists>c'. readNextMessage (tcp_of [''{'', [CHR 0x22] @ ''a'' @ [CHR 0x22] @ '':{}'', ''}}x'']) = (([CHR ''{'', CHR 0x22] @ ''a'' @ [CHR 0x22] @ '':{}}'', None), c') \<and> concat (tcp_in c') = ''}x''"
  using readNextMessage_exact [of "[(''a'', JObj [])]" "tcp_of [''{'', [CHR 0x22] @ ''a'' @ [CHR 0x22] @ '':{}'', ''}}x'']" "''}x''"]
  by (auto simp: tcp_of_def print_str_def esc_char_def code_def)

section \<open>A request that is too large\<close>

lemma readMore_too_large:
  assumes "cut_at (CHR ''}'') (buf_bytes c) = Some (a, r)" "512 < length (msg @ a)"
  shows "readMore msg c = ((msg @ a, Some ErrRequestTooLarge), set_buf r c)"
proof -
  have "a \<noteq> []" using cut_at_Some [OF assms(1)] by simp
  with assms show ?thesis by (simp add: readMore.simps [of msg c] ReadBytes_def Let_def)
qed

lemma print_valid_hash: "valid_hash h \<Longrightarrow> print_str h = qt # h @ [qt]"
proof -
  assume "valid_hash h"
  moreover have "\<forall>c \<in> hex_chars. esc_char c = [c]" by code_simp
  ultimately have "\<forall>c \<in> set h. esc_char c = [c]" by (auto simp: valid_hash_def)
  then have "concat (map esc_char h) = h" by (induction h) auto
  then show ?thesis by (simp add: print_str_def)
qed

lemma sep_by_length: "xs \<noteq> [] \<Longrightarrow> \<forall>x \<in> set xs. length x = k \<Longrightarrow> length (sep_by '','' xs) = (k + 1) * length xs - 1"
  by (induction "'',''" xs rule: sep_by.induct) auto

lemma sep_by_set: "set (sep_by d xs) \<subseteq> set d \<union> \<Union>(set ` set xs)"
  by (induction d xs rule: sep_by.induct) auto

abbreviation have_request :: "string list \<Rightarrow> json" where
  "have_request hs \<equiv> JObj [(''lbrycrd_address'', JBool True), (''requested_blobs'', enc_strs hs)]"

definition have_head :: string where
  "have_head = ''{'' @ print_str ''lbrycrd_address'' @ '':true,'' @ print_str ''requested_blobs'' @ '':[''"

lemma have_request_text: "jprint (have_request hs) = have_head @ sep_by '','' (map print_str hs) @ '']}''"
  by (simp add: have_head_def enc_strs_def comp_def)

lemma have_head_facts: "length have_head = 43" "CHR ''}'' \<notin> set have_head"
  by code_simp+

lemma have_request_length:
  assumes "hs \<noteq> []" "\<forall>h \<in> set hs. valid_hash h"
  shows "length (jprint (have_request hs)) = 99 * length hs + 44"
proof -
  have "length (sep_by '','' (map print_str hs)) = (98 + 1) * length (map print_str hs) - 1"
    using assms by (intro sep_by_length) (auto simp: print_valid_hash, simp add: valid_hash_def)
  moreover have "0 < length hs" using assms(1) by simp
  ultimately show ?thesis by (simp only: have_request_text length_append have_head_facts length_map list.size) simp
qed

lemma have_request_cut:
  assumes "\<forall>h \<in> set hs. valid_hash h"
  shows "cut_at (CHR ''}'') (jprint (have_request hs)) = Some (jprint (have_request hs), [])"
proof -
  have "CHR ''}'' \<notin> set (print_str h)" if "h \<in> set hs" for h
    using assms that by (auto simp: print_valid_hash valid_hash_def hex_chars_def)
  then have "CHR ''}'' \<notin> set (sep_by '','' (map print_str hs))"
    using sep_by_set [of "'',''" "map print_str hs"] by fastforce
  then have "CHR ''}'' \<notin> set (butlast (jprint (have_request hs)))"
    using have_head_facts(2) by (simp only: have_request_text) (simp add: butlast_append)
  moreover have "jprint (have_request hs) = butlast (jprint (have_request hs)) @ CHR ''}'' # []"
    by (simp only: have_request_text) (simp add: butlast_append)
  ultimately show ?thesis using cut_at_append [of "CHR ''}''" "butlast (jprint (have_request hs))" "[]"] by metis
qed

text \<open>
  The limit on requests is 512 bytes, not 64 kB (\<open>2 ^ 10\<close> is 8 in Go): of the availability requests with well-formed hashes exactly those for at
  most four hashes are read; one for five or more is rejected as too large, and the server closes the connection without an answer.
\<close>

theorem request_limit_is_four_hashes:
  assumes "hs \<noteq> []" "\<forall>h \<in> set hs. valid_hash h" "concat (tcp_in c) = jprint (have_request hs)"
  shows "fst (readNextMessage c) = (jprint (have_request hs), if length hs \<le> 4 then None else Some ErrRequestTooLarge)
     \<and> (4 < length hs \<longrightarrow> (\<exists>c'. handleConnection hexLen store e (s, c) = (Ret (), s, c') \<and> tcp_out c' = tcp_out c))"
proof -
  have b: "buf_bytes c' = jprint (have_request hs)" if "tcp_in c' = tcp_in c" for c' using assms(3) that by (simp add: buf_bytes_def)
  have large: "readNextMessage c' = ((jprint (have_request hs), Some ErrRequestTooLarge), set_buf [] c')" if "tcp_in c' = tcp_in c" "4 < length hs" for c'
    unfolding readNextMessage_def using readMore_too_large [of c' _ _ "[]"] have_request_cut [OF assms(2)] have_request_length [OF assms(1,2)] b [OF that(1)] that(2) by simp
  have small: "readNextMessage c = ((jprint (have_request hs), None), set_buf [] c)" if "length hs \<le> 4"
    using that have_request_length [OF assms(1,2)] b [of c] by (intro readNextMessage_object) (simp_all add: enc_strs_def)
  have hc: "\<exists>c'. handleConnection hexLen store e (s, c) = (Ret (), s, c') \<and> tcp_out c' = tcp_out c" if "4 < length hs"
    using large [of "snd (conn_SetDeadline c)"] that
    by (simp add: handleConnection.simps [of hexLen store e s c]) (simp add: conn_SetDeadline_def split: list.split)
  show ?thesis
  proof (cases "length hs \<le> 4")
    case True
    with small show ?thesis by (simp del: jprint.simps)
  next
    case False
    with large [of c] hc show ?thesis by (simp del: jprint.simps)
  qed
qed


theorem request_limit_is_four_hashes_witness:
  "snd (fst (readNextMessage (tcp_of [jprint (have_request (replicate 4 (BlobHash [])))]))) = None
   \<and> snd (fst (readNextMessage (tcp_of [jprint (have_request (replicate 5 (BlobHash [])))]))) = Some ErrRequestTooLarge"
proof -
  have "fst (readNextMessage (tcp_of [jprint (have_request (replicate (Suc n) (BlobHash [])))]))
      = (jprint (have_request (replicate (Suc n) (BlobHash []))), if length (replicate (Suc n) (BlobHash [])) \<le> 4 then None else Some ErrRequestTooLarge)" for n
    by (rule request_limit_is_four_hashes [THEN conjunct1]) (simp_all add: tcp_of_def)
  from this [of 3] this [of 4] show ?thesis by (simp add: numeral_eq_Suc)
qed

section \<open>Reading from a peer\<close>

text \<open>
  The server at the other end: it answers the bytes of a write and then waits for the next ones. The client writes whole requests, so
  nothing of a request is left over when it waits.
\<close>

definition peer_serve :: "nat \<Rightarrow> 's BlobStore \<Rightarrow> call_env \<Rightarrow> 's peer" where
  "peer_serve hexLen store e b s =
     (case handleConnection hexLen store e (s, (tcp_of [b])\<lparr>tcp_end := ErrTimeout\<rparr>) of (r, s', c) \<Rightarrow> (tcp_out c, s'))"

lemma readNextMessage_empty: "buf_bytes c = [] \<Longrightarrow> tcp_end c = ErrTimeout \<Longrightarrow> readNextMessage c = (([], Some ErrTimeout), set_buf [] c)"
  by (simp add: readNextMessage_def readMore.simps [of "[]" c] ReadBytes_def)

lemma handleConnection_idle:
  "clean c \<Longrightarrow> buf_bytes c = [] \<Longrightarrow> tcp_end c = ErrTimeout \<Longrightarrow> handleConnection hexLen store e (s, c) = (Ret (), s, set_buf [] c)"
  by (simp add: handleConnection.simps [of hexLen store e s c] clean_SetDeadline readNextMessage_empty)

lemma handleConnection_step:
  assumes "clean c" "buf_bytes c = jprint (JObj ms)" "wf_json (JObj ms)" "length (jprint (JObj ms)) \<le> 512"
    and "handleCompositeRequest hexLen store (env_l e) (jprint (JObj ms)) s = (Ret (Inr resp), s')"
  shows "handleConnection hexLen store e (s, c) = handleConnection hexLen store (env_r e) (s', (set_buf [] c)\<lparr>tcp_out := tcp_out c @ [resp]\<rparr>)"
  using assms readNextMessage_object [of ms c "[]"]
  by (simp add: handleConnection.simps [of hexLen store e s c] clean_SetDeadline clean_Write Let_def del: jprint.simps)

lemma serve_one:
  assumes "wf_json (JObj ms)" "length (jprint (JObj ms)) \<le> 512"
    and r: "handleCompositeRequest hexLen store (env_l e) (jprint (JObj ms)) s = (Ret (Inr resp), s')"
  shows "peer_serve hexLen store e (jprint (JObj ms)) s = ([resp], s')"
proof -
  let ?c = "(tcp_of [jprint (JObj ms)])\<lparr>tcp_end := ErrTimeout\<rparr>"
  have c: "clean ?c" "buf_bytes ?c = jprint (JObj ms)" by (simp_all add: clean_def tcp_of_def buf_bytes_def)
  let ?d = "(set_buf [] ?c)\<lparr>tcp_out := tcp_out ?c @ [resp]\<rparr>"
  have d: "clean ?d" "buf_bytes ?d = []" "tcp_end ?d = ErrTimeout" "tcp_out ?d = [resp]" by (simp_all add: set_buf_def buf_bytes_def tcp_of_def clean_def)
  show ?thesis
    unfolding peer_serve_def handleConnection_step [OF c assms] handleConnection_idle [OF d(1-3)] using d(4) by simp
qed

lemma on_conn_eq: "f (cl_conn c) = (a, n) \<Longrightarrow> on_conn f c = (Ret a, c\<lparr>cl_conn := n\<rparr>)"
  by (simp add: on_conn_def)

abbreviation cl_tcp :: "'n Client \<Rightarrow> tcp" where
  "cl_tcp c \<equiv> nc_tcp (cl_conn c)"

lemma Client_write_ok:
  assumes "clean (cl_tcp c)" "peer b (nc_net (cl_conn c)) = (segs, n')"
  shows "Client_write peer b c =
    (Ret None, c\<lparr>cl_conn := \<lparr>nc_tcp = (cl_tcp c)\<lparr>tcp_out := tcp_out (cl_tcp c) @ [b], tcp_in := tcp_in (cl_tcp c) @ segs\<rparr>, nc_net = n'\<rparr>\<rparr>)"
  using assms by (simp add: Client_write_def bnd_def ret_def on_conn_def on_tcp_def clean_SetDeadline net_Write_def clean_Write)

lemma Client_read_ok:
  assumes "clean (cl_tcp c)" "wf_json (JObj ms)" "length (jprint (JObj ms)) \<le> 512" "buf_bytes (cl_tcp c) = jprint (JObj ms) @ rest" "dec (JObj ms) = Some v"
  shows "Client_read dec c = (Ret (Inr v), c\<lparr>cl_conn := (cl_conn c)\<lparr>nc_tcp := set_buf rest (cl_tcp c)\<rparr>\<rparr>)"
  using assms(1,5) readNextMessage_object [OF assms(2-4)] json_unmarshal_print [OF assms(2)]
  by (simp add: Client_read_def bnd_def ret_def on_conn_def on_tcp_def clean_SetDeadline del: jprint.simps)


lemma lower_upper [simp]: "lower (CHR ''R'') = CHR ''r''" "lower (CHR ''T'') = CHR ''t''"
  by code_simp+

lemma dec_composite_get: "dec_composite (JObj [(''requested_blob'', JStr h)]) = Some \<lparr>RequestedBlobs = [], RateBelowZero = False, RequestedBlob = h\<rparr>"
  by (simp add: dec_field_def jvals_def)

lemma dec_composite_has: "dec_composite (JObj [(''lbrycrd_address'', JBool x), (''requested_blobs'', enc_strs hs)])
    = Some \<lparr>RequestedBlobs = hs, RateBelowZero = False, RequestedBlob = []\<rparr>"
  using dec_list_map [of hs dec_str_elem JStr] by (simp add: dec_field_def jvals_def enc_strs_def)

lemma dec_enc_incoming:
  assumes "int64 (ib_Length b)" "enc_incoming b = JObj xs"
  shows "dec_incoming xs = Some b"
  using assms by (cases b) (auto simp: enc_incoming_def dec_incoming_def dec_field_def jvals_def json_int_text int64_def)

lemma dec_response:
  assumes "int64 (ib_Length b)" "enc_composite hs rate b = JObj ms"
  shows "dec_blob_response (JObj ms) = Some (b, None)" "dec_available (JObj ms) = Some hs"
proof -
  obtain xs where xs: "enc_incoming b = JObj xs" by (simp add: enc_incoming_def)
  have ms: "ms = [(''lbrycrd_address'', JStr LbrycrdAddress)] @ (if hs = [] then [] else [(''available_blobs'', enc_strs hs)])
      @ [(''blob_data_payment_rate'', JStr rate), (''incoming_blob'', JObj xs)]"
    using assms(2) by (simp add: enc_composite_def xs)
  have "jvals ''incoming_blob'' ms = [JObj xs]" "jvals ''RequestTrace'' ms = []" "jvals ''lbrycrd_address'' ms = [JStr LbrycrdAddress]"
    "jvals ''available_blobs'' ms = (if hs = [] then [] else [enc_strs hs])"
    by (auto simp: ms jvals_def enc_strs_def)
  then show "dec_blob_response (JObj ms) = Some (b, None)" "dec_available (JObj ms) = Some hs"
    using dec_enc_incoming [OF assms(1) xs] dec_list_map [of hs dec_str_elem JStr]
    by (simp_all add: sub_members_def dec_field_def enc_strs_def)
qed

lemma starts_with_self: "starts_with s s"
  by (induction s) auto

lemma contains_self: "strings_Contains s s"
  by (cases s) (auto simp: starts_with_self)

lemma strings_Contains_append: "strings_Contains b s \<Longrightarrow> strings_Contains (a @ b) s"
  by (induction a) auto

lemma not_found_text: "not_found x \<Longrightarrow> strings_Contains (Error x) ''blob not found''"
proof (induction x)
  case ErrBlobNotFound
  show ?case using contains_self [of "''blob not found''"] by simp
next
  case (Prefix p x)
  then show ?case using strings_Contains_append [of "Error x" _ "p @ '': ''"] by simp
qed simp_all


lemma nat_text_length: "0 < k \<Longrightarrow> n < 10 ^ k \<Longrightarrow> length (nat_text n) \<le> k"
proof (induction k arbitrary: n)
  case (Suc k)
  show ?case
  proof (cases "n < 10")
    case True
    then show ?thesis by (simp add: nat_text.simps [of n])
  next
    case False
    with Suc.prems have "0 < k" by (cases k) auto
    moreover have "n div 10 < 10 ^ k" using Suc.prems by (simp add: div_less_iff_less_mult mult.commute)
    ultimately have "length (nat_text (n div 10)) \<le> k" by (rule Suc.IH)
    with False show ?thesis by (simp add: nat_text.simps [of n])
  qed
qed simp

lemma print_consts:
  "length (print_str ''lbrycrd_address'') = 17" "length (print_str LbrycrdAddress) = 36" "length (print_str ''available_blobs'') = 17"
  "length (print_str ''blob_data_payment_rate'') = 24" "length (print_str paymentRateAccepted) = 15" "length (print_str ''incoming_blob'') = 15"
  "length (print_str ''error'') = 7" "length (print_str ''blob_hash'') = 11" "length (print_str ''length'') = 8" "length (print_str []) = 2"
  "length (print_str ''requested_blob'') = 16" "length (print_str ''requested_blobs'') = 17" "length (print_str ''blob not found'') = 16"
  by code_simp+

lemma print_hash_length: "valid_hash h \<Longrightarrow> length (print_str h) = 98"
  by (simp add: print_valid_hash) (simp add: valid_hash_def)

lemma response_short:
  assumes "hs = [] \<or> hs = [h]" "valid_hash h" "b = no_incoming \<or> b = no_incoming\<lparr>ib_Error := ''blob not found''\<rparr>
     \<or> (\<exists>g n. valid_hash g \<and> n < 10 ^ 15 \<and> b = no_incoming\<lparr>ib_BlobHash := g, ib_Length := int n\<rparr>)"
  shows "length (jprint (enc_composite hs paymentRateAccepted b)) \<le> 512"
proof -
  have "length (jprint (enc_incoming b)) \<le> 160"
    using assms(3)
  proof (elim disjE exE conjE)
    fix g n
    assume "valid_hash g" "n < (10::nat) ^ 15" and b: "b = no_incoming\<lparr>ib_BlobHash := g, ib_Length := int n\<rparr>"
    with nat_text_length [of 15 n] show ?thesis
      by (simp add: b enc_incoming_def no_incoming_def int_text_def print_consts print_hash_length)
  qed (simp_all add: enc_incoming_def no_incoming_def int_text_def print_consts nat_text.simps)
  moreover have "length (jprint (enc_strs hs)) \<le> 100" using assms(1,2) by (auto simp: enc_strs_def print_hash_length)
  ultimately show ?thesis by (simp add: enc_composite_def print_consts)
qed

lemma enc_composite_wf: "wf_json (enc_composite hs rate b)"
  by (auto simp: enc_composite_def enc_incoming_def enc_strs_def)


text \<open>What the peer protocol needs of the store behind the server to pass it on faithfully.\<close>

locale peer_pair = ro_store st inv content vh
  for st :: "'s BlobStore" and inv content vh +
  fixes srv :: call_env
  assumes vh_valid: "vh h \<Longrightarrow> valid_hash h"
    and addressed: "inv s \<Longrightarrow> vh h \<Longrightarrow> content s h = Some b \<Longrightarrow> BlobHash b = h \<and> b \<noteq> [] \<and> length b \<le> 2 ^ 48"
    and miss_error: "inv s \<Longrightarrow> vh h \<Longrightarrow> content s h = None \<Longrightarrow> bs_Get st e h s = (Ret (b, tr, x), s') \<Longrightarrow> x = Some ErrBlobNotFound"
begin

abbreviation "the_peer \<equiv> peer_serve 96 st srv"

abbreviation new_client :: "'s \<Rightarrow> 's Client" where
  "new_client s \<equiv> \<lparr>cl_connected = True, cl_conn = \<lparr>nc_tcp = tcp_of [], nc_net = s\<rparr>\<rparr>"

lemma request_shorts:
  assumes "vh h"
  shows "length (jprint (JObj [(''requested_blob'', JStr h)])) \<le> 512"
    "length (jprint (JObj [(''lbrycrd_address'', JBool False), (''requested_blobs'', enc_strs [h])])) \<le> 512"
  using print_hash_length [OF vh_valid [OF assms]] by (simp_all add: print_consts enc_strs_def)

text \<open>A client that has written a request and got the answer \<open>m\<close> followed by \<open>rest\<close>.\<close>

lemma ask:
  assumes m: "wf_json (JObj ms)" "length (jprint (JObj ms)) \<le> 512"
    and r: "handleCompositeRequest 96 st (env_l srv) (jprint (JObj ms)) s = (Ret (Inr (jprint (enc_composite hs paymentRateAccepted b) @ rest)), s')"
    and short: "length (jprint (enc_composite hs paymentRateAccepted b)) \<le> 512"
    and dec: "dec (enc_composite hs paymentRateAccepted b) = Some v"
  shows "\<exists>c. bnd (Client_write the_peer (jprint (JObj ms))) (\<lambda>err. if err \<noteq> None then F err else bnd (Client_read dec) G) (new_client s) = G (Inr v) c
     \<and> clean (cl_tcp c) \<and> buf_bytes (cl_tcp c) = rest \<and> nc_net (cl_conn c) = s' \<and> tcp_end (cl_tcp c) = EOF"
proof -
  obtain xs where xs: "enc_composite hs paymentRateAccepted b = JObj xs" by (simp add: enc_composite_def)
  let ?t = "(tcp_of [])\<lparr>tcp_out := [jprint (JObj ms)], tcp_in := [jprint (JObj xs) @ rest]\<rparr>"
  let ?c = "\<lparr>cl_connected = True, cl_conn = \<lparr>nc_tcp = ?t, nc_net = s'\<rparr>\<rparr>"
  have "Client_write the_peer (jprint (JObj ms)) (new_client s) = (Ret None, ?c)"
    using serve_one [OF m r] xs by (subst Client_write_ok) (simp_all add: tcp_of_def clean_def)
  moreover have "Client_read dec ?c = (Ret (Inr v), ?c\<lparr>cl_conn := (cl_conn ?c)\<lparr>nc_tcp := set_buf rest ?t\<rparr>\<rparr>)"
    using short dec enc_composite_wf [of hs paymentRateAccepted b] unfolding xs
    by (subst Client_read_ok [where ms = xs and rest = rest and v = v]) (simp_all add: clean_def tcp_of_def buf_bytes_def)
  ultimately show ?thesis
    by (intro exI [of _ "?c\<lparr>cl_conn := (cl_conn ?c)\<lparr>nc_tcp := set_buf rest ?t\<rparr>\<rparr>"]) (simp add: bnd_def tcp_of_def clean_def)
qed

lemma served_Has:
  assumes s: "inv s" and h: "vh h"
  shows "\<exists>s'. Client_HasBlob the_peer h (new_client s) = (Ret (content s h \<noteq> None, None), s') \<and> inv (nc_net (cl_conn s')) \<and> content (nc_net (cl_conn s')) = content s"
proof -
  let ?q = "[(''lbrycrd_address'', JBool False), (''requested_blobs'', enc_strs [h])]"
  from Has_spec [OF s h] obtain s' where s': "bs_Has st h s = (Ret (content s h \<noteq> None, None), s')" "inv s'" "content s' = content s" by blast
  let ?hs = "if content s h = None then [] else [h]"
  have u: "wf_json (JObj ?q)" by (simp add: enc_strs_def)
  have "handleCompositeRequest 96 st (env_l srv) (jprint (JObj ?q)) s = (Ret (Inr (jprint (enc_composite ?hs paymentRateAccepted no_incoming) @ [])), s')"
    using s'(1) json_unmarshal_print [OF u] dec_composite_has [of False "[h]"]
    by (simp add: handleCompositeRequest_def bnd_def ret_def del: jprint.simps dec_composite.simps)
  moreover have "length (jprint (enc_composite ?hs paymentRateAccepted no_incoming)) \<le> 512" using vh_valid [OF h] by (intro response_short) auto
  moreover obtain xs where xs: "enc_composite ?hs paymentRateAccepted no_incoming = JObj xs" by (simp add: enc_composite_def)
  then have "dec_available (enc_composite ?hs paymentRateAccepted no_incoming) = Some ?hs"
    using dec_response(2) [of no_incoming ?hs paymentRateAccepted xs] by (simp add: no_incoming_def int64_def del: dec_available.simps)
  ultimately obtain c where c: "Client_HasBlob the_peer h (new_client s) = (Ret (list_ex (\<lambda>g. g = h) ?hs, None), c)" "nc_net (cl_conn c) = s'"
    using ask [OF u request_shorts(2) [OF h], of s ?hs no_incoming "[]" s' dec_available ?hs "\<lambda>err. ret (False, err)"
        "\<lambda>r. case r of Inl err \<Rightarrow> ret (False, Some err) | Inr available \<Rightarrow> ret (list_ex (\<lambda>g. g = h) available, None)"]
    by (auto simp: Client_HasBlob_def get_st_def bnd_def ret_def simp del: jprint.simps)
  with s' show ?thesis by (cases "content s h = None") auto
qed

lemma served_Get:
  assumes s: "inv s" and h: "vh h"
  shows "\<exists>tr x c. Client_GetBlob the_peer e h (new_client s) = (Ret (case content s h of Some b \<Rightarrow> b | None \<Rightarrow> [], tr, x), c)
     \<and> inv (nc_net (cl_conn c)) \<and> content (nc_net (cl_conn c)) = content s
     \<and> x = (case content s h of Some b \<Rightarrow> None | None \<Rightarrow> Some (Prefix (take 8 h) (Msg ''blob not found'')))"
proof -
  let ?q = "[(''requested_blob'', JStr h)]"
  have len: "length h = 96" "h \<noteq> []" using vh_valid [OF h] by (auto simp: valid_hash_def)
  have u: "wf_json (JObj ?q)" by simp
  note q = json_unmarshal_print [OF u] dec_composite_get [of h]
  have dec: "dec_blob_response (enc_composite [] paymentRateAccepted b) = Some (b, None)" if "int64 (ib_Length b)" for b
    using dec_response(1) [OF that, of "[]" paymentRateAccepted] by (simp add: enc_composite_def del: dec_blob_response.simps)
  have unf: "Client_GetBlob the_peer e h (new_client s) =
      bnd (Client_write the_peer (jprint (JObj ?q))) (\<lambda>err. if err \<noteq> None then ret ([], NewBlobTrace (env_l e) ''tcp'', err)
        else bnd (Client_read dec_blob_response) (\<lambda>r. case r of Inl err \<Rightarrow> ret ([], NewBlobTrace (env_l e) ''tcp'', Some err) | Inr resp \<Rightarrow> GetBlob_reply e h resp))
        (new_client s)"
    unfolding Client_GetBlob_def Let_def by (subst bnd_Ret [where s' = "new_client s" and a = "new_client s"]) (simp_all add: get_st_def)
  have got: "\<exists>c. Client_GetBlob the_peer e h (new_client s) = GetBlob_reply e h (b, None) c
        \<and> clean (cl_tcp c) \<and> buf_bytes (cl_tcp c) = rest \<and> nc_net (cl_conn c) = s'"
    if "handleCompositeRequest 96 st (env_l srv) (jprint (JObj ?q)) s = (Ret (Inr (jprint (enc_composite [] paymentRateAccepted b) @ rest)), s')"
      "length (jprint (enc_composite [] paymentRateAccepted b)) \<le> 512" "dec_blob_response (enc_composite [] paymentRateAccepted b) = Some (b, None)" for b rest s'
    using ask [OF u request_shorts(1) [OF h] that(1,2), where dec = dec_blob_response and v = "(b, None)" and F = "\<lambda>err. ret ([], NewBlobTrace (env_l e) ''tcp'', err)"
        and G = "\<lambda>r. case r of Inl err \<Rightarrow> ret ([], NewBlobTrace (env_l e) ''tcp'', Some err) | Inr resp \<Rightarrow> GetBlob_reply e h resp"] that(3)
    unfolding unf by fastforce
  show ?thesis
  proof (cases "content s h")
    case None
    from Get_miss [OF s h None, of "env_l srv"] obtain tr x s' where
      g: "bs_Get st (env_l srv) h s = (Ret ([], tr, Some x), s')" "inv s'" "content s' = content s" by blast
    then have x: "x = ErrBlobNotFound" using miss_error [OF s h None] by blast
    let ?b = "no_incoming\<lparr>ib_Error := ''blob not found''\<rparr>"
    have "handleCompositeRequest 96 st (env_l srv) (jprint (JObj ?q)) s = (Ret (Inr (jprint (enc_composite [] paymentRateAccepted ?b) @ [])), s')"
      using g q len x by (simp add: handleCompositeRequest_def bnd_def ret_def del: jprint.simps dec_composite.simps)
    moreover have "length (jprint (enc_composite [] paymentRateAccepted ?b)) \<le> 512" using vh_valid [OF h] by (intro response_short) auto
    moreover have "dec_blob_response (enc_composite [] paymentRateAccepted ?b) = Some (?b, None)" by (rule dec) (simp add: no_incoming_def int64_def)
    ultimately obtain c where "Client_GetBlob the_peer e h (new_client s) = GetBlob_reply e h (?b, None) c" "nc_net (cl_conn c) = s'"
      using got by blast
    with g(2,3) None len show ?thesis by (simp add: GetBlob_reply_def ret_def no_incoming_def)
  next
    case (Some b)
    from Get_hit [OF s h Some, of "env_l srv"] obtain tr s' where
      g: "bs_Get st (env_l srv) h s = (Ret (b, tr, None), s')" "inv s'" "content s' = content s" by blast
    have b: "BlobHash b = h" "b \<noteq> []" "length b \<le> 2 ^ 48" using addressed [OF s h Some] by auto
    let ?b = "no_incoming\<lparr>ib_BlobHash := h, ib_Length := int (length b)\<rparr>"
    have "handleCompositeRequest 96 st (env_l srv) (jprint (JObj ?q)) s = (Ret (Inr (jprint (enc_composite [] paymentRateAccepted ?b) @ b)), s')"
      using g q len b(1) by (simp add: handleCompositeRequest_def bnd_def ret_def del: jprint.simps dec_composite.simps)
    moreover have "length (jprint (enc_composite [] paymentRateAccepted ?b)) \<le> 512"
      using vh_valid [OF h] b(3) by (intro response_short [where h = h]) (auto intro!: exI [of _ h] exI [of _ "length b"])
    moreover have "dec_blob_response (enc_composite [] paymentRateAccepted ?b) = Some (?b, None)" using b(3) by (intro dec) (simp add: int64_def)
    ultimately obtain c where c: "Client_GetBlob the_peer e h (new_client s) = GetBlob_reply e h (?b, None) c"
        "nc_net (cl_conn c) = s'" "clean (cl_tcp c)" "buf_bytes (cl_tcp c) = b"
      using got by blast
    then have "Client_readRawBlob (int (length b)) c = (Ret (b, None), c\<lparr>cl_conn := (cl_conn c)\<lparr>nc_tcp := set_buf [] (cl_tcp c)\<rparr>\<rparr>)"
      using b(3) by (simp add: Client_readRawBlob_def make_bytes_def bnd_def ret_def on_conn_def on_tcp_def clean_SetDeadline buf_ReadFull_def)
    then have "\<exists>tr c'. GetBlob_reply e h (?b, None) c = (Ret (b, tr, None), c') \<and> nc_net (cl_conn c') = s'"
      using b(2) len c(2) by (simp add: GetBlob_reply_def ret_def no_incoming_def)
    with c(1) have "\<exists>tr c'. Client_GetBlob the_peer e h (new_client s) = (Ret (b, tr, None), c') \<and> nc_net (cl_conn c') = s'" by simp
    with g Some show ?thesis by auto
  qed
qed

end


lemma with_client_ok:
  "m \<lparr>cl_connected = True, cl_conn = \<lparr>nc_tcp = tcp_of [], nc_net = n\<rparr>\<rparr> = (r, c) \<Longrightarrow> with_client (\<lambda>_. Inr (tcp_of [])) f m n = (r, nc_net (cl_conn c))"
  by (simp add: with_client_def peer_getClient_def)

lemma prefixed_not_found: "strings_Contains (p @ '': '' @ ''blob not found'') ''blob not found''"
  using contains_self strings_Contains_append by blast

text \<open>A store that reads from a peer is the peer's store, read-only.\<close>

sublocale peer_pair \<subseteq> over_peer: ro_store "peer_Store (\<lambda>_. Inr (tcp_of [])) (peer_serve 96 st srv)" inv content vh
proof unfold_locales
  fix s h e b
  assume s: "inv s" and h: "vh h"
  show "\<exists>s'. bs_Has (peer_Store (\<lambda>_. Inr (tcp_of [])) the_peer) h s = (Ret (content s h \<noteq> None, None), s') \<and> inv s' \<and> content s' = content s"
    using served_Has [OF s h] by (auto simp: peer_Store_def peer_Store_Has_def dest: with_client_ok)
  note g = served_Get [OF s h, of "env_l e"]
  show "\<exists>tr s'. bs_Get (peer_Store (\<lambda>_. Inr (tcp_of [])) the_peer) e h s = (Ret (b, tr, None), s') \<and> inv s' \<and> content s' = content s"
    if "content s h = Some b"
  proof -
    from g that obtain tr c where "Client_GetBlob the_peer (env_l e) h (new_client s) = (Ret (b, tr, None), c)"
      and "inv (nc_net (cl_conn c))" "content (nc_net (cl_conn c)) = content s" by auto
    then show ?thesis
      unfolding peer_Store_def peer_Store_Get_def by (subst BlobStore.select_convs, subst with_client_ok) (auto simp: ret_def)
  qed
  show "\<exists>tr x s'. bs_Get (peer_Store (\<lambda>_. Inr (tcp_of [])) the_peer) e h s = (Ret ([], tr, Some x), s') \<and> not_found x \<and> inv s' \<and> content s' = content s"
    if "content s h = None"
  proof -
    from g that obtain tr c where "Client_GetBlob the_peer (env_l e) h (new_client s) = (Ret ([], tr, Some (Prefix (take 8 h) (Msg ''blob not found''))), c)"
      and "inv (nc_net (cl_conn c))" "content (nc_net (cl_conn c)) = content s" by auto
    then show ?thesis
      unfolding peer_Store_def peer_Store_Get_def using prefixed_not_found [of "take 8 h"]
      by (subst BlobStore.select_convs, subst with_client_ok) (auto simp: ret_def)
  qed
qed

definition sized_disk :: "DiskStore \<Rightarrow> bool" where
  "sized_disk d \<longleftrightarrow> disk_inv d \<and> (\<forall>h b. disk_content d h = Some b \<longrightarrow> b \<noteq> [] \<and> length b \<le> 2 ^ 48)"

interpretation disk_peer: peer_pair "DiskStore_ops dio" sized_disk disk_content valid_hash srv for dio srv
proof unfold_locales
  fix d h e b
  assume "sized_disk d" and h: "valid_hash h"
  then have d: "disk_inv d" and sz: "\<forall>h b. disk_content d h = Some b \<longrightarrow> b \<noteq> [] \<and> length b \<le> 2 ^ 48" by (auto simp: sized_disk_def)
  show "\<exists>d'. bs_Has (DiskStore_ops dio) h d = (Ret (disk_content d h \<noteq> None, None), d') \<and> sized_disk d' \<and> disk_content d' = disk_content d"
    using disk.Has_spec [OF d h, of dio] sz by (auto simp: sized_disk_def)
  show "\<exists>tr d'. bs_Get (DiskStore_ops dio) e h d = (Ret (b, tr, None), d') \<and> sized_disk d' \<and> disk_content d' = disk_content d"
    if "disk_content d h = Some b"
    using disk.Get_hit [OF d h that, of dio e] sz by (auto simp: sized_disk_def)
  show "\<exists>tr x d'. bs_Get (DiskStore_ops dio) e h d = (Ret ([], tr, Some x), d') \<and> not_found x \<and> sized_disk d' \<and> disk_content d' = disk_content d"
    if "disk_content d h = None"
    using disk.Get_miss [OF d h that, of dio e] sz by (auto simp: sized_disk_def)
  show "BlobHash b = h \<and> b \<noteq> [] \<and> length b \<le> 2 ^ 48" if "disk_content d h = Some b"
    using d sz that by (auto simp: disk_inv_def)
  fix tr x d'
  show "x = Some ErrBlobNotFound" if "disk_content d h = None" "bs_Get (DiskStore_ops dio) e h d = (Ret (b, tr, x), d')"
    using disk_Get_ok [OF d h, of e] that by (auto simp: DiskStore_ops_def)
qed simp

text \<open>
  C18. Reading from a peer is reading the peer's store: for a disk store of non-empty blobs behind the peer server, a client's \<open>Has\<close> and \<open>Get\<close> through
  the wire format, the framing and the two decoders answer exactly what the disk holds, the blob's bytes included; a missing blob is
  \<open>ErrBlobNotFound\<close>.
\<close>

theorem peer_Store_end_to_end:
  assumes "sized_disk d" "valid_hash h"
  shows "(\<exists>d'. bs_Has (peer_Store (\<lambda>_. Inr (tcp_of [])) (peer_serve 96 (DiskStore_ops dio) srv)) h d = (Ret (disk_content d h \<noteq> None, None), d')
        \<and> disk_content d' = disk_content d)
     \<and> (\<exists>b tr x d'. bs_Get (peer_Store (\<lambda>_. Inr (tcp_of [])) (peer_serve 96 (DiskStore_ops dio) srv)) e h d = (Ret (b, tr, x), d')
        \<and> disk_content d' = disk_content d \<and> (case disk_content d h of Some b' \<Rightarrow> b = b' \<and> x = None | None \<Rightarrow> b = [] \<and> err_not_found x))"
  using disk_peer.over_peer.Has_spec [OF assms, of dio srv] disk_peer.over_peer.Get_hit [OF assms, of _ dio srv e]
    disk_peer.over_peer.Get_miss [OF assms, of dio srv e]
  by (cases "disk_content d h") (simp_all, blast+)


lemma one_blob_sized: "sized_disk one_blob_disk"
  by (simp add: sized_disk_def one_blob_inv one_blob_content)

theorem peer_Store_end_to_end_witness:
  "\<exists>tr d'. bs_Get (peer_Store (\<lambda>_. Inr (tcp_of [])) (peer_serve 96 (DiskStore_ops (\<lambda>_. 0)) env0)) env0 (BlobHash ''x'') one_blob_disk = (Ret (''x'', tr, None), d')"
  using peer_Store_end_to_end [OF one_blob_sized BlobHash_valid, of "\<lambda>_. 0" env0 "''x''" env0] by (auto simp: one_blob_content)

section \<open>A blob that ends early\<close>

text \<open>
  A peer can crash its client: when the bytes of a blob end before the announced length and the response had no \<open>RequestTrace\<close> (the server never
  sends one), \<open>GetBlob\<close> dereferences the nil trace instead of returning the read error.
\<close>

theorem GetBlob_short_blob_panics:
  assumes "cl_connected c" "clean (cl_tcp c)" "tcp_in (cl_tcp c) = []" "valid_hash h"
    and "0 < n" "n \<le> 2 ^ 48" "length data < n"
    and "peer (jprint (JObj [(''requested_blob'', JStr h)])) (nc_net (cl_conn c))
       = ([jprint (enc_composite [] paymentRateAccepted (no_incoming\<lparr>ib_BlobHash := h, ib_Length := int n\<rparr>)) @ data], net)"
  shows "\<exists>c'. Client_GetBlob peer e h c = (Panic ''invalid memory address or nil pointer dereference'', c')"
proof -
  let ?b = "no_incoming\<lparr>ib_BlobHash := h, ib_Length := int n\<rparr>"
  let ?q = "jprint (JObj [(''requested_blob'', JStr h)])"
  obtain xs where xs: "enc_composite [] paymentRateAccepted ?b = JObj xs" by (simp add: enc_composite_def)
  let ?t = "(cl_tcp c)\<lparr>tcp_out := tcp_out (cl_tcp c) @ [?q], tcp_in := [jprint (JObj xs) @ data]\<rparr>"
  let ?c = "c\<lparr>cl_conn := \<lparr>nc_tcp = ?t, nc_net = net\<rparr>\<rparr>"
  have w: "Client_write peer ?q c = (Ret None, ?c)" using assms(2,3,8) xs by (subst Client_write_ok) (simp_all del: jprint.simps)
  have "length (jprint (enc_composite [] paymentRateAccepted ?b)) \<le> 512"
    using assms(4,6) by (intro response_short [where h = h]) (auto intro!: exI [of _ h] exI [of _ n])
  then have r: "Client_read dec_blob_response ?c = (Ret (Inr (?b, None)), ?c\<lparr>cl_conn := (cl_conn ?c)\<lparr>nc_tcp := set_buf data ?t\<rparr>\<rparr>)"
    using assms(2,6) dec_response(1) [OF _ xs] enc_composite_wf [of "[]" paymentRateAccepted ?b] unfolding xs
    by (subst Client_read_ok [where ms = xs and rest = data and v = "(?b, None)"]) (simp_all add: buf_bytes_def int64_def del: jprint.simps dec_blob_response.simps)
  let ?d = "?c\<lparr>cl_conn := (cl_conn ?c)\<lparr>nc_tcp := set_buf data ?t\<rparr>\<rparr>"
  have "clean (cl_tcp ?d)" "buf_bytes (cl_tcp ?d) = data" using assms(2) by simp_all
  then have "\<exists>b err d'. Client_readRawBlob (int n) ?d = (Ret (b, Some err), d')"
    using assms(6,7) by (simp add: Client_readRawBlob_def make_bytes_def bnd_def ret_def on_conn_def on_tcp_def clean_SetDeadline buf_ReadFull_def)
  moreover have "length h = 96" using assms(4) by (simp add: valid_hash_def)
  ultimately have "\<exists>c'. GetBlob_reply e h (?b, None) ?d = (Panic ''invalid memory address or nil pointer dereference'', c')"
    using assms(5) by (auto simp: GetBlob_reply_def ret_def no_incoming_def panic_def bnd_def)
  then show ?thesis using w r assms(1) by (simp add: Client_GetBlob_def Let_def get_st_def del: jprint.simps)
qed


theorem GetBlob_short_blob_panics_witness:
  "\<exists>c'. Client_GetBlob (\<lambda>b n. ([jprint (enc_composite [] paymentRateAccepted (no_incoming\<lparr>ib_BlobHash := BlobHash [], ib_Length := int 2\<rparr>)) @ ''x''], n)) env0 (BlobHash [])
      \<lparr>cl_connected = True, cl_conn = \<lparr>nc_tcp = tcp_of [], nc_net = ()\<rparr>\<rparr> = (Panic ''invalid memory address or nil pointer dereference'', c')"
  by (rule GetBlob_short_blob_panics [where n = 2 and data = "''x''" and net = "()"]) (simp_all add: tcp_of_def clean_def del: jprint.simps)

end
