(* ===== verification/Reflector_Upload.thy ===== *)
theory Reflector_Upload
  imports Reflector_Correct Peer_Correct
begin

text \<open>
  An upload between the client and the server of the code. Each side is run on what the other one sends: the server on the messages of the client (the blob
  cut into segments in any way) answers with the messages on which the client, in turn, sends just those and reports success.
\<close>

section \<open>Messages\<close>

lemma Decode_message:
  assumes "wf_json (JObj ms)" "length (jprint (JObj ms)) \<le> 512" "dec_buf d = []" "512 \<le> dec_room d" "tcp_in c = jprint (JObj ms) # r"
  shows "Decoder_Decode d c = (Inr (JObj ms), \<lparr>dec_buf = [], dec_cap = dec_room d\<rparr>, c\<lparr>tcp_in := r\<rparr>)"
proof -
  have "Decoder_Decode d c = Decoder_Decode \<lparr>dec_buf = jprint (JObj ms), dec_cap = dec_room d\<rparr> (c\<lparr>tcp_in := r\<rparr>)"
    using assms by (subst Decode_step [where seg = "jprint (JObj ms)" and r = r]) (auto simp: decode_buf_Nil simp del: jprint.simps)
  also have "\<dots> = (Inr (JObj ms), \<lparr>dec_buf = [], dec_cap = dec_room d\<rparr>, c\<lparr>tcp_in := r\<rparr>)"
    using decode_buf_object [OF assms(1), of "[]"] by (subst Decoder_Decode.simps) (simp add: num_end_def del: jprint.simps)
  finally show ?thesis .
qed

lemma NewDecoder_room: "dec_buf NewDecoder = []" "dec_room NewDecoder = 512"
  by (simp_all add: NewDecoder_def dec_room_def)

lemma Server_read_message:
  assumes "clean c" "wf_json (JObj ms)" "length (jprint (JObj ms)) \<le> 512" "tcp_in c = jprint (JObj ms) # r" "dec (JObj ms) = Some a"
  shows "Server_read dec c = (Ret (Inr a), c\<lparr>tcp_in := r\<rparr>)"
  using assms(1,5) Decode_message [OF assms(2,3) NewDecoder_room(1) _ assms(4)] NewDecoder_room(2)
  by (simp add: Server_read_def bnd_def io_def clean_SetDeadline)

lemma Server_write_clean: "clean c \<Longrightarrow> Server_write b c = (Ret None, c\<lparr>tcp_out := tcp_out c @ [b]\<rparr>)"
  by (simp add: Server_write_def bnd_def io_def clean_SetDeadline clean_Write ret_def)

lemma new_ReadFull_segments:
  "concat segs = b \<Longrightarrow> [] \<notin> set segs \<Longrightarrow> tcp_in c = segs @ r \<Longrightarrow> new_ReadFull (length b) got c = ((got @ b, None), c\<lparr>tcp_in := r\<rparr>)"
proof (induction segs arbitrary: b got c)
  case Nil
  then show ?case by (simp add: new_ReadFull.simps)
next
  case (Cons seg segs)
  let ?n = "length b" and ?k = "if 4096 \<le> length b then length b else 4096"
  have b: "b = seg @ concat segs" "seg \<noteq> []" "tcp_in c = seg # segs @ r" using Cons.prems by auto
  have k: "length seg \<le> ?k" using b by auto
  have eq: "new_ReadFull ?n got c = (if ?n \<le> length seg then ((got @ take ?n seg, None), c\<lparr>tcp_in := segs @ r\<rparr>)
      else new_ReadFull (?n - length seg) (got @ seg) (c\<lparr>tcp_in := segs @ r\<rparr>))"
    using b k by (subst new_ReadFull.simps) (simp add: Let_def)
  show ?case
  proof (cases "?n \<le> length seg")
    case True
    with b Cons.prems have "segs = []" "seg = b" by (cases segs; auto)+
    with eq True show ?thesis by simp
  next
    case False
    have "new_ReadFull (length (concat segs)) (got @ seg) (c\<lparr>tcp_in := segs @ r\<rparr>) = (((got @ seg) @ concat segs, None), c\<lparr>tcp_in := segs @ r, tcp_in := r\<rparr>)"
      using Cons.prems by (intro Cons.IH) auto
    moreover have "?n - length seg = length (concat segs)" by (simp add: b(1))
    moreover have "new_ReadFull ?n got c = new_ReadFull (?n - length seg) (got @ seg) (c\<lparr>tcp_in := segs @ r\<rparr>)" using eq False by (simp only: if_False)
    ultimately show ?thesis using b(1) by simp
  qed
qed

definition upload_request :: "bool \<Rightarrow> string \<Rightarrow> nat \<Rightarrow> sendBlobRequest" where
  "upload_request sd h n =
     (if sd then \<lparr>sr_BlobHash = [], sr_BlobSize = 0, sr_SdBlobHash = h, sr_SdBlobSize = int n\<rparr>
      else \<lparr>sr_BlobHash = h, sr_BlobSize = int n, sr_SdBlobHash = [], sr_SdBlobSize = 0\<rparr>)"

lemma upload_request_json:
  assumes "valid_hash h" "0 < n" "n < 10 ^ 15"
  obtains ms where "enc_send (upload_request sd h n) = JObj ms" "wf_json (JObj ms)" "length (jprint (JObj ms)) \<le> 512"
    "dec_send (JObj ms) = Some (upload_request sd h n)"
proof -
  have h: "h \<noteq> []" using assms(1) by (auto simp: valid_hash_def)
  have i: "json_int (int_text (int n)) = Some (int n)" using assms(3) by (intro json_int_text) auto
  have len: "length (int_text (int n)) \<le> 15" using nat_text_length [OF _ assms(3)] by (simp add: int_text_def)
  have c: "length (print_str ''blob_size'') = 11" "length (print_str ''sd_blob_hash'') = 14" "length (print_str ''sd_blob_size'') = 14" by code_simp+
  let ?ms = "if sd then [(''sd_blob_hash'', JStr h), (''sd_blob_size'', JNum (int_text (int n)))] else [(''blob_hash'', JStr h), (''blob_size'', JNum (int_text (int n)))]"
  show thesis
  proof (rule that [of ?ms])
    show "enc_send (upload_request sd h n) = JObj ?ms" using h assms(2) by (auto simp: enc_send_def upload_request_def)
    show "length (jprint (JObj ?ms)) \<le> 512" using len by (simp add: print_consts c print_hash_length [OF assms(1)])
    show "dec_send (JObj ?ms) = Some (upload_request sd h n)" using i by (auto simp: upload_request_def dec_field_def jvals_def)
  qed auto
qed

definition flag_msg :: "string \<Rightarrow> bool \<Rightarrow> bytes" where
  "flag_msg name b = jprint (JObj [(name, JBool b)])"

definition hello :: bytes where
  "hello = jprint (enc_handshake protocolVersion1)"

lemma hello_facts: "length hello \<le> 512" "dec_handshake (enc_handshake 0) = Some (Some 0)" "wf_json (enc_handshake 0)"
proof -
  show "length hello \<le> 512" by code_simp
  show "dec_handshake (enc_handshake 0) = Some (Some 0)" by code_simp
  show "wf_json (enc_handshake 0)" by (auto simp: enc_handshake_def)
qed

section \<open>The server's side\<close>

definition plain_reflector :: "'s BlobStore \<Rightarrow> 's reflector" where
  "plain_reflector st = \<lparr>underlyingStore = st, asBlocklister = None, asNeededBlobChecker = None, outerStore = st\<rparr>"

abbreviation send_name :: "bool \<Rightarrow> string" where "send_name sd \<equiv> if sd then ''send_sd_blob'' else ''send_blob''"
abbreviation received_name :: "bool \<Rightarrow> string" where "received_name sd \<equiv> if sd then ''received_sd_blob'' else ''received_blob''"

lemma doHandshake_hello:
  assumes "clean c" "tcp_in c = hello # r"
  shows "Server_doHandshake c = (Ret None, c\<lparr>tcp_in := r, tcp_out := tcp_out c @ [hello]\<rparr>)"
proof -
  have "Server_read dec_handshake c = (Ret (Inr (Some 0)), c\<lparr>tcp_in := r\<rparr>)"
    using hello_facts assms unfolding hello_def enc_handshake_def by (intro Server_read_message [OF assms(1)]) simp_all
  then show ?thesis using assms(1) by (simp add: Server_doHandshake_def Server_write_clean hello_def del: jprint.simps)
qed

context live_store
begin

lemma receive_upload:
  assumes s: "inv s" and h: "vh h" "valid_hash h" "BlobHash b = h" and a: "addr h b" "sdaddr h b"
    and new: "content s h = None \<or> sd" and b: "b \<noteq> []" "int (length b) \<le> m" "m \<le> 2 ^ 48"
    and c: "clean c" "tcp_in c = jprint (enc_send (upload_request sd h (length b))) # segs" "concat segs = b" "[] \<notin> set segs"
  shows "\<exists>s' c'. receiveBlob (plain_reflector st) m (s, c) = (Ret None, s', c') \<and> inv s' \<and> content s' = (content s)(h \<mapsto> b)
     \<and> clean c' \<and> tcp_in c' = [] \<and> tcp_end c' = tcp_end c \<and> tcp_out c' = tcp_out c @ [flag_msg (send_name sd) True, flag_msg (received_name sd) True]"
proof -
  have n: "0 < length b" "length b < 10 ^ 15" using b by auto
  obtain ms where ms: "enc_send (upload_request sd h (length b)) = JObj ms" "wf_json (JObj ms)" "length (jprint (JObj ms)) \<le> 512"
    "dec_send (JObj ms) = Some (upload_request sd h (length b))" using upload_request_json [OF h(2) n] by blast
  let ?c1 = "c\<lparr>tcp_in := segs\<rparr>"
  have "Server_read dec_send c = (Ret (Inr (upload_request sd h (length b))), ?c1)"
    using c(2) ms by (intro Server_read_message [OF c(1) ms(2,3)]) simp_all
  then have rq: "readBlobRequest m c = (Ret (Inr (int (length b), h, sd)), ?c1)"
    using b h(2) by (simp add: readBlobRequest_def upload_request_def Let_def ret_def valid_hash_def) auto
  from Has_spec [OF s h(1)] obtain s1 where s1: "bs_Has st h s = (Ret (content s h \<noteq> None, None), s1)" "inv s1" "content s1 = content s" by blast
  have wants: "wants_blob (plain_reflector st) h s = (Ret (content s h = None, None), s1)"
    using s1 by (simp add: wants_blob_def plain_reflector_def bnd_def ret_def)
  have need: "needed_blobs (plain_reflector st) h sd (content s h = None) s1 = (Ret (Inr (True, [])), s1)"
    using new by (auto simp: needed_blobs_def plain_reflector_def ret_def)
  let ?c2 = "?c1\<lparr>tcp_out := tcp_out c @ [flag_msg (send_name sd) True]\<rparr>"
  have resp: "sendBlobResponse True sd [] ?c1 = (Ret None, ?c2)"
    using c(1) by (simp add: sendBlobResponse_def Server_write_clean flag_msg_def)
  let ?c3 = "?c2\<lparr>tcp_in := []\<rparr>"
  have "new_ReadFull (length b) [] ?c2 = (([] @ b, None), ?c3)" by (rule new_ReadFull_segments [OF c(3,4)]) simp
  then have raw: "Server_readRawBlob (int (length b)) ?c2 = (Ret (b, None), ?c3)"
    using c(1) b by (simp add: Server_readRawBlob_def bnd_def io_def clean_SetDeadline make_bytes_def ret_def)
  obtain s' where s': "(if sd then bs_PutSD st h b else bs_Put st h b) s1 = (Ret None, s')" "inv s'" "content s' = (content s)(h \<mapsto> b)"
    using Put_spec [OF s1(2) h(1) a(1)] PutSD_spec [OF s1(2) h(1) a(2)] s1(3) by (cases sd) auto
  let ?c4 = "?c3\<lparr>tcp_out := tcp_out ?c3 @ [flag_msg (received_name sd) True]\<rparr>"
  have tr: "sendTransferResponse True sd ?c3 = (Ret None, ?c4)"
    using c(1) by (simp add: sendTransferResponse_def Server_write_clean flag_msg_def)
  have "transferBlob (plain_reflector st) (int (length b)) h sd (s1, ?c2) = (Ret None, s', ?c4)"
    using raw s'(1) tr h by (cases sd) (simp_all add: transferBlob_def zoom_def bnd_def ret_def str_prefix_def plain_reflector_def valid_hash_def)
  then have "receiveBlob (plain_reflector st) m (s, c) = (Ret None, s', ?c4)"
    using rq wants need resp by (simp add: receiveBlob_def zoom_def bnd_def)
  with s' c(1) show ?thesis by simp
qed

end


lemma receiveBlob_eof:
  assumes "clean c" "tcp_in c = []" "tcp_end c = EOF"
  shows "receiveBlob srv m (s, c) = (Ret (Some EOF), s, c)"
proof -
  have "Decoder_Decode NewDecoder c = (Inl EOF, NewDecoder, c)"
    using assms by (subst Decoder_Decode.simps) (simp add: NewDecoder_def decode_buf_Nil at_end_def json_decode_def pval.simps)
  then show ?thesis
    using assms(1) by (simp add: receiveBlob_def readBlobRequest_def Server_read_def zoom_def bnd_def io_def clean_SetDeadline ret_def with_data_def NewDecoder_def)
qed

context live_store
begin

lemma server_upload:
  assumes "inv s" "vh h" "valid_hash h" "BlobHash b = h" "addr h b" "sdaddr h b" "content s h = None \<or> sd" "b \<noteq> []" "int (length b) \<le> m" "m \<le> 2 ^ 48"
    and segs: "concat segs = b" "[] \<notin> set segs"
  shows "\<exists>s' c'. handleConn (plain_reflector st) m (s, tcp_of (hello # jprint (enc_send (upload_request sd h (length b))) # segs)) = (Ret EOF, s', c')
     \<and> inv s' \<and> content s' = (content s)(h \<mapsto> b) \<and> tcp_out c' = [hello, flag_msg (send_name sd) True, flag_msg (received_name sd) True]"
proof -
  let ?c = "tcp_of (hello # jprint (enc_send (upload_request sd h (length b))) # segs)"
  let ?c1 = "?c\<lparr>tcp_in := jprint (enc_send (upload_request sd h (length b))) # segs, tcp_out := tcp_out ?c @ [hello]\<rparr>"
  have hs: "Server_doHandshake ?c = (Ret None, ?c1)" by (rule doHandshake_hello) (simp_all add: tcp_of_def clean_def)
  have c1: "clean ?c1" "tcp_in ?c1 = jprint (enc_send (upload_request sd h (length b))) # segs" "tcp_end ?c1 = EOF" "tcp_out ?c1 = [hello]"
    by (simp_all add: clean_def tcp_of_def)
  from receive_upload [OF assms(1-10) c1(1,2) segs] obtain s' c2 where
    r: "receiveBlob (plain_reflector st) m (s, ?c1) = (Ret None, s', c2)" "inv s'" "content s' = (content s)(h \<mapsto> b)" "clean c2" "tcp_in c2 = []" "tcp_end c2 = EOF"
      "tcp_out c2 = [hello, flag_msg (send_name sd) True, flag_msg (received_name sd) True]"
    unfolding c1(3,4) by auto
  have "receiveBlobs (plain_reflector st) m (s', c2) = (Ret EOF, s', c2)"
    by (simp add: receiveBlobs.simps [of _ m "(s', c2)"] receiveBlob_eof [OF r(4-6)])
  then have "receiveBlobs (plain_reflector st) m (s, ?c1) = (Ret EOF, s', c2)" by (simp add: receiveBlobs.simps [of _ m "(s, ?c1)"] r(1))
  then have "handleConn (plain_reflector st) m (s, ?c) = (Ret EOF, s', c2)" using hs by (simp add: handleConn_def zoom_def bnd_def)
  with r show ?thesis by blast
qed

end

section \<open>The client's side\<close>

text \<open>A peer that answers each write with the next of the given messages.\<close>

definition scripted :: "bytes list peer" where
  "scripted b replies = (case replies of [] \<Rightarrow> ([], []) | r # rs \<Rightarrow> ([r], rs))"

definition blob_laws :: "blob_api \<Rightarrow> bytes \<Rightarrow> bool" where
  "blob_laws api b \<longleftrightarrow> ValidForSend api b = None \<and> HashHex api b = BlobHash b \<and> Size api b = int (length b)"

abbreviation rc_tcp :: "'n rClient \<Rightarrow> tcp" where
  "rc_tcp c \<equiv> nc_tcp (rc_conn c)"

lemma rc_Write_scripted:
  assumes "clean (rc_tcp c)" "nc_net (rc_conn c) = r # rs"
  shows "rc_Write scripted b c = (Ret None, c\<lparr>rc_conn := \<lparr>nc_tcp = (rc_tcp c)\<lparr>tcp_out := tcp_out (rc_tcp c) @ [b], tcp_in := tcp_in (rc_tcp c) @ [r]\<rparr>, nc_net = rs\<rparr>\<rparr>)"
  using assms by (simp add: rc_Write_def net_Write_def clean_Write scripted_def)

lemma rc_Decode_message:
  assumes "wf_json (JObj ms)" "length (jprint (JObj ms)) \<le> 512" "dec_buf d = []" "512 \<le> dec_room d" "tcp_in (rc_tcp c) = [jprint (JObj ms)]" "dec (JObj ms) = Some a"
  shows "rc_Decode dec d c = (Ret (Inr a, \<lparr>dec_buf = [], dec_cap = dec_room d\<rparr>), c\<lparr>rc_conn := (rc_conn c)\<lparr>nc_tcp := (rc_tcp c)\<lparr>tcp_in := []\<rparr>\<rparr>\<rparr>)"
  using Decode_message [OF assms(1-5)] assms(6) by (simp add: rc_Decode_def)

lemma flag_msgs:
  "length (jprint (JObj [(''send_blob'', JBool True)])) \<le> 512" "length (jprint (JObj [(''send_sd_blob'', JBool True)])) \<le> 512"
  "length (jprint (JObj [(''received_blob'', JBool True)])) \<le> 512" "length (jprint (JObj [(''received_sd_blob'', JBool True)])) \<le> 512"
  "dec_flag ''send_blob'' (JObj [(''send_blob'', JBool True)]) = Some True" "dec_send_sd (JObj [(''send_sd_blob'', JBool True)]) = Some True"
  "dec_flag ''received_blob'' (JObj [(''received_blob'', JBool True)]) = Some True" "dec_flag ''received_sd_blob'' (JObj [(''received_sd_blob'', JBool True)]) = Some True"
  by code_simp+

abbreviation dialling :: "bytes list \<Rightarrow> bytes list rClient" where
  "dialling rs \<equiv> \<lparr>rc_connected = False, rc_conn = \<lparr>nc_tcp = tcp_of [], nc_net = rs\<rparr>\<rparr>"

lemma client_connects:
  "\<exists>c. Client_Connect scripted (Inr (tcp_of [])) (dialling (hello # rs)) = (Ret None, c) \<and> rc_connected c \<and> clean (rc_tcp c) \<and> tcp_in (rc_tcp c) = []
     \<and> tcp_out (rc_tcp c) = [hello] \<and> nc_net (rc_conn c) = rs"
proof -
  let ?c = "\<lparr>rc_connected = True, rc_conn = \<lparr>nc_tcp = tcp_of [], nc_net = hello # rs\<rparr>\<rparr>"
  let ?d = "\<lparr>rc_connected = True, rc_conn = \<lparr>nc_tcp = (tcp_of [])\<lparr>tcp_out := [hello], tcp_in := [hello]\<rparr>, nc_net = rs\<rparr>\<rparr>"
  have w: "rc_Write scripted hello ?c = (Ret None, ?d)" by (subst rc_Write_scripted) (simp_all add: tcp_of_def clean_def)
  have d: "rc_Decode dec_handshake NewDecoder ?d = (Ret (Inr (Some 0), \<lparr>dec_buf = [], dec_cap = 512\<rparr>), ?d\<lparr>rc_conn := (rc_conn ?d)\<lparr>nc_tcp := (rc_tcp ?d)\<lparr>tcp_in := []\<rparr>\<rparr>\<rparr>)"
    using hello_facts NewDecoder_room unfolding hello_def enc_handshake_def by (subst rc_Decode_message) simp_all
  from w d show ?thesis
    by (simp add: Client_Connect_def Client_doHandshake_def bnd_def modify_def get_st_def ret_def hello_def clean_def tcp_of_def del: jprint.simps)
qed


lemma client_sends:
  assumes c: "rc_connected c" "clean (rc_tcp c)" "tcp_in (rc_tcp c) = []" "nc_net (rc_conn c) = [flag_msg (send_name sd) True, flag_msg (received_name sd) True]"
    and api: "blob_laws api b"
  shows "\<exists>c'. Client_sendBlob api scripted b sd c = (Ret None, c')
     \<and> tcp_out (rc_tcp c') = tcp_out (rc_tcp c) @ [jprint (enc_send (upload_request sd (BlobHash b) (length b))), b]"
proof -
  let ?q = "jprint (enc_send (upload_request sd (BlobHash b) (length b)))"
  let ?m = "flag_msg (send_name sd) True" and ?r = "flag_msg (received_name sd) True" and ?d = "\<lparr>dec_buf = [], dec_cap = 512\<rparr>"
  obtain c1 where w1: "rc_Write scripted ?q c = (Ret None, c1)" "clean (rc_tcp c1)" "tcp_in (rc_tcp c1) = [?m]" "nc_net (rc_conn c1) = [?r]" "tcp_out (rc_tcp c1) = tcp_out (rc_tcp c) @ [?q]"
    using rc_Write_scripted [OF c(2,4), of ?q] c by simp
  have "rc_Decode (if sd then dec_send_sd else dec_flag ''send_blob'') NewDecoder c1
      = (Ret (Inr True, ?d), c1\<lparr>rc_conn := (rc_conn c1)\<lparr>nc_tcp := (rc_tcp c1)\<lparr>tcp_in := []\<rparr>\<rparr>\<rparr>)"
    using flag_msgs NewDecoder_room w1(3)
    by (subst rc_Decode_message [where ms = "[(send_name sd, JBool True)]" and a = True])
      (auto simp: flag_msg_def simp del: jprint.simps dec_flag.simps dec_send_sd.simps)
  then obtain c2 where d1: "rc_Decode (if sd then dec_send_sd else dec_flag ''send_blob'') NewDecoder c1 = (Ret (Inr True, ?d), c2)"
      "clean (rc_tcp c2)" "tcp_in (rc_tcp c2) = []" "nc_net (rc_conn c2) = [?r]" "tcp_out (rc_tcp c2) = tcp_out (rc_tcp c) @ [?q]"
    using w1 by simp
  obtain c3 where w2: "rc_Write scripted b c2 = (Ret None, c3)" "tcp_in (rc_tcp c3) = [?r]" "tcp_out (rc_tcp c3) = tcp_out (rc_tcp c) @ [?q, b]"
    using rc_Write_scripted [OF d1(2,4), of b] d1 by simp
  have room: "dec_room ?d = 512" by (simp add: dec_room_def)
  have "rc_Decode (dec_flag (received_name sd)) ?d c3
      = (Ret (Inr True, \<lparr>dec_buf = [], dec_cap = dec_room ?d\<rparr>), c3\<lparr>rc_conn := (rc_conn c3)\<lparr>nc_tcp := (rc_tcp c3)\<lparr>tcp_in := []\<rparr>\<rparr>\<rparr>)"
    using flag_msgs room w2(2)
    by (intro rc_Decode_message [where ms = "[(received_name sd, JBool True)]"]) (auto simp: flag_msg_def simp del: jprint.simps dec_flag.simps)
  then obtain d' c4 where d2: "rc_Decode (dec_flag (received_name sd)) ?d c3 = (Ret (Inr True, d'), c4)" "tcp_out (rc_tcp c4) = tcp_out (rc_tcp c) @ [?q, b]"
    using w2(3) by simp
  have req: "(if sd then \<lparr>sr_BlobHash = [], sr_BlobSize = 0, sr_SdBlobHash = HashHex api b, sr_SdBlobSize = Size api b\<rparr>
      else \<lparr>sr_BlobHash = HashHex api b, sr_BlobSize = Size api b, sr_SdBlobHash = [], sr_SdBlobSize = 0\<rparr>) = upload_request sd (BlobHash b) (length b)"
    using api by (simp add: upload_request_def blob_laws_def)
  have "Client_sendBlob api scripted b sd c = (Ret None, c4)"
    unfolding Client_sendBlob_def Let_def req using c(1) api w1(1) d1(1) w2(1) d2(1)
    by (simp add: blob_laws_def get_st_def ret_def del: jprint.simps)
  with d2(2) show ?thesis by blast
qed


section \<open>Both sides\<close>

text \<open>
  C17. An upload succeeds on both sides: for a blob the server does not have (or an sd blob) of an allowed size, on a disk store, the server that is sent the client's messages, the blob in
  segments of any size, answers with three messages and stores the blob and nothing else; the client that is sent those three answers sends just those messages
  and returns no error. What is assumed of \<open>stream.Blob\<close> is that a valid blob's hash and size are its own.
\<close>

theorem reflector_upload:
  assumes "disk_inv d" "disk_content d (BlobHash b) = None \<or> sd" "b \<noteq> []" "int (length b) \<le> maxBlobSize" "maxBlobSize \<le> 2 ^ 48" "blob_laws api b"
    and "concat segs = b" "[] \<notin> set segs"
  shows "\<exists>request answers.
     (\<exists>d' c. handleConn (plain_reflector (DiskStore_ops dio)) maxBlobSize (d, tcp_of (hello # request # segs)) = (Ret EOF, d', c)
        \<and> disk_content d' = (disk_content d)(BlobHash b \<mapsto> b) \<and> tcp_out c = answers)
     \<and> (\<exists>c1 c2. Client_Connect scripted (Inr (tcp_of [])) (dialling answers) = (Ret None, c1)
        \<and> Client_sendBlob api scripted b sd c1 = (Ret None, c2) \<and> tcp_out (rc_tcp c2) = [hello, request, b])"
proof -
  let ?q = "jprint (enc_send (upload_request sd (BlobHash b) (length b)))"
  let ?a = "[hello, flag_msg (send_name sd) True, flag_msg (received_name sd) True]"
  have "\<exists>d' c. handleConn (plain_reflector (DiskStore_ops dio)) maxBlobSize (d, tcp_of (hello # ?q # segs)) = (Ret EOF, d', c)
      \<and> disk_inv d' \<and> disk_content d' = (disk_content d)(BlobHash b \<mapsto> b) \<and> tcp_out c = ?a"
    using assms by (intro disk.server_upload) simp_all
  moreover from client_connects [of "[flag_msg (send_name sd) True, flag_msg (received_name sd) True]"] obtain c1 where
    c1: "Client_Connect scripted (Inr (tcp_of [])) (dialling ?a) = (Ret None, c1)" "rc_connected c1" "clean (rc_tcp c1)" "tcp_in (rc_tcp c1) = []"
      "tcp_out (rc_tcp c1) = [hello]" "nc_net (rc_conn c1) = [flag_msg (send_name sd) True, flag_msg (received_name sd) True]" by blast
  moreover from client_sends [OF c1(2-4,6) assms(6)] obtain c2 where "Client_sendBlob api scripted b sd c1 = (Ret None, c2)" "tcp_out (rc_tcp c2) = [hello, ?q, b]"
    using c1(5) by auto
  ultimately show ?thesis by (intro exI [of _ ?q] exI [of _ ?a]) blast
qed

theorem reflector_upload_witness:
  "\<exists>request d' c. handleConn (plain_reflector (DiskStore_ops (\<lambda>_. 0))) 2097152 (NewDiskStore ''/b'' 2 empty_fs, tcp_of [hello, request, ''x'', ''y'']) = (Ret EOF, d', c)
     \<and> disk_content d' (BlobHash ''xy'') = Some ''xy''"
proof -
  let ?api = "\<lparr>ValidForSend = (\<lambda>_. None), HashHex = BlobHash, Size = (\<lambda>b. int (length b))\<rparr>"
  have "disk_inv (NewDiskStore ''/b'' 2 empty_fs)" "disk_content (NewDiskStore ''/b'' 2 empty_fs) = Map.empty"
    using NewDiskStore_inv [OF abs_dir_example] NewDiskStore_content by auto
  with reflector_upload [OF this(1), of "''xy''" False 2097152 ?api "[''x'', ''y'']" "\<lambda>_. 0"] obtain request d' c where
    "handleConn (plain_reflector (DiskStore_ops (\<lambda>_. 0))) 2097152 (NewDiskStore ''/b'' 2 empty_fs, tcp_of [hello, request, ''x'', ''y'']) = (Ret EOF, d', c)"
    "disk_content d' = [BlobHash ''xy'' \<mapsto> ''xy'']"
    by (auto simp: blob_laws_def)
  then show ?thesis by (intro exI [of _ request] exI [of _ d'] exI [of _ c]) simp
qed


section \<open>A negative size\<close>

text \<open>
  C40. The size check lets negative sizes through: a client that has shaken hands and announces a blob the server lacks with a negative size makes the
  handler panic when the buffer for the blob is made. No handler recovers, so this ends the server.
\<close>

theorem negative_size_panics:
  assumes "disk_inv d" "valid_hash h" "disk_content d h = None" "0 < n" "n < 10 ^ 15" "0 \<le> maxBlobSize"
  shows "\<exists>d' c. handleConn (plain_reflector (DiskStore_ops dio)) maxBlobSize
     (d, tcp_of [hello, jprint (JObj [(''blob_hash'', JStr h), (''blob_size'', JNum (int_text (- int n)))])]) = (Panic ''makeslice: len out of range'', d', c)"
proof -
  let ?ms = "[(''blob_hash'', JStr h), (''blob_size'', JNum (int_text (- int n)))]"
  let ?c = "tcp_of [hello, jprint (JObj ?ms)]"
  let ?c1 = "?c\<lparr>tcp_in := [jprint (JObj ?ms)], tcp_out := tcp_out ?c @ [hello]\<rparr>"
  have hs: "Server_doHandshake ?c = (Ret None, ?c1)" by (rule doHandshake_hello) (simp_all add: tcp_of_def clean_def)
  have cl: "clean ?c1" by (simp add: clean_def tcp_of_def)
  have ne: "h \<noteq> []" using assms(2) by (auto simp: valid_hash_def)
  have i: "json_int (int_text (- int n)) = Some (- int n)" using assms(5) by (intro json_int_text) auto
  have len: "length (int_text (- int n)) \<le> 16" using nat_text_length [OF _ assms(5)] assms(4) by (simp add: int_text_def)
  have "length (print_str ''blob_size'') = 11" by code_simp
  with len have short: "length (jprint (JObj ?ms)) \<le> 512" by (simp add: print_consts print_hash_length [OF assms(2)])
  have "Server_read dec_send ?c1 = (Ret (Inr \<lparr>sr_BlobHash = h, sr_BlobSize = - int n, sr_SdBlobHash = [], sr_SdBlobSize = 0\<rparr>), ?c1\<lparr>tcp_in := []\<rparr>)"
    using i by (intro Server_read_message [OF cl _ short]) (auto simp: dec_field_def jvals_def)
  then have rq: "readBlobRequest maxBlobSize ?c1 = (Ret (Inr (- int n, h, False)), ?c1\<lparr>tcp_in := []\<rparr>)"
    using ne assms(4,6) by (simp add: readBlobRequest_def Let_def ret_def)
  obtain d1 where "bs_Has (DiskStore_ops dio) h d = (Ret (False, None), d1)" using disk.Has_spec [OF assms(1,2), of dio] assms(3) by auto
  then have w: "wants_blob (plain_reflector (DiskStore_ops dio)) h d = (Ret (True, None), d1)" by (simp add: wants_blob_def plain_reflector_def bnd_def ret_def)
  obtain c2 where resp: "sendBlobResponse True False [] (?c1\<lparr>tcp_in := []\<rparr>) = (Ret None, c2)" "clean c2"
    using cl by (simp add: sendBlobResponse_def Server_write_clean)
  have "Server_readRawBlob (- int n) c2 = (Panic ''makeslice: len out of range'', c2)"
    using resp(2) assms(4) by (simp add: Server_readRawBlob_def bnd_def io_def clean_SetDeadline make_bytes_def panic_def)
  then have "receiveBlob (plain_reflector (DiskStore_ops dio)) maxBlobSize (d, ?c1) = (Panic ''makeslice: len out of range'', d1, c2)"
    using rq w resp(1) by (simp add: receiveBlob_def needed_blobs_def transferBlob_def zoom_def bnd_def ret_def)
  then have "receiveBlobs (plain_reflector (DiskStore_ops dio)) maxBlobSize (d, ?c1) = (Panic ''makeslice: len out of range'', d1, c2)"
    by (simp add: receiveBlobs.simps [of _ maxBlobSize "(d, ?c1)"] del: jprint.simps)
  with hs show ?thesis by (simp add: handleConn_def zoom_def bnd_def del: jprint.simps)
qed

theorem negative_size_panics_witness:
  "\<exists>d' c. handleConn (plain_reflector (DiskStore_ops (\<lambda>_. 0))) 2097152
     (NewDiskStore ''/b'' 2 empty_fs, tcp_of [hello, jprint (JObj [(''blob_hash'', JStr (BlobHash [])), (''blob_size'', JNum (int_text (- int 1)))])])
       = (Panic ''makeslice: len out of range'', d', c)"
  by (rule negative_size_panics [OF NewDiskStore_inv [OF abs_dir_example] BlobHash_valid]) (simp_all add: NewDiskStore_content)

end
