(* ===== verification/Http.thy ===== *)
theory Http
  imports Trace_Json Stack_Props
begin

text \<open>
  The HTTP blob server (src/server/http) and the store that reads from it (src/store/http.go).

  A response carries the parts the code sets and reads. The gin framework runs the handlers; a handler that
  writes nothing leaves its defaults, status 200 and no body. \<open>c.Query\<close> is applied before the handlers
  below. The cache of misses is a parameter. \<open>json.Marshal\<close> of a trace cannot fail, so the branches for it are not reachable.
  The client's transport \<open>do\<close> is a parameter; \<open>loopback\<close> connects it to the server.
\<close>

section \<open>Responses\<close>

record http_resp =
  Status :: int
  Via :: string
  Disposition :: string
  Body :: bytes
  BodyErr :: "go_error option"

definition default_resp :: http_resp where
  "default_resp = \<lparr>Status = 200, Via = [], Disposition = [], Body = [], BodyErr = None\<rparr>"

text \<open>\<open>http.NewRequest\<close> rejects a URL with a control character.\<close>

definition NewRequest_err :: "string \<Rightarrow> go_error option" where
  "NewRequest_err url =
     (if list_ex (\<lambda>c. code c < 32 \<or> code c = 127) url then Some (Msg ''net/url: invalid control character in URL'') else None)"

section \<open>The server\<close>

record 'm misses =
  mc_Has :: "string \<Rightarrow> 'm \<Rightarrow> bool"
  mc_Set :: "string \<Rightarrow> 'm \<Rightarrow> 'm"

definition HandleGetBlob :: "'m misses \<Rightarrow> 's BlobStore \<Rightarrow> call_env \<Rightarrow> string \<Rightarrow> ('s \<times> 'm, http_resp) op" where
  "HandleGetBlob mc store e hash s =
     (if mc_Has mc hash (snd s) then (Ret (default_resp\<lparr>Via := Serialize (NewBlobTrace e ''http''), Status := 404\<rparr>), s)
      else
        (case bs_Get store (env_l e) hash (fst s) of
           (Panic p, st) \<Rightarrow> (Ret default_resp, (st, snd s)) \<comment> \<open>recovered\<close>
         | (Ret (blob, trace, Some err), st) \<Rightarrow>
             if not_found err
             then (Ret (default_resp\<lparr>Via := Serialize trace, Status := 404\<rparr>), (st, mc_Set mc hash (snd s)))
             else (Ret (default_resp\<lparr>Via := Serialize trace, Status := 500, Body := Error err\<rparr>), (st, snd s))
         | (Ret (blob, trace, None), st) \<Rightarrow>
             (Ret (default_resp\<lparr>Via := Serialize trace, Disposition := ''filename='' @ hash, Status := 200, Body := blob\<rparr>), (st, snd s))))"

definition hasBlob :: "'s BlobStore \<Rightarrow> string \<Rightarrow> ('s \<times> 'm, http_resp) op" where
  "hasBlob store hash =
     bnd (on_fst (bs_Has store hash)) (\<lambda>(has, err).
       case err of
         Some err \<Rightarrow> ret (default_resp\<lparr>Status := 500, Body := Error err\<rparr>)
       | None \<Rightarrow> if has then ret (default_resp\<lparr>Status := 204\<rparr>) else ret (default_resp\<lparr>Status := 404\<rparr>))"

text \<open>
  The routes of \<open>Start\<close>. A panic of \<open>hasBlob\<close> is caught by the recovery middleware, which answers 500; the \<open>GET /\<close> route
  always panics. The response to \<open>HEAD\<close> has no body.
\<close>

definition recoveryHandler :: "string \<Rightarrow> http_resp" where
  "recoveryHandler err = default_resp\<lparr>Status := 500, Body := jprint (JObj [(''err'', JStr err), (''title'', JStr ''Error'')])\<rparr>"

definition recovered :: "('s, http_resp) op \<Rightarrow> ('s, http_resp) op" where
  "recovered m s = (case m s of (Panic p, s') \<Rightarrow> (Ret (recoveryHandler p), s') | r \<Rightarrow> r)"

definition Server_route :: "'m misses \<Rightarrow> 's BlobStore \<Rightarrow> call_env \<Rightarrow> string \<Rightarrow> string \<Rightarrow> string \<Rightarrow> ('s \<times> 'm, http_resp) op" where
  "Server_route mc store e method path hash =
     (if method = ''GET'' \<and> path = ''/blob'' then recovered (HandleGetBlob mc store e hash)
      else if method = ''GET'' \<and> path = ''/'' then recovered (panic ''woops'')
      else if method = ''HEAD'' \<and> path = ''/blob'' then bnd (recovered (hasBlob store hash)) (\<lambda>r. ret (r\<lparr>Body := []\<rparr>))
      else ret (default_resp\<lparr>Status := 404, Body := ''404 page not found''\<rparr>))"

section \<open>HttpStore\<close>

definition nameHttp :: string where
  "nameHttp = ''http''"

type_synonym 's transport = "call_env \<Rightarrow> string \<Rightarrow> string \<Rightarrow> ('s, go_error + http_resp) op"

definition upstream_err :: "http_resp \<Rightarrow> go_error" where
  "upstream_err res = Msg (''upstream error. Status code: '' @ int_text (Status res) @ '' ('' @ Body res @ '')'')"

definition HttpStore_Has :: "'s transport \<Rightarrow> string \<Rightarrow> string \<Rightarrow> ('s, bool \<times> go_error option) op" where
  "HttpStore_Has do upstream hash =
     (let url = upstream @ ''/blob?hash='' @ hash in
      case NewRequest_err url of
        Some err \<Rightarrow> ret (False, Some err)
      | None \<Rightarrow>
          bnd (do env0 ''HEAD'' url) (\<lambda>r.
            case r of
              Inl err \<Rightarrow> ret (False, Some err)
            | Inr res \<Rightarrow>
                if Status res = 404 then ret (False, None)
                else if Status res = 204 then ret (True, None)
                else ret (False, Some (upstream_err res))))"

definition HttpStore_Get :: "'s transport \<Rightarrow> string \<Rightarrow> call_env \<Rightarrow> string \<Rightarrow> ('s, bytes \<times> BlobTrace \<times> go_error option) op" where
  "HttpStore_Get do upstream e hash =
     (let url = upstream @ ''/blob?hash='' @ hash in
      case NewRequest_err url of
        Some err \<Rightarrow> ret ([], NewBlobTrace e nameHttp, Some err)
      | None \<Rightarrow>
          bnd (do (env_l e) ''GET'' url) (\<lambda>r.
            case r of
              Inl err \<Rightarrow> ret ([], NewBlobTrace e nameHttp, Some err)
            | Inr res \<Rightarrow>
                let serialized = Via res;
                    parsed = (if serialized \<noteq> [] then Deserialize serialized else Inr (NewBlobTrace e nameHttp))
                in case parsed of
                     Inl err \<Rightarrow> ret ([], NewBlobTrace e nameHttp, Some err)
                   | Inr trace \<Rightarrow>
                       if Status res = 404 then ret ([], BlobTrace_Stack (env_r e) nameHttp trace, Some ErrBlobNotFound)
                       else if Status res = 200 then
                         (case BodyErr res of
                            Some err \<Rightarrow> ret ([], BlobTrace_Stack (env_r e) nameHttp trace, Some err)
                          | None \<Rightarrow> ret (Body res, BlobTrace_Stack (env_r e) nameHttp trace, None))
                       else ret ([], BlobTrace_Stack (env_r e) nameHttp trace, Some (upstream_err res))))"

definition HttpStore_Put :: "string \<Rightarrow> bytes \<Rightarrow> ('s, go_error option) op" where
  "HttpStore_Put hash blob = ret (Some ErrNotImplemented)"

definition HttpStore_PutSD :: "string \<Rightarrow> bytes \<Rightarrow> ('s, go_error option) op" where
  "HttpStore_PutSD hash blob = ret (Some ErrNotImplemented)"

definition HttpStore_Delete :: "string \<Rightarrow> ('s, go_error option) op" where
  "HttpStore_Delete hash = ret (Some ErrNotImplemented)"

definition NewHttpStore :: "'s transport \<Rightarrow> string \<Rightarrow> 's BlobStore" where
  "NewHttpStore do upstream =
     (let up = ''http://'' @ upstream in
      \<lparr>bs_Name = nameHttp, bs_Has = HttpStore_Has do up, bs_Get = HttpStore_Get do up, bs_Put = HttpStore_Put,
       bs_PutSD = HttpStore_PutSD, bs_Delete = HttpStore_Delete, bs_Shutdown = ret ()\<rparr>)"

text \<open>
  A transport that reaches the server: the URL is split at the host, and the query value, which has no
  character to unescape, is the hash.
\<close>

definition loopback :: "'m misses \<Rightarrow> 's BlobStore \<Rightarrow> string \<Rightarrow> ('s \<times> 'm) transport" where
  "loopback mc store upstream e method url =
     (let base = ''http://'' @ upstream @ ''/blob?hash='' in
      if take (length base) url = base
      then bnd (Server_route mc store e method ''/blob'' (drop (length base) url)) (\<lambda>r. ret (Inr r))
      else ret (Inl (Msg ''no such host'')))"

end
