(* ===== verification/Http_Correct.thy ===== *)
theory Http_Correct
  imports Http
begin

text \<open>
  A store read over HTTP is the store behind the server, for reading, as long as no cached miss is stale; and what happens
  when a cached miss is stale or the store behind the server panics.
\<close>

section \<open>End to end\<close>

lemma Via_nonempty [simp]: "Serialize t \<noteq> []"
  by (simp add: Serialize_def enc_trace_def)

locale traced_store = ro_store st inv content vh
  for st :: "'s BlobStore" and inv content vh +
  assumes Get_trace: "inv s \<Longrightarrow> vh h \<Longrightarrow> bs_Get st e h s = (Ret (b, tr, x), s') \<Longrightarrow> trace_ok tr"

locale misses_laws =
  fixes mc :: "'m misses" and mkeys :: "'m \<Rightarrow> string set"
  assumes Has_miss: "mc_Has mc h m \<Longrightarrow> h \<in> mkeys m"
    and Set_miss: "mkeys (mc_Set mc h m) \<subseteq> insert h (mkeys m)"

locale http_pair =
  s: traced_store st inv content vh +
  m: misses_laws mc mkeys
  for st :: "'s BlobStore" and inv content vh and mc :: "'m misses" and mkeys +
  fixes up :: string
  assumes url_ok: "vh h \<Longrightarrow> NewRequest_err ((''http://'' @ up) @ ''/blob?hash='' @ h) = None"
begin

definition http_inv :: "'s \<times> 'm \<Rightarrow> bool" where
  "http_inv z \<longleftrightarrow> inv (fst z) \<and> mkeys (snd z) \<inter> dom (content (fst z)) = {}"

definition http_content :: "'s \<times> 'm \<Rightarrow> content" where
  "http_content z = content (fst z)"

lemma loopback_ok:
  "loopback mc st up e meth ((''http://'' @ up) @ ''/blob?hash='' @ h) =
     bnd (Server_route mc st e meth ''/blob'' h) (\<lambda>r. ret (Inr r))"
  by (simp add: loopback_def Let_def)

lemma served_Has:
  assumes z: "http_inv z" and h: "vh h"
  shows "\<exists>z'. HttpStore_Has (loopback mc st up) (''http://'' @ up) h z = (Ret (http_content z h \<noteq> None, None), z')
     \<and> http_inv z' \<and> http_content z' = http_content z"
proof -
  obtain a m where zz: "z = (a, m)" by (cases z)
  from z s.Has_spec [of a h] h obtain a' where
    a: "bs_Has st h a = (Ret (content a h \<noteq> None, None), a')" "inv a'" "content a' = content a"
    by (auto simp: http_inv_def zz)
  with z url_ok [OF h] show ?thesis
    unfolding HttpStore_Has_def Let_def loopback_ok
    by (cases "content a h") (auto simp: Server_route_def recovered_def hasBlob_def zz bnd_def ret_def default_resp_def
        http_inv_def http_content_def)
qed

lemma served_Get:
  assumes z: "http_inv z" and h: "vh h"
  shows "\<exists>b tr x z'. HttpStore_Get (loopback mc st up) (''http://'' @ up) e h z = (Ret (b, tr, x), z')
     \<and> http_inv z' \<and> http_content z' = http_content z
     \<and> (case http_content z h of Some b' \<Rightarrow> b = b' \<and> x = None | None \<Rightarrow> b = [] \<and> err_not_found x) \<and> trace_ok tr"
proof -
  obtain a m where zz: "z = (a, m)" by (cases z)
  have inv: "inv a" "mkeys m \<inter> dom (content a) = {}" using z by (auto simp: http_inv_def zz)
  note defs = HttpStore_Get_def Server_route_def recovered_def HandleGetBlob_def zz bnd_def ret_def default_resp_def Let_def
    http_inv_def http_content_def
  show ?thesis
  proof (cases "mc_Has mc h m")
    case True
    then have "content a h = None" using inv m.Has_miss by blast
    with True inv url_ok [OF h] show ?thesis
      unfolding HttpStore_Get_def Let_def loopback_ok
      by (simp add: defs deserialize_serialize)
  next
    case False
    show ?thesis
    proof (cases "content a h")
      case None
      from s.Get_miss [OF inv(1) h None, of "env_l (env_l e)"] obtain tr x a' where
        g: "bs_Get st (env_l (env_l e)) h a = (Ret ([], tr, Some x), a')" "not_found x" "inv a'" "content a' = content a"
        by blast
      have "h \<notin> dom (content a)" using None by (simp add: domIff)
      then have "mkeys (mc_Set mc h m) \<inter> dom (content a) = {}" using inv(2) m.Set_miss [of h m] by blast
      with g None False url_ok [OF h] s.Get_trace [OF inv(1) h g(1)] show ?thesis
        unfolding HttpStore_Get_def Let_def loopback_ok
        by (simp add: defs deserialize_serialize)
    next
      case (Some b)
      from s.Get_hit [OF inv(1) h Some, of "env_l (env_l e)"] obtain tr a' where
        g: "bs_Get st (env_l (env_l e)) h a = (Ret (b, tr, None), a')" "inv a'" "content a' = content a"
        by blast
      with Some False url_ok [OF h] s.Get_trace [OF inv(1) h g(1)] inv show ?thesis
        unfolding HttpStore_Get_def Let_def loopback_ok
        by (simp add: defs deserialize_serialize)
    qed
  qed
qed

end

sublocale http_pair \<subseteq> http: traced_store "NewHttpStore (loopback mc st up) up" http_inv http_content vh
proof unfold_locales
  fix z h e b
  assume z: "http_inv z" and h: "vh h"
  show "\<exists>z'. bs_Has (NewHttpStore (loopback mc st up) up) h z = (Ret (http_content z h \<noteq> None, None), z') \<and> http_inv z' \<and> http_content z' = http_content z"
    using served_Has [OF z h] by (simp add: NewHttpStore_def Let_def)
  note g = served_Get [OF z h, of e]
  show "\<exists>tr z'. bs_Get (NewHttpStore (loopback mc st up) up) e h z = (Ret (b, tr, None), z') \<and> http_inv z' \<and> http_content z' = http_content z"
    if "http_content z h = Some b"
    using g that by (auto simp: NewHttpStore_def Let_def)
  show "\<exists>tr x z'. bs_Get (NewHttpStore (loopback mc st up) up) e h z = (Ret ([], tr, Some x), z') \<and> not_found x \<and> http_inv z' \<and> http_content z' = http_content z"
    if "http_content z h = None"
    using g that by (auto simp: NewHttpStore_def Let_def)
  fix tr x z'
  show "trace_ok tr" if "bs_Get (NewHttpStore (loopback mc st up) up) e h z = (Ret (b, tr, x), z')"
    using g that by (auto simp: NewHttpStore_def Let_def)
qed

section \<open>On the stores of the development\<close>

interpretation mem_traced: traced_store MemStore_ops "\<lambda>_. True" blobs valid_hash
  by unfold_locales (auto simp: MemStore_defs split: option.splits)

interpretation disk_traced: traced_store "DiskStore_ops dio" disk_inv disk_content valid_hash for dio
proof unfold_locales
  fix d h e b tr x d'
  assume "disk_inv d" "valid_hash h" "bs_Get (DiskStore_ops dio) e h d = (Ret (b, tr, x), d')"
  with disk_Get_ok [of d h e] show "trace_ok tr" by (auto simp: DiskStore_ops_def split: option.splits)
qed

text \<open>A cache of misses that forgets nothing.\<close>

definition set_misses :: "string set misses" where
  "set_misses = \<lparr>mc_Has = (\<lambda>h m. h \<in> m), mc_Set = insert\<rparr>"

interpretation set_misses: misses_laws set_misses "\<lambda>m. m"
  by unfold_locales (auto simp: set_misses_def)

lemma valid_hash_url:
  assumes "valid_hash h" "NewRequest_err u = None"
  shows "NewRequest_err (u @ h) = None"
proof -
  have "\<not> (code c < 32 \<or> code c = 127)" if "c \<in> hex_chars" for c
    using that by (auto simp: hex_chars_def code_def)
  with assms show ?thesis
    by (auto simp: NewRequest_err_def valid_hash_def list_ex_iff split: if_splits)
qed

interpretation disk_http: http_pair "DiskStore_ops dio" disk_inv disk_content valid_hash set_misses "\<lambda>m. m" "''host''" for dio
proof unfold_locales
  fix h
  assume "valid_hash h"
  from valid_hash_url [OF this, of "''http://host/blob?hash=''"] show "NewRequest_err ((''http://'' @ ''host'') @ ''/blob?hash='' @ h) = None"
    by (simp add: NewRequest_err_def code_def)
qed



text \<open>
  A cached miss outlives the blob's arrival: when the blob is put into the store after a miss was cached, \<open>Get\<close> over HTTP still answers
  \<open>ErrBlobNotFound\<close> until the entry expires, while \<open>Has\<close> already says the blob is there.
\<close>

theorem HttpStore_stale_miss:
  assumes "mc_Has mc h m" "blobs s h = Some b" "valid_hash h" "NewRequest_err up = None"
  shows "(\<exists>tr. bs_Get (NewHttpStore (loopback mc MemStore_ops up) up) e h (s, m) = (Ret ([], tr, Some ErrBlobNotFound), (s, m)))
     \<and> bs_Has (NewHttpStore (loopback mc MemStore_ops up) up) h (s, m) = (Ret (True, None), (s, m))"
proof -
  have u: "NewRequest_err ((''http://'' @ up) @ ''/blob?hash='' @ h) = None"
    using valid_hash_url [OF assms(3), of "''http://'' @ up @ ''/blob?hash=''"] assms(4)
    by (simp add: NewRequest_err_def code_def split: if_splits)
  have l: "loopback mc MemStore_ops up e' meth ((''http://'' @ up) @ ''/blob?hash='' @ h)
      = bnd (Server_route mc MemStore_ops e' meth ''/blob'' h) (\<lambda>r. ret (Inr r))" for e' meth
    by (simp add: loopback_def Let_def)
  show ?thesis
    using assms u unfolding NewHttpStore_def HttpStore_Get_def HttpStore_Has_def Let_def BlobStore.simps l
    by (simp add: Server_route_def recovered_def HandleGetBlob_def hasBlob_def bnd_def ret_def default_resp_def
        deserialize_serialize MemStore_defs zoom_def)
qed

theorem HttpStore_stale_miss_witness:
  "\<exists>tr. bs_Get (NewHttpStore (loopback set_misses MemStore_ops ''host'') ''host'') env0 (BlobHash ''x'') (\<lparr>blobs = [BlobHash ''x'' \<mapsto> ''x'']\<rparr>, {BlobHash ''x''})
     = (Ret ([], tr, Some ErrBlobNotFound), (\<lparr>blobs = [BlobHash ''x'' \<mapsto> ''x'']\<rparr>, {BlobHash ''x''}))"
  using HttpStore_stale_miss [of set_misses "BlobHash ''x''" "{BlobHash ''x''}" "\<lparr>blobs = [BlobHash ''x'' \<mapsto> ''x'']\<rparr>" "''x''" "''host''" env0]
  by (simp add: set_misses_def BlobHash_valid NewRequest_err_def code_def)

end
