(* ===== verification/Remote_Stores.thy ===== *)
theory Remote_Stores
  imports Http_Correct
begin

text \<open>
  The stores of a service: \<open>S3Store\<close> (src/store/s3.go), \<open>CloudFrontROStore\<close> (src/store/cloudfront_ro.go),
  \<open>CloudFrontRWStore\<close> (src/store/cloudfront_rw.go) and the HTTP3 server, client and store (src/server/http3).

  The AWS SDK is a parameter: the record \<open>s3_api\<close> of the calls the store makes, with the errors the code tells apart. What the
  code relies on is the locale \<open>s3_laws\<close>. The lines that log \<open>hash[:8]\<close> are kept, because they panic on a short hash.
\<close>

section \<open>S3Store\<close>

datatype aws_error = NoSuchBucket | NoSuchKey | HeadNotFound | OtherAws go_error

definition aws_err :: "aws_error \<Rightarrow> go_error" where
  "aws_err x = (case x of NoSuchBucket \<Rightarrow> Msg ''NoSuchBucket'' | NoSuchKey \<Rightarrow> Msg ''NoSuchKey'' | HeadNotFound \<Rightarrow> Msg ''NotFound'' | OtherAws e \<Rightarrow> e)"

record 'w s3_api =
  s3_NewSession :: "'w \<Rightarrow> go_error option \<times> 'w"
  s3_HeadObject :: "string \<Rightarrow> string \<Rightarrow> 'w \<Rightarrow> aws_error option \<times> 'w"
  s3_Download :: "string \<Rightarrow> string \<Rightarrow> 'w \<Rightarrow> (bytes \<times> aws_error option) \<times> 'w"
  s3_Upload :: "string \<Rightarrow> string \<Rightarrow> bytes \<Rightarrow> 'w \<Rightarrow> aws_error option \<times> 'w"
  s3_DeleteObject :: "string \<Rightarrow> string \<Rightarrow> 'w \<Rightarrow> aws_error option \<times> 'w"

record 'w S3Store =
  bucket :: string
  session :: bool
  world :: 'w

definition NewS3Store :: "string \<Rightarrow> 'w \<Rightarrow> 'w S3Store" where
  "NewS3Store b w = \<lparr>bucket = b, session = False, world = w\<rparr>"

definition nameS3 :: string where
  "nameS3 = ''s3''"

definition s3_call :: "('w \<Rightarrow> 'a \<times> 'w) \<Rightarrow> ('w S3Store, 'a) op" where
  "s3_call f s = (case f (world s) of (a, w) \<Rightarrow> (Ret a, s\<lparr>world := w\<rparr>))"

definition S3Store_initOnce :: "'w s3_api \<Rightarrow> ('w S3Store, go_error option) op" where
  "S3Store_initOnce api =
     bnd get_st (\<lambda>s.
       if session s then ret None
       else bnd (s3_call (s3_NewSession api)) (\<lambda>err.
         if err \<noteq> None then ret err
         else bnd (modify (\<lambda>s. s\<lparr>session := True\<rparr>)) (\<lambda>_. ret None)))"

definition S3Store_Has :: "'w s3_api \<Rightarrow> string \<Rightarrow> ('w S3Store, bool \<times> go_error option) op" where
  "S3Store_Has api hash =
     bnd (S3Store_initOnce api) (\<lambda>err.
       if err \<noteq> None then ret (False, err)
       else bnd get_st (\<lambda>s. bnd (s3_call (s3_HeadObject api (bucket s) hash)) (\<lambda>err.
         case err of
           Some HeadNotFound \<Rightarrow> ret (False, None)
         | Some x \<Rightarrow> ret (False, Some (aws_err x))
         | None \<Rightarrow> ret (True, None))))"

definition S3Store_Get :: "'w s3_api \<Rightarrow> call_env \<Rightarrow> string \<Rightarrow> ('w S3Store, bytes \<times> BlobTrace \<times> go_error option) op" where
  "S3Store_Get api e hash =
     bnd (S3Store_initOnce api) (\<lambda>err.
       if err \<noteq> None then ret ([], NewBlobTrace e nameS3, err)
       else bnd (str_prefix hash 8) (\<lambda>_.
         bnd get_st (\<lambda>s. bnd (s3_call (s3_Download api (bucket s) hash)) (\<lambda>(buf, err).
           case err of
             Some NoSuchBucket \<Rightarrow> ret ([], NewBlobTrace e nameS3, Some (Msg (''bucket '' @ bucket s @ '' does not exist'')))
           | Some NoSuchKey \<Rightarrow> ret ([], NewBlobTrace e nameS3, Some ErrBlobNotFound)
           | Some x \<Rightarrow> ret (buf, NewBlobTrace e nameS3, Some (aws_err x))
           | None \<Rightarrow> ret (buf, NewBlobTrace e nameS3, None)))))"

definition S3Store_Put :: "'w s3_api \<Rightarrow> string \<Rightarrow> bytes \<Rightarrow> ('w S3Store, go_error option) op" where
  "S3Store_Put api hash blob =
     bnd (S3Store_initOnce api) (\<lambda>err.
       if err \<noteq> None then ret err
       else bnd (str_prefix hash 8) (\<lambda>_.
         bnd get_st (\<lambda>s. bnd (s3_call (s3_Upload api (bucket s) hash blob)) (\<lambda>err. ret (map_option aws_err err)))))"

definition S3Store_PutSD :: "'w s3_api \<Rightarrow> string \<Rightarrow> bytes \<Rightarrow> ('w S3Store, go_error option) op" where
  "S3Store_PutSD api hash blob = S3Store_Put api hash blob"

definition S3Store_Delete :: "'w s3_api \<Rightarrow> string \<Rightarrow> ('w S3Store, go_error option) op" where
  "S3Store_Delete api hash =
     bnd (S3Store_initOnce api) (\<lambda>err.
       if err \<noteq> None then ret err
       else bnd (str_prefix hash 8) (\<lambda>_.
         bnd get_st (\<lambda>s. bnd (s3_call (s3_DeleteObject api (bucket s) hash)) (\<lambda>err. ret (map_option aws_err err)))))"

definition S3Store_ops :: "'w s3_api \<Rightarrow> 'w S3Store BlobStore" where
  "S3Store_ops api =
     \<lparr>bs_Name = nameS3, bs_Has = S3Store_Has api, bs_Get = S3Store_Get api, bs_Put = S3Store_Put api,
      bs_PutSD = S3Store_PutSD api, bs_Delete = S3Store_Delete api, bs_Shutdown = ret ()\<rparr>"

section \<open>CloudFront\<close>

definition nameCloudFrontRO :: string where
  "nameCloudFrontRO = ''cloudfront_ro''"

text \<open>\<open>cfRequest\<close>: status and body, through the default HTTP client.\<close>

definition cfRequest :: "'s transport \<Rightarrow> string \<Rightarrow> call_env \<Rightarrow> string \<Rightarrow> string \<Rightarrow> ('s, go_error + http_resp) op" where
  "cfRequest do endpoint e method hash =
     (let url = endpoint @ hash in
      case NewRequest_err url of Some err \<Rightarrow> ret (Inl err) | None \<Rightarrow> do e method url)"

definition CloudFrontROStore_Has :: "'s transport \<Rightarrow> string \<Rightarrow> string \<Rightarrow> ('s, bool \<times> go_error option) op" where
  "CloudFrontROStore_Has do endpoint hash =
     bnd (cfRequest do endpoint env0 ''HEAD'' hash) (\<lambda>r.
       case r of
         Inl err \<Rightarrow> ret (False, Some err)
       | Inr res \<Rightarrow>
           if Status res = 404 \<or> Status res = 403 then ret (False, None)
           else if Status res = 200 then ret (True, None)
           else ret (False, Some (Msg (''unexpected status '' @ int_text (Status res)))))"

definition CloudFrontROStore_Get :: "'s transport \<Rightarrow> string \<Rightarrow> call_env \<Rightarrow> string \<Rightarrow> ('s, bytes \<times> BlobTrace \<times> go_error option) op" where
  "CloudFrontROStore_Get do endpoint e hash =
     bnd (str_prefix hash 8) (\<lambda>_.
       bnd (cfRequest do endpoint (env_l e) ''GET'' hash) (\<lambda>r.
         case r of
           Inl err \<Rightarrow> ret ([], NewBlobTrace e nameCloudFrontRO, Some err)
         | Inr res \<Rightarrow>
             if Status res = 404 \<or> Status res = 403 then ret ([], NewBlobTrace e nameCloudFrontRO, Some ErrBlobNotFound)
             else if Status res = 200 then
               (case BodyErr res of
                  Some err \<Rightarrow> ret ([], NewBlobTrace e nameCloudFrontRO, Some err)
                | None \<Rightarrow> ret (Body res, NewBlobTrace e nameCloudFrontRO, None))
             else ret ([], NewBlobTrace e nameCloudFrontRO, Some (Msg (''unexpected status '' @ int_text (Status res))))))"

definition CloudFrontROStore_Put :: "string \<Rightarrow> bytes \<Rightarrow> ('s, go_error option) op" where
  "CloudFrontROStore_Put hash blob = ret (Some ErrNotImplemented)"

definition CloudFrontROStore_PutSD :: "string \<Rightarrow> bytes \<Rightarrow> ('s, go_error option) op" where
  "CloudFrontROStore_PutSD hash blob = ret (Some ErrNotImplemented)"

definition CloudFrontROStore_Delete :: "string \<Rightarrow> ('s, go_error option) op" where
  "CloudFrontROStore_Delete hash = ret (Some ErrNotImplemented)"

definition NewCloudFrontROStore :: "'s transport \<Rightarrow> string \<Rightarrow> 's BlobStore" where
  "NewCloudFrontROStore do endpoint =
     \<lparr>bs_Name = nameCloudFrontRO, bs_Has = CloudFrontROStore_Has do endpoint, bs_Get = CloudFrontROStore_Get do endpoint,
      bs_Put = CloudFrontROStore_Put, bs_PutSD = CloudFrontROStore_PutSD, bs_Delete = CloudFrontROStore_Delete, bs_Shutdown = ret ()\<rparr>"

definition nameCloudFrontRW :: string where
  "nameCloudFrontRW = ''cloudfront_rw''"

text \<open>Reads go to the first store, writes to the second; the state is the pair of the two.\<close>

definition CloudFrontRWStore_Has :: "'a BlobStore \<Rightarrow> string \<Rightarrow> ('a \<times> 'b, bool \<times> go_error option) op" where
  "CloudFrontRWStore_Has cf hash = on_fst (bs_Has cf hash)"

definition CloudFrontRWStore_Get :: "'a BlobStore \<Rightarrow> call_env \<Rightarrow> string \<Rightarrow> ('a \<times> 'b, bytes \<times> BlobTrace \<times> go_error option) op" where
  "CloudFrontRWStore_Get cf e hash =
     bnd (on_fst (bs_Get cf (env_l e) hash)) (\<lambda>(blob, trace, err). ret (blob, BlobTrace_Stack e nameCloudFrontRW trace, err))"

definition CloudFrontRWStore_Put :: "'b BlobStore \<Rightarrow> string \<Rightarrow> bytes \<Rightarrow> ('a \<times> 'b, go_error option) op" where
  "CloudFrontRWStore_Put s3 hash blob = on_snd (bs_Put s3 hash blob)"

definition CloudFrontRWStore_PutSD :: "'b BlobStore \<Rightarrow> string \<Rightarrow> bytes \<Rightarrow> ('a \<times> 'b, go_error option) op" where
  "CloudFrontRWStore_PutSD s3 hash blob = on_snd (bs_PutSD s3 hash blob)"

definition CloudFrontRWStore_Delete :: "'b BlobStore \<Rightarrow> string \<Rightarrow> ('a \<times> 'b, go_error option) op" where
  "CloudFrontRWStore_Delete s3 hash = on_snd (bs_Delete s3 hash)"

definition CloudFrontRWStore_Shutdown :: "'a BlobStore \<Rightarrow> 'b BlobStore \<Rightarrow> ('a \<times> 'b, unit) op" where
  "CloudFrontRWStore_Shutdown cf s3 = bnd (on_snd (bs_Shutdown s3)) (\<lambda>_. on_fst (bs_Shutdown cf))"

definition NewCloudFrontRWStore :: "'a BlobStore \<Rightarrow> 'b BlobStore \<Rightarrow> ('a \<times> 'b) BlobStore" where
  "NewCloudFrontRWStore cf s3 =
     \<lparr>bs_Name = nameCloudFrontRW, bs_Has = CloudFrontRWStore_Has cf, bs_Get = CloudFrontRWStore_Get cf, bs_Put = CloudFrontRWStore_Put s3,
      bs_PutSD = CloudFrontRWStore_PutSD s3, bs_Delete = CloudFrontRWStore_Delete s3, bs_Shutdown = CloudFrontRWStore_Shutdown cf s3\<rparr>"

section \<open>HTTP3\<close>

text \<open>
  \<open>strconv.ParseBool\<close> on the \<open>trace\<close> parameter; an unparsable value means no trace. A handler runs in a worker with no \<open>recover\<close>, so a panic of
  the store is a panic of the process.
\<close>

definition ParseBool :: "string \<Rightarrow> bool option" where
  "ParseBool s =
     (if s \<in> {''1'', ''t'', ''T'', ''true'', ''TRUE'', ''True''} then Some True
      else if s \<in> {''0'', ''f'', ''F'', ''false'', ''FALSE'', ''False''} then Some False
      else None)"

definition http_Error :: "http_resp \<Rightarrow> string \<Rightarrow> int \<Rightarrow> http_resp" where
  "http_Error r msg st = r\<lparr>Status := st, Body := msg @ [CHR 0x0A]\<rparr>"

definition http3_HandleGetBlob :: "'s BlobStore \<Rightarrow> call_env \<Rightarrow> string \<Rightarrow> string \<Rightarrow> ('s, http_resp) op" where
  "http3_HandleGetBlob store e requestedBlob traceParam =
     (let wantsTrace = (traceParam \<noteq> [] \<and> ParseBool traceParam = Some True) in
      bnd (bs_Get store e requestedBlob) (\<lambda>(blob, trace, err).
        let w = (if wantsTrace then default_resp\<lparr>Via := Serialize trace\<rparr> else default_resp) in
        case err of
          Some err \<Rightarrow> if not_found err then ret (http_Error w (Error err) 404) else ret (http_Error w (Error err) 400)
        | None \<Rightarrow> ret (w\<lparr>Body := blob\<rparr>)))"

definition http3_has :: "'s BlobStore \<Rightarrow> string \<Rightarrow> ('s, http_resp) op" where
  "http3_has store requestedBlob =
     bnd (bs_Has store requestedBlob) (\<lambda>(blobExists, err).
       case err of
         Some err \<Rightarrow> ret (http_Error default_resp (Error err) 400)
       | None \<Rightarrow>
           ret (default_resp\<lparr>Status := (if blobExists then 200 else 404),
             Body := jprint (JObj [(''lbrycrd_address'', JStr ''bJxKvpD96kaJLriqVajZ7SaQTsWWyrGQct''), (''is_available'', JBool blobExists)])\<rparr>))"

definition nameHttp3 :: string where
  "nameHttp3 = ''http3''"

text \<open>\<open>c.conn.Get\<close> of the URL \<open>https://server/has/hash\<close>, or \<open>https://server/get/hash?trace=true\<close>.\<close>

definition http3_HasBlob :: "'s transport \<Rightarrow> string \<Rightarrow> string \<Rightarrow> ('s, bool \<times> go_error option) op" where
  "http3_HasBlob do server hash =
     bnd (do env0 ''GET'' (''https://'' @ server @ ''/has/'' @ hash)) (\<lambda>r.
       case r of
         Inl err \<Rightarrow> ret (False, Some err)
       | Inr resp \<Rightarrow>
           if Status resp = 200 then ret (True, None)
           else if Status resp = 404 then ret (False, None)
           else ret (False, Some (Msg (''non 200 status code returned: '' @ int_text (Status resp)))))"

definition http3_GetBlob :: "'s transport \<Rightarrow> string \<Rightarrow> call_env \<Rightarrow> string \<Rightarrow> ('s, bytes \<times> BlobTrace \<times> go_error option) op" where
  "http3_GetBlob do server e hash =
     bnd (do (env_l e) ''GET'' (''https://'' @ server @ ''/get/'' @ hash @ ''?trace=true'')) (\<lambda>r.
       case r of
         Inl err \<Rightarrow> ret ([], NewBlobTrace e nameHttp3, Some err)
       | Inr resp \<Rightarrow>
           if Status resp = 404 then ret ([], NewBlobTrace e nameHttp3, Some ErrBlobNotFound)
           else if Status resp \<noteq> 200 then ret ([], NewBlobTrace e nameHttp3, Some (Msg (''non 200 status code returned: '' @ int_text (Status resp))))
           else
             (case (if Via resp \<noteq> [] then Deserialize (Via resp) else Inr (NewBlobTrace e nameHttp3)) of
                Inl err \<Rightarrow> ret ([], NewBlobTrace e nameHttp3, Some err)
              | Inr trace \<Rightarrow>
                  (case BodyErr resp of
                     Some err \<Rightarrow> ret ([], BlobTrace_Stack (env_r e) nameHttp3 trace, Some err)
                   | None \<Rightarrow> ret (Body resp, BlobTrace_Stack (env_r e) nameHttp3 trace, None))))"

text \<open>The times of \<open>NotFoundCache\<close> are seconds; \<open>client_err\<close> is the error of \<open>getClient\<close> (loading the system's certificates).\<close>

record 's http3_Store =
  NotFoundCache :: "string \<rightharpoonup> int"
  h3_now :: int
  h3_net :: 's

definition on_net :: "('s, 'a) op \<Rightarrow> ('s http3_Store, 'a) op" where
  "on_net = zoom h3_net (\<lambda>n s. s\<lparr>h3_net := n\<rparr>)"

definition http3_Store_Has :: "go_error option \<Rightarrow> 's transport \<Rightarrow> string \<Rightarrow> string \<Rightarrow> ('s http3_Store, bool \<times> go_error option) op" where
  "http3_Store_Has client_err do server hash =
     (case client_err of Some err \<Rightarrow> ret (False, Some err) | None \<Rightarrow> on_net (http3_HasBlob do server hash))"

fun has_sub :: "string \<Rightarrow> string \<Rightarrow> bool" where
  "has_sub p [] = (p = [])"
| "has_sub p (c # s) = (take (length p) (c # s) = p \<or> has_sub p s)"

definition http3_Store_Get :: "go_error option \<Rightarrow> 's transport \<Rightarrow> string \<Rightarrow> call_env \<Rightarrow> string \<Rightarrow> ('s http3_Store, bytes \<times> BlobTrace \<times> go_error option) op" where
  "http3_Store_Get client_err do server e hash =
     bnd get_st (\<lambda>p.
       if (case NotFoundCache p hash of Some lastChecked \<Rightarrow> lastChecked > h3_now p - 300 | None \<Rightarrow> False)
       then ret ([], NewBlobTrace e (nameHttp3 @ ''-notfoundcache''), Some ErrBlobNotFound)
       else
         bnd (case client_err of
                Some err \<Rightarrow> if has_sub ''blob not found'' (Error err)
                            then modify (\<lambda>p. p\<lparr>NotFoundCache := (NotFoundCache p)(hash \<mapsto> h3_now p)\<rparr>) else ret ()
              | None \<Rightarrow> ret ()) (\<lambda>_.
           case client_err of
             Some err \<Rightarrow> ret ([], NewBlobTrace e nameHttp3, Some err)
           | None \<Rightarrow> on_net (http3_GetBlob do server e hash)))"

definition http3_Store_Put :: "string \<Rightarrow> bytes \<Rightarrow> ('s, go_error option) op" where
  "http3_Store_Put hash blob = ret (Some ErrNotImplemented)"

definition http3_Store_PutSD :: "string \<Rightarrow> bytes \<Rightarrow> ('s, go_error option) op" where
  "http3_Store_PutSD hash blob = ret (Some ErrNotImplemented)"

definition http3_Store_Delete :: "string \<Rightarrow> ('s, go_error option) op" where
  "http3_Store_Delete hash = ret (Some ErrNotImplemented)"

end
