(* ===== verification/Remote_Correct.thy ===== *)
theory Remote_Correct
  imports Remote_Stores
begin

text \<open>
  \<open>S3Store\<close> implements the store contract for hashes of at least eight characters, given what S3 documents; what a short hash does; and that
  the HTTP3 store's cache of missing blobs stays empty.
\<close>

section \<open>S3\<close>

locale s3_laws =
  fixes api :: "'w s3_api" and winv :: "'w \<Rightarrow> bool" and objs :: "'w \<Rightarrow> string \<Rightarrow> content"
  assumes NewSession_ok: "winv w \<Longrightarrow> \<exists>w'. s3_NewSession api w = (None, w') \<and> winv w' \<and> objs w' = objs w"
    and HeadObject_ok: "winv w \<Longrightarrow> \<exists>w'. s3_HeadObject api b k w = (if objs w b k = None then Some HeadNotFound else None, w') \<and> winv w' \<and> objs w' = objs w"
    and Download_ok: "winv w \<Longrightarrow> \<exists>w'. s3_Download api b k w = (case objs w b k of None \<Rightarrow> ([], Some NoSuchKey) | Some x \<Rightarrow> (x, None), w') \<and> winv w' \<and> objs w' = objs w"
    and Upload_ok: "winv w \<Longrightarrow> \<exists>w'. s3_Upload api b k x w = (None, w') \<and> winv w' \<and> objs w' = (objs w)(b := (objs w b)(k \<mapsto> x))"
    and Delete_ok: "winv w \<Longrightarrow> \<exists>w'. s3_DeleteObject api b k w = (None, w') \<and> winv w' \<and> objs w' = (objs w)(b := (objs w b)(k := None))"
begin

definition s3_inv :: "'w S3Store \<Rightarrow> bool" where
  "s3_inv s \<longleftrightarrow> winv (world s)"

definition s3_content :: "'w S3Store \<Rightarrow> content" where
  "s3_content s = objs (world s) (bucket s)"

lemma s3_init:
  assumes "s3_inv s"
  shows "\<exists>s'. S3Store_initOnce api s = (Ret None, s') \<and> s3_inv s' \<and> bucket s' = bucket s \<and> objs (world s') = objs (world s)"
proof (cases "session s")
  case True
  with assms show ?thesis by (auto simp: S3Store_initOnce_def bnd_def get_st_def ret_def)
next
  case False
  from NewSession_ok [of "world s"] assms obtain w' where "s3_NewSession api (world s) = (None, w')" "winv w'" "objs w' = objs (world s)"
    by (auto simp: s3_inv_def)
  with False show ?thesis
    by (auto simp: S3Store_initOnce_def bnd_def get_st_def ret_def modify_def s3_call_def s3_inv_def)
qed

text \<open>Every operation starts with \<open>initOnce\<close>, checks the hash's length in a log line, and makes one call.\<close>

lemma s3_sublocale:
  assumes s: "s3_inv s" and h: "8 \<le> length h"
  shows "\<exists>s'. S3Store_Has api h s = (Ret (s3_content s h \<noteq> None, None), s') \<and> s3_inv s' \<and> s3_content s' = s3_content s"
    "\<exists>s'. S3Store_Get api e h s = (Ret (case s3_content s h of None \<Rightarrow> ([], NewBlobTrace e nameS3, Some ErrBlobNotFound) | Some b \<Rightarrow> (b, NewBlobTrace e nameS3, None)), s')
       \<and> s3_inv s' \<and> s3_content s' = s3_content s"
    "\<exists>s'. S3Store_Put api h b s = (Ret None, s') \<and> s3_inv s' \<and> s3_content s' = (s3_content s)(h \<mapsto> b)"
    "\<exists>s'. S3Store_Delete api h s = (Ret None, s') \<and> s3_inv s' \<and> s3_content s' = (s3_content s)(h := None)"
proof -
  from s3_init [OF s] obtain s1 where
    s1: "S3Store_initOnce api s = (Ret None, s1)" "winv (world s1)" "bucket s1 = bucket s" "objs (world s1) = objs (world s)"
    by (auto simp: s3_inv_def)
  note defs = bnd_def get_st_def ret_def s3_call_def s3_inv_def s3_content_def
  show "\<exists>s'. S3Store_Has api h s = (Ret (s3_content s h \<noteq> None, None), s') \<and> s3_inv s' \<and> s3_content s' = s3_content s"
    using s1 HeadObject_ok [OF s1(2), of "bucket s" h] by (auto simp: S3Store_Has_def defs)
  show "\<exists>s'. S3Store_Get api e h s = (Ret (case s3_content s h of None \<Rightarrow> ([], NewBlobTrace e nameS3, Some ErrBlobNotFound) | Some b \<Rightarrow> (b, NewBlobTrace e nameS3, None)), s')
       \<and> s3_inv s' \<and> s3_content s' = s3_content s"
    using s1 h Download_ok [OF s1(2), of "bucket s" h] by (auto simp: S3Store_Get_def defs split: option.splits)
  show "\<exists>s'. S3Store_Put api h b s = (Ret None, s') \<and> s3_inv s' \<and> s3_content s' = (s3_content s)(h \<mapsto> b)"
    using s1 h Upload_ok [OF s1(2), of "bucket s" h b] by (auto simp: S3Store_Put_def defs)
  show "\<exists>s'. S3Store_Delete api h s = (Ret None, s') \<and> s3_inv s' \<and> s3_content s' = (s3_content s)(h := None)"
    using s1 h Delete_ok [OF s1(2), of "bucket s" h] by (auto simp: S3Store_Delete_def defs)
qed

end

sublocale s3_laws \<subseteq> s3: live_store "S3Store_ops api" s3_inv s3_content "\<lambda>h. 8 \<le> length h" "\<lambda>_ _. True" "\<lambda>_ _. True"
proof unfold_locales
  fix s e and h :: string and b
  assume s: "s3_inv s" and h: "8 \<le> length h"
  note r = s3_sublocale [OF s h]
  show "\<exists>s'. bs_Has (S3Store_ops api) h s = (Ret (s3_content s h \<noteq> None, None), s') \<and> s3_inv s' \<and> s3_content s' = s3_content s"
    using r(1) by (simp add: S3Store_ops_def)
  show "\<exists>tr s'. bs_Get (S3Store_ops api) e h s = (Ret (b, tr, None), s') \<and> s3_inv s' \<and> s3_content s' = s3_content s"
    if "s3_content s h = Some b"
    using r(2) [of e] that by (auto simp: S3Store_ops_def)
  show "\<exists>tr x s'. bs_Get (S3Store_ops api) e h s = (Ret ([], tr, Some x), s') \<and> not_found x \<and> s3_inv s' \<and> s3_content s' = s3_content s"
    if "s3_content s h = None"
    using r(2) [of e] that by (auto simp: S3Store_ops_def)
  show "\<exists>s'. bs_Put (S3Store_ops api) h b s = (Ret None, s') \<and> s3_inv s' \<and> s3_content s' = (s3_content s)(h \<mapsto> b)"
    using r(3) [of b] by (simp add: S3Store_ops_def)
  show "\<exists>s'. bs_PutSD (S3Store_ops api) h b s = (Ret None, s') \<and> s3_inv s' \<and> s3_content s' = (s3_content s)(h \<mapsto> b)"
    using r(3) [of b] by (simp add: S3Store_ops_def S3Store_PutSD_def)
  show "\<exists>s'. bs_Delete (S3Store_ops api) h s = (Ret None, s') \<and> s3_inv s' \<and> s3_content s' = (s3_content s)(h := None)"
    using r(4) by (simp add: S3Store_ops_def)
qed

context s3_laws
begin

lemma s3_refines:
  assumes "s3_inv s0" "s3_content s0 = Map.empty" "\<forall>c \<in> set cs. call_ok (\<lambda>h. 8 \<le> length h) (\<lambda>_ _. True) (\<lambda>_ _. True) c"
    and "run_calls (S3Store_ops api) cs s0 = (obs, s)"
  shows "ref_trace cs Map.empty obs \<and> s3_content s = fold ref_call cs Map.empty"
  using s3.run_calls_refines [OF assms(1,3,4)] assms(2) by simp

end

text \<open>A service that keeps its objects in a map per bucket.\<close>

definition map_s3 :: "(string \<Rightarrow> content) s3_api" where
  "map_s3 =
     \<lparr>s3_NewSession = (\<lambda>w. (None, w)),
      s3_HeadObject = (\<lambda>b k w. (if w b k = None then Some HeadNotFound else None, w)),
      s3_Download = (\<lambda>b k w. (case w b k of None \<Rightarrow> ([], Some NoSuchKey) | Some x \<Rightarrow> (x, None), w)),
      s3_Upload = (\<lambda>b k x w. (None, w(b := (w b)(k \<mapsto> x)))),
      s3_DeleteObject = (\<lambda>b k w. (None, w(b := (w b)(k := None))))\<rparr>"

interpretation map_s3: s3_laws map_s3 "\<lambda>_. True" "\<lambda>w. w"
  by unfold_locales (auto simp: map_s3_def)

text \<open>
  \<open>S3Store\<close> behaves as a map, for hashes of at least eight characters and any service that keeps the laws S3 documents: every
  sequence of calls on a new store over an empty bucket gets the answers of a plain map.
\<close>

theorem S3Store_refines_map:
  assumes "s3_laws api winv objs" "winv w" "objs w b = Map.empty"
    and "\<forall>c \<in> set cs. call_ok (\<lambda>h. 8 \<le> length h) (\<lambda>_ _. True) (\<lambda>_ _. True) c"
    and "run_calls (S3Store_ops api) cs (NewS3Store b w) = (obs, s)"
  shows "ref_trace cs Map.empty obs \<and> objs (world s) (bucket s) = fold ref_call cs Map.empty"
proof -
  have "s3_laws.s3_inv winv (NewS3Store b w)" using assms(2) by (simp add: s3_laws.s3_inv_def [OF assms(1)] NewS3Store_def)
  from s3_laws.s3_refines [OF assms(1) this _ assms(4,5)] assms(3) show ?thesis
    by (simp add: s3_laws.s3_content_def [OF assms(1)] NewS3Store_def)
qed

theorem S3Store_refines_map_witness:
  "ref_trace [CPut ''12345678'' ''x'', CGet env0 ''12345678''] Map.empty
     (fst (run_calls (S3Store_ops map_s3) [CPut ''12345678'' ''x'', CGet env0 ''12345678''] (NewS3Store ''b'' (\<lambda>_. Map.empty))))"
proof -
  obtain obs s where r: "run_calls (S3Store_ops map_s3) [CPut ''12345678'' ''x'', CGet env0 ''12345678''] (NewS3Store ''b'' (\<lambda>_. Map.empty)) = (obs, s)"
    by (metis surj_pair)
  from S3Store_refines_map [OF map_s3.s3_laws_axioms _ _ _ r] r show ?thesis by simp
qed

section \<open>Short hashes\<close>

lemma S3_Get_short_panics:
  "length h < 8 \<Longrightarrow> session s \<Longrightarrow> S3Store_Get api e h s = (Panic ''slice bounds out of range'', s)"
  by (simp add: S3Store_Get_def S3Store_initOnce_def bnd_def get_st_def ret_def str_prefix_panics panic_def)

lemma CloudFront_Get_short_panics:
  "length h < 8 \<Longrightarrow> CloudFrontROStore_Get do ep e h s = (Panic ''slice bounds out of range'', s)"
  by (simp add: CloudFrontROStore_Get_def bnd_def str_prefix_panics panic_def)

text \<open>
  A hash of fewer than eight characters makes the cloud stores panic in a log line. Behind the HTTP server the panic is swallowed and the client
  receives an empty blob with no error; behind the HTTP3 server, whose workers do not recover, the panic reaches the top of the goroutine.
\<close>

theorem short_hash_over_http:
  assumes "length h < 8" "NewRequest_err up = None" "NewRequest_err h = None" "\<not> mc_Has mc h m"
  shows "(\<exists>tr. bs_Get (NewHttpStore (loopback mc (NewCloudFrontROStore do ep) up) up) e h (s, m) = (Ret ([], tr, None), (s, m)))
     \<and> http3_HandleGetBlob (NewCloudFrontROStore do ep) e h tp s = (Panic ''slice bounds out of range'', s)"
proof -
  have u: "NewRequest_err ((''http://'' @ up) @ ''/blob?hash='' @ h) = None"
    using assms(2,3) by (simp add: NewRequest_err_def code_def split: if_splits)
  have l: "loopback mc (NewCloudFrontROStore do ep) up e' meth ((''http://'' @ up) @ ''/blob?hash='' @ h)
      = bnd (Server_route mc (NewCloudFrontROStore do ep) e' meth ''/blob'' h) (\<lambda>r. ret (Inr r))" for e' meth
    by (simp add: loopback_def Let_def)
  show ?thesis
    using assms u unfolding NewHttpStore_def HttpStore_Get_def Let_def BlobStore.simps l
    by (simp add: Server_route_def recovered_def HandleGetBlob_def bnd_def ret_def default_resp_def NewCloudFrontROStore_def
        CloudFront_Get_short_panics http3_HandleGetBlob_def Let_def)
qed

theorem short_hash_over_http_witness:
  "\<exists>tr. bs_Get (NewHttpStore (loopback set_misses (NewCloudFrontROStore (\<lambda>_ _ _. ret (Inl EOF)) ''http://c/'') ''host'') ''host'') env0 ''abc'' ((), {})
     = (Ret ([], tr, None), ((), {}))"
  using short_hash_over_http [of "''abc''" "''host''" set_misses "{}" "\<lambda>_ _ _. ret (Inl EOF)" "''http://c/''" env0 "()" "[]"]
  by (simp add: NewRequest_err_def code_def set_misses_def)

section \<open>HTTP3\<close>

text \<open>
  The HTTP3 store never remembers a missing blob: the entry is only made for an error of \<open>getClient\<close>, which talks to no server, so
  without such an error \<open>NotFoundCache\<close> stays as it is, whatever the peer answers.
\<close>

theorem http3_NotFoundCache_unused:
  "NotFoundCache (snd (http3_Store_Get None do server e h p)) = NotFoundCache p"
  by (simp add: http3_Store_Get_def bnd_def get_st_def ret_def on_net_def zoom_def split: prod.splits option.splits)

end
