(* ===== verification/Uploader.thy ===== *)
theory Uploader
  imports Db_Store Peer
begin

text \<open>
  The uploader (src/reflector/uploader.go): \<open>Upload\<close> lists the files to upload, asks the database which are known, and hands the others to a pool of
  workers over an unbuffered channel; the workers report to a counter over a second unbuffered channel; \<open>Stop\<close> may come at any time.

  The sequential part of \<open>Upload\<close> is the operation \<open>Upload_begin\<close>. The concurrent part is the labelled step relation \<open>upload_step\<close> on the record \<open>Uploader\<close>, which holds
  the program counters of the goroutines beside the shared state: a step is one call of the operating system or of the store, or one rendezvous on a channel, so
  every interleaving of the goroutines is a run. A panic in a goroutine ends the process (\<open>u_crashed\<close>).
\<close>

section \<open>Files to upload\<close>

definition os_IsRegular :: "string \<Rightarrow> fsys \<Rightarrow> (go_error + bool) \<times> fsys" where
  "os_IsRegular path = os_call (\<lambda>fs. let p = os_comps path in
     (if under_file fs p then Inl (Msg ''not a directory'')
      else if map_of (files fs) p \<noteq> None then Inr True
      else if fs_dir fs p then Inr False
      else Inl ErrNotExist, fs))"

text \<open>The entries of an open directory, with whether they are directories, in the order of the tables.\<close>

definition os_Readdir :: "string \<Rightarrow> fsys \<Rightarrow> (go_error + (string \<times> bool) list) \<times> fsys" where
  "os_Readdir path = os_call (\<lambda>fs. let d = os_comps path; child = (\<lambda>q. length q = Suc (length d) \<and> take (length d) q = d) in
     (Inr (map (\<lambda>q. (last q, False)) (filter child (map fst (files fs))) @ map (\<lambda>q. (last q, True)) (filter child (dirs fs))), fs))"

definition fs_op :: "(fsys \<Rightarrow> 'a \<times> fsys) \<Rightarrow> (fsys, 'a) op" where
  "fs_op f s = (case f s of (a, s') \<Rightarrow> (Ret a, s'))"

definition getPaths :: "string \<Rightarrow> (fsys, go_error + string list) op" where
  "getPaths dirOrFilePath =
     bnd (fs_op (os_IsRegular dirOrFilePath)) (\<lambda>info.
       case info of
         Inl err \<Rightarrow> ret (Inl err)
       | Inr True \<Rightarrow> ret (Inr [dirOrFilePath])
       | Inr False \<Rightarrow>
           bnd (fs_op (os_call (\<lambda>fs. (Inr (), fs)))) (\<lambda>r. \<comment> \<open>Open\<close>
             case r of
               Inl err \<Rightarrow> ret (Inl err)
             | Inr _ \<Rightarrow>
                 bnd (fs_op (os_Readdir dirOrFilePath)) (\<lambda>r.
                   case r of
                     Inl err \<Rightarrow> ret (Inl err)
                   | Inr entries \<Rightarrow>
                       bnd (fs_op (os_call (\<lambda>fs. (Inr (), fs)))) (\<lambda>r. \<comment> \<open>Close\<close>
                         case r of
                           Inl err \<Rightarrow> ret (Inl err)
                         | Inr _ \<Rightarrow> ret (Inr (map (\<lambda>(name, _). dirOrFilePath @ ''/'' @ name) (filter (\<lambda>(_, isDir). \<not> isDir) entries)))))))"

section \<open>State\<close>

datatype increment = sdInc | blobInc | errInc

record Summary =
  Total :: int
  AlreadyStored :: int
  Sd :: int
  Blob :: int
  Err :: int

text \<open>
  Where a worker stands: at its select, before \<open>ReadFile\<close>, before the store call, in \<open>inc\<close>, before \<open>os.Remove\<close>, or finished. Where \<open>Upload\<close>
  stands: in the loop over the paths, waiting for the workers (the path channel is closed), waiting for the counter (both are closed), or returned.
\<close>

datatype worker_pc = WIdle | WRead string | WPut string bytes | WInc string increment | WRemove string | WQuit

datatype upload_pc = MSend "string list" | MWait | MCount | MDone

record 's Uploader =
  u_store :: 's
  u_fs :: fsys
  u_count :: Summary
  u_stopped :: bool
  u_main :: upload_pc
  u_workers :: "worker_pc list"
  u_counting :: bool
  u_crashed :: "string option"

definition no_count :: Summary where
  "no_count = \<lparr>Total = 0, AlreadyStored = 0, Sd = 0, Blob = 0, Err = 0\<rparr>"

text \<open>\<open>Upload\<close> up to the start of the goroutines: the paths, the known hashes and the first counts.\<close>

definition Upload_begin :: "bool \<Rightarrow> string \<Rightarrow> ('s DBBackedStore \<times> fsys, go_error + string list \<times> string set \<times> Summary) op" where
  "Upload_begin skipExistsCheck dirOrFilePath =
     bnd (on_snd (getPaths dirOrFilePath)) (\<lambda>r.
       case r of
         Inl err \<Rightarrow> ret (Inl err)
       | Inr paths \<Rightarrow>
           let count = no_count\<lparr>Total := int (length paths)\<rparr>; hashes = map path_Base paths in
           if skipExistsCheck then ret (Inr (paths, {}, count))
           else
             bnd (on_fst (on_db (HasBlobs hashes False))) (\<lambda>(exists, err).
               case err of
                 Some err \<Rightarrow> ret (Inl err)
               | None \<Rightarrow> ret (Inr (paths, exists, count\<lparr>AlreadyStored := int (card exists)\<rparr>))))"

definition Upload_go :: "nat \<Rightarrow> string list \<Rightarrow> Summary \<Rightarrow> 's \<Rightarrow> fsys \<Rightarrow> 's Uploader" where
  "Upload_go workers paths count s f =
     \<lparr>u_store = s, u_fs = f, u_count = count, u_stopped = False, u_main = MSend paths, u_workers = replicate workers WIdle, u_counting = True, u_crashed = None\<rparr>"

section \<open>The workers and the counter\<close>

text \<open>\<open>uploadBlob\<close> up to the store call: the file is read and its content compared with its name.\<close>

definition uploadBlob_read :: "string \<Rightarrow> fsys \<Rightarrow> worker_pc \<times> fsys" where
  "uploadBlob_read filepath f =
     (case os_ReadFile filepath f of
        (Inl err, f') \<Rightarrow> (WInc filepath errInc, f')
      | (Inr blob, f') \<Rightarrow> (if BlobHash blob \<noteq> path_Base filepath then WInc filepath errInc else WPut filepath blob, f'))"

text \<open>The store call of \<open>uploadBlob\<close> and the increment that follows.\<close>

definition uploadBlob_put :: "'s BlobStore \<Rightarrow> bytes \<Rightarrow> ('s, increment) op" where
  "uploadBlob_put st blob =
     (if IsValidJSON blob then bnd (bs_PutSD st (BlobHash blob) blob) (\<lambda>err. ret (if err \<noteq> None then errInc else sdInc))
      else bnd (bs_Put st (BlobHash blob) blob) (\<lambda>err. ret (if err \<noteq> None then errInc else blobInc)))"

text \<open>The worker after \<open>uploadBlob\<close> has returned.\<close>

definition after_upload :: "bool \<Rightarrow> string \<Rightarrow> increment \<Rightarrow> worker_pc" where
  "after_upload deleteBlobsAfterUpload filepath k = (if k \<noteq> errInc \<and> deleteBlobsAfterUpload then WRemove filepath else WIdle)"

fun counter :: "increment \<Rightarrow> Summary \<Rightarrow> Summary" where
  "counter sdInc c = c\<lparr>Sd := Sd c + 1\<rparr>"
| "counter blobInc c = c\<lparr>Blob := Blob c + 1\<rparr>"
| "counter errInc c = c\<lparr>Err := Err c + 1\<rparr>"

definition set_worker :: "nat \<Rightarrow> worker_pc \<Rightarrow> 's Uploader \<Rightarrow> 's Uploader" where
  "set_worker i w u = u\<lparr>u_workers := (u_workers u)[i := w]\<rparr>"

definition at_worker :: "'s Uploader \<Rightarrow> nat \<Rightarrow> worker_pc \<Rightarrow> bool" where
  "at_worker u i w \<longleftrightarrow> u_crashed u = None \<and> i < length (u_workers u) \<and> u_workers u ! i = w"

fun sending :: "upload_pc \<Rightarrow> bool" where
  "sending (MSend ps) = True"
| "sending _ = False"

datatype u_label = LStop | LMain | LWorker nat | LCounter

inductive upload_step :: "'s BlobStore \<Rightarrow> bool \<Rightarrow> string set \<Rightarrow> u_label \<Rightarrow> 's Uploader \<Rightarrow> 's Uploader \<Rightarrow> bool"
  for st :: "'s BlobStore" and del :: bool and ex :: "string set" where
  Stop: "u_crashed u = None \<Longrightarrow> \<not> u_stopped u \<Longrightarrow> upload_step st del ex LStop u (u\<lparr>u_stopped := True\<rparr>)"
| Skip: "u_crashed u = None \<Longrightarrow> u_main u = MSend (f # ps) \<Longrightarrow> path_Base f \<in> ex \<Longrightarrow> upload_step st del ex LMain u (u\<lparr>u_main := MSend ps\<rparr>)"
| Send: "at_worker u i WIdle \<Longrightarrow> u_main u = MSend (f # ps) \<Longrightarrow> path_Base f \<notin> ex \<Longrightarrow>
    upload_step st del ex LMain u (set_worker i (WRead f) (u\<lparr>u_main := MSend ps\<rparr>))"
| Break: "u_crashed u = None \<Longrightarrow> u_main u = MSend (f # ps) \<Longrightarrow> path_Base f \<notin> ex \<Longrightarrow> u_stopped u \<Longrightarrow> upload_step st del ex LMain u (u\<lparr>u_main := MWait\<rparr>)"
| Close: "u_crashed u = None \<Longrightarrow> u_main u = MSend [] \<Longrightarrow> upload_step st del ex LMain u (u\<lparr>u_main := MWait\<rparr>)"
| Wait: "u_crashed u = None \<Longrightarrow> u_main u = MWait \<Longrightarrow> set (u_workers u) \<subseteq> {WQuit} \<Longrightarrow> upload_step st del ex LMain u (u\<lparr>u_main := MCount\<rparr>)"
| Return: "u_crashed u = None \<Longrightarrow> u_main u = MCount \<Longrightarrow> \<not> u_counting u \<Longrightarrow> upload_step st del ex LMain u (u\<lparr>u_main := MDone, u_stopped := True\<rparr>)"
| Quit: "at_worker u i WIdle \<Longrightarrow> u_stopped u \<or> \<not> sending (u_main u) \<Longrightarrow> upload_step st del ex (LWorker i) u (set_worker i WQuit u)"
| Read: "at_worker u i (WRead p) \<Longrightarrow> uploadBlob_read p (u_fs u) = (w, f) \<Longrightarrow> upload_step st del ex (LWorker i) u (set_worker i w (u\<lparr>u_fs := f\<rparr>))"
| Put: "at_worker u i (WPut p b) \<Longrightarrow> uploadBlob_put st b (u_store u) = (Ret k, s) \<Longrightarrow>
    upload_step st del ex (LWorker i) u (set_worker i (WInc p k) (u\<lparr>u_store := s\<rparr>))"
| Crash: "at_worker u i (WPut p b) \<Longrightarrow> uploadBlob_put st b (u_store u) = (Panic m, s) \<Longrightarrow>
    upload_step st del ex (LWorker i) u (u\<lparr>u_store := s, u_crashed := Some m\<rparr>)"
| Inc: "at_worker u i (WInc p k) \<Longrightarrow> u_counting u \<Longrightarrow>
    upload_step st del ex (LWorker i) u (set_worker i (after_upload del p k) (u\<lparr>u_count := counter k (u_count u)\<rparr>))"
| NoInc: "at_worker u i (WInc p k) \<Longrightarrow> u_stopped u \<Longrightarrow> upload_step st del ex (LWorker i) u (set_worker i (after_upload del p k) u)"
| Remove: "at_worker u i (WRemove p) \<Longrightarrow> os_Remove p (u_fs u) = (r, f) \<Longrightarrow> upload_step st del ex (LWorker i) u (set_worker i WIdle (u\<lparr>u_fs := f\<rparr>))"
| CountEnd: "u_crashed u = None \<Longrightarrow> u_counting u \<Longrightarrow> u_stopped u \<or> u_main u = MCount \<Longrightarrow> upload_step st del ex LCounter u (u\<lparr>u_counting := False\<rparr>)"

text \<open>Runs: with and without a \<open>Stop\<close>.\<close>

definition upload_any :: "'s BlobStore \<Rightarrow> bool \<Rightarrow> string set \<Rightarrow> 's Uploader \<Rightarrow> 's Uploader \<Rightarrow> bool" where
  "upload_any st del ex u u' \<longleftrightarrow> (\<exists>l. upload_step st del ex l u u')"

definition upload_nostop :: "'s BlobStore \<Rightarrow> bool \<Rightarrow> string set \<Rightarrow> 's Uploader \<Rightarrow> 's Uploader \<Rightarrow> bool" where
  "upload_nostop st del ex u u' \<longleftrightarrow> (\<exists>l. l \<noteq> LStop \<and> upload_step st del ex l u u')"

end
