(* ===== verification/Uploader_Correct.thy ===== *)
theory Uploader_Correct
  imports Uploader Db_Store_Correct Remote_Correct
begin

text \<open>
  The uploader: every run ends and only with the return of \<open>Upload\<close> (or a panic of the store), the counts add up, and a local file is
  removed only when the store holds its blob, whatever fails and in whatever order the goroutines run.
\<close>

section \<open>Runs end\<close>

lemmas u_defs = set_worker_def at_worker_def

lemma at_workerD: "at_worker u i w \<Longrightarrow> u_crashed u = None" "at_worker u i w \<Longrightarrow> w \<in> set (u_workers u)"
  by (auto simp: at_worker_def)

lemma uploadBlob_read_cases:
  assumes "uploadBlob_read p f = (w, f')"
  obtains "w = WInc p errInc" | b where "w = WPut p b" "BlobHash b = path_Base p" "map_of (files f) (os_comps p) = Some b"
  using assms by (auto simp: uploadBlob_read_def os_ReadFile_def os_call_def Let_def split: list.splits option.splits sum.splits if_splits)

fun w_rank :: "worker_pc \<Rightarrow> nat" where
  "w_rank WIdle = 1"
| "w_rank (WRead p) = 5"
| "w_rank (WPut p b) = 4"
| "w_rank (WInc p k) = 3"
| "w_rank (WRemove p) = 2"
| "w_rank WQuit = 0"

fun m_rank :: "upload_pc \<Rightarrow> nat" where
  "m_rank (MSend ps) = 6 * length ps + 3"
| "m_rank MWait = 2"
| "m_rank MCount = 1"
| "m_rank MDone = 0"

definition u_rank :: "'s Uploader \<Rightarrow> nat" where
  "u_rank u = m_rank (u_main u) + sum_list (map w_rank (u_workers u)) + of_bool (\<not> u_stopped u) + of_bool (u_counting u) + of_bool (u_crashed u = None)"

lemma rank_set_worker:
  assumes "at_worker u i w" "u_workers v = u_workers u"
  shows "sum_list (map w_rank (u_workers (set_worker i w' v))) + w_rank w = sum_list (map w_rank (u_workers u)) + w_rank w'"
proof -
  have i: "i < length (map w_rank (u_workers u))" "map w_rank (u_workers u) ! i = w_rank w" using assms by (auto simp: at_worker_def)
  then have "w_rank w \<le> sum_list (map w_rank (u_workers u))" by (metis elem_le_sum_list)
  with i sum_list_update [OF i(1), of "w_rank w'"] assms(2) show ?thesis by (simp add: set_worker_def map_update)
qed

lemma rank_after: "w_rank (after_upload del p k) < 3"
  by (simp add: after_upload_def)

lemma step_rank: "upload_step st del ex l u u' \<Longrightarrow> u_rank u' < u_rank u"
proof (induction rule: upload_step.induct)
  case (Send u i f ps)
  from rank_set_worker [OF Send(1), of "u\<lparr>u_main := MSend ps\<rparr>" "WRead f"] Send(2) show ?case by (simp add: u_rank_def set_worker_def)
next
  case (Quit u i)
  from rank_set_worker [OF Quit(1), of u WQuit] show ?case by (simp add: u_rank_def set_worker_def)
next
  case (Read u i p w f)
  from rank_set_worker [OF Read(1), of "u\<lparr>u_fs := f\<rparr>" w] Read(2) show ?case by (auto elim!: uploadBlob_read_cases simp: u_rank_def set_worker_def)
next
  case (Put u i p b k s)
  from rank_set_worker [OF Put(1), of "u\<lparr>u_store := s\<rparr>" "WInc p k"] show ?case by (simp add: u_rank_def set_worker_def)
next
  case (Inc u i p k)
  from rank_set_worker [OF Inc(1), of u "after_upload del p k"] rank_after [of del p k] show ?case by (simp add: u_rank_def set_worker_def)
next
  case (NoInc u i p k)
  from rank_set_worker [OF NoInc(1), of u "after_upload del p k"] rank_after [of del p k] show ?case by (simp add: u_rank_def set_worker_def)
next
  case (Remove u i p r f)
  from rank_set_worker [OF Remove(1), of "u\<lparr>u_fs := f\<rparr>" WIdle] show ?case by (simp add: u_rank_def set_worker_def)
qed (auto simp: u_rank_def at_worker_def)

text \<open>How far the goroutines may be apart.\<close>

definition u_sync :: "'s Uploader \<Rightarrow> bool" where
  "u_sync u \<longleftrightarrow> u_workers u \<noteq> []
     \<and> (WQuit \<in> set (u_workers u) \<longrightarrow> u_stopped u \<or> \<not> sending (u_main u))
     \<and> (\<not> u_counting u \<longrightarrow> u_stopped u \<or> u_main u = MCount)
     \<and> (u_main u = MCount \<or> u_main u = MDone \<longrightarrow> set (u_workers u) = {WQuit})
     \<and> (u_main u = MDone \<longrightarrow> \<not> u_counting u \<and> u_stopped u)"

lemma sync_set_worker:
  assumes "u_sync u" "at_worker u i w" "w \<noteq> WQuit" "u_workers v = u_workers u" "u_main v = u_main u" "u_stopped v = u_stopped u" "u_counting v = u_counting u"
    and "w' = WQuit \<longrightarrow> u_stopped u \<or> \<not> sending (u_main u)"
  shows "u_sync (set_worker i w' v)"
proof -
  have "u_main u \<noteq> MCount" "u_main u \<noteq> MDone" using assms(1-3) by (auto simp: u_sync_def dest: at_workerD)
  then show ?thesis using assms set_update_subset_insert [of "u_workers u" i w']
    by (auto simp: u_sync_def set_worker_def)
qed

lemma step_sync: "upload_step st del ex l u u' \<Longrightarrow> u_sync u \<Longrightarrow> u_sync u'"
proof (induction rule: upload_step.induct)
  case (Wait u)
  then have "set (u_workers u) = {WQuit}" by (auto simp: u_sync_def subset_singleton_iff)
  with Wait show ?case by (auto simp: u_sync_def)
next
  case (Send u i f ps)
  then have "u_sync (set_worker i (WRead f) u)" by (intro sync_set_worker) auto
  with Send(2) show ?case by (auto simp: u_sync_def set_worker_def)
next
  case (Quit u i)
  then show ?case by (intro sync_set_worker) auto
next
  case (Read u i p w f)
  then show ?case by (intro sync_set_worker [where w = "WRead p"]) (auto elim: uploadBlob_read_cases)
next
  case (Put u i p b k s)
  then show ?case by (intro sync_set_worker [where w = "WPut p b"]) auto
next
  case (Inc u i p k)
  then show ?case by (intro sync_set_worker [where w = "WInc p k"]) (auto simp: after_upload_def)
next
  case (NoInc u i p k)
  then show ?case by (intro sync_set_worker [where w = "WInc p k"]) (auto simp: after_upload_def)
next
  case (Remove u i p r f)
  then show ?case by (intro sync_set_worker [where w = "WRemove p"]) auto
qed (auto simp: u_sync_def)

lemma can_move: "upload_step st del ex l u u' \<Longrightarrow> \<exists>u'. upload_any st del ex u u'"
  by (auto simp: upload_any_def)

lemma worker_moves:
  assumes s: "u_sync u" and w: "at_worker u i w" "w \<noteq> WIdle" "w \<noteq> WQuit"
  shows "\<exists>u'. upload_any st del ex u u'"
proof (cases w)
  case (WRead p)
  obtain w' f where "uploadBlob_read p (u_fs u) = (w', f)" by (metis surj_pair)
  from can_move [OF upload_step.Read [OF w(1) [unfolded WRead] this]] show ?thesis .
next
  case (WPut p b)
  obtain r s' where r: "uploadBlob_put st b (u_store u) = (r, s')" by (metis surj_pair)
  show ?thesis
  proof (cases r)
    case (Ret k)
    from can_move [OF upload_step.Put [OF w(1) [unfolded WPut] r [unfolded this]]] show ?thesis .
  next
    case (Panic m)
    from can_move [OF upload_step.Crash [OF w(1) [unfolded WPut] r [unfolded this]]] show ?thesis .
  qed
next
  case (WInc p k)
  have "u_counting u \<or> u_stopped u" using s w at_workerD(2) [OF w(1)] by (auto simp: u_sync_def)
  with WInc w(1) show ?thesis by (auto intro: can_move [OF upload_step.Inc] can_move [OF upload_step.NoInc])
next
  case (WRemove p)
  obtain r f where "os_Remove p (u_fs u) = (r, f)" by (metis surj_pair)
  from can_move [OF upload_step.Remove [OF w(1) [unfolded WRemove] this]] show ?thesis .
qed (use w in auto)

lemma upload_progress:
  assumes s: "u_sync u" and c: "u_crashed u = None" and m: "u_main u \<noteq> MDone"
  shows "\<exists>u'. upload_any st del ex u u'"
proof (cases "\<exists>w \<in> set (u_workers u). w \<noteq> WIdle \<and> w \<noteq> WQuit")
  case True
  then obtain i where "at_worker u i (u_workers u ! i)" "u_workers u ! i \<noteq> WIdle" "u_workers u ! i \<noteq> WQuit" using c by (auto simp: at_worker_def in_set_conv_nth)
  with s show ?thesis by (rule worker_moves)
next
  case rest: False
  from s obtain w0 ws where ne: "u_workers u = w0 # ws" by (auto simp: u_sync_def neq_Nil_conv)
  have idle: "at_worker u i WIdle" if "i < length (u_workers u)" "u_workers u ! i \<noteq> WQuit" for i
    using that rest c nth_mem by (force simp: at_worker_def)
  show ?thesis
  proof (cases "u_main u")
    case (MSend ps)
    show ?thesis
    proof (cases ps)
      case Nil
      with MSend c show ?thesis by (intro can_move [OF upload_step.Close]) auto
    next
      case (Cons f ps')
      consider "path_Base f \<in> ex" | "u_stopped u" "path_Base f \<notin> ex" | "\<not> u_stopped u" "path_Base f \<notin> ex" by blast
      then show ?thesis
      proof cases
        case 3
        then have "at_worker u 0 WIdle" using s MSend ne by (intro idle) (auto simp: u_sync_def)
        with 3 MSend Cons show ?thesis by (intro can_move [OF upload_step.Send]) auto
      next
        case 1
        with MSend Cons c show ?thesis by (intro can_move [OF upload_step.Skip]) auto
      next
        case 2
        with MSend Cons c show ?thesis by (intro can_move [OF upload_step.Break]) auto
      qed
    qed
  next
    case MWait
    show ?thesis
    proof (cases "set (u_workers u) \<subseteq> {WQuit}")
      case True
      with MWait c show ?thesis by (intro can_move [OF upload_step.Wait])
    next
      case False
      then obtain i where "i < length (u_workers u)" "u_workers u ! i \<noteq> WQuit" by (metis in_set_conv_nth insertCI subsetI)
      from idle [OF this] MWait show ?thesis by (intro can_move [OF upload_step.Quit]) auto
    qed
  next
    case MCount
    show ?thesis
    proof (cases "u_counting u")
      case True
      with MCount c show ?thesis by (intro can_move [OF upload_step.CountEnd]) auto
    next
      case False
      with MCount c show ?thesis by (intro can_move [OF upload_step.Return])
    qed
  qed (use m in simp)
qed

lemma upload_ended:
  assumes "u_sync u" "u_crashed u \<noteq> None \<or> u_main u = MDone"
  shows "\<not> upload_any st del ex u u'"
proof
  assume "upload_any st del ex u u'"
  then obtain l where l: "upload_step st del ex l u u'" by (auto simp: upload_any_def)
  have q: "\<not> at_worker u i w" if "w \<noteq> WQuit" for i w
    using assms that at_workerD [of u i w] by (auto simp: u_sync_def)
  from l assms q show False by cases (simp_all add: u_sync_def)
qed

lemma run_sync: "(upload_any st del ex)\<^sup>*\<^sup>* u u' \<Longrightarrow> u_sync u \<Longrightarrow> u_sync u'"
  by (induction rule: rtranclp_induct) (auto simp: upload_any_def dest: step_sync)

lemma sync_go: "0 < n \<Longrightarrow> u_sync (Upload_go n ps c s f)"
  by (simp add: u_sync_def Upload_go_def)

lemma no_infinite_upload: "\<not> (\<exists>run. \<forall>i. upload_any st del ex (run i) (run (Suc i)))"
proof
  assume "\<exists>run. \<forall>i. upload_any st del ex (run i) (run (Suc i))"
  then obtain run where "\<forall>i. upload_any st del ex (run i) (run (Suc i))" ..
  then have "u_rank (run (Suc i)) < u_rank (run i)" for i by (auto simp: upload_any_def dest: step_rank)
  then have "(run (Suc i), run i) \<in> measure u_rank" for i by simp
  then show False using wf_iff_no_infinite_down_chain wf_measure by blast
qed

text \<open>
  C8. \<open>Upload\<close> always returns: with at least one worker, whatever the interleaving of its goroutines and whenever \<open>Stop\<close> comes, no run of the uploader
  is infinite, and a run that can go no further has returned from \<open>Upload\<close> or was ended by a panic of the store: there is no deadlock on the
  two channels.
\<close>

theorem Upload_returns:
  assumes "0 < workers"
    and "(upload_any st del ex)\<^sup>*\<^sup>* (Upload_go workers paths count s f) u"
  shows "((\<nexists>u'. upload_any st del ex u u') \<longleftrightarrow> u_main u = MDone \<or> u_crashed u \<noteq> None)
    \<and> \<not> (\<exists>run. run 0 = u \<and> (\<forall>i. upload_any st del ex (run i) (run (Suc i))))"
proof (intro conjI)
  have s: "u_sync u" by (rule run_sync [OF assms(2) sync_go [OF assms(1)]])
  show "(\<nexists>u'. upload_any st del ex u u') \<longleftrightarrow> u_main u = MDone \<or> u_crashed u \<noteq> None"
    using upload_progress [OF s] upload_ended [OF s] by blast
  show "\<not> (\<exists>run. run 0 = u \<and> (\<forall>i. upload_any st del ex (run i) (run (Suc i))))"
    using no_infinite_upload by blast
qed

theorem Upload_returns_witness:
  "\<exists>u'. upload_any NoopStore_ops False {} (Upload_go 1 [''/a''] no_count () empty_fs) u'"
  using Upload_returns [of 1 NoopStore_ops False "{}" "[''/a'']" no_count "()" empty_fs, OF _ rtranclp.rtrancl_refl]
  by (simp add: Upload_go_def)

section \<open>Counts\<close>

definition counted :: "'s Uploader \<Rightarrow> int" where
  "counted u = Sd (u_count u) + Blob (u_count u) + Err (u_count u)"

fun w_busy :: "worker_pc \<Rightarrow> bool" where
  "w_busy (WRead p) = True"
| "w_busy (WPut p b) = True"
| "w_busy (WInc p k) = True"
| "w_busy _ = False"

fun m_todo :: "string set \<Rightarrow> upload_pc \<Rightarrow> string list" where
  "m_todo ex (MSend ps) = filter (\<lambda>p. path_Base p \<notin> ex) ps"
| "m_todo ex _ = []"

text \<open>The files that are counted, in work or still to be handed out.\<close>

definition accounted :: "string set \<Rightarrow> 's Uploader \<Rightarrow> int" where
  "accounted ex u = counted u + int (length (filter w_busy (u_workers u))) + int (length (m_todo ex (u_main u)))"

lemma busy_set_worker:
  assumes "at_worker u i w" "u_workers v = u_workers u"
  shows "length (filter w_busy (u_workers (set_worker i w' v))) + of_bool (w_busy w) = length (filter w_busy (u_workers u)) + of_bool (w_busy w')"
proof -
  let ?xs = "take i (u_workers u)" and ?ys = "drop (Suc i) (u_workers u)"
  have "u_workers u = ?xs @ w # ?ys" using assms by (auto simp: at_worker_def id_take_nth_drop [symmetric])
  moreover have "u_workers (set_worker i w' v) = ?xs @ w' # ?ys"
    using assms by (auto simp: at_worker_def set_worker_def upd_conv_take_nth_drop)
  ultimately obtain xs ys where "u_workers u = xs @ w # ys" "u_workers (set_worker i w' v) = xs @ w' # ys" by blast
  then show ?thesis by simp
qed

lemma counted_counter: "Sd (counter k c) + Blob (counter k c) + Err (counter k c) = Sd c + Blob c + Err c + 1"
  by (cases k) simp_all

lemma after_not_busy [simp]: "\<not> w_busy (after_upload del p k)"
  by (simp add: after_upload_def)

text \<open>Only a \<open>Stop\<close> loses a count; otherwise every step keeps the sum.\<close>

lemma step_accounted:
  assumes "upload_step st del ex l u u'"
  shows "accounted ex u' \<le> accounted ex u \<and> (u_stopped u \<or> accounted ex u' = accounted ex u)"
  using assms
proof (induction rule: upload_step.induct)
  case (Send u i f ps)
  from busy_set_worker [OF Send(1), of "u\<lparr>u_main := MSend ps\<rparr>" "WRead f"] Send(2,3) show ?case by (simp add: accounted_def counted_def set_worker_def)
next
  case (Quit u i)
  from busy_set_worker [OF Quit(1), of u WQuit] show ?case by (simp add: accounted_def counted_def set_worker_def)
next
  case (Read u i p w f)
  from busy_set_worker [OF Read(1), of "u\<lparr>u_fs := f\<rparr>" w] Read(2) show ?case
    by (auto elim!: uploadBlob_read_cases simp: accounted_def counted_def set_worker_def)
next
  case (Put u i p b k s)
  from busy_set_worker [OF Put(1), of "u\<lparr>u_store := s\<rparr>" "WInc p k"] show ?case by (simp add: accounted_def counted_def set_worker_def)
next
  case (Inc u i p k)
  from busy_set_worker [OF Inc(1), of u "after_upload del p k"] counted_counter [of k "u_count u"] show ?case
    by (simp add: accounted_def counted_def set_worker_def)
next
  case (NoInc u i p k)
  from busy_set_worker [OF NoInc(1), of u "after_upload del p k"] NoInc(2) show ?case by (simp add: accounted_def counted_def set_worker_def)
next
  case (Remove u i p r f)
  from busy_set_worker [OF Remove(1), of "u\<lparr>u_fs := f\<rparr>" WIdle] show ?case by (simp add: accounted_def counted_def set_worker_def)
qed (auto simp: accounted_def counted_def)

lemma step_totals: "upload_step st del ex l u u' \<Longrightarrow> Total (u_count u') = Total (u_count u) \<and> AlreadyStored (u_count u') = AlreadyStored (u_count u)"
proof (induction rule: upload_step.induct)
  case (Inc u i p k)
  show ?case by (cases k) (simp_all add: set_worker_def)
qed (simp_all add: set_worker_def)

lemma nostop_run:
  assumes "(upload_nostop st del ex)\<^sup>*\<^sup>* u0 u" "u_sync u0" "\<not> u_stopped u0"
  shows "u_sync u \<and> (u_stopped u \<longrightarrow> u_main u = MDone) \<and> accounted ex u = accounted ex u0
     \<and> Total (u_count u) = Total (u_count u0) \<and> AlreadyStored (u_count u) = AlreadyStored (u_count u0)"
  using assms(1)
proof (induction rule: rtranclp_induct)
  case (step u u')
  then obtain l where l: "l \<noteq> LStop" "upload_step st del ex l u u'" by (auto simp: upload_nostop_def)
  then have "u_main u \<noteq> MDone" using upload_ended [of u st del ex u'] step.IH by (auto simp: upload_any_def)
  with step.IH have "\<not> u_stopped u" by blast
  moreover have "u_stopped u' \<longrightarrow> u_stopped u \<or> u_main u' = MDone" using l(2,1) by cases (simp_all add: set_worker_def)
  ultimately show ?case using step.IH step_sync [OF l(2)] step_accounted [OF l(2)] step_totals [OF l(2)] by auto
qed (use assms in simp)

lemma has_batches_subset:
  "has_batches track dl bs ex ids s = (Ret (Inr (ex', ids')), s') \<Longrightarrow> ex' \<subseteq> ex \<union> (\<Union>b \<in> set bs. set b)"
proof (induction bs arbitrary: ex ids s)
  case Nil
  then show ?case by (simp add: ret_def)
next
  case (Cons b bs)
  from Cons.prems obtain rows s1 where q: "conn_call (query (has_rows track b)) s = (Ret (Inr rows), s1)"
    and r: "has_batches track dl bs (ex \<union> set (map fst rows)) (ids @ concat (map (needs_touch track dl) rows)) s1 = (Ret (Inr (ex', ids')), s')"
    by (auto simp: ret_def elim!: bnd_RetE split: sum.splits)
  from q obtain t where "rows = has_rows track b t"
    by (auto simp: conn_call_def query_def split: option.splits list.splits)
  then have "set (map fst rows) \<subseteq> set b" by (auto simp: has_rows_def Let_def split: trackAccess.splits)
  with Cons.IH [OF r] show ?case by auto
qed

lemma HasBlobs_subset:
  assumes "HasBlobs hs touch s = (Ret (ex, None), s')"
  shows "ex \<subseteq> set hs"
proof -
  from assms obtain ids s1 where "hasBlobs hs s = (Ret (Inr (ex, ids)), s1)"
    by (auto simp: HasBlobs_def Let_def ret_def elim!: bnd_RetE split: sum.splits)
  then have "ex \<subseteq> {} \<union> (\<Union>b \<in> set (batches_of batch_size hs). set b)"
    by (auto simp: hasBlobs_def ret_def get_st_def bnd_def split: if_splits dest: has_batches_subset)
  then show ?thesis by (simp add: batches_of_set batch_size_def)
qed

lemma Upload_begin_spec:
  assumes "Upload_begin skip path z = (Ret (Inr (paths, ex, count)), z')"
  shows "count = no_count\<lparr>Total := int (length paths), AlreadyStored := int (card ex)\<rparr> \<and> ex \<subseteq> set (map path_Base paths)"
proof (cases skip)
  case True
  with assms show ?thesis by (auto simp: Upload_begin_def Let_def ret_def no_count_def elim!: bnd_RetE split: sum.splits)
next
  case False
  with assms obtain z1 where "on_fst (on_db (HasBlobs (map path_Base paths) False)) z1 = (Ret (ex, None), z')"
    and c: "count = no_count\<lparr>Total := int (length paths), AlreadyStored := int (card ex)\<rparr>"
    by (auto simp: Upload_begin_def Let_def ret_def elim!: bnd_RetE split: sum.splits option.splits)
  then obtain s' where "HasBlobs (map path_Base paths) False (dbs_db (fst z1)) = (Ret (ex, None), s')"
    by (auto simp: zoom_def on_db_def split: prod.splits)
  from HasBlobs_subset [OF this] c show ?thesis by simp
qed

lemma length_filter_inj:
  assumes "distinct (map g xs)" "A \<subseteq> set (map g xs)"
  shows "length (filter (\<lambda>x. g x \<notin> A) xs) + card A = length xs"
proof -
  have d: "distinct xs" "inj_on g (set xs)" using assms(1) by (simp_all add: distinct_map)
  let ?B = "{x \<in> set xs. g x \<in> A}"
  have "A = g ` ?B" using assms(2) by auto
  moreover have "inj_on g ?B" using d(2) by (rule inj_on_subset) auto
  ultimately have "card A = card ?B" by (metis card_image)
  moreover have "length (filter (\<lambda>x. g x \<in> A) xs) = card ?B" using distinct_card [OF distinct_filter [OF d(1)], of "\<lambda>x. g x \<in> A"] by simp
  ultimately show ?thesis using sum_length_filter_compl [of "\<lambda>x. g x \<in> A" xs] by simp
qed

text \<open>
  C24. The summary adds up: when \<open>Upload\<close> returns without a \<open>Stop\<close>, every file was skipped as known, uploaded as an sd blob, uploaded as a content blob,
  or failed, and none was counted twice or lost, however the workers were scheduled and whatever failed. (Two paths with the same name would share one entry
  of the map of known hashes, so the names are required to be distinct, as they are in a directory.)
\<close>

theorem Upload_summary:
  assumes "0 < workers" "Upload_begin skip path z = (Ret (Inr (paths, ex, count)), (s, f))" "distinct (map path_Base paths)"
    and "(upload_nostop st del ex)\<^sup>*\<^sup>* (Upload_go workers paths count s f) u" "u_main u = MDone"
  shows "Total (u_count u) = int (length paths)
    \<and> Total (u_count u) = AlreadyStored (u_count u) + Sd (u_count u) + Blob (u_count u) + Err (u_count u)"
proof -
  let ?u0 = "Upload_go workers paths count s f"
  note b = Upload_begin_spec [OF assms(2)]
  have "\<not> u_stopped ?u0" by (simp add: Upload_go_def)
  from nostop_run [OF assms(4) sync_go [OF assms(1)] this]
  have u: "u_sync u" "accounted ex u = accounted ex ?u0" "Total (u_count u) = int (length paths)" "AlreadyStored (u_count u) = int (card ex)"
    using b by (auto simp: Upload_go_def)
  have "filter w_busy (u_workers u) = []" using u(1) assms(5) by (auto simp: u_sync_def filter_empty_conv)
  moreover have "accounted ex ?u0 = int (length (filter (\<lambda>p. path_Base p \<notin> ex) paths))"
    using b by (simp add: accounted_def counted_def Upload_go_def no_count_def)
  ultimately have "Sd (u_count u) + Blob (u_count u) + Err (u_count u) = int (length (filter (\<lambda>p. path_Base p \<notin> ex) paths))"
    using u(2) assms(5) by (simp add: accounted_def counted_def)
  with length_filter_inj [OF assms(3) conjunct2 [OF b]] u(3,4) show ?thesis by simp
qed

text \<open>A run with one worker and one file whose name is not its hash.\<close>

definition wrong_fs :: fsys where
  "wrong_fs = \<lparr>files = [([''d'', ''x''], ''y'')], dirs = [[''d'']], faults = []\<rparr>"

lemma wrong_name_read: "uploadBlob_read ''/d/x'' wrong_fs = (WInc ''/d/x'' errInc, wrong_fs)"
proof -
  have "os_ReadFile ''/d/x'' wrong_fs = (Inr ''y'', wrong_fs)" "path_Base ''/d/x'' = ''x''" by code_simp+
  moreover have "BlobHash ''y'' \<noteq> ''x''"
  proof
    assume "BlobHash ''y'' = ''x''"
    then have "length (BlobHash ''y'') = length ''x''" by (rule arg_cong)
    then show False by simp
  qed
  ultimately show ?thesis by (simp add: uploadBlob_read_def)
qed

lemma wrong_name_run:
  "\<exists>u. (upload_nostop st del {})\<^sup>*\<^sup>* (Upload_go 1 [''/d/x''] c s wrong_fs) u \<and> u_main u = MDone \<and> u_count u = c\<lparr>Err := Err c + 1\<rparr>"
proof -
  let ?u = "\<lambda>m w c k b. \<lparr>u_store = s, u_fs = wrong_fs, u_count = c, u_stopped = b, u_main = m, u_workers = [w], u_counting = k, u_crashed = None\<rparr>"
  let ?S = "upload_nostop st del {}" and ?c = "c\<lparr>Err := Err c + 1\<rparr>"
  have step: "?S u u'" if "upload_step st del {} l u u'" "l \<noteq> LStop" for l u u' using that by (auto simp: upload_nostop_def)
  have go: "Upload_go 1 [''/d/x''] c s wrong_fs = ?u (MSend [''/d/x'']) WIdle c True False" by (simp add: Upload_go_def)
  have s1: "?S (?u (MSend [''/d/x'']) WIdle c True False) (?u (MSend []) (WRead ''/d/x'') c True False)"
    using step [OF upload_step.Send [of "?u (MSend [''/d/x'']) WIdle c True False" 0 "''/d/x''" "[]"]] by (simp add: u_defs)
  have s2: "?S (?u (MSend []) (WRead ''/d/x'') c True False) (?u (MSend []) (WInc ''/d/x'' errInc) c True False)"
    using step [OF upload_step.Read [of "?u (MSend []) (WRead ''/d/x'') c True False" 0]] wrong_name_read by (simp add: u_defs)
  have s3: "?S (?u (MSend []) (WInc ''/d/x'' errInc) c True False) (?u (MSend []) WIdle ?c True False)"
    using step [OF upload_step.Inc [of "?u (MSend []) (WInc ''/d/x'' errInc) c True False" 0]] by (simp add: u_defs after_upload_def)
  have s4: "?S (?u (MSend []) WIdle ?c True False) (?u MWait WIdle ?c True False)"
    using step [OF upload_step.Close [of "?u (MSend []) WIdle ?c True False"]] by simp
  have s5: "?S (?u MWait WIdle ?c True False) (?u MWait WQuit ?c True False)"
    using step [OF upload_step.Quit [of "?u MWait WIdle ?c True False" 0]] by (simp add: u_defs)
  have s6: "?S (?u MWait WQuit ?c True False) (?u MCount WQuit ?c True False)"
    using step [OF upload_step.Wait [of "?u MWait WQuit ?c True False"]] by simp
  have s7: "?S (?u MCount WQuit ?c True False) (?u MCount WQuit ?c False False)"
    using step [OF upload_step.CountEnd [of "?u MCount WQuit ?c True False"]] by simp
  have s8: "?S (?u MCount WQuit ?c False False) (?u MDone WQuit ?c False True)"
    using step [OF upload_step.Return [of "?u MCount WQuit ?c False False"]] by simp
  note next_step = converse_rtranclp_into_rtranclp [of ?S]
  from next_step [OF s1 next_step [OF s2 next_step [OF s3 next_step [OF s4 next_step [OF s5 next_step [OF s6 next_step [OF s7 next_step [OF s8 rtranclp.rtrancl_refl]]]]]]]] show ?thesis unfolding go by auto
qed

theorem Upload_summary_witness:
  "\<exists>u. (upload_nostop (DBBackedStore_ops True (\<lambda>i. i) NoopStore_ops) True {})\<^sup>*\<^sup>*
         (Upload_go 1 [''/d/x''] (no_count\<lparr>Total := 1\<rparr>) (NewDBBackedStore () (empty_db TrackAccessBlobs [])) wrong_fs) u
     \<and> Total (u_count u) = AlreadyStored (u_count u) + Sd (u_count u) + Blob (u_count u) + Err (u_count u)"
proof -
  let ?z = "(NewDBBackedStore () (empty_db TrackAccessBlobs []), wrong_fs)"
  have b: "Upload_begin True ''/d'' ?z = (Ret (Inr ([''/d/x''], {}, no_count\<lparr>Total := 1\<rparr>)), ?z)" by code_simp
  from wrong_name_run [of "DBBackedStore_ops True (\<lambda>i. i) NoopStore_ops" True "no_count\<lparr>Total := 1\<rparr>" "fst ?z"] obtain u where
    u: "(upload_nostop (DBBackedStore_ops True (\<lambda>i. i) NoopStore_ops) True {})\<^sup>*\<^sup>* (Upload_go 1 [''/d/x''] (no_count\<lparr>Total := 1\<rparr>) (fst ?z) wrong_fs) u"
      "u_main u = MDone" by auto
  from Upload_summary [OF _ b _ u(1) [simplified] u(2)] u(1) show ?thesis by auto
qed

section \<open>Files are removed only when they are stored\<close>

text \<open>What the uploader relies on: a store call that returns no error has stored the blob, and no store call takes a blob away, whatever fails.\<close>

locale put_store =
  fixes st :: "'s BlobStore" and held :: "'s \<Rightarrow> string \<Rightarrow> bool"
  assumes Put_held: "BlobHash b = h \<Longrightarrow> bs_Put st h b s = (Ret None, s') \<Longrightarrow> held s' h"
    and PutSD_held: "BlobHash b = h \<Longrightarrow> bs_PutSD st h b s = (Ret None, s') \<Longrightarrow> held s' h"
    and Put_keeps: "BlobHash b = h \<Longrightarrow> bs_Put st h b s = (r, s') \<Longrightarrow> held s g \<Longrightarrow> held s' g"
    and PutSD_keeps: "BlobHash b = h \<Longrightarrow> bs_PutSD st h b s = (r, s') \<Longrightarrow> held s g \<Longrightarrow> held s' g"
begin

lemma put_held:
  assumes "uploadBlob_put st b s = (Ret k, s')" "k \<noteq> errInc"
  shows "held s' (BlobHash b)"
  using assms Put_held [OF refl] PutSD_held [OF refl]
  by (auto simp: uploadBlob_put_def ret_def elim!: bnd_RetE split: if_splits)

lemma put_keeps:
  assumes "uploadBlob_put st b s = (r, s')" "held s g"
  shows "held s' g"
  using assms Put_keeps [OF refl, of b s] PutSD_keeps [OF refl, of b s]
  by (auto simp: uploadBlob_put_def ret_def bnd_def split: if_splits prod.splits outcome.splits)

text \<open>What a worker knows about its file, given the files \<open>F\<close> at the start.\<close>

fun w_knows :: "(string list \<times> bytes) list \<Rightarrow> 's \<Rightarrow> worker_pc \<Rightarrow> bool" where
  "w_knows F s (WPut p b) = (BlobHash b = path_Base p \<and> map_of F (os_comps p) = Some b)"
| "w_knows F s (WInc p k) = (k \<noteq> errInc \<longrightarrow> (\<exists>b. map_of F (os_comps p) = Some b \<and> held s (BlobHash b)))"
| "w_knows F s (WRemove p) = (\<exists>b. map_of F (os_comps p) = Some b \<and> held s (BlobHash b))"
| "w_knows F s _ = True"

definition files_safe :: "(string list \<times> bytes) list \<Rightarrow> 's \<Rightarrow> fsys \<Rightarrow> bool" where
  "files_safe F s f \<longleftrightarrow> (\<forall>q. map_of (files f) q = map_of F q \<or> (map_of (files f) q = None \<and> (\<exists>b. map_of F q = Some b \<and> held s (BlobHash b))))"

definition u_safe :: "(string list \<times> bytes) list \<Rightarrow> 's Uploader \<Rightarrow> bool" where
  "u_safe F u \<longleftrightarrow> files_safe F (u_store u) (u_fs u) \<and> (\<forall>w \<in> set (u_workers u). w_knows F (u_store u) w)"

lemma knows_mono: "(\<And>g. held s g \<Longrightarrow> held s' g) \<Longrightarrow> w_knows F s w \<Longrightarrow> w_knows F s' w"
  by (cases w) auto

lemma files_mono: "(\<And>g. held s g \<Longrightarrow> held s' g) \<Longrightarrow> files_safe F s f \<Longrightarrow> files_safe F s' f"
  unfolding files_safe_def by blast

lemma safe_set_worker:
  assumes "u_safe F u" "at_worker u i w" "u_workers v = u_workers u" "\<And>g. held (u_store u) g \<Longrightarrow> held (u_store v) g"
    and "files_safe F (u_store v) (u_fs v)" "w_knows F (u_store v) w'"
  shows "u_safe F (set_worker i w' v)"
  using assms set_update_subset_insert [of "u_workers u" i w'] knows_mono [OF assms(4)]
  by (auto simp: u_safe_def set_worker_def)

lemma safe_read:
  assumes "u_safe F u" "uploadBlob_read p (u_fs u) = (w, f)"
  shows "files_safe F (u_store u) f \<and> w_knows F (u_store u) w"
proof -
  have "files f = files (u_fs u)"
    using assms(2) by (auto simp: uploadBlob_read_def os_ReadFile_def os_call_def Let_def split: list.splits option.splits sum.splits if_splits)
  with assms(1) have "files_safe F (u_store u) f" by (simp add: u_safe_def files_safe_def)
  moreover from assms(2) have "w_knows F (u_store u) w"
  proof (cases rule: uploadBlob_read_cases)
    case (2 b)
    with assms(1) show ?thesis unfolding u_safe_def files_safe_def by (metis option.distinct(1) w_knows.simps(1))
  qed simp
  ultimately show ?thesis ..
qed

lemma safe_remove:
  assumes "files_safe F s f" "os_Remove p f = (r, f')" "w_knows F s (WRemove p)"
  shows "files_safe F s f'"
proof -
  have "map_of (files f') q = map_of (files f) q \<or> q = os_comps p \<and> map_of (files f') q = None" for q
    using assms(2) by (auto simp: os_Remove_def os_call_def Let_def delete_conv' split: list.splits option.splits if_splits)
  with assms(1,3) show ?thesis unfolding files_safe_def w_knows.simps by metis
qed

lemma step_safe: "upload_step st del ex l u u' \<Longrightarrow> u_safe F u \<Longrightarrow> u_safe F u'"
proof (induction rule: upload_step.induct)
  case (Send u i f ps)
  from Send(4) have "files_safe F (u_store u) (u_fs u)" by (simp add: u_safe_def)
  with Send show ?case by (intro safe_set_worker [OF Send(4,1)]) auto
next
  case (Quit u i)
  then show ?case by (intro safe_set_worker [OF Quit(3,1)]) (auto simp: u_safe_def)
next
  case (Read u i p w f)
  from safe_read [OF Read(3,2)] show ?case by (intro safe_set_worker [OF Read(3,1)]) auto
next
  case (Put u i p b k s)
  have m: "held (u_store u) g \<Longrightarrow> held s g" for g by (rule put_keeps [OF Put(2)])
  have "w_knows F (u_store u) (WPut p b)" using Put(3) at_workerD(2) [OF Put(1)] by (auto simp: u_safe_def)
  then have "w_knows F s (WInc p k)" using put_held [OF Put(2)] by auto
  moreover have "files_safe F s (u_fs u)" using Put(3) files_mono [OF m] by (simp add: u_safe_def)
  ultimately show ?case using m by (intro safe_set_worker [OF Put(3,1)]) auto
next
  case (Crash u i p b m s)
  have m: "held (u_store u) g \<Longrightarrow> held s g" for g by (rule put_keeps [OF Crash(2)])
  from Crash(3) show ?case using files_mono [OF m] knows_mono [OF m] by (simp add: u_safe_def)
next
  case (Inc u i p k)
  have "w_knows F (u_store u) (WInc p k)" using Inc(3) at_workerD(2) [OF Inc(1)] by (auto simp: u_safe_def)
  with Inc(3) show ?case by (intro safe_set_worker [OF Inc(3,1)]) (auto simp: after_upload_def u_safe_def)
next
  case (NoInc u i p k)
  have "w_knows F (u_store u) (WInc p k)" using NoInc(3) at_workerD(2) [OF NoInc(1)] by (auto simp: u_safe_def)
  with NoInc(3) show ?case by (intro safe_set_worker [OF NoInc(3,1)]) (auto simp: after_upload_def u_safe_def)
next
  case (Remove u i p r f)
  have "w_knows F (u_store u) (WRemove p)" using Remove(3) at_workerD(2) [OF Remove(1)] by (auto simp: u_safe_def)
  with safe_remove [OF _ Remove(2)] Remove(3) have "files_safe F (u_store u) f" by (simp add: u_safe_def)
  then show ?case by (intro safe_set_worker [OF Remove(3,1)]) auto
qed (simp_all add: u_safe_def)

lemma removed_held:
  assumes "(upload_any st del ex)\<^sup>*\<^sup>* (Upload_go n ps c s f) u" "map_of (files f) q = Some b" "map_of (files (u_fs u)) q \<noteq> Some b"
  shows "map_of (files (u_fs u)) q = None \<and> held (u_store u) (BlobHash b)"
proof -
  have "u_safe (files f) u" using assms(1)
  proof (induction rule: rtranclp_induct)
    case base
    show ?case by (simp add: u_safe_def files_safe_def Upload_go_def)
  qed (auto simp: upload_any_def dest: step_safe)
  with assms(2,3) show ?thesis unfolding u_safe_def files_safe_def by (metis option.inject)
qed

end

text \<open>A database-backed store keeps the contract of the store behind it, with any faults of the database.\<close>

context put_store
begin

lemma db_put_store: "put_store (DBBackedStore_ops deleteOnMiss dup st) (\<lambda>d. held (dbs_blobs d))"
proof
  fix b h d r d' g
  assume h: "BlobHash b = h"
  show "held (dbs_blobs d') h" if "bs_Put (DBBackedStore_ops deleteOnMiss dup st) h b d = (Ret None, d')"
    using that Put_held [OF h]
    by (auto simp: DBBackedStore_ops_def DBBackedStore_Put_def on_blobs_def on_db_def zoom_def ret_def elim!: bnd_RetE split: if_splits prod.splits)
  show "held (dbs_blobs d') h" if "bs_PutSD (DBBackedStore_ops deleteOnMiss dup st) h b d = (Ret None, d')"
    using that PutSD_held [OF h]
    by (auto simp: DBBackedStore_ops_def DBBackedStore_PutSD_def on_blobs_def on_db_def zoom_def ret_def elim!: bnd_RetE split: sum.splits if_splits prod.splits)
  show "held (dbs_blobs d') g" if "bs_Put (DBBackedStore_ops deleteOnMiss dup st) h b d = (r, d')" "held (dbs_blobs d) g"
    using that Put_keeps [OF h]
    by (auto simp: DBBackedStore_ops_def DBBackedStore_Put_def on_blobs_def on_db_def zoom_def ret_def bnd_def split: if_splits prod.splits outcome.splits)
  show "held (dbs_blobs d') g" if "bs_PutSD (DBBackedStore_ops deleteOnMiss dup st) h b d = (r, d')" "held (dbs_blobs d) g"
    using that PutSD_keeps [OF h]
    by (auto simp: DBBackedStore_ops_def DBBackedStore_PutSD_def on_blobs_def on_db_def zoom_def ret_def bnd_def split: sum.splits if_splits prod.splits outcome.splits)
qed

end

text \<open>
  S3 as the uploader meets it: an upload that reports success has stored the object, one that fails has stored it or changed nothing, and opening a session
  changes no object.
\<close>

locale s3_uploads =
  fixes api :: "'w s3_api" and objs :: "'w \<Rightarrow> string \<Rightarrow> content"
  assumes Session_keeps: "s3_NewSession api w = (err, w') \<Longrightarrow> objs w' = objs w"
    and Upload_stores: "s3_Upload api b k x w = (None, w') \<Longrightarrow> objs w' = (objs w)(b := (objs w b)(k \<mapsto> x))"
    and Upload_fails: "s3_Upload api b k x w = (Some aerr, w') \<Longrightarrow> objs w' = objs w \<or> objs w' = (objs w)(b := (objs w b)(k \<mapsto> x))"
begin

definition s3_holds :: "'w S3Store \<Rightarrow> string \<Rightarrow> bool" where
  "s3_holds s h \<longleftrightarrow> (\<exists>b. objs (world s) (bucket s) h = Some b \<and> BlobHash b = h)"

lemma s3_init_keeps: "\<exists>x s1. S3Store_initOnce api s = (Ret x, s1) \<and> bucket s1 = bucket s \<and> objs (world s1) = objs (world s)"
proof -
  obtain err w where n: "s3_NewSession api (world s) = (err, w)" by (metis surj_pair)
  show ?thesis
    using n Session_keeps [OF n] by (cases "session s"; cases err) (simp_all add: S3Store_initOnce_def bnd_def get_st_def ret_def modify_def s3_call_def)
qed

lemma s3_Put_cases:
  assumes "S3Store_Put api h b s = (r, s')"
  shows "bucket s' = bucket s" "r = Ret None \<Longrightarrow> objs (world s') (bucket s) = (objs (world s) (bucket s))(h \<mapsto> b)"
    "objs (world s') (bucket s) = objs (world s) (bucket s) \<or> objs (world s') (bucket s) = (objs (world s) (bucket s))(h \<mapsto> b)"
proof -
  from s3_init_keeps [of s] obtain x s1 where
    i: "S3Store_initOnce api s = (Ret x, s1)" "bucket s1 = bucket s" "objs (world s1) = objs (world s)" by blast
  obtain y w where u: "s3_Upload api (bucket s) h b (world s1) = (y, w)" by (metis surj_pair)
  have "r = Ret None \<and> False \<or> bucket s' = bucket s \<and> (r = Ret None \<and> y = None \<and> world s' = w \<or> r \<noteq> Ret None \<and> (world s' = w \<or> world s' = world s1))"
    using assms i u
    by (auto simp: S3Store_Put_def str_prefix_def panic_def bnd_def get_st_def ret_def s3_call_def split: if_splits prod.splits)
  then show "bucket s' = bucket s" "r = Ret None \<Longrightarrow> objs (world s') (bucket s) = (objs (world s) (bucket s))(h \<mapsto> b)"
    "objs (world s') (bucket s) = objs (world s) (bucket s) \<or> objs (world s') (bucket s) = (objs (world s) (bucket s))(h \<mapsto> b)"
    using i(3) u Upload_stores [of "bucket s" h b "world s1" w] Upload_fails [of "bucket s" h b "world s1" _ w] by (cases y; auto)+
qed

end

sublocale s3_uploads \<subseteq> s3put: put_store "S3Store_ops api" s3_holds
proof unfold_locales
  fix b h s r s' g
  assume h: "BlobHash b = h"
  have held: "s3_holds s' h" if "S3Store_Put api h b s = (Ret None, s')"
    using s3_Put_cases(1,2) [OF that] h by (simp add: s3_holds_def)
  have keeps: "s3_holds s' g" if "S3Store_Put api h b s = (r, s')" "s3_holds s g"
    using s3_Put_cases(1,3) [OF that(1)] that(2) h by (auto simp: s3_holds_def)
  show "s3_holds s' h" if "bs_Put (S3Store_ops api) h b s = (Ret None, s')" using that held by (simp add: S3Store_ops_def)
  show "s3_holds s' h" if "bs_PutSD (S3Store_ops api) h b s = (Ret None, s')" using that held by (simp add: S3Store_ops_def S3Store_PutSD_def)
  show "s3_holds s' g" if "bs_Put (S3Store_ops api) h b s = (r, s')" "s3_holds s g" using that keeps by (simp add: S3Store_ops_def)
  show "s3_holds s' g" if "bs_PutSD (S3Store_ops api) h b s = (r, s')" "s3_holds s g" using that keeps by (simp add: S3Store_ops_def S3Store_PutSD_def)
qed

sublocale s3_uploads \<subseteq> s3db: put_store "DBBackedStore_ops deleteOnMiss dup (S3Store_ops api)" "\<lambda>d. s3_holds (dbs_blobs d)"
  for deleteOnMiss dup
  by (rule s3put.db_put_store)

context s3_uploads
begin

lemma s3_removed_held:
  assumes "(upload_any (DBBackedStore_ops deleteOnMiss dup (S3Store_ops api)) del ex)\<^sup>*\<^sup>* (Upload_go n ps c d f) u"
    and "map_of (files f) q = Some b" "map_of (files (u_fs u)) q \<noteq> Some b"
  shows "map_of (files (u_fs u)) q = None
    \<and> (\<exists>b'. objs (world (dbs_blobs (u_store u))) (bucket (dbs_blobs (u_store u))) (BlobHash b) = Some b' \<and> BlobHash b' = BlobHash b)"
  using s3db.removed_held [OF assms] by (simp add: s3_holds_def)

end

text \<open>A service that fails when its schedule says so.\<close>

definition flaky_s3 :: "(go_error option list \<times> (string \<Rightarrow> content)) s3_api" where
  "flaky_s3 =
     \<lparr>s3_NewSession = (\<lambda>w. (None, w)),
      s3_HeadObject = (\<lambda>b k w. (if snd w b k = None then Some HeadNotFound else None, w)),
      s3_Download = (\<lambda>b k w. (case snd w b k of None \<Rightarrow> ([], Some NoSuchKey) | Some x \<Rightarrow> (x, None), w)),
      s3_Upload = (\<lambda>b k x w. case fst w of
          Some err # ws \<Rightarrow> (Some (OtherAws err), (ws, snd w))
        | ws \<Rightarrow> (None, (tl ws, (snd w)(b := (snd w b)(k \<mapsto> x))))),
      s3_DeleteObject = (\<lambda>b k w. (None, (fst w, (snd w)(b := (snd w b)(k := None)))))\<rparr>"

interpretation flaky: s3_uploads flaky_s3 snd
  by unfold_locales (auto simp: flaky_s3_def split: list.splits option.splits)

text \<open>
  C4. No blob is lost by \<open>--deleteBlobsAfterUpload\<close>: a file that was there when the upload began and is not there (or is changed) at any moment of any run,
  after any failures of the disk, the database and S3, any \<open>Stop\<close> and even a panic, has been removed entirely, and the bucket holds a blob with the hash of its content.
\<close>

theorem Upload_removes_only_stored:
  assumes "s3_uploads api objs"
    and "(upload_any (DBBackedStore_ops deleteOnMiss dup (S3Store_ops api)) del ex)\<^sup>*\<^sup>* (Upload_go workers paths count d f) u"
    and "map_of (files f) q = Some b" "map_of (files (u_fs u)) q \<noteq> Some b"
  shows "map_of (files (u_fs u)) q = None
    \<and> (\<exists>b'. objs (world (dbs_blobs (u_store u))) (bucket (dbs_blobs (u_store u))) (BlobHash b) = Some b' \<and> BlobHash b' = BlobHash b)"
  using s3_uploads.s3_removed_held [OF assms] .

text \<open>A run that uploads one file and removes it.\<close>

definition right_path :: string where
  "right_path = ''/d'' @ CHR ''/'' # BlobHash ''x''"

definition right_fs :: fsys where
  "right_fs = \<lparr>files = [([''d'', BlobHash ''x''], ''x'')], dirs = [[''d'']], faults = []\<rparr>"

lemma right_path_name: "path_Base right_path = BlobHash ''x''" "os_comps right_path = [''d'', BlobHash ''x'']"
proof -
  obtain h where h: "h = BlobHash ''x''" by blast
  have p: "plain_name h" unfolding h by (rule valid_hash_plain) simp
  then have n: "CHR ''/'' \<notin> set h" "h \<noteq> []" "h \<noteq> ''.''" "h \<noteq> ''..''" by (auto simp: plain_name_def)
  have s: "split_on (CHR ''/'') (''/d'' @ CHR ''/'' # h) = [[], ''d'', h]"
    unfolding split_on_append split_on_plain [OF n(1)] by simp
  have "rev (dropWhile (\<lambda>c. c = CHR ''/'') (rev (''/d'' @ CHR ''/'' # h))) = ''/d'' @ CHR ''/'' # h"
    using n(1,2) by (cases h rule: rev_cases) (auto simp: dropWhile_append)
  with s show "path_Base right_path = BlobHash ''x''" by (simp add: path_Base_def right_path_def h)
  show "os_comps right_path = [''d'', BlobHash ''x'']" using s n by (simp add: os_comps_def right_path_def h)
qed

lemma right_put:
  fixes d :: "(go_error option list \<times> (string \<Rightarrow> content)) S3Store DBBackedStore"
  assumes "d = NewDBBackedStore (NewS3Store ''b'' ([], \<lambda>_. Map.empty)) (empty_db TrackAccessBlobs [])"
  shows "\<exists>d'. uploadBlob_put (DBBackedStore_ops False (\<lambda>i. i) (S3Store_ops flaky_s3)) ''x'' d = (Ret blobInc, d')"
proof -
  obtain t where t: "conn (empty_db TrackAccessBlobs []) = Some t" by (simp add: empty_db_def)
  then have "db_up (empty_db TrackAccessBlobs []) t" using empty_db_wf [OF t] by (simp add: db_up_def empty_db_def)
  from AddBlob_ok [OF this, of "int (length ''x'')" "\<lambda>i. i" "BlobHash ''x''"] obtain s' where
    a: "AddBlob (\<lambda>i. i) (BlobHash ''x'') (int (length ''x'')) True (empty_db TrackAccessBlobs []) = (Ret None, s')"
    by (auto simp: dup_ok_def)
  have "\<not> IsValidJSON ''x''" by code_simp
  with a assms show ?thesis
    by (simp add: uploadBlob_put_def DBBackedStore_ops_def DBBackedStore_Put_def on_blobs_def on_db_def zoom_def NewDBBackedStore_def S3Store_ops_def
        S3Store_Put_def S3Store_initOnce_def NewS3Store_def flaky_s3_def s3_call_def str_prefix_def bnd_def ret_def get_st_def modify_def)
qed

lemma right_run:
  assumes "uploadBlob_put st ''x'' d = (Ret blobInc, d')"
  shows "\<exists>u. (upload_any st True {})\<^sup>*\<^sup>* (Upload_go 1 [right_path] c d right_fs) u \<and> files (u_fs u) = []"
proof -
  let ?u = "\<lambda>m w c d f. \<lparr>u_store = d, u_fs = f, u_count = c, u_stopped = False, u_main = m, u_workers = [w], u_counting = True, u_crashed = None\<rparr>"
  let ?S = "upload_any st True {}" and ?c = "c\<lparr>Blob := Blob c + 1\<rparr>" and ?p = right_path
  have step: "?S u u'" if "upload_step st True {} l u u'" for l u u' using that by (auto simp: upload_any_def)
  have go: "Upload_go 1 [?p] c d right_fs = ?u (MSend [?p]) WIdle c d right_fs" by (simp add: Upload_go_def)
  have "uploadBlob_read ?p right_fs = (WPut ?p ''x'', right_fs)"
    by (simp add: uploadBlob_read_def os_ReadFile_def os_call_def right_path_name right_fs_def under_file_def)
  then have s2: "?S (?u (MSend []) (WRead ?p) c d right_fs) (?u (MSend []) (WPut ?p ''x'') c d right_fs)"
    using step [OF upload_step.Read [of "?u (MSend []) (WRead ?p) c d right_fs" 0]] by (simp add: u_defs)
  have s1: "?S (?u (MSend [?p]) WIdle c d right_fs) (?u (MSend []) (WRead ?p) c d right_fs)"
    using step [OF upload_step.Send [of "?u (MSend [?p]) WIdle c d right_fs" 0 ?p "[]"]] by (simp add: u_defs)
  have s3: "?S (?u (MSend []) (WPut ?p ''x'') c d right_fs) (?u (MSend []) (WInc ?p blobInc) c d' right_fs)"
    using step [OF upload_step.Put [of "?u (MSend []) (WPut ?p ''x'') c d right_fs" 0]] assms by (simp add: u_defs)
  have s4: "?S (?u (MSend []) (WInc ?p blobInc) c d' right_fs) (?u (MSend []) (WRemove ?p) ?c d' right_fs)"
    using step [OF upload_step.Inc [of "?u (MSend []) (WInc ?p blobInc) c d' right_fs" 0]] by (simp add: u_defs after_upload_def)
  have "os_Remove ?p right_fs = (Inr (), right_fs\<lparr>files := []\<rparr>)"
    by (simp add: os_Remove_def os_call_def right_path_name right_fs_def)
  then have s5: "?S (?u (MSend []) (WRemove ?p) ?c d' right_fs) (?u (MSend []) WIdle ?c d' (right_fs\<lparr>files := []\<rparr>))"
    using step [OF upload_step.Remove [of "?u (MSend []) (WRemove ?p) ?c d' right_fs" 0]] by (simp add: u_defs)
  note next_step = converse_rtranclp_into_rtranclp [of ?S]
  from next_step [OF s1 next_step [OF s2 next_step [OF s3 next_step [OF s4 next_step [OF s5 rtranclp.rtrancl_refl]]]]]
  show ?thesis unfolding go by (intro exI conjI) (assumption, simp)
qed

theorem Upload_removes_only_stored_witness:
  "\<exists>u. (upload_any (DBBackedStore_ops False (\<lambda>i. i) (S3Store_ops flaky_s3)) True {})\<^sup>*\<^sup>*
         (Upload_go 1 [right_path] no_count (NewDBBackedStore (NewS3Store ''b'' ([], \<lambda>_. Map.empty)) (empty_db TrackAccessBlobs [])) right_fs) u
     \<and> files (u_fs u) = [] \<and> (\<exists>b'. snd (world (dbs_blobs (u_store u))) (bucket (dbs_blobs (u_store u))) (BlobHash ''x'') = Some b')"
proof -
  let ?d = "NewDBBackedStore (NewS3Store ''b'' ([], \<lambda>_. Map.empty)) (empty_db TrackAccessBlobs [])"
    and ?st = "DBBackedStore_ops False (\<lambda>i. i) (S3Store_ops flaky_s3)"
  from right_put [OF refl] obtain d' where "uploadBlob_put ?st ''x'' ?d = (Ret blobInc, d')" ..
  from right_run [OF this, of no_count] obtain u where
    u: "(upload_any ?st True {})\<^sup>*\<^sup>* (Upload_go 1 [right_path] no_count ?d right_fs) u" "files (u_fs u) = []" by blast
  have "map_of (files right_fs) [''d'', BlobHash ''x''] = Some ''x''" by (simp add: right_fs_def)
  from Upload_removes_only_stored [OF flaky.s3_uploads_axioms u(1) this] u show ?thesis by auto
qed

end
