(* ===== verification/Blocklist.thy ===== *)
theory Blocklist
  imports Reflector Peer Db_Store
begin

text \<open>
  The wallet calls behind the block list (src/wallet/client.go: \<open>GetTx\<close>, \<open>GetClaimInTx\<close>) and the update of the block list
  (src/reflector/blocklist.go).

  The environment is a state \<open>'w\<close> with the record \<open>bl_env\<close> of what the code asks of it: the HTTP request, the connection to a wallet server, one request to it, and
  whether the server is stopping. The transaction and claim packages are the record \<open>tx_lib\<close>. The order in which Go walks a map is the parameter \<open>order\<close>.
\<close>

section \<open>Hex and decimal text\<close>

fun hex_DecodeString :: "string \<Rightarrow> go_error + bytes" where
  "hex_DecodeString [] = Inr []"
| "hex_DecodeString [c] = (if hex_val c = None then Inl (Msg ''encoding/hex: invalid byte'') else Inl (Msg ''encoding/hex: odd length hex string''))"
| "hex_DecodeString (a # b # r) =
     (case (hex_val a, hex_val b) of
        (Some x, Some y) \<Rightarrow> (case hex_DecodeString r of Inl err \<Rightarrow> Inl err | Inr bs \<Rightarrow> Inr (char_of (16 * x + y) # bs))
      | _ \<Rightarrow> Inl (Msg ''encoding/hex: invalid byte''))"

text \<open>\<open>strconv.Atoi\<close>: an optional sign and decimal digits, in the range of 64 bits.\<close>

definition Atoi :: "string \<Rightarrow> go_error + int" where
  "Atoi s =
     (let (neg, ds) = (case s of [] \<Rightarrow> (False, []) | c # r \<Rightarrow> if c = CHR ''-'' then (True, r) else if c = CHR ''+'' then (False, r) else (False, s));
          i = (if neg then - int (text_nat ds) else int (text_nat ds))
      in if ds = [] \<or> \<not> list_all is_digit ds then Inl (Msg (''strconv.Atoi: parsing '' @ s @ '': invalid syntax''))
         else if \<not> int64 i then Inl (Msg (''strconv.Atoi: parsing '' @ s @ '': value out of range''))
         else Inr i)"

section \<open>The wallet client\<close>

record 'c tx_lib =
  NewTxFromBytes :: "bytes \<Rightarrow> go_error + bytes list"
  IsClaimNameScript :: "bytes \<Rightarrow> bool"
  ParseClaimNameScript :: "bytes \<Rightarrow> go_error + bytes"
  IsClaimUpdateScript :: "bytes \<Rightarrow> bool"
  ParseClaimUpdateScript :: "bytes \<Rightarrow> go_error + bytes"
  DecodeClaimBytes :: "bytes \<Rightarrow> go_error + 'c"
  claim_SdHash :: "'c \<Rightarrow> bytes"

text \<open>A request returns the bytes of the response, or nothing when the node is being shut down.\<close>

record 'w bl_env =
  http_Get :: "string \<Rightarrow> ('w, go_error + tcp) op"
  node_Connect :: "string list \<Rightarrow> ('w, go_error option) op"
  node_request :: "string \<Rightarrow> string list \<Rightarrow> ('w, go_error + bytes option) op"
  stopping :: "('w, bool) op"

fun dec_result :: "json \<Rightarrow> string option" where
  "dec_result (JObj ms) = dec_field dec_str [] ''result'' ms"
| "dec_result JNull = Some []"
| "dec_result _ = None"

definition GetTx :: "'w bl_env \<Rightarrow> string \<Rightarrow> ('w, go_error + string) op" where
  "GetTx env txid =
     bnd (node_request env ''blockchain.transaction.get'' [txid]) (\<lambda>r.
       ret (case r of
         Inl err \<Rightarrow> Inl err
       | Inr None \<Rightarrow> Inr []
       | Inr (Some data) \<Rightarrow>
           (case json_unmarshal data of
              None \<Rightarrow> Inl (Msg ''invalid JSON'')
            | Some v \<Rightarrow> (case dec_result v of None \<Rightarrow> Inl (Msg ''cannot unmarshal'') | Some s \<Rightarrow> Inr s))))"

definition claim_value :: "'c tx_lib \<Rightarrow> bytes \<Rightarrow> go_error + bytes" where
  "claim_value lib script =
     (if IsClaimNameScript lib script then ParseClaimNameScript lib script
      else if IsClaimUpdateScript lib script then ParseClaimUpdateScript lib script
      else Inl (Msg ''no claim found in output''))"

definition GetClaimInTx :: "'w bl_env \<Rightarrow> 'c tx_lib \<Rightarrow> string \<Rightarrow> int \<Rightarrow> ('w, go_error + 'c) op" where
  "GetClaimInTx env lib txid nout =
     bnd (GetTx env txid) (\<lambda>r.
       case r of
         Inl err \<Rightarrow> ret (Inl err)
       | Inr hexTx \<Rightarrow>
           (case hex_DecodeString hexTx of
              Inl err \<Rightarrow> ret (Inl err)
            | Inr rawTx \<Rightarrow>
                (case NewTxFromBytes lib rawTx of
                   Inl err \<Rightarrow> ret (Inl err)
                 | Inr txOut \<Rightarrow>
                     if int (length txOut) \<le> nout then ret (Inl (Msg ''nout not found''))
                     else if nout < 0 then panic ''index out of range''
                     else
                       (case claim_value lib (txOut ! nat nout) of
                          Inl err \<Rightarrow> ret (Inl err)
                        | Inr value \<Rightarrow> ret (DecodeClaimBytes lib value)))))"

section \<open>The update\<close>

type_synonym valOrErr = "go_error + string"

definition blocklistURL :: string where
  "blocklistURL = ''https://api.lbry.com/file/list_blocked''"

definition walletServers :: "string list" where
  "walletServers = [''spv25.lbry.com:50001'', ''spv26.lbry.com:50001'', ''spv19.lbry.com:50001'', ''spv14.lbry.com:50001'']"

text \<open>The value of one outpoint: the body of the loop.\<close>

definition outpoint_value :: "'w bl_env \<Rightarrow> 'c tx_lib \<Rightarrow> string \<Rightarrow> ('w, valOrErr) op" where
  "outpoint_value env lib outpoint =
     (case split_on (CHR '':'') outpoint of
        [txid, n] \<Rightarrow>
          (case Atoi n of
             Inl err \<Rightarrow> ret (Inl (Prefix ''invalid nout'' err))
           | Inr nout \<Rightarrow>
               bnd (GetClaimInTx env lib txid nout) (\<lambda>r.
                 case r of
                   Inl err \<Rightarrow> ret (Inl err)
                 | Inr claim \<Rightarrow> ret (Inr (hex_EncodeToString (claim_SdHash lib claim)))))
      | _ \<Rightarrow> ret (Inl (Msg ''invalid outpoint format'')))"

fun outpoint_loop :: "'w bl_env \<Rightarrow> 'c tx_lib \<Rightarrow> string list \<Rightarrow> (string \<times> valOrErr) list \<Rightarrow> ('w, (string \<times> valOrErr) list) op" where
  "outpoint_loop env lib [] values = ret values"
| "outpoint_loop env lib (outpoint # rest) values =
     bnd (stopping env) (\<lambda>stop.
       if stop then ret values
       else bnd (outpoint_value env lib outpoint) (\<lambda>v. outpoint_loop env lib rest (AList.update outpoint v values)))"

definition sdHashesForOutpoints :: "'w bl_env \<Rightarrow> 'c tx_lib \<Rightarrow> string list \<Rightarrow> string list \<Rightarrow> ('w, go_error + (string \<times> valOrErr) list) op" where
  "sdHashesForOutpoints env lib servers outpoints =
     bnd (node_Connect env servers) (\<lambda>err.
       case err of
         Some err \<Rightarrow> ret (Inl err)
       | None \<Rightarrow> bnd (outpoint_loop env lib outpoints []) (\<lambda>values. ret (Inr values)))"

text \<open>The response of the API: success, error and the outpoints.\<close>

fun dec_blocked :: "json \<Rightarrow> (bool \<times> string \<times> string list) option" where
  "dec_blocked (JObj ms) =
     (case (dec_field dec_bool False ''success'' ms, dec_field dec_str [] ''error'' ms, Option.bind (sub_members ''data'' ms) (dec_field (dec_list dec_str_elem) [] ''outpoints'')) of
        (Some ok, Some err, Some ops) \<Rightarrow> Some (ok, err, ops)
      | _ \<Rightarrow> None)"
| "dec_blocked JNull = Some (False, [], [])"
| "dec_blocked _ = None"

definition blockedSdHashes :: "'w bl_env \<Rightarrow> 'c tx_lib \<Rightarrow> string list \<Rightarrow> ('w, go_error + (string \<times> valOrErr) list) op" where
  "blockedSdHashes env lib servers =
     bnd (http_Get env blocklistURL) (\<lambda>r.
       case r of
         Inl err \<Rightarrow> ret (Inl err)
       | Inr body \<Rightarrow>
           (case fst (Decoder_Decode NewDecoder body) of
              Inl err \<Rightarrow> ret (Inl err)
            | Inr v \<Rightarrow>
                (case dec_blocked v of
                   None \<Rightarrow> ret (Inl (Msg ''cannot unmarshal''))
                 | Some (ok, err, outpoints) \<Rightarrow>
                     if \<not> ok then ret (Inl (Prefix ''list_blocked API call'' (Msg err)))
                     else sdHashesForOutpoints env lib servers outpoints)))"

text \<open>Errors of an outpoint and of \<open>Block\<close> are logged.\<close>

fun block_values :: "'s Blocklister \<Rightarrow> (string \<times> valOrErr) list \<Rightarrow> ('s, unit) op" where
  "block_values b [] = ret ()"
| "block_values b ((name, v) # rest) =
     (case v of
        Inl err \<Rightarrow> block_values b rest
      | Inr h \<Rightarrow> bnd (bl_Block b h) (\<lambda>_. block_values b rest))"

definition updateBlocklist ::
  "((string \<times> valOrErr) list \<Rightarrow> (string \<times> valOrErr) list) \<Rightarrow> 'w bl_env \<Rightarrow> 'c tx_lib \<Rightarrow> 's Blocklister \<Rightarrow> string list \<Rightarrow> ('s \<times> 'w, unit) op" where
  "updateBlocklist order env lib b servers =
     bnd (on_snd (blockedSdHashes env lib servers)) (\<lambda>r.
       case r of
         Inl err \<Rightarrow> ret ()
       | Inr values \<Rightarrow> on_fst (block_values b (order values)))"

text \<open>
  \<open>enableBlocklist\<close>: one update at the start and one at every tick until the server stops. The ticks and the stop are the list of what the select receives:
  \<open>True\<close> for a tick, \<open>False\<close> for the stop.
\<close>

fun blocklist_ticks :: "((string \<times> valOrErr) list \<Rightarrow> (string \<times> valOrErr) list) \<Rightarrow> 'w bl_env \<Rightarrow> 'c tx_lib \<Rightarrow> 's Blocklister \<Rightarrow> bool list \<Rightarrow> ('s \<times> 'w, unit) op" where
  "blocklist_ticks order env lib b [] = ret ()"
| "blocklist_ticks order env lib b (tick # rest) =
     (if \<not> tick then ret () else bnd (updateBlocklist order env lib b walletServers) (\<lambda>_. blocklist_ticks order env lib b rest))"

definition enableBlocklist ::
  "((string \<times> valOrErr) list \<Rightarrow> (string \<times> valOrErr) list) \<Rightarrow> 'w bl_env \<Rightarrow> 'c tx_lib \<Rightarrow> 's Blocklister \<Rightarrow> bool list \<Rightarrow> ('s \<times> 'w, unit) op" where
  "enableBlocklist order env lib b ticks =
     bnd (updateBlocklist order env lib b walletServers) (\<lambda>_. blocklist_ticks order env lib b ticks)"

end
