(* ===== verification/Wallet.thy ===== *)
theory Wallet
  imports Blocklist "HOL-Library.Word"
begin

text \<open>
  The wallet node (src/wallet/network.go) and its transport (src/wallet/transport.go).

  A node is shared by goroutines that call \<open>request\<close>, by the listener that reads the server's lines, and by \<open>Shutdown\<close>. The record \<open>Node\<close> holds the shared state
  (the counter of ids, the map of handlers, the channels, each with a buffer of one response) and the program counters; \<open>node_step\<close> is one atomic action of one of them: a load
  or an increment of the counter, an access to the map under its lock, a channel operation, a write, a timeout. A line of the server is any bytes. Channels are numbered as they
  are made. No code registers a push handler (\<open>listenPush\<close> is commented out), so the loop over them sends nothing.
\<close>

section \<open>Messages of the server\<close>

text \<open>
  \<open>json.Unmarshal\<close> into a struct goes on after a member of a wrong type and reports the error at the end; the other members are set. Each decoded field is
  given with whether it was in order.
\<close>

definition part_field :: "(json \<Rightarrow> 'a option) \<Rightarrow> 'a \<Rightarrow> string \<Rightarrow> (string \<times> json) list \<Rightarrow> bool \<times> 'a" where
  "part_field dec def name ms =
     (let vs = map dec (jvals name ms) in (list_all (\<lambda>v. v \<noteq> None) vs, last (def # map the (filter (\<lambda>v. v \<noteq> None) vs))))"

definition part_members :: "string \<Rightarrow> (string \<times> json) list \<Rightarrow> bool \<times> (string \<times> json) list" where
  "part_members name ms =
     (let vs = jvals name ms in
      (list_all (\<lambda>v. case v of JObj _ \<Rightarrow> True | _ \<Rightarrow> False) vs, concat (map (\<lambda>v. case v of JObj xs \<Rightarrow> xs | _ \<Rightarrow> []) vs)))"

definition dec_u32 :: "json \<Rightarrow> 32 word option" where
  "dec_u32 v = (case dec_int v of Some i \<Rightarrow> if 0 \<le> i \<and> i < 2 ^ 32 then Some (word_of_int i) else None | None \<Rightarrow> None)"

text \<open>The error or the data of a message, and its id: the first struct, then the one with an error inside the error.\<close>

definition msg_result :: "bytes \<Rightarrow> int \<Rightarrow> string \<Rightarrow> go_error + bytes" where
  "msg_result bytes errCode message = (if message \<noteq> [] then Inl (Msg (int_text errCode @ '': '' @ message)) else Inr bytes)"

definition listen_msg :: "bytes \<Rightarrow> 32 word \<times> (go_error + bytes)" where
  "listen_msg bytes =
     (case json_unmarshal bytes of
        None \<Rightarrow> (0, Inl (Msg ''invalid JSON''))
      | Some (JObj ms) \<Rightarrow>
          let i = part_field dec_u32 0 ''id'' ms; m = part_field dec_str [] ''method'' ms; e = part_members ''error'' ms;
              c = part_field dec_int 0 ''code'' (snd e); t = part_field dec_str [] ''message'' (snd e);
              e2 = part_members ''message'' (snd e); c2 = part_field dec_int 0 ''code'' (snd e2); t2 = part_field dec_str [] ''message'' (snd e2)
          in (snd i,
              if fst i \<and> fst m \<and> fst e \<and> fst c \<and> fst t then msg_result bytes (snd c) (snd t)
              else if fst i \<and> fst m \<and> fst e \<and> fst c \<and> fst e2 \<and> fst c2 \<and> fst t2 then msg_result bytes (snd c2) (snd t2)
              else Inl (Msg ''cannot unmarshal''))
      | Some JNull \<Rightarrow> (0, Inr bytes)
      | Some _ \<Rightarrow> (0, Inl (Msg ''cannot unmarshal'')))"

section \<open>The node\<close>

type_synonym response = "go_error + bytes"

text \<open>
  Where a call of \<open>request\<close> stands: before the load of the counter, before its increment, before the registration, before the write, at the select, before the
  removal of the handler, returned. A call that was stopped returns no data and no error.
\<close>

datatype request_pc =
    QStart string "string list"
  | QLoaded "32 word" string "string list"
  | QReady "32 word" string "string list"
  | QSend "32 word" nat bytes
  | QWait "32 word" nat
  | QGot "32 word" response
  | QDone "32 word" "go_error + bytes option"

datatype listen_pc = LRecv | LSend nat response | LQuit

record Node =
  nextId :: "32 word"
  handlers :: "32 word \<Rightarrow> nat option"
  chan_buf :: "nat \<Rightarrow> response option"
  nextChan :: nat
  sent :: "bytes list"
  listener :: listen_pc
  requests :: "request_pc list"
  stopped :: bool

definition NewNode :: "request_pc list \<Rightarrow> Node" where
  "NewNode rs = \<lparr>nextId = 0, handlers = (\<lambda>_. None), chan_buf = (\<lambda>_. None), nextChan = 0, sent = [], listener = LRecv, requests = rs, stopped = False\<rparr>"

definition request_msg :: "32 word \<Rightarrow> string \<Rightarrow> string list \<Rightarrow> bytes" where
  "request_msg i method params =
     jprint (JObj [(''id'', JNum (nat_text (unat i))), (''method'', JStr method), (''params'', JArr (map JStr params))]) @ [CHR 0x0A]"

definition set_request :: "nat \<Rightarrow> request_pc \<Rightarrow> Node \<Rightarrow> Node" where
  "set_request k q n = n\<lparr>requests := (requests n)[k := q]\<rparr>"

definition at_request :: "Node \<Rightarrow> nat \<Rightarrow> request_pc \<Rightarrow> bool" where
  "at_request n k q \<longleftrightarrow> k < length (requests n) \<and> requests n ! k = q"

definition wallet_ErrTimeout :: go_error where
  "wallet_ErrTimeout = Msg ''timeout''"

inductive node_step :: "Node \<Rightarrow> Node \<Rightarrow> bool" where
  Load: "at_request n k (QStart m ps) \<Longrightarrow> node_step n (set_request k (QLoaded (nextId n) m ps) n)"
| Inc: "at_request n k (QLoaded i m ps) \<Longrightarrow> node_step n (set_request k (QReady i m ps) (n\<lparr>nextId := nextId n + 1\<rparr>))"
| Register: "at_request n k (QReady i m ps) \<Longrightarrow>
    node_step n (set_request k (QSend i (nextChan n) (request_msg i m ps)) (n\<lparr>handlers := (handlers n)(i \<mapsto> nextChan n), nextChan := nextChan n + 1\<rparr>))"
| Send: "at_request n k (QSend i c b) \<Longrightarrow> node_step n (set_request k (QWait i c) (n\<lparr>sent := sent n @ [b]\<rparr>))"
| SendErr: "at_request n k (QSend i c b) \<Longrightarrow> node_step n (set_request k (QDone i (Inl err)) n)"
| Recv: "at_request n k (QWait i c) \<Longrightarrow> chan_buf n c = Some r \<Longrightarrow> node_step n (set_request k (QGot i r) (n\<lparr>chan_buf := (chan_buf n)(c := None)\<rparr>))"
| Timeout: "at_request n k (QWait i c) \<Longrightarrow> node_step n (set_request k (QGot i (Inl wallet_ErrTimeout)) n)"
| Stopped: "at_request n k (QWait i c) \<Longrightarrow> stopped n \<Longrightarrow> node_step n (set_request k (QDone i (Inr None)) n)"
| Finish: "at_request n k (QGot i r) \<Longrightarrow>
    node_step n (set_request k (QDone i (case r of Inl err \<Rightarrow> Inl err | Inr b \<Rightarrow> Inr (Some b))) (n\<lparr>handlers := (handlers n)(i := None)\<rparr>))"
| Line: "listener n = LRecv \<Longrightarrow> listen_msg line = (i, r) \<Longrightarrow>
    node_step n (n\<lparr>listener := (case handlers n i of Some c \<Rightarrow> LSend c r | None \<Rightarrow> LRecv)\<rparr>)"
| Deliver: "listener n = LSend c r \<Longrightarrow> chan_buf n c = None \<Longrightarrow> node_step n (n\<lparr>listener := LRecv, chan_buf := (chan_buf n)(c \<mapsto> r)\<rparr>)"
| ListenEnd: "listener n = LRecv \<Longrightarrow> stopped n \<Longrightarrow> node_step n (n\<lparr>listener := LQuit\<rparr>)"
| Shutdown: "node_step n (n\<lparr>stopped := True\<rparr>)"

end
