(* ===== verification/Wallet_Correct.thy ===== *)
theory Wallet_Correct
  imports Wallet
begin

text \<open>
  The wallet node: a call returns only data that carries its id, whatever the interleaving and whatever the server sends; two concurrent calls may share an
  id; and a repeated response can block the listener for good.
\<close>

section \<open>Responses carry the id of the call\<close>

lemmas n_defs = set_request_def at_request_def

lemma at_requestD: "at_request n k q \<Longrightarrow> q \<in> set (requests n)"
  by (auto simp: at_request_def)

definition resp_ok :: "32 word \<Rightarrow> response \<Rightarrow> bool" where
  "resp_ok i r \<longleftrightarrow> (\<forall>b. r = Inr b \<longrightarrow> listen_msg b = (i, Inr b))"

text \<open>What a call knows, given the number of channels and the id each channel was made for.\<close>

fun q_ok :: "nat \<Rightarrow> (nat \<Rightarrow> 32 word) \<Rightarrow> request_pc \<Rightarrow> bool" where
  "q_ok m f (QSend i c b) = (c < m \<and> f c = i)"
| "q_ok m f (QWait i c) = (c < m \<and> f c = i)"
| "q_ok m f (QGot i r) = resp_ok i r"
| "q_ok m f (QDone i res) = (\<forall>b. res = Inr (Some b) \<longrightarrow> listen_msg b = (i, Inr b))"
| "q_ok m f _ = True"

definition node_ok :: "(nat \<Rightarrow> 32 word) \<Rightarrow> Node \<Rightarrow> bool" where
  "node_ok f n \<longleftrightarrow> (\<forall>i c. handlers n i = Some c \<longrightarrow> c < nextChan n \<and> f c = i)
     \<and> (\<forall>c r. chan_buf n c = Some r \<longrightarrow> c < nextChan n \<and> resp_ok (f c) r)
     \<and> (\<forall>c r. listener n = LSend c r \<longrightarrow> c < nextChan n \<and> resp_ok (f c) r)
     \<and> (\<forall>q \<in> set (requests n). q_ok (nextChan n) f q)"

lemma q_ok_new: "q_ok m f q \<Longrightarrow> q_ok (Suc m) (f(m := i)) q"
  by (cases q) auto

lemma msg_result_data: "msg_result line c t = Inr b \<Longrightarrow> b = line"
  by (simp add: msg_result_def split: if_split_asm)

lemma listen_msg_data: "snd (listen_msg line) = Inr b \<Longrightarrow> b = line"
  by (simp add: listen_msg_def Let_def split: option.split_asm json.split_asm if_split_asm) (erule msg_result_data)+

lemma listen_msg_resp: "listen_msg line = (i, r) \<Longrightarrow> resp_ok i r"
  using listen_msg_data [of line] by (auto simp: resp_ok_def)

lemma ok_set_request: "node_ok f v \<Longrightarrow> q_ok (nextChan v) f q \<Longrightarrow> node_ok f (set_request k q v)"
  using set_update_subset_insert [of "requests v" k q] by (auto simp: node_ok_def set_request_def)

lemma ok_at: "node_ok f n \<Longrightarrow> at_request n k q \<Longrightarrow> q_ok (nextChan n) f q"
  using at_requestD by (simp add: node_ok_def)

lemma step_ok: "node_step n n' \<Longrightarrow> node_ok f n \<Longrightarrow> \<exists>f'. node_ok f' n'"
proof (induction rule: node_step.induct)
  case (Load n k m ps)
  then show ?case by (intro exI [of _ f] ok_set_request) auto
next
  case (Inc n k i m ps)
  then show ?case by (intro exI [of _ f] ok_set_request) (auto simp: node_ok_def)
next
  case (Register n k i m ps)
  let ?f = "f(nextChan n := i)" and ?n = "n\<lparr>handlers := (handlers n)(i \<mapsto> nextChan n), nextChan := nextChan n + 1\<rparr>"
  from Register(2) have "node_ok ?f ?n" by (fastforce simp: node_ok_def intro: q_ok_new)
  then have "node_ok ?f (set_request k (QSend i (nextChan n) (request_msg i m ps)) ?n)" by (rule ok_set_request) simp
  then show ?case by (rule exI [of _ ?f])
next
  case (Send n k i c b)
  from ok_at [OF Send(2,1)] have "q_ok (nextChan n) f (QSend i c b)" .
  with Send show ?case by (intro exI [of _ f] ok_set_request) (auto simp: node_ok_def)
next
  case (SendErr n k i c b err)
  then show ?case by (intro exI [of _ f] ok_set_request) auto
next
  case (Recv n k i c r)
  let ?n = "n\<lparr>chan_buf := (chan_buf n)(c := None)\<rparr>"
  have "q_ok (nextChan n) f (QWait i c)" by (rule ok_at [OF Recv(3,1)])
  with Recv have "resp_ok i r" by (auto simp: node_ok_def)
  moreover from Recv(3) have "node_ok f ?n" by (auto simp: node_ok_def split: if_splits)
  ultimately show ?case by (intro exI [of _ f] ok_set_request) auto
next
  case (Timeout n k i c)
  then show ?case by (intro exI [of _ f] ok_set_request) (auto simp: resp_ok_def)
next
  case (Stopped n k i c)
  then show ?case by (intro exI [of _ f] ok_set_request) auto
next
  case (Finish n k i r)
  let ?n = "n\<lparr>handlers := (handlers n)(i := None)\<rparr>"
  have "resp_ok i r" using ok_at [OF Finish(2,1)] by simp
  moreover from Finish(2) have "node_ok f ?n" by (auto simp: node_ok_def split: if_splits)
  ultimately show ?case by (intro exI [of _ f] ok_set_request) (auto simp: resp_ok_def split: sum.splits)
next
  case (Line n line i r)
  from listen_msg_resp [OF Line(2)] Line(3) have "node_ok f (n\<lparr>listener := (case handlers n i of Some c \<Rightarrow> LSend c r | None \<Rightarrow> LRecv)\<rparr>)"
    by (auto simp: node_ok_def split: option.splits)
  then show ?case by blast
next
  case (Deliver n c r)
  then have "node_ok f (n\<lparr>listener := LRecv, chan_buf := (chan_buf n)(c \<mapsto> r)\<rparr>)" by (auto simp: node_ok_def)
  then show ?case by blast
next
  case (ListenEnd n)
  then show ?case by (intro exI [of _ f]) (simp add: node_ok_def)
next
  case (Shutdown n)
  then show ?case by (intro exI [of _ f]) (simp add: node_ok_def)
qed

definition fresh :: "request_pc \<Rightarrow> bool" where
  "fresh q \<longleftrightarrow> (\<exists>m ps. q = QStart m ps)"

lemma reach_ok: "node_step\<^sup>*\<^sup>* (NewNode rs) n \<Longrightarrow> \<forall>q \<in> set rs. fresh q \<Longrightarrow> \<exists>f. node_ok f n"
proof (induction rule: rtranclp_induct)
  case base
  then have "node_ok (\<lambda>_. 0) (NewNode rs)" by (auto simp: node_ok_def NewNode_def fresh_def)
  then show ?case by (rule exI [of _ "\<lambda>_. 0"])
qed (meson step_ok)


section \<open>Runs\<close>

text \<open>A schedule: the actions of a run, executed one after the other.\<close>

datatype node_action = ALoad nat | AInc nat | ARegister nat | ASend nat | ARecv nat | ATimeout nat | AFinish nat | ALine bytes | ADeliver

definition request_at :: "Node \<Rightarrow> nat \<Rightarrow> request_pc option" where
  "request_at n k = (if k < length (requests n) then Some (requests n ! k) else None)"

fun node_act :: "node_action \<Rightarrow> Node \<Rightarrow> Node option" where
  "node_act (ALoad k) n = (case request_at n k of Some (QStart m ps) \<Rightarrow> Some (set_request k (QLoaded (nextId n) m ps) n) | _ \<Rightarrow> None)"
| "node_act (AInc k) n = (case request_at n k of Some (QLoaded i m ps) \<Rightarrow> Some (set_request k (QReady i m ps) (n\<lparr>nextId := nextId n + 1\<rparr>)) | _ \<Rightarrow> None)"
| "node_act (ARegister k) n = (case request_at n k of Some (QReady i m ps) \<Rightarrow>
     Some (set_request k (QSend i (nextChan n) (request_msg i m ps)) (n\<lparr>handlers := (handlers n)(i \<mapsto> nextChan n), nextChan := nextChan n + 1\<rparr>)) | _ \<Rightarrow> None)"
| "node_act (ASend k) n = (case request_at n k of Some (QSend i c b) \<Rightarrow> Some (set_request k (QWait i c) (n\<lparr>sent := sent n @ [b]\<rparr>)) | _ \<Rightarrow> None)"
| "node_act (ARecv k) n = (case request_at n k of Some (QWait i c) \<Rightarrow>
     (case chan_buf n c of Some r \<Rightarrow> Some (set_request k (QGot i r) (n\<lparr>chan_buf := (chan_buf n)(c := None)\<rparr>)) | None \<Rightarrow> None) | _ \<Rightarrow> None)"
| "node_act (ATimeout k) n = (case request_at n k of Some (QWait i c) \<Rightarrow> Some (set_request k (QGot i (Inl wallet_ErrTimeout)) n) | _ \<Rightarrow> None)"
| "node_act (AFinish k) n = (case request_at n k of Some (QGot i r) \<Rightarrow>
     Some (set_request k (QDone i (case r of Inl err \<Rightarrow> Inl err | Inr b \<Rightarrow> Inr (Some b))) (n\<lparr>handlers := (handlers n)(i := None)\<rparr>)) | _ \<Rightarrow> None)"
| "node_act (ALine line) n = (if listener n = LRecv then
     Some (n\<lparr>listener := (case handlers n (fst (listen_msg line)) of Some c \<Rightarrow> LSend c (snd (listen_msg line)) | None \<Rightarrow> LRecv)\<rparr>) else None)"
| "node_act ADeliver n = (case listener n of LSend c r \<Rightarrow>
     if chan_buf n c = None then Some (n\<lparr>listener := LRecv, chan_buf := (chan_buf n)(c \<mapsto> r)\<rparr>) else None | _ \<Rightarrow> None)"

lemma request_at_Some: "request_at n k = Some q \<longleftrightarrow> at_request n k q"
  by (auto simp: request_at_def at_request_def)

lemma node_act_step: "node_act a n = Some n' \<Longrightarrow> node_step n n'"
proof (cases a)
  case (ARegister k)
  assume "node_act a n = Some n'"
  with ARegister show ?thesis
    by (auto simp: request_at_Some simp del: One_nat_def add_Suc_right dest: node_step.Register split: option.split_asm request_pc.split_asm)
next
  case (ALine line)
  assume "node_act a n = Some n'"
  with ALine node_step.Line [of n line "fst (listen_msg line)" "snd (listen_msg line)"] show ?thesis by (simp split: if_split_asm)
qed (auto simp: request_at_Some intro: node_step.intros split: option.split_asm request_pc.split_asm listen_pc.split_asm if_split_asm)

fun node_run :: "node_action list \<Rightarrow> Node \<Rightarrow> Node option" where
  "node_run [] n = Some n"
| "node_run (a # as) n = (case node_act a n of Some n' \<Rightarrow> node_run as n' | None \<Rightarrow> None)"

lemma node_run_steps: "node_run as n = Some n' \<Longrightarrow> node_step\<^sup>*\<^sup>* n n'"
  by (induction as arbitrary: n) (auto split: option.splits dest!: node_act_step intro: converse_rtranclp_into_rtranclp)

lemmas run_simps = request_at_def set_request_def NewNode_def

definition reply0 :: bytes where
  "reply0 = jprint (JObj [(''id'', JNum ''0''), (''result'', JStr ''00'')])"

lemma reply0_msg: "listen_msg reply0 = (0, Inr reply0)"
proof -
  have "json_unmarshal reply0 = Some (JObj [(''id'', JNum ''0''), (''result'', JStr ''00'')])" by code_simp
  moreover have "json_int ''0'' = Some 0" "fold_eq ''id'' ''id''" "\<not> fold_eq ''result'' ''id''" "\<not> fold_eq ''id'' ''method''" "\<not> fold_eq ''result'' ''method''"
    "\<not> fold_eq ''id'' ''error''" "\<not> fold_eq ''result'' ''error''" by code_simp+
  ultimately show ?thesis by (simp add: listen_msg_def Let_def part_field_def part_members_def jvals_def dec_u32_def msg_result_def)
qed


section \<open>Two calls, one id\<close>

text \<open>
  The id of a call is loaded and then incremented, not in one atomic step: two concurrent calls can both get the id 0 and send two different requests with it. The
  second registration replaces the first, so the response to either request goes to the second call, which returns it as its own, and the first call times out.
\<close>

theorem concurrent_requests_share_id:
  assumes "listen_msg line = (0, Inr line)"
  shows "\<exists>n. node_step\<^sup>*\<^sup>* (NewNode [QStart m ps, QStart m' ps']) n \<and> sent n = [request_msg 0 m ps, request_msg 0 m' ps']
    \<and> requests n = [QDone 0 (Inl wallet_ErrTimeout), QDone 0 (Inr (Some line))]"
proof -
  obtain n where "node_run [ALoad 0, ALoad 1, AInc 0, AInc 1, ARegister 0, ARegister 1, ASend 0, ASend 1, ALine line, ADeliver, ARecv 1, AFinish 1, ATimeout 0, AFinish 0]
      (NewNode [QStart m ps, QStart m' ps']) = Some n"
    and "sent n = [request_msg 0 m ps, request_msg 0 m' ps']" "requests n = [QDone 0 (Inl wallet_ErrTimeout), QDone 0 (Inr (Some line))]"
    using assms by (simp add: run_simps)
  then show ?thesis by (meson node_run_steps)
qed

theorem concurrent_requests_share_id_witness:
  "\<exists>n. node_step\<^sup>*\<^sup>* (NewNode [QStart ''a'' [], QStart ''b'' []]) n \<and> requests n = [QDone 0 (Inl wallet_ErrTimeout), QDone 0 (Inr (Some reply0))]"
  using concurrent_requests_share_id [OF reply0_msg, of "''a''" "[]" "''b''" "[]"] by blast

section \<open>A repeated response\<close>

text \<open>The listener waits for room in a channel that no call will read again.\<close>

definition jammed :: "nat \<Rightarrow> response \<Rightarrow> Node \<Rightarrow> bool" where
  "jammed c r n \<longleftrightarrow> listener n = LSend c r \<and> chan_buf n c \<noteq> None \<and> c < nextChan n
     \<and> (\<forall>q \<in> set (requests n). case q of QSend i d b \<Rightarrow> d \<noteq> c | QWait i d \<Rightarrow> d \<noteq> c | _ \<Rightarrow> True)"

lemma step_jammed: "node_step n n' \<Longrightarrow> jammed c r n \<Longrightarrow> jammed c r n'"
proof (induction rule: node_step.induct)
  case (Recv n k i d x)
  then have "d \<noteq> c" by (force simp: jammed_def dest: at_requestD)
  with Recv set_update_subset_insert [of "requests n" k] show ?case by (fastforce simp: jammed_def set_request_def)
qed (fastforce simp: jammed_def set_request_def dest: at_requestD set_update_subset_insert [THEN subsetD] split: request_pc.splits)+

lemma run_jammed: "node_step\<^sup>*\<^sup>* n n' \<Longrightarrow> jammed c r n \<Longrightarrow> jammed c r n'"
  by (induction rule: rtranclp_induct) (auto dest: step_jammed)

text \<open>
  A server that answers twice can stop the node for good: when a call times out after two responses with its id have arrived, the listener waits to put the second
  into the call's channel, whose one place holds the first and which nobody reads again. From then on the listener takes no line and does not even see the shutdown, so every later
  call times out and \<open>Shutdown\<close>, which waits for the listener, never returns.
\<close>

theorem repeated_response_blocks_listener:
  assumes "listen_msg line = (0, Inr line)" "\<forall>q \<in> set rs. fresh q"
  shows "\<exists>n. node_step\<^sup>*\<^sup>* (NewNode (QStart m ps # rs)) n \<and> (\<forall>n'. node_step\<^sup>*\<^sup>* n n' \<longrightarrow> listener n' = LSend 0 (Inr line))"
proof -
  let ?as = "[ALoad 0, AInc 0, ARegister 0, ASend 0, ALine line, ADeliver, ALine line, ATimeout 0, AFinish 0]"
  obtain n where n: "node_run ?as (NewNode (QStart m ps # rs)) = Some n" "listener n = LSend 0 (Inr line)" "chan_buf n 0 \<noteq> None" "nextChan n = 1"
    "requests n = QDone 0 (Inl wallet_ErrTimeout) # rs"
    using assms(1) by (simp add: run_simps)
  have "jammed 0 (Inr line) n" using n(2-5) assms(2) by (auto simp: jammed_def fresh_def split: request_pc.split)
  then have "\<forall>n'. node_step\<^sup>*\<^sup>* n n' \<longrightarrow> listener n' = LSend 0 (Inr line)" using run_jammed by (fastforce simp: jammed_def)
  with node_run_steps [OF n(1)] show ?thesis by blast
qed

theorem repeated_response_blocks_listener_witness:
  "\<exists>n. node_step\<^sup>*\<^sup>* (NewNode [QStart ''a'' [], QStart ''b'' []]) n \<and> (\<forall>n'. node_step\<^sup>*\<^sup>* n n' \<longrightarrow> listener n' = LSend 0 (Inr reply0))"
  using repeated_response_blocks_listener [OF reply0_msg, of "[QStart ''b'' []]" "''a''" "[]"] by (simp add: fresh_def)

end
