(* ===== verification/Blocklist_Correct.thy ===== *)
theory Blocklist_Correct
  imports Blocklist Db_Store_Correct
begin

text \<open>
  The block list: an update blocks every sd hash the wallet server gives for the outpoints of the API, in whatever order the map is walked; hex text is read back;
  and what a negative output number does.
\<close>

section \<open>Hex text\<close>

lemma hex_val_hex_digit: "hex_val (hex_digit n) = Some (n mod 16)"
proof -
  have "\<forall>i<16. hex_val (''0123456789abcdef'' ! i) = Some i" by code_simp
  then show ?thesis by (simp add: hex_digit_def)
qed

lemma hex_Decode_Encode: "hex_DecodeString (hex_EncodeToString bs) = Inr bs"
proof (induction bs)
  case Nil
  show ?case by (simp add: hex_EncodeToString_def)
next
  case (Cons c bs)
  have "of_char c div 16 < (16 :: nat)" using nat_of_char_less_256 [of c] by linarith
  then have "16 * (of_char c div 16 mod 16) + of_char c mod 16 = (of_char c :: nat)" by simp
  with Cons show ?case by (simp add: hex_EncodeToString_def hex_val_hex_digit)
qed

section \<open>Block on a working database\<close>

lemma isBlocked_live:
  assumes "db_up (dbs_db d) t"
  shows "DBBackedStore_isBlocked h d = (Ret (h \<in> (case dbs_blocked d of None \<Rightarrow> set (t_blocked t) | Some B \<Rightarrow> B), None),
     d\<lparr>dbs_blocked := Some (case dbs_blocked d of None \<Rightarrow> set (t_blocked t) | Some B \<Rightarrow> B)\<rparr>)"
  using assms
  by (cases "dbs_blocked d") (simp_all add: DBBackedStore_isBlocked_def DBBackedStore_initBlocked_def bnd_def get_st_def ret_def modify_def
      on_db_def zoom_def GetBlocked_def conn_call_def query_def db_up_def)

lemma SQL_Block_live:
  assumes "db_up s t"
  shows "\<exists>s' t'. SQL_Block h s = (Ret None, s') \<and> db_up s' t' \<and> stored_of t' = stored_of t"
proof -
  let ?t = "snd (stmt_block h t)"
  have "SQL_Block h s = (Ret None, s\<lparr>conn := Some ?t\<rparr>)"
    using assms by (simp add: SQL_Block_def bnd_def ret_def conn_call_def stmt_block_def db_up_def)
  moreover have "db_up (s\<lparr>conn := Some ?t\<rparr>) ?t" "stored_of ?t = stored_of t"
    using assms schema.i_block [of t h] by (auto simp: db_up_def stmt_block_def stored_of_def find_blob_def)
  ultimately show ?thesis by blast
qed

lemma markBlocked_live:
  assumes "dbs_blocked d = Some B"
  shows "DBBackedStore_markBlocked h d = (Ret None, d\<lparr>dbs_blocked := Some (insert h B)\<rparr>)"
  using assms by (simp add: DBBackedStore_markBlocked_def DBBackedStore_initBlocked_def bnd_def get_st_def ret_def modify_def)

lemma then_continue:
  assumes "bnd m (\<lambda>(has, err). if err \<noteq> None then ret err else bnd (P has) (\<lambda>err. if err \<noteq> None then ret err else ret None)) s = (Ret None, s')"
  shows "bnd m (\<lambda>(has, err). if err \<noteq> None then ret err else bnd (P has) (\<lambda>err. if err \<noteq> None then ret err else k)) s = k s'"
  using assms by (auto simp: bnd_def ret_def split: prod.splits outcome.splits if_splits)

context db_backed
begin

text \<open>\<open>Block\<close> succeeds; the blob is gone unless the hash was blocked before, and no other blob is touched.\<close>

lemma drop_live:
  assumes d: "db_inv d" and h: "vh h"
  shows "\<exists>d'. (bnd (on_db (HasBlob h False)) (\<lambda>(has, err). if err \<noteq> None then ret err
      else bnd (if has then bnd (on_blobs (bs_Delete st h)) (\<lambda>err. if err \<noteq> None then ret err else on_db (SQL_Delete h)) else ret None)
        (\<lambda>err. if err \<noteq> None then ret err else ret None))) d = (Ret None, d') \<and> db_inv d' \<and> db_content d' = (db_content d)(h := None)"
proof -
  from dbs_Has [OF d h, of False] obtain d1 where
    d1: "on_db (HasBlob h False) d = (Ret (db_content d h \<noteq> None, None), d1)" "db_inv d1" "dbs_blobs d1 = dbs_blobs d" by blast
  show ?thesis
  proof (cases "db_content d h")
    case None
    with d1 show ?thesis by (auto simp: bnd_def ret_def db_content_def fun_upd_idem_iff)
  next
    case (Some b)
    from dbs_Delete [OF d1(2) h] obtain d2 where
      "DBBackedStore_Delete st h d1 = (Ret None, d2)" "db_inv d2" "db_content d2 = (db_content d1)(h := None)" by blast
    with Some d1 show ?thesis
      by (intro exI [of _ d2]) (auto simp: bnd_def ret_def db_content_def DBBackedStore_Delete_def split: prod.splits outcome.splits if_splits)
  qed
qed

definition bl_inv :: "'s DBBackedStore \<Rightarrow> bool" where
  "bl_inv d \<longleftrightarrow> db_inv d \<and> blocked_sync d"

lemma Block_effect:
  assumes d: "bl_inv d" and h: "vh h"
  shows "\<exists>d' t. DBBackedStore_Block st h d = (Ret None, d') \<and> db_inv d' \<and> (\<forall>g. g \<noteq> h \<longrightarrow> db_content d' g = db_content d g) \<and> db_up (dbs_db d) t
     \<and> dbs_blocked d' = Some (insert h (case dbs_blocked d of None \<Rightarrow> set (t_blocked t) | Some B \<Rightarrow> B))"
proof -
  from d obtain t where t: "db_up (dbs_db d) t" by (auto simp: bl_inv_def db_inv_def)
  let ?B = "case dbs_blocked d of None \<Rightarrow> set (t_blocked t) | Some B \<Rightarrow> B" and ?d = "d\<lparr>dbs_blocked := Some (case dbs_blocked d of None \<Rightarrow> set (t_blocked t) | Some B \<Rightarrow> B)\<rparr>"
  note i = isBlocked_live [OF t, of h]
  have inv: "db_inv ?d" "db_content ?d = db_content d" using d by (auto simp: bl_inv_def db_inv_def db_content_def)
  show ?thesis
  proof (cases "h \<in> ?B")
    case True
    with i inv t show ?thesis by (intro exI [of _ ?d] exI [of _ t]) (simp add: DBBackedStore_Block_def bnd_def ret_def insert_absorb)
  next
    case False
    from SQL_Block_live [OF t, of h] obtain s1 t1 where s1: "SQL_Block h (dbs_db d) = (Ret None, s1)" "db_up s1 t1" "stored_of t1 = stored_of t" by blast
    let ?d1 = "?d\<lparr>dbs_db := s1\<rparr>"
    have "db_inv ?d1"
    proof -
      from d obtain t0 where "db_up (dbs_db d) t0" "inv (dbs_blobs d)" "\<forall>h. vh h \<longrightarrow> (stored_of t0 h = Some True \<longleftrightarrow> content (dbs_blobs d) h \<noteq> None)"
        by (auto simp: bl_inv_def db_inv_def)
      moreover from this(1) t have "t0 = t" by (simp add: db_up_def)
      ultimately show ?thesis using s1 by (auto simp: db_inv_def)
    qed
    from drop_live [OF this h] obtain d2 where d2: "bnd (on_db (HasBlob h False)) (\<lambda>(has, err). if err \<noteq> None then ret err
      else bnd (if has then bnd (on_blobs (bs_Delete st h)) (\<lambda>err. if err \<noteq> None then ret err else on_db (SQL_Delete h)) else ret None)
        (\<lambda>err. if err \<noteq> None then ret err else ret None)) ?d1 = (Ret None, d2)" "db_inv d2" "db_content d2 = (db_content ?d1)(h := None)" by blast
    have b2: "dbs_blocked d2 = Some ?B"
      using d2(1) by (auto simp: bnd_def ret_def on_db_def on_blobs_def zoom_def split: prod.splits outcome.splits if_splits)
    have "DBBackedStore_Block st h d = (Ret None, d2\<lparr>dbs_blocked := Some (insert h ?B)\<rparr>)"
    proof -
      have "on_db (SQL_Block h) ?d = (Ret None, ?d1)" using s1(1) by (simp add: on_db_def zoom_def)
      with i False have "DBBackedStore_Block st h d = (bnd (on_db (HasBlob h False)) (\<lambda>(has, err). if err \<noteq> None then ret err
        else bnd (if has then bnd (on_blobs (bs_Delete st h)) (\<lambda>err. if err \<noteq> None then ret err else on_db (SQL_Delete h)) else ret None)
          (\<lambda>err. if err \<noteq> None then ret err else DBBackedStore_markBlocked h))) ?d1"
        unfolding DBBackedStore_Block_def by (simp add: bnd_def [of "DBBackedStore_isBlocked h"] bnd_def [of "on_db (SQL_Block h)"])
      also have "\<dots> = DBBackedStore_markBlocked h d2" by (rule then_continue [OF d2(1)])
      finally show ?thesis using markBlocked_live [OF b2, of h] by simp
    qed
    moreover have "db_inv (d2\<lparr>dbs_blocked := Some (insert h ?B)\<rparr>)" using d2(2) by (simp add: db_inv_def)
    ultimately show ?thesis using d2(3) inv(2) t by (intro exI [of _ "d2\<lparr>dbs_blocked := Some (insert h ?B)\<rparr>"] exI [of _ t]) (auto simp: db_content_def)
  qed
qed

lemma Block_live:
  assumes d: "bl_inv d" and h: "vh h"
  shows "\<exists>d'. DBBackedStore_Block st h d = (Ret None, d') \<and> bl_inv d' \<and> is_blocked h d' \<and> (\<forall>g. g \<noteq> h \<longrightarrow> db_content d' g = db_content d g)"
proof -
  from Block_effect [OF d h] obtain d' t where
    d': "DBBackedStore_Block st h d = (Ret None, d')" "db_inv d'" "\<forall>g. g \<noteq> h \<longrightarrow> db_content d' g = db_content d g" "db_up (dbs_db d) t"
      "dbs_blocked d' = Some (insert h (case dbs_blocked d of None \<Rightarrow> set (t_blocked t) | Some B \<Rightarrow> B))" by blast
  have h': "is_blocked h d'" using d d'(1) by (auto simp: bl_inv_def intro: Block_blocks)
  have "is_blocked g d'" if "g \<in> (case dbs_blocked d of None \<Rightarrow> set (t_blocked t) | Some B \<Rightarrow> B)" for g
  proof -
    have "is_blocked g d" using that d d'(4) by (auto simp: is_blocked_def bl_inv_def blocked_sync_def on_tables_def db_up_def split: option.splits)
    with keeps_retD [OF kb_Block _ d'(1)] show ?thesis by blast
  qed
  with h' d'(5) have "blocked_sync d'" by (auto simp: blocked_sync_def is_blocked_def on_tables_def)
  with h' d' show ?thesis by (auto simp: bl_inv_def)
qed

end

context db_backed
begin

lemma block_values_live:
  "bl_inv d \<Longrightarrow> \<forall>v \<in> set xs. \<forall>h. snd v = Inr h \<longrightarrow> vh h \<Longrightarrow>
   \<exists>d'. block_values (DBBackedStore_blocklister st) xs d = (Ret (), d') \<and> bl_inv d' \<and> (\<forall>g. Inr g \<in> snd ` set xs \<or> is_blocked g d \<longrightarrow> is_blocked g d')
     \<and> (\<forall>g. Inr g \<notin> snd ` set xs \<longrightarrow> db_content d' g = db_content d g)"
proof (induction xs arbitrary: d)
  case Nil
  then show ?case by (simp add: ret_def)
next
  case (Cons v xs)
  obtain name x where v: "v = (name, x)" by (cases v)
  show ?case
  proof (cases x)
    case (Inl err)
    with Cons v show ?thesis by auto
  next
    case (Inr h)
    with Cons.prems v obtain d1 where d1: "DBBackedStore_Block st h d = (Ret None, d1)" "bl_inv d1" "is_blocked h d1" "\<forall>g. g \<noteq> h \<longrightarrow> db_content d1 g = db_content d g"
      using Block_live by (metis list.set_intros(1) snd_conv)
    have k: "is_blocked g d \<Longrightarrow> is_blocked g d1" for g using keeps_retD [OF kb_Block _ d1(1)] by blast
    from Cons.IH [OF d1(2)] Cons.prems(2) obtain d2 where
      d2: "block_values (DBBackedStore_blocklister st) xs d1 = (Ret (), d2)" "bl_inv d2" "\<forall>g. Inr g \<in> snd ` set xs \<or> is_blocked g d1 \<longrightarrow> is_blocked g d2"
        "\<forall>g. Inr g \<notin> snd ` set xs \<longrightarrow> db_content d2 g = db_content d1 g" by auto
    have "block_values (DBBackedStore_blocklister st) (v # xs) d = (Ret (), d2)"
      using v Inr d1(1) d2(1) by (simp add: bnd_def DBBackedStore_blocklister_def)
    with d1(3,4) d2(2-4) k v Inr show ?thesis by auto
  qed
qed

end

section \<open>What the wallet server is asked\<close>

text \<open>
  The claims on the chain: an outpoint resolves to an sd hash when it names an output of a transaction of the chain that holds a claim with that hash. A wallet
  server serves the chain when it answers a request for a transaction with its hex text, and with an error for an unknown one.
\<close>

definition resolves :: "'c tx_lib \<Rightarrow> (string \<rightharpoonup> bytes) \<Rightarrow> string \<Rightarrow> string \<Rightarrow> bool" where
  "resolves lib chain outpoint h \<longleftrightarrow> (\<exists>txid n nout raw outs value claim.
     split_on (CHR '':'') outpoint = [txid, n] \<and> Atoi n = Inr (int nout) \<and> chain txid = Some raw \<and> NewTxFromBytes lib raw = Inr outs \<and> nout < length outs
     \<and> claim_value lib (outs ! nout) = Inr value \<and> DecodeClaimBytes lib value = Inr claim \<and> h = hex_EncodeToString (claim_SdHash lib claim))"

definition serves :: "'w bl_env \<Rightarrow> (string \<rightharpoonup> bytes) \<Rightarrow> bool" where
  "serves env chain \<longleftrightarrow> (\<forall>txid w. case chain txid of
     Some raw \<Rightarrow> \<exists>data v w'. node_request env ''blockchain.transaction.get'' [txid] w = (Ret (Inr (Some data)), w')
       \<and> json_unmarshal data = Some v \<and> dec_result v = Some (hex_EncodeToString raw)
   | None \<Rightarrow> \<exists>err w'. node_request env ''blockchain.transaction.get'' [txid] w = (Ret (Inl err), w'))"

definition running :: "'w bl_env \<Rightarrow> bool" where
  "running env \<longleftrightarrow> (\<forall>w. \<exists>w'. stopping env w = (Ret False, w')) \<and> (\<forall>ss w. \<exists>w'. node_Connect env ss w = (Ret None, w'))"

definition nonneg_nout :: "string \<Rightarrow> bool" where
  "nonneg_nout outpoint \<longleftrightarrow> (case split_on (CHR '':'') outpoint of [txid, n] \<Rightarrow> (case Atoi n of Inr i \<Rightarrow> 0 \<le> i | Inl _ \<Rightarrow> True) | _ \<Rightarrow> True)"

lemma GetTx_serves:
  assumes "serves env chain"
  shows "\<exists>r w'. GetTx env txid w = (Ret r, w') \<and> (case chain txid of Some raw \<Rightarrow> r = Inr (hex_EncodeToString raw) | None \<Rightarrow> \<exists>err. r = Inl err)"
proof (cases "chain txid")
  case None
  with assms [unfolded serves_def, rule_format, of txid w] show ?thesis by (auto simp: GetTx_def bnd_def ret_def)
next
  case (Some raw)
  with assms [unfolded serves_def, rule_format, of txid w] show ?thesis by (auto simp: GetTx_def bnd_def ret_def)
qed

lemma outpoint_value_spec:
  assumes s: "serves env chain" and n: "nonneg_nout outpoint"
  shows "\<exists>v w'. outpoint_value env lib outpoint w = (Ret v, w') \<and> (\<forall>h. v = Inr h \<longleftrightarrow> resolves lib chain outpoint h)"
proof (cases "\<exists>txid n i. split_on (CHR '':'') outpoint = [txid, n] \<and> Atoi n = Inr i")
  case False
  then have "\<not> resolves lib chain outpoint h" for h by (auto simp: resolves_def)
  with False show ?thesis by (auto simp: outpoint_value_def ret_def split: list.split sum.split)
next
  case True
  then obtain txid m i where o: "split_on (CHR '':'') outpoint = [txid, m]" "Atoi m = Inr i" by blast
  with n obtain nout where i: "i = int nout" by (auto simp: nonneg_nout_def dest: nonneg_int_cases)
  from GetTx_serves [OF s, of txid w] obtain r w' where
    r: "GetTx env txid w = (Ret r, w')" "case chain txid of Some raw \<Rightarrow> r = Inr (hex_EncodeToString raw) | None \<Rightarrow> \<exists>err. r = Inl err" by blast
  show ?thesis
  proof (cases "chain txid")
    case None
    with r o i show ?thesis by (auto simp: outpoint_value_def GetClaimInTx_def bnd_def ret_def resolves_def)
  next
    case (Some raw)
    with r o i show ?thesis
      by (auto simp: outpoint_value_def GetClaimInTx_def bnd_def ret_def resolves_def hex_Decode_Encode split: sum.split)
  qed
qed

lemma outpoint_loop_spec:
  assumes s: "serves env chain" and run: "running env"
  shows "\<forall>x \<in> set ops. nonneg_nout x \<Longrightarrow>
    \<exists>vs w'. outpoint_loop env lib ops vals w = (Ret vs, w') \<and> (\<forall>x. x \<notin> set ops \<longrightarrow> map_of vs x = map_of vals x)
      \<and> (\<forall>x \<in> set ops. \<exists>v. map_of vs x = Some v \<and> (\<forall>h. v = Inr h \<longleftrightarrow> resolves lib chain x h)) \<and> (distinct (map fst vals) \<longrightarrow> distinct (map fst vs))"
proof (induction ops arbitrary: vals w)
  case Nil
  show ?case by (simp add: ret_def)
next
  case (Cons x ops)
  from run obtain w1 where w1: "stopping env w = (Ret False, w1)" by (meson running_def)
  from outpoint_value_spec [OF s, of x lib w1] Cons.prems obtain v w2 where
    v: "outpoint_value env lib x w1 = (Ret v, w2)" "\<forall>h. v = Inr h \<longleftrightarrow> resolves lib chain x h" by auto
  from Cons.IH [of "AList.update x v vals" w2] Cons.prems obtain vs w' where
    vs: "outpoint_loop env lib ops (AList.update x v vals) w2 = (Ret vs, w')" "\<forall>y. y \<notin> set ops \<longrightarrow> map_of vs y = map_of (AList.update x v vals) y"
      "\<forall>y \<in> set ops. \<exists>v. map_of vs y = Some v \<and> (\<forall>h. v = Inr h \<longleftrightarrow> resolves lib chain y h)"
      "distinct (map fst (AList.update x v vals)) \<longrightarrow> distinct (map fst vs)" by auto
  have "outpoint_loop env lib (x # ops) vals w = (Ret vs, w')" using w1 v(1) vs(1) by (simp add: bnd_def)
  with vs(2-4) v(2) distinct_update [of vals x v] show ?case by (auto simp: update_conv' )
qed

section \<open>The update\<close>

lemma blockedSdHashes_spec:
  assumes "serves env chain" "running env" "\<forall>x \<in> set ops. nonneg_nout x"
    and "http_Get env blocklistURL w = (Ret (Inr body), w1)" "fst (Decoder_Decode NewDecoder body) = Inr v" "dec_blocked v = Some (True, e, ops)"
  shows "\<exists>vs w'. blockedSdHashes env lib servers w = (Ret (Inr vs), w') \<and> (\<forall>h. Inr h \<in> snd ` set vs \<longleftrightarrow> (\<exists>x \<in> set ops. resolves lib chain x h))"
proof -
  from assms(2) obtain w2 where w2: "node_Connect env servers w1 = (Ret None, w2)" by (meson running_def)
  from outpoint_loop_spec [OF assms(1-3), of lib "[]" w2] obtain vs w' where
    vs: "outpoint_loop env lib ops [] w2 = (Ret vs, w')" "\<forall>x. x \<notin> set ops \<longrightarrow> map_of vs x = None"
      "\<forall>x \<in> set ops. \<exists>v. map_of vs x = Some v \<and> (\<forall>h. v = Inr h \<longleftrightarrow> resolves lib chain x h)" "distinct (map fst vs)" by auto
  have "Inr h \<in> snd ` set vs \<longleftrightarrow> (\<exists>x. map_of vs x = Some (Inr h))" for h
    using map_of_eq_Some_iff [OF vs(4)] by (force simp: image_iff)
  moreover have "(\<exists>x. map_of vs x = Some (Inr h)) \<longleftrightarrow> (\<exists>x \<in> set ops. resolves lib chain x h)" for h
    using vs(2,3) by (metis option.distinct(1) option.inject)
  ultimately show ?thesis using assms(4-6) w2 vs(1) by (auto simp: blockedSdHashes_def sdHashesForOutpoints_def bnd_def ret_def)
qed

lemma run_calls_unloaded:
  "run_calls (DBBackedStore_ops del dup st) cs d = (obs, d') \<Longrightarrow> dbs_blocked d' = dbs_blocked d"
proof (induction cs arbitrary: d obs)
  case (Cons c cs)
  have "dbs_blocked d1 = dbs_blocked d" if "run_call (DBBackedStore_ops del dup st) c d = (ob, d1)" for ob d1
    using that
    by (cases c) (auto simp: DBBackedStore_ops_def DBBackedStore_Has_def DBBackedStore_Get_def DBBackedStore_Put_def DBBackedStore_PutSD_def DBBackedStore_Delete_def
        on_db_def on_blobs_def zoom_def bnd_def ret_def split: prod.splits outcome.splits if_splits sum.splits)
  with Cons show ?case by (auto split: prod.splits)
qed simp

context db_backed
begin

lemma update_live:
  assumes d: "bl_inv d" and vs: "blockedSdHashes env lib servers w = (Ret (Inr vs), w')" "\<forall>h. Inr h \<in> snd ` set vs \<longrightarrow> vh h" and o: "\<forall>xs. set (order xs) = set xs"
  shows "\<exists>d'. updateBlocklist order env lib (DBBackedStore_blocklister st) servers (d, w) = (Ret (), (d', w')) \<and> (\<forall>h. Inr h \<in> snd ` set vs \<longrightarrow> is_blocked h d')
     \<and> (\<forall>g. Inr g \<notin> snd ` set vs \<longrightarrow> db_content d' g = db_content d g)"
proof -
  from block_values_live [OF d, of "order vs"] vs(2) o obtain d' where
    d': "block_values (DBBackedStore_blocklister st) (order vs) d = (Ret (), d')" "\<forall>g. Inr g \<in> snd ` set vs \<or> is_blocked g d \<longrightarrow> is_blocked g d'"
      "\<forall>g. Inr g \<notin> snd ` set vs \<longrightarrow> db_content d' g = db_content d g" by (force simp: image_iff)
  with vs(1) show ?thesis by (auto simp: updateBlocklist_def bnd_def zoom_def)
qed

lemma new_bl_inv:
  assumes "inv b0" "content b0 = Map.empty" "tr \<noteq> TrackAccessStreams" "\<forall>c \<in> set cs. call_ok vh (\<lambda>h b. addr h b \<and> b \<noteq> []) (\<lambda>_ _. False) c"
    and "run_calls (DBBackedStore_ops deleteOnMiss dup st) cs (NewDBBackedStore b0 ((empty_db tr [])\<lparr>SoftDelete := sd\<rparr>)) = (obs, d)"
  shows "bl_inv d"
proof -
  let ?d = "NewDBBackedStore b0 ((empty_db tr [])\<lparr>SoftDelete := sd\<rparr>)"
  have "db_inv ?d" by (rule new_db_inv [OF assms(1-3)])
  from dbs.run_calls_refines [OF this assms(4,5)] run_calls_unloaded [OF assms(5)] show ?thesis
    by (simp add: bl_inv_def blocked_sync_def NewDBBackedStore_def)
qed

end


text \<open>A server with one blocked output, over a chain in which every transaction has one claim.\<close>

definition one_lib :: "bytes tx_lib" where
  "one_lib = \<lparr>NewTxFromBytes = (\<lambda>raw. Inr [raw]), IsClaimNameScript = (\<lambda>_. True), ParseClaimNameScript = Inr, IsClaimUpdateScript = (\<lambda>_. False),
     ParseClaimUpdateScript = Inr, DecodeClaimBytes = Inr, claim_SdHash = (\<lambda>_. replicate 48 (CHR ''s''))\<rparr>"

definition one_env :: "string \<Rightarrow> unit bl_env" where
  "one_env outpoint = \<lparr>http_Get = (\<lambda>_. ret (Inr (tcp_of [jprint (JObj [(''success'', JBool True), (''data'', JObj [(''outpoints'', JArr [JStr outpoint])])])]))),
     node_Connect = (\<lambda>_. ret None), node_request = (\<lambda>_ _. ret (Inr (Some (jprint (JObj [(''result'', JStr (hex_EncodeToString ''t''))]))))),
     stopping = ret False\<rparr>"

lemma one_env_serves: "serves (one_env x) (\<lambda>_. Some ''t'')" "running (one_env x)"
proof -
  have "json_unmarshal (jprint (JObj [(''result'', JStr (hex_EncodeToString ''t''))])) = Some (JObj [(''result'', JStr ''74'')])" by code_simp
  moreover have "dec_result (JObj [(''result'', JStr ''74'')]) = Some (hex_EncodeToString ''t'')" by code_simp
  ultimately show "serves (one_env x) (\<lambda>_. Some ''t'')" by (auto simp: serves_def one_env_def ret_def)
  show "running (one_env x)" by (simp add: running_def one_env_def ret_def)
qed

lemma one_env_api:
  "\<exists>body v. http_Get (one_env ''ab:0'') blocklistURL w = (Ret (Inr body), w) \<and> fst (Decoder_Decode NewDecoder body) = Inr v \<and> dec_blocked v = Some (True, [], [''ab:0''])"
  "\<exists>body v. http_Get (one_env ''ab:-1'') blocklistURL w = (Ret (Inr body), w) \<and> fst (Decoder_Decode NewDecoder body) = Inr v \<and> dec_blocked v = Some (True, [], [''ab:-1''])"
proof -
  let ?v = "\<lambda>x. JObj [(''success'', JBool True), (''data'', JObj [(''outpoints'', JArr [JStr x])])]"
  have "fst (Decoder_Decode NewDecoder (tcp_of [jprint (?v ''ab:0'')])) = Inr (?v ''ab:0'')" "dec_blocked (?v ''ab:0'') = Some (True, [], [''ab:0''])"
    "fst (Decoder_Decode NewDecoder (tcp_of [jprint (?v ''ab:-1'')])) = Inr (?v ''ab:-1'')" "dec_blocked (?v ''ab:-1'') = Some (True, [], [''ab:-1''])"
    by code_simp+
  then show "\<exists>body v. http_Get (one_env ''ab:0'') blocklistURL w = (Ret (Inr body), w) \<and> fst (Decoder_Decode NewDecoder body) = Inr v \<and> dec_blocked v = Some (True, [], [''ab:0''])"
    "\<exists>body v. http_Get (one_env ''ab:-1'') blocklistURL w = (Ret (Inr body), w) \<and> fst (Decoder_Decode NewDecoder body) = Inr v \<and> dec_blocked v = Some (True, [], [''ab:-1''])"
    by (auto simp: one_env_def ret_def)
qed


section \<open>A negative output number\<close>

lemma outpoint_panics:
  assumes "serves env chain" "split_on (CHR '':'') x = [txid, n]" "Atoi n = Inr i" "i < 0" "chain txid = Some raw" "NewTxFromBytes lib raw = Inr outs"
  shows "\<exists>w'. outpoint_value env lib x w = (Panic ''index out of range'', w')"
proof -
  from GetTx_serves [OF assms(1), of txid w] assms(5) obtain w' where "GetTx env txid w = (Ret (Inr (hex_EncodeToString raw)), w')" by auto
  with assms(2-6) show ?thesis by (simp add: outpoint_value_def GetClaimInTx_def bnd_def hex_Decode_Encode panic_def)
qed

lemma outpoint_loop_panics:
  assumes s: "serves env chain" and run: "running env" and p: "\<And>w. \<exists>w'. outpoint_value env lib x w = (Panic m, w')"
  shows "\<forall>y \<in> set pre. nonneg_nout y \<Longrightarrow> \<exists>w'. outpoint_loop env lib (pre @ x # post) vals w = (Panic m, w')"
proof (induction pre arbitrary: vals w)
  case Nil
  from run obtain w1 where w1: "stopping env w = (Ret False, w1)" by (meson running_def)
  from p [of w1] w1 show ?case by (auto simp: bnd_def)
next
  case (Cons y pre)
  from run obtain w1 where w1: "stopping env w = (Ret False, w1)" by (meson running_def)
  from outpoint_value_spec [OF s, of y lib w1] Cons.prems obtain v w2 where "outpoint_value env lib y w1 = (Ret v, w2)" by auto
  with Cons.IH [of "AList.update y v vals" w2] Cons.prems w1 show ?case by (simp add: bnd_def)
qed

text \<open>
  One outpoint with a negative output number in the list of the API ends the server: \<open>GetClaimInTx\<close> compares the number with the number of outputs and then indexes with it, so
  the first such outpoint whose transaction is known makes the update panic, and the goroutine of \<open>enableBlocklist\<close> has no \<open>recover\<close>. None of the
  outpoints of that list is blocked.
\<close>

theorem negative_nout_panics:
  assumes "serves env chain" "running env" "\<forall>y \<in> set pre. nonneg_nout y"
    and "split_on (CHR '':'') x = [txid, n]" "Atoi n = Inr i" "i < 0" "chain txid = Some raw" "NewTxFromBytes lib raw = Inr outs"
    and "http_Get env blocklistURL w = (Ret (Inr body), w1)" "fst (Decoder_Decode NewDecoder body) = Inr v" "dec_blocked v = Some (True, e, pre @ x # post)"
  shows "\<exists>w'. enableBlocklist order env lib b ticks (s, w) = (Panic ''index out of range'', (s, w'))"
proof -
  from assms(2) obtain w2 where w2: "node_Connect env walletServers w1 = (Ret None, w2)" by (meson running_def)
  from outpoint_loop_panics [OF assms(1,2) outpoint_panics [OF assms(1,4-8)] assms(3)] obtain w' where
    "outpoint_loop env lib (pre @ x # post) [] w2 = (Panic ''index out of range'', w')" by blast
  with assms(9-11) w2 show ?thesis
    by (simp add: enableBlocklist_def updateBlocklist_def blockedSdHashes_def sdHashesForOutpoints_def bnd_def zoom_def)
qed

theorem negative_nout_panics_witness:
  "\<exists>w'. enableBlocklist id (one_env ''ab:-1'') one_lib (DBBackedStore_blocklister NoopStore_ops) [] (NewDBBackedStore () (empty_db TrackAccessBlobs []), ())
     = (Panic ''index out of range'', (NewDBBackedStore () (empty_db TrackAccessBlobs []), w'))"
proof -
  from one_env_api(2) obtain body v where api: "http_Get (one_env ''ab:-1'') blocklistURL () = (Ret (Inr body), ())"
    "fst (Decoder_Decode NewDecoder body) = Inr v" "dec_blocked v = Some (True, [], [] @ ''ab:-1'' # [])" by auto
  have a: "split_on (CHR '':'') ''ab:-1'' = [''ab'', ''-1'']" "Atoi ''-1'' = Inr (- 1)" by code_simp+
  show ?thesis by (rule negative_nout_panics [OF one_env_serves _ a _ refl _ api]) (simp_all add: one_lib_def)
qed

end
