(* ===== verification/Cleaner.thy ===== *)
theory Cleaner
  imports Db_Store
begin

text \<open>
  The cleaner of a disk cache with a local database (src/cmd/reflector.go: \<open>cleanOldestBlobs\<close>, \<open>doClean\<close>).

  \<open>doClean\<close> counts the stored blobs, asks for the least recently accessed tenth when there are too many, and deletes them with three workers that read the hashes from
  a channel. The queries are the operation \<open>doClean_begin\<close>; the producer, the workers and the stop are the step relation \<open>clean_step\<close>. The channel has room for all
  hashes, so a send never waits. The workers share the variable \<open>err\<close>, which is only logged. A panic of \<open>Delete\<close> would end the process and is no
  step.
\<close>

definition doClean_begin :: "int \<Rightarrow> (SQL, go_error + string list) op" where
  "doClean_begin maxItems =
     bnd SQL_Count (\<lambda>(blobsCount, err).
       case err of
         Some err \<Rightarrow> ret (Inl err)
       | None \<Rightarrow>
           if blobsCount \<ge> maxItems then LeastRecentlyAccessedHashes (blobsCount div 10)
           else ret (Inr []))"

text \<open>
  The producer: at its select, before the send, returned with and without closing the channel. A worker: at the receive, at its select with a hash, before
  \<open>Delete\<close>, returned.
\<close>

datatype producer_pc = PSelect "string list" | PSend string "string list" | PClosed | PStopped

datatype cleaner_pc = KRecv | KSelect string | KDelete string | KQuit

record 's Cleaner =
  cl_store :: 's
  cl_producer :: producer_pc
  cl_chan :: "string list"
  cl_workers :: "cleaner_pc list"
  cl_stopped :: bool
  cl_done :: bool

definition doClean_go :: "string list \<Rightarrow> bool \<Rightarrow> 's \<Rightarrow> 's Cleaner" where
  "doClean_go hs stp s =
     \<lparr>cl_store = s, cl_producer = PSelect hs, cl_chan = [], cl_workers = replicate 3 KRecv, cl_stopped = stp, cl_done = False\<rparr>"

definition set_cleaner :: "nat \<Rightarrow> cleaner_pc \<Rightarrow> 's Cleaner \<Rightarrow> 's Cleaner" where
  "set_cleaner i w c = c\<lparr>cl_workers := (cl_workers c)[i := w]\<rparr>"

definition at_cleaner :: "'s Cleaner \<Rightarrow> nat \<Rightarrow> cleaner_pc \<Rightarrow> bool" where
  "at_cleaner c i w \<longleftrightarrow> i < length (cl_workers c) \<and> cl_workers c ! i = w"

text \<open>The label tells whether the step is the stop of the server.\<close>

inductive clean_step :: "'s BlobStore \<Rightarrow> bool \<Rightarrow> 's Cleaner \<Rightarrow> 's Cleaner \<Rightarrow> bool" for st :: "'s BlobStore" where
  CleanStop: "\<not> cl_stopped c \<Longrightarrow> clean_step st True c (c\<lparr>cl_stopped := True\<rparr>)"
| ProducerStopped: "cl_producer c = PSelect (h # hs) \<Longrightarrow> cl_stopped c \<Longrightarrow> clean_step st False c (c\<lparr>cl_producer := PStopped\<rparr>)"
| ProducerGoes: "cl_producer c = PSelect (h # hs) \<Longrightarrow> \<not> cl_stopped c \<Longrightarrow> clean_step st False c (c\<lparr>cl_producer := PSend h hs\<rparr>)"
| ProducerSends: "cl_producer c = PSend h hs \<Longrightarrow> clean_step st False c (c\<lparr>cl_producer := PSelect hs, cl_chan := cl_chan c @ [h]\<rparr>)"
| ProducerCloses: "cl_producer c = PSelect [] \<Longrightarrow> clean_step st False c (c\<lparr>cl_producer := PClosed\<rparr>)"
| WorkerReceives: "at_cleaner c i KRecv \<Longrightarrow> cl_chan c = h # hs \<Longrightarrow> clean_step st False c (set_cleaner i (KSelect h) (c\<lparr>cl_chan := hs\<rparr>))"
| WorkerEnds: "at_cleaner c i KRecv \<Longrightarrow> cl_chan c = [] \<Longrightarrow> cl_producer c = PClosed \<Longrightarrow> clean_step st False c (set_cleaner i KQuit c)"
| WorkerStopped: "at_cleaner c i (KSelect h) \<Longrightarrow> cl_stopped c \<Longrightarrow> clean_step st False c (set_cleaner i KQuit c)"
| WorkerGoes: "at_cleaner c i (KSelect h) \<Longrightarrow> \<not> cl_stopped c \<Longrightarrow> clean_step st False c (set_cleaner i (KDelete h) c)"
| WorkerDeletes: "at_cleaner c i (KDelete h) \<Longrightarrow> bs_Delete st h (cl_store c) = (Ret err, s) \<Longrightarrow> clean_step st False c (set_cleaner i KRecv (c\<lparr>cl_store := s\<rparr>))"
| CleanReturns: "set (cl_workers c) = {KQuit} \<Longrightarrow> \<not> cl_done c \<Longrightarrow> clean_step st False c (c\<lparr>cl_done := True\<rparr>)"

definition clean_any :: "'s BlobStore \<Rightarrow> 's Cleaner \<Rightarrow> 's Cleaner \<Rightarrow> bool" where
  "clean_any st c c' \<longleftrightarrow> (\<exists>l. clean_step st l c c')"

end
