(* ===== verification/Cleaner_Correct.thy ===== *)
theory Cleaner_Correct
  imports Cleaner Db_Store_Correct "HOL-Library.Multiset"
begin

text \<open>
  The cleaner: every run ends; a run that is not stopped ends with the return of \<open>doClean\<close> and exactly the chosen blobs removed; the chosen blobs are
  the least recently accessed ones; a run that is stopped before the channel is closed never returns.
\<close>

section \<open>Runs end\<close>

fun p_rank :: "producer_pc \<Rightarrow> nat" where
  "p_rank (PSelect hs) = 6 * length hs + 1"
| "p_rank (PSend h hs) = 6 * length hs + 6"
| "p_rank PClosed = 0"
| "p_rank PStopped = 0"

fun k_rank :: "cleaner_pc \<Rightarrow> nat" where
  "k_rank KRecv = 1"
| "k_rank (KSelect h) = 4"
| "k_rank (KDelete h) = 3"
| "k_rank KQuit = 0"

definition clean_rank :: "'s Cleaner \<Rightarrow> nat" where
  "clean_rank c = p_rank (cl_producer c) + 4 * length (cl_chan c) + sum_list (map k_rank (cl_workers c)) + of_bool (\<not> cl_stopped c) + of_bool (\<not> cl_done c)"

lemma k_rank_set:
  assumes "at_cleaner c i w" "cl_workers v = cl_workers c"
  shows "sum_list (map k_rank (cl_workers (set_cleaner i w' v))) + k_rank w = sum_list (map k_rank (cl_workers c)) + k_rank w'"
proof -
  have i: "i < length (map k_rank (cl_workers c))" "map k_rank (cl_workers c) ! i = k_rank w" using assms by (auto simp: at_cleaner_def)
  then have "k_rank w \<le> sum_list (map k_rank (cl_workers c))" by (metis elem_le_sum_list)
  with i sum_list_update [OF i(1), of "k_rank w'"] assms(2) show ?thesis by (simp add: set_cleaner_def map_update)
qed

lemma set_cleaner_simps [simp]:
  "cl_store (set_cleaner i w c) = cl_store c" "cl_producer (set_cleaner i w c) = cl_producer c" "cl_chan (set_cleaner i w c) = cl_chan c"
  "cl_stopped (set_cleaner i w c) = cl_stopped c" "cl_done (set_cleaner i w c) = cl_done c"
  "cl_workers (set_cleaner i w c) = (cl_workers c)[i := w]"
  by (simp_all add: set_cleaner_def)

lemma clean_step_rank: "clean_step st l c c' \<Longrightarrow> clean_rank c' < clean_rank c"
proof (induction rule: clean_step.induct)
  case (WorkerReceives c i h hs)
  from k_rank_set [OF WorkerReceives(1), of "c\<lparr>cl_chan := hs\<rparr>" "KSelect h"] WorkerReceives(2) show ?case by (simp add: clean_rank_def)
next
  case (WorkerEnds c i)
  from k_rank_set [OF WorkerEnds(1), of c KQuit] show ?case by (simp add: clean_rank_def)
next
  case (WorkerStopped c i h)
  from k_rank_set [OF WorkerStopped(1), of c KQuit] show ?case by (simp add: clean_rank_def)
next
  case (WorkerGoes c i h)
  from k_rank_set [OF WorkerGoes(1), of c "KDelete h"] show ?case by (simp add: clean_rank_def)
next
  case (WorkerDeletes c i h err s)
  from k_rank_set [OF WorkerDeletes(1), of "c\<lparr>cl_store := s\<rparr>" KRecv] show ?case by (simp add: clean_rank_def)
qed (auto simp: clean_rank_def)

section \<open>What is left to delete\<close>

fun p_hashes :: "producer_pc \<Rightarrow> string set" where
  "p_hashes (PSelect hs) = set hs"
| "p_hashes (PSend h hs) = insert h (set hs)"
| "p_hashes _ = {}"

fun k_hashes :: "cleaner_pc \<Rightarrow> string set" where
  "k_hashes (KSelect h) = {h}"
| "k_hashes (KDelete h) = {h}"
| "k_hashes _ = {}"

definition clean_left :: "'s Cleaner \<Rightarrow> string set" where
  "clean_left c = p_hashes (cl_producer c) \<union> set (cl_chan c) \<union> (\<Union>w \<in> set (cl_workers c). k_hashes w)"

lemma at_cleaner_mem: "at_cleaner c i w \<Longrightarrow> w \<in> set (cl_workers c)"
  by (auto simp: at_cleaner_def)

lemma UN_update:
  assumes "i < length xs"
  shows "(\<Union>w \<in> set (xs[i := w']). f w) \<union> f (xs ! i) = (\<Union>w \<in> set xs. f w) \<union> f w'"
proof -
  have "set (xs[i := w']) = insert w' (set (take i xs) \<union> set (drop (Suc i) xs))" using assms by (simp add: upd_conv_take_nth_drop)
  moreover have "set xs = insert (xs ! i) (set (take i xs) \<union> set (drop (Suc i) xs))"
    using arg_cong [OF id_take_nth_drop [OF assms], of set] by simp
  ultimately show ?thesis by auto
qed

lemma clean_left_set:
  assumes "at_cleaner c i w" "cl_workers v = cl_workers c"
  shows "(\<Union>w \<in> set (cl_workers (set_cleaner i w' v)). k_hashes w) \<union> k_hashes w = (\<Union>w \<in> set (cl_workers c). k_hashes w) \<union> k_hashes w'"
  using UN_update [of i "cl_workers c" k_hashes w'] assms by (auto simp: at_cleaner_def)

text \<open>How far the goroutines may be apart, and what the store holds, given the content \<open>F\<close> at the start.\<close>

definition clean_sync :: "'s Cleaner \<Rightarrow> bool" where
  "clean_sync c \<longleftrightarrow> length (cl_workers c) = 3
     \<and> (\<not> cl_stopped c \<longrightarrow> cl_producer c \<noteq> PStopped)
     \<and> (\<not> cl_stopped c \<longrightarrow> KQuit \<in> set (cl_workers c) \<longrightarrow> cl_producer c = PClosed \<and> cl_chan c = [])
     \<and> (cl_done c \<longrightarrow> set (cl_workers c) = {KQuit})"

lemma sync_set_cleaner:
  assumes "clean_sync c" "at_cleaner c i w" "w \<noteq> KQuit"
    "cl_workers v = cl_workers c" "cl_producer v = cl_producer c" "cl_chan v = cl_chan c \<or> cl_chan c \<noteq> []" "cl_stopped v = cl_stopped c" "cl_done v = cl_done c"
    and "w' = KQuit \<longrightarrow> cl_stopped c \<or> cl_producer c = PClosed \<and> cl_chan v = []"
  shows "clean_sync (set_cleaner i w' v)"
proof -
  have "\<not> cl_done c" using assms(1-3) at_cleaner_mem by (fastforce simp: clean_sync_def)
  then show ?thesis using assms set_update_subset_insert [of "cl_workers c" i w'] by (auto simp: clean_sync_def)
qed

lemma clean_step_sync: "clean_step st l c c' \<Longrightarrow> clean_sync c \<Longrightarrow> clean_sync c'"
proof (induction rule: clean_step.induct)
  case (WorkerReceives c i h hs)
  then show ?case by (intro sync_set_cleaner [where c = c and w = KRecv]) auto
next
  case (WorkerEnds c i)
  then show ?case by (intro sync_set_cleaner [where c = c and w = KRecv]) auto
next
  case (WorkerStopped c i h)
  then show ?case by (intro sync_set_cleaner [where c = c and w = "KSelect h"]) auto
next
  case (WorkerGoes c i h)
  then show ?case by (intro sync_set_cleaner [where c = c and w = "KSelect h"]) auto
next
  case (WorkerDeletes c i h err s)
  then show ?case by (intro sync_set_cleaner [where c = c and w = "KDelete h"]) auto
qed (auto simp: clean_sync_def)

context live_store
begin

definition clean_data :: "content \<Rightarrow> string set \<Rightarrow> 's Cleaner \<Rightarrow> bool" where
  "clean_data F H c \<longleftrightarrow> inv (cl_store c) \<and> clean_left c \<subseteq> H
     \<and> (\<forall>h. content (cl_store c) h = F h \<or> h \<in> H \<and> content (cl_store c) h = None)
     \<and> (\<not> cl_stopped c \<longrightarrow> (\<forall>h \<in> H. content (cl_store c) h = None \<or> h \<in> clean_left c))"

lemma clean_step_data:
  assumes H: "\<forall>h \<in> H. vh h"
  shows "clean_step st l c c' \<Longrightarrow> clean_data F H c \<Longrightarrow> clean_data F H c'"
proof (induction rule: clean_step.induct)
  case (WorkerReceives c i h hs)
  with clean_left_set [OF WorkerReceives(1), of "c\<lparr>cl_chan := hs\<rparr>" "KSelect h"] have "clean_left (set_cleaner i (KSelect h) (c\<lparr>cl_chan := hs\<rparr>)) = clean_left c"
    by (auto simp: clean_left_def)
  with WorkerReceives show ?case by (simp add: clean_data_def)
next
  case (WorkerEnds c i)
  with clean_left_set [OF WorkerEnds(1), of c KQuit] have "clean_left (set_cleaner i KQuit c) = clean_left c" by (auto simp: clean_left_def)
  with WorkerEnds show ?case by (simp add: clean_data_def)
next
  case (WorkerStopped c i h)
  with clean_left_set [OF WorkerStopped(1), of c KQuit] have "clean_left (set_cleaner i KQuit c) \<subseteq> clean_left c" by (auto simp: clean_left_def)
  with WorkerStopped show ?case by (auto simp: clean_data_def)
next
  case (WorkerGoes c i h)
  have "KSelect h \<in> set (cl_workers c)" "KDelete h \<in> set (cl_workers (set_cleaner i (KDelete h) c))"
    using at_cleaner_mem [OF WorkerGoes(1)] WorkerGoes(1) by (auto simp: at_cleaner_def set_update_memI)
  then have "h \<in> (\<Union>w \<in> set (cl_workers c). k_hashes w)" "h \<in> (\<Union>w \<in> set (cl_workers (set_cleaner i (KDelete h) c)). k_hashes w)" by force+
  with clean_left_set [OF WorkerGoes(1), of c "KDelete h"] have "clean_left (set_cleaner i (KDelete h) c) = clean_left c"
    unfolding clean_left_def by (simp add: insert_absorb)
  with WorkerGoes show ?case by (simp add: clean_data_def)
next
  case (WorkerDeletes c i h err s)
  from clean_left_set [OF WorkerDeletes(1), of "c\<lparr>cl_store := s\<rparr>" KRecv]
  have l: "clean_left (set_cleaner i KRecv (c\<lparr>cl_store := s\<rparr>)) \<union> {h} = clean_left c \<union> {h}" by (auto simp: clean_left_def)
  have "h \<in> clean_left c" using at_cleaner_mem [OF WorkerDeletes(1)] by (force simp: clean_left_def)
  with WorkerDeletes H have h: "h \<in> H" "vh h" "inv (cl_store c)" by (auto simp: clean_data_def)
  from Delete_spec [OF h(3,2)] WorkerDeletes(2) have s: "inv s" "content s = (content (cl_store c))(h := None)" by auto
  from WorkerDeletes h(1) s l show ?case by (auto simp: clean_data_def set_eq_iff)
qed (auto simp: clean_data_def clean_left_def)

lemma clean_run:
  assumes H: "\<forall>h \<in> set hs. vh h" and s: "inv s" and r: "(clean_any st)\<^sup>*\<^sup>* (doClean_go hs stp s) c"
  shows "clean_sync c \<and> clean_data (content s) (set hs) c"
  using r
proof (induction rule: rtranclp_induct)
  case base
  from s show ?case by (auto simp: clean_sync_def clean_data_def doClean_go_def clean_left_def)
next
  case (step c c')
  then show ?case using clean_step_sync clean_step_data [OF H] by (auto simp: clean_any_def)
qed

lemma clean_moves:
  assumes H: "\<forall>h \<in> H. vh h" and c: "clean_sync c" "clean_data F H c" "\<not> cl_stopped c" "\<not> cl_done c"
  shows "\<exists>c'. clean_step st False c c'"
proof (cases "cl_producer c = PClosed")
  case False
  then consider h hs where "cl_producer c = PSelect (h # hs)" | "cl_producer c = PSelect []" | h hs where "cl_producer c = PSend h hs"
    using c by (cases "cl_producer c") (auto simp: clean_sync_def neq_Nil_conv, metis list.exhaust)
  then show ?thesis using c(3) by cases (blast intro: clean_step.intros)+
next
  case True
  show ?thesis
  proof (cases "set (cl_workers c) \<subseteq> {KQuit}")
    case True
    with c have "set (cl_workers c) = {KQuit}" by (auto simp: clean_sync_def subset_singleton_iff)
    from clean_step.CleanReturns [OF this c(4)] show ?thesis by blast
  next
    case False
    then obtain w where "w \<in> set (cl_workers c)" "w \<noteq> KQuit" by auto
    then obtain i where w: "at_cleaner c i w" "w \<noteq> KQuit" by (auto simp: at_cleaner_def in_set_conv_nth)
    show ?thesis
    proof (cases w)
      case KRecv
      with w(1) True show ?thesis by (cases "cl_chan c") (blast intro: clean_step.intros)+
    next
      case (KSelect h)
      with w(1) c(3) show ?thesis by (blast intro: clean_step.intros)
    next
      case (KDelete h)
      with at_cleaner_mem [OF w(1)] have "h \<in> clean_left c" by (force simp: clean_left_def)
      with H c(2) have "vh h" "inv (cl_store c)" by (auto simp: clean_data_def)
      from Delete_spec [OF this(2,1)] w(1) KDelete show ?thesis by (blast intro: clean_step.intros)
    qed (use w in simp)
  qed
qed

lemma clean_end:
  assumes H: "\<forall>h \<in> set hs. vh h" and s: "inv s" and r: "(clean_any st)\<^sup>*\<^sup>* (doClean_go hs stp s) c"
    and c: "\<not> cl_stopped c" "\<nexists>c'. clean_step st False c c'"
  shows "cl_done c \<and> inv (cl_store c) \<and> content (cl_store c) = (content s) |` (- set hs)"
proof -
  from clean_run [OF H s r] have d: "clean_sync c" "clean_data (content s) (set hs) c" by auto
  with clean_moves [OF H d] c have "cl_done c" by blast
  with d(1) c(1) have "clean_left c = {}" by (auto simp: clean_sync_def clean_left_def)
  with d(2) c(1) have "content (cl_store c) h = ((content s) |` (- set hs)) h" for h by (auto simp: clean_data_def restrict_map_def)
  then have "content (cl_store c) = (content s) |` (- set hs)" by (rule ext)
  with \<open>cl_done c\<close> d(2) show ?thesis by (simp add: clean_data_def)
qed

end

section \<open>The least recently accessed blobs\<close>

lemma access_le_total: "access_le a b \<or> access_le b a"
  by (auto simp: access_le_def split: option.splits)

lemma access_le_trans: "access_le a b \<Longrightarrow> access_le b c \<Longrightarrow> access_le a c"
  by (auto simp: access_le_def split: option.splits)

lemma insert_row_mset: "mset (insert_row b bs) = add_mset b (mset bs)"
  by (induction bs) auto

lemma insert_row_sorted: "sorted_wrt access_le bs \<Longrightarrow> sorted_wrt access_le (insert_row b bs)"
proof (induction bs)
  case (Cons c cs)
  then show ?case using access_le_total [of b c] mset_eq_setD [OF insert_row_mset [of b cs, folded mset.simps(2)]]
    by (auto intro: access_le_trans)
qed simp

lemma by_access: "mset (foldr insert_row bs []) = mset bs" "sorted_wrt access_le (foldr insert_row bs [])"
  by (induction bs) (auto simp: insert_row_mset insert_row_sorted)

lemma sorted_take_drop:
  assumes "sorted_wrt R xs" "x \<in> set (take n xs)" "y \<in> set (drop n xs)"
  shows "R x y"
  using assms sorted_wrt_append [of R "take n xs" "drop n xs"] by simp

text \<open>
  With a working connection and access tracking, the cleaner of a local database (soft deletes) chooses nothing when there are fewer stored blobs than the
  limit, and otherwise a tenth of them, rounded down, each stored, none twice, and none accessed later than a stored blob that stays.
\<close>

theorem doClean_chooses_oldest:
  assumes up: "db_up s t" and tr: "TrackAccess s = TrackAccessBlobs" "SoftDelete s"
  shows "\<exists>vs. doClean_begin maxItems s = (Ret (Inr (map b_hash vs)), s) \<and> set vs \<subseteq> {b \<in> set (t_blob t). b_stored b} \<and> distinct (map b_hash vs)
      \<and> length vs = (let n = length (filter b_stored (t_blob t)) in if int n \<ge> maxItems then n div 10 else 0)
      \<and> (\<forall>v \<in> set vs. \<forall>b \<in> set (t_blob t). b_stored b \<longrightarrow> b \<notin> set vs \<longrightarrow> access_le v b)"
proof -
  let ?rows = "filter b_stored (t_blob t)"
  let ?n = "length ?rows"
  let ?all = "foldr insert_row ?rows []"
  let ?vs = "if int ?n \<ge> maxItems then take (?n div 10) ?all else []"
  from up have c: "conn s = Some t" "db_faults s = []" "distinct (map b_hash (t_blob t))" by (auto simp: db_up_def db_wf_def blobs_ok_def)
  note all = by_access [of ?rows] mset_eq_setD [OF by_access(1) [of ?rows]] mset_eq_length [OF by_access(1) [of ?rows]]
  have "distinct (map b_hash ?rows)" using c(3) by (simp add: distinct_map_filter)
  then have "distinct (map b_hash ?all)" using all(1) by (metis mset_map mset_eq_imp_distinct_iff)
  then have d: "distinct (map b_hash ?vs)" by (auto simp: take_map [symmetric])
  have r: "doClean_begin maxItems s = (Ret (Inr (map b_hash ?vs)), s)"
    using c(1,2) tr by (simp add: doClean_begin_def SQL_Count_def LeastRecentlyAccessedHashes_def bnd_def ret_def get_st_def conn_call_ok nat_div_distrib take_map pos_imp_zdiv_neg_iff)
  have "access_le v b" if "v \<in> set ?vs" "b \<in> set (t_blob t)" "b_stored b" "b \<notin> set ?vs" for v b
  proof -
    have v: "v \<in> set (take (?n div 10) ?all)" and b: "b \<notin> set (take (?n div 10) ?all)" using that by (auto split: if_splits)
    have "b \<in> set ?all" using that(2,3) all(3) by simp
    then have "b \<in> set (drop (?n div 10) ?all)" using b by (metis Un_iff append_take_drop_id set_append)
    with v show ?thesis by (rule sorted_take_drop [OF all(2)])
  qed
  moreover have "set ?vs \<subseteq> {b \<in> set (t_blob t). b_stored b}" using all(3) by (auto dest: in_set_takeD)
  moreover have "length ?vs = (if int ?n \<ge> maxItems then ?n div 10 else 0)" using all(4) by simp
  ultimately show ?thesis using r d unfolding Let_def by (intro exI [of _ ?vs] conjI) auto
qed

definition clean_tables :: tables where
  "clean_tables = \<lparr>t_blob = map (\<lambda>i. \<lparr>b_id = i, b_hash = replicate i (CHR ''a''), b_stored = True, b_length = 1, b_accessed = Some (int i)\<rparr>) [1..<21],
     t_stream = [], t_stream_blob = [], t_blocked = [], next_blob = 21, next_stream = 1\<rparr>"

theorem doClean_chooses_oldest_witness:
  "\<exists>vs :: blob_row list. doClean_begin 15 \<lparr>conn = Some clean_tables, TrackAccess = TrackAccessBlobs, SoftDelete = True, now = 0, db_faults = []\<rparr>
      = (Ret (Inr (map b_hash vs)), \<lparr>conn = Some clean_tables, TrackAccess = TrackAccessBlobs, SoftDelete = True, now = 0, db_faults = []\<rparr>) \<and> length vs = 2"
proof -
  let ?s = "\<lparr>conn = Some clean_tables, TrackAccess = TrackAccessBlobs, SoftDelete = True, now = 0, db_faults = []\<rparr>"
  have "blobs_ok clean_tables" "streams_ok clean_tables" "links_ok clean_tables" "t_blocked clean_tables = []"
    by (auto simp: clean_tables_def blobs_ok_def streams_ok_def links_ok_def o_def distinct_map inj_on_def)
  then have up: "db_up ?s clean_tables" by (simp add: db_up_def db_wf_def)
  have n: "length (filter b_stored (t_blob clean_tables)) = 20" by (simp add: clean_tables_def filter_map o_def)
  have cfg: "TrackAccess ?s = TrackAccessBlobs" "SoftDelete ?s" by simp_all
  from doClean_chooses_oldest [OF up cfg, of 15] obtain vs :: "blob_row list" where "doClean_begin 15 ?s = (Ret (Inr (map b_hash vs)), ?s)"
    "length vs = (let n = length (filter b_stored (t_blob clean_tables)) in if int n \<ge> 15 then n div 10 else 0)" by blast
  with n show ?thesis by (intro exI [of _ vs]) simp
qed

section \<open>What a run deletes\<close>

context db_backed
begin

lemmas dbs_live_store = dbs.live_store_axioms

end

lemma clean_reaches_end: "\<exists>c'. (clean_any st)\<^sup>*\<^sup>* c c' \<and> cl_stopped c' = cl_stopped c \<and> (\<nexists>c''. clean_step st False c' c'')"
proof (induction c rule: measure_induct_rule [of clean_rank])
  case (less c)
  show ?case
  proof (cases "\<exists>c'. clean_step st False c c'")
    case True
    then obtain c' where c': "clean_step st False c c'" by blast
    then have "cl_stopped c' = cl_stopped c" by (cases rule: clean_step.cases) auto
    with less [OF clean_step_rank [OF c']] c' show ?thesis by (metis clean_any_def converse_rtranclp_into_rtranclp)
  qed auto
qed



section \<open>A stop\<close>

text \<open>
  C39. When the server is stopped before the producer's first select, the producer returns without closing the channel and no worker ever leaves its receive: no run
  of \<open>doClean\<close> with something to delete returns, and no blob is deleted.
\<close>

theorem doClean_stop_hangs:
  assumes "(clean_any st)\<^sup>*\<^sup>* (doClean_go (h # hs) True s) c"
  shows "\<not> cl_done c \<and> cl_workers c = [KRecv, KRecv, KRecv] \<and> cl_store c = s"
proof -
  from assms have "cl_stopped c \<and> cl_producer c \<in> {PSelect (h # hs), PStopped} \<and> cl_chan c = [] \<and> cl_workers c = replicate 3 KRecv \<and> \<not> cl_done c \<and> cl_store c = s"
  proof (induction rule: rtranclp_induct)
    case (step c c')
    from step(2) obtain l where "clean_step st l c c'" by (auto simp: clean_any_def)
    then show ?case using step(3) by (cases rule: clean_step.cases) (auto simp: at_cleaner_def)
  qed (simp add: doClean_go_def)
  then show ?thesis by (simp add: numeral_3_eq_3)
qed

theorem doClean_stop_hangs_witness:
  "\<exists>c. (clean_any NoopStore_ops)\<^sup>*\<^sup>* (doClean_go [''h''] True ()) c \<and> \<not> cl_done c \<and> (\<nexists>c'. clean_step NoopStore_ops False c c')"
proof -
  from clean_reaches_end [of NoopStore_ops "doClean_go [''h''] True ()"] obtain c where
    c: "(clean_any NoopStore_ops)\<^sup>*\<^sup>* (doClean_go [''h''] True ()) c" "\<nexists>c'. clean_step NoopStore_ops False c c'" by blast
  from doClean_stop_hangs [OF c(1)] c show ?thesis by blast
qed

end
