(* ===== verification/Cluster.thy ===== *)
theory Cluster
  imports Db
begin

text \<open>
  The cluster and the announcing of hashes (src/cluster/cluster.go, src/prism/prism.go).

  Cluster membership comes from the package serf and is an input here. \<open>listen\<close> is the step relation \<open>cluster_step\<close>: its select, its timer (with the semantics of
  Go before 1.23, the language version of go.mod: the channel of a timer keeps the value of an expiry until it is received, and \<open>Reset\<close> does not drain it), the
  passing of time in milliseconds and the stop. \<open>AnnounceRange\<close> is an operation on the database and the hashes given to the DHT; the bitmaps of the package
  bits are the parameter \<open>bits_lib\<close>.
\<close>

section \<open>Members\<close>

datatype MemberStatus = StatusNone | StatusAlive | StatusLeaving | StatusLeft | StatusFailed

record Member =
  m_Name :: string
  m_Status :: MemberStatus

definition getAliveMembers :: "Member list \<Rightarrow> Member list" where
  "getAliveMembers members = filter (\<lambda>m. m_Status m = StatusAlive) members"

fun interval_loop :: "string \<Rightarrow> int \<Rightarrow> string list \<Rightarrow> int" where
  "interval_loop myName i [] = - 1"
| "interval_loop myName i (n # ns) = (if n = myName then i else interval_loop myName (i + 1) ns)"

definition getHashInterval :: "string \<Rightarrow> Member list \<Rightarrow> int" where
  "getHashInterval myName members = interval_loop myName 1 (sort_on id (map m_Name members))"

section \<open>Listening\<close>

datatype EventType = EventMemberJoin | EventMemberLeave | EventMemberFailed | EventMemberUpdate | EventMemberReap | EventUser | EventQuery

fun membership_event :: "EventType \<Rightarrow> bool" where
  "membership_event EventMemberJoin = True"
| "membership_event EventMemberFailed = True"
| "membership_event EventMemberLeave = True"
| "membership_event _ = False"

definition MembershipChangeBufferWindow :: nat where
  "MembershipChangeBufferWindow = 1000"

record Cluster =
  c_OnMembershipChange :: bool
  c_name :: string
  c_members :: "Member list"
  c_clock :: nat
  c_due :: "nat option"
  c_timer_C :: bool
  c_timerCh :: bool
  c_stop :: bool
  c_listening :: bool
  c_calls :: "(int \<times> int) list"

text \<open>\<open>listen\<close> starts with a timer of duration 0 and no \<open>timerCh\<close>; \<open>callback\<close> tells whether \<open>OnMembershipChange\<close> is set.\<close>

definition listen_start :: "bool \<Rightarrow> string \<Rightarrow> Member list \<Rightarrow> Cluster" where
  "listen_start callback name members =
     \<lparr>c_OnMembershipChange = callback, c_name = name, c_members = members, c_clock = 0, c_due = Some 0, c_timer_C = False, c_timerCh = False, c_stop = False, c_listening = True, c_calls = []\<rparr>"

definition on_event :: "EventType \<Rightarrow> Cluster \<Rightarrow> Cluster" where
  "on_event e c =
     (if membership_event e \<and> \<not> c_timerCh c
      then c\<lparr>c_due := Some (c_clock c + MembershipChangeBufferWindow), c_timerCh := True\<rparr>
      else c)"

definition on_timer :: "Cluster \<Rightarrow> Cluster" where
  "on_timer c =
     (let alive = getAliveMembers (c_members c)
      in c\<lparr>c_timer_C := False, c_timerCh := False,
           c_calls := (if c_OnMembershipChange c then c_calls c @ [(getHashInterval (c_name c) alive, int (length alive))] else c_calls c)\<rparr>)"

inductive cluster_step :: "Cluster \<Rightarrow> Cluster \<Rightarrow> bool" where
  Gossip: "cluster_step c (c\<lparr>c_members := ms\<rparr>)"
| Tick: "cluster_step c (c\<lparr>c_clock := Suc (c_clock c)\<rparr>)"
| Expire: "c_due c = Some t \<Longrightarrow> t \<le> c_clock c \<Longrightarrow> cluster_step c (c\<lparr>c_due := None, c_timer_C := True\<rparr>)"
| ListenEvent: "c_listening c \<Longrightarrow> cluster_step c (on_event e c)"
| ListenTimer: "c_listening c \<Longrightarrow> c_timerCh c \<Longrightarrow> c_timer_C c \<Longrightarrow> cluster_step c (on_timer c)"
| ClusterStop: "cluster_step c (c\<lparr>c_stop := True\<rparr>)"
| ListenReturn: "c_listening c \<Longrightarrow> c_stop c \<Longrightarrow> cluster_step c (c\<lparr>c_listening := False\<rparr>)"

section \<open>Announcing\<close>

record 'bm bits_lib =
  bits_FromHexP :: "string \<Rightarrow> 'bm outcome"
  bits_Hex :: "'bm \<Rightarrow> string"
  bits_IntervalP :: "'bm \<times> 'bm \<Rightarrow> int \<Rightarrow> int \<Rightarrow> ('bm \<times> 'bm) outcome"

record 'bm Prism =
  p_db :: SQL
  p_dht :: "'bm list"

definition on_pdb :: "(SQL, 'a) op \<Rightarrow> ('bm Prism, 'a) op" where
  "on_pdb = zoom p_db (\<lambda>d p. p\<lparr>p_db := d\<rparr>)"

definition lift_outcome :: "'a outcome \<Rightarrow> ('s, 'a) op" where
  "lift_outcome r s = (r, s)"

definition announce_range_of :: "'bm bits_lib \<Rightarrow> ('bm \<times> 'bm) option \<Rightarrow> int \<Rightarrow> int \<Rightarrow> ('bm Prism, ('bm \<times> 'bm) option) op" where
  "announce_range_of lib HashRange n tot =
     (case HashRange of
        Some r \<Rightarrow> ret (Some r)
      | None \<Rightarrow>
          bnd (on_pdb GetHashRange) (\<lambda>(lo, hi, err).
            if err \<noteq> None then ret None
            else bnd (lift_outcome (bits_FromHexP lib lo)) (\<lambda>start.
                 bnd (lift_outcome (bits_FromHexP lib hi)) (\<lambda>fin.
                 bnd (lift_outcome (bits_IntervalP lib (start, fin) n tot)) (\<lambda>r. ret (Some r))))))"

fun dht_add_all :: "'bm bits_lib \<Rightarrow> string list \<Rightarrow> ('bm Prism, unit) op" where
  "dht_add_all lib [] = ret ()"
| "dht_add_all lib (h # hs) =
     bnd (lift_outcome (bits_FromHexP lib h)) (\<lambda>hash.
     bnd (modify (\<lambda>p. p\<lparr>p_dht := p_dht p @ [hash]\<rparr>)) (\<lambda>_. dht_add_all lib hs))"

text \<open>
  The hashes pass through a channel from the goroutine of \<open>GetStoredHashesInRange\<close>, which converts them, to the one that gives them to the DHT, one at a time and in
  order; \<open>limit\<close> is how many of them passed before the group was stopped, if it was.
\<close>

definition AnnounceRange :: "'bm bits_lib \<Rightarrow> ('bm \<times> 'bm) option \<Rightarrow> nat option \<Rightarrow> int \<Rightarrow> int \<Rightarrow> ('bm Prism, unit) op" where
  "AnnounceRange lib HashRange limit n tot =
     (if n < 1 then ret ()
      else bnd (announce_range_of lib HashRange n tot) (\<lambda>r.
        case r of
          None \<Rightarrow> ret ()
        | Some (start, fin) \<Rightarrow>
            bnd (on_pdb (GetStoredHashesInRange (bits_Hex lib start) (bits_Hex lib fin) limit)) (\<lambda>(hashes, err).
              dht_add_all lib hashes)))"

end
