(* ===== verification/Sorting.thy ===== *)
theory Sorting
  imports Prelude "HOL-Library.Multiset"
begin

text \<open>The sorts of the model keep the elements.\<close>

lemma insert_on_mset: "mset (insert_on f x xs) = add_mset x (mset xs)"
  by (induction xs) auto

lemma sort_on_mset [simp]: "mset (sort_on f xs) = mset xs"
  by (induction xs) (auto simp: sort_on_def insert_on_mset)

lemma sort_on_set [simp]: "set (sort_on f xs) = set xs"
  by (rule mset_eq_setD [OF sort_on_mset])

lemma sort_on_length [simp]: "length (sort_on f xs) = length xs"
  by (rule mset_eq_length [OF sort_on_mset])

lemma sort_on_distinct [simp]: "distinct (sort_on f xs) \<longleftrightarrow> distinct xs"
  by (rule mset_eq_imp_distinct_iff [OF sort_on_mset])

lemma insert_on_sorted: "sorted_wrt (\<lambda>a b. str_le (f a) (f b)) xs \<Longrightarrow> sorted_wrt (\<lambda>a b. str_le (f a) (f b)) (insert_on f x xs)"
proof (induction xs)
  case (Cons y ys)
  have "set (insert_on f x ys) = insert x (set ys)" using arg_cong [OF insert_on_mset [of f x ys], of set_mset] by simp
  with Cons str_le_total [of "f x" "f y"] show ?case by (auto intro: str_le_trans)
qed simp

lemma sort_on_sorted: "sorted_wrt (\<lambda>a b. str_le (f a) (f b)) (sort_on f xs)"
  by (induction xs) (auto simp: sort_on_def insert_on_sorted)

end
