(* ===== verification/Cluster_Correct.thy ===== *)
theory Cluster_Correct
  imports Cluster Db_Store_Correct Sorting "HOL-Library.FuncSet"
begin

text \<open>
  The members of a cluster divide the stored hashes among them: each stored hash is announced by exactly one of the alive members. The membership timer is armed for
  every change and fires within the window, and its first expiry is left over from its creation.
\<close>

section \<open>Intervals\<close>

lemma interval_loop_nth:
  "distinct ns \<Longrightarrow> k < length ns \<Longrightarrow> interval_loop (ns ! k) i ns = i + int k"
  by (induction ns arbitrary: k i) (auto simp: nth_Cons split: nat.splits)

lemma interval_loop_absent: "x \<notin> set ns \<Longrightarrow> interval_loop x i ns = - 1"
  by (induction ns arbitrary: i) auto

lemma interval_loop_bij:
  assumes "distinct ns"
  shows "bij_betw (\<lambda>x. interval_loop x 1 ns) (set ns) {1..int (length ns)}"
proof (rule bij_betwI [where g = "\<lambda>i. ns ! nat (i - 1)"])
  note nth = interval_loop_nth [OF assms]
  show "(\<lambda>x. interval_loop x 1 ns) \<in> set ns \<rightarrow> {1..int (length ns)}" using nth by (auto simp: in_set_conv_nth)
  show "(\<lambda>i. ns ! nat (i - 1)) \<in> {1..int (length ns)} \<rightarrow> set ns" by auto
  show "ns ! nat (interval_loop x 1 ns - 1) = x" if "x \<in> set ns" for x using that nth by (auto simp: in_set_conv_nth)
  show "interval_loop (ns ! nat (i - 1)) 1 ns = i" if "i \<in> {1..int (length ns)}" for i using that nth [of "nat (i - 1)"] by auto
qed

lemma interval_bij:
  assumes "distinct (map m_Name ms)"
  shows "bij_betw (\<lambda>m. getHashInterval (m_Name m) ms) (set ms) {1..int (length ms)}"
proof -
  let ?ns = "sort_on id (map m_Name ms)"
  have "bij_betw (\<lambda>x. interval_loop x 1 ?ns) (set ?ns) {1..int (length ms)}" using interval_loop_bij [of ?ns] assms by simp
  moreover have "bij_betw m_Name (set ms) (set ?ns)" using assms by (simp add: bij_betw_def distinct_map)
  ultimately show ?thesis unfolding getHashInterval_def by (rule bij_betw_trans [rotated, unfolded o_def])
qed

section \<open>Announcing\<close>

lemma fold_in: "fold str_min hs h \<in> set (h # hs)" "fold str_max hs h \<in> set (h # hs)"
proof (induction hs arbitrary: h)
  case (Cons a hs)
  { case 1 show ?case using Cons.IH(1) [of "str_min a h"] by (auto simp: str_min_def split: if_splits) }
  { case 2 show ?case using Cons.IH(2) [of "str_max a h"] by (auto simp: str_max_def split: if_splits) }
qed simp_all

lemma fold_bounds: "g \<in> set (h # hs) \<Longrightarrow> str_le (fold str_min hs h) g \<and> str_le g (fold str_max hs h)"
proof (induction hs arbitrary: h g)
  case (Cons a hs)
  have "str_le (fold str_min hs (str_min a h)) (str_min a h)" "str_le (str_max a h) (fold str_max hs (str_max a h))"
    using Cons.IH [of "str_min a h"] Cons.IH [of "str_max a h"] by auto
  moreover have "str_le (str_min a h) a" "str_le (str_min a h) h" "str_le a (str_max a h)" "str_le h (str_max a h)"
    using str_le_total [of a h] by (auto simp: str_min_def str_max_def)
  ultimately show ?case using Cons.prems Cons.IH [of g "str_min a h"] Cons.IH [of g "str_max a h"] by (auto intro: str_le_trans)
qed simp

lemma dht_add_all_ok:
  assumes "\<forall>h \<in> set hs. \<exists>b. bits_FromHexP lib h = Ret b \<and> bits_Hex lib b = h"
  shows "\<exists>bs. dht_add_all lib hs p = (Ret (), p\<lparr>p_dht := p_dht p @ bs\<rparr>) \<and> map (bits_Hex lib) bs = hs"
  using assms
proof (induction hs arbitrary: p)
  case (Cons h hs)
  then obtain b where b: "bits_FromHexP lib h = Ret b" "bits_Hex lib b = h" by auto
  from Cons.IH [of "p\<lparr>p_dht := p_dht p @ [b]\<rparr>"] Cons.prems obtain bs where
    "dht_add_all lib hs (p\<lparr>p_dht := p_dht p @ [b]\<rparr>) = (Ret (), p\<lparr>p_dht := p_dht p @ b # bs\<rparr>)" "map (bits_Hex lib) bs = hs" by auto
  with b show ?case by (intro exI [of _ "b # bs"]) (simp add: bnd_def lift_outcome_def modify_def)
qed (simp add: ret_def)

text \<open>
  What the code relies on of the package bits: \<open>FromHexP\<close> and \<open>Hex\<close> are inverse on the hashes of the database, and \<open>IntervalP\<close> divides a range into intervals, so
  that each hash of the range is in one of them and in no other.
\<close>

definition hex_law :: "'bm bits_lib \<Rightarrow> string set \<Rightarrow> bool" where
  "hex_law lib H \<longleftrightarrow> (\<forall>h \<in> H. \<exists>b. bits_FromHexP lib h = Ret b \<and> bits_Hex lib b = h)"

definition in_range :: "'bm bits_lib \<Rightarrow> ('bm \<times> 'bm) \<Rightarrow> string \<Rightarrow> bool" where
  "in_range lib r h \<longleftrightarrow> str_le (bits_Hex lib (fst r)) h \<and> str_le h (bits_Hex lib (snd r))"

definition interval_law :: "'bm bits_lib \<Rightarrow> string set \<Rightarrow> int \<Rightarrow> bool" where
  "interval_law lib H k \<longleftrightarrow> (\<forall>r. (\<forall>n. 1 \<le> n \<and> n \<le> k \<longrightarrow> (\<exists>i. bits_IntervalP lib r n k = Ret i))
     \<and> (\<forall>h \<in> H. in_range lib r h \<longrightarrow> (\<exists>!n. 1 \<le> n \<and> n \<le> k \<and> (\<exists>i. bits_IntervalP lib r n k = Ret i \<and> in_range lib i h))))"

text \<open>The hashes a node with an empty DHT announces as the \<open>n\<close>th of \<open>total\<close>.\<close>

definition announced :: "'bm bits_lib \<Rightarrow> SQL \<Rightarrow> int \<Rightarrow> int \<Rightarrow> string set" where
  "announced lib db n tot = bits_Hex lib ` set (p_dht (snd (AnnounceRange lib None None n tot \<lparr>p_db = db, p_dht = []\<rparr>)))"

lemma announced_range:
  fixes lib :: "'bm bits_lib"
  assumes up: "db_up db t" and H: "hex_law lib (b_hash ` set (t_blob t))" and t: "t_blob t = b # bs"
    and n: "1 \<le> n" and s: "bits_FromHexP lib (fold str_min (map b_hash bs) (b_hash b)) = Ret s"
    and e: "bits_FromHexP lib (fold str_max (map b_hash bs) (b_hash b)) = Ret e" and i: "bits_IntervalP lib (s, e) n tot = Ret i"
  shows "announced lib db n tot = {b_hash x |x. x \<in> set (t_blob t) \<and> b_stored x \<and> in_range lib i (b_hash x)}"
proof -
  let ?p = "\<lparr>p_db = db, p_dht = []\<rparr> :: 'bm Prism"
  let ?hs = "map b_hash (filter (\<lambda>x. str_le (bits_Hex lib (fst i)) (b_hash x) \<and> str_le (b_hash x) (bits_Hex lib (snd i)) \<and> b_stored x) (t_blob t))"
  from up have c: "conn db = Some t" "db_faults db = []" by (auto simp: db_up_def)
  have "on_pdb GetHashRange ?p = (Ret (fold str_min (map b_hash bs) (b_hash b), fold str_max (map b_hash bs) (b_hash b), None), ?p)"
    using c t by (simp add: on_pdb_def zoom_def GetHashRange_def bnd_def get_st_def ret_def conn_call_ok)
  then have r: "announce_range_of lib None n tot ?p = (Ret (Some i), ?p)" using s e i by (simp add: announce_range_of_def bnd_def ret_def lift_outcome_def)
  have g: "on_pdb (GetStoredHashesInRange (bits_Hex lib (fst i)) (bits_Hex lib (snd i)) None) ?p = (Ret (?hs, None), ?p)"
    using c by (simp add: on_pdb_def zoom_def GetStoredHashesInRange_def bnd_def get_st_def ret_def conn_call_ok)
  have "\<forall>h \<in> set ?hs. \<exists>b. bits_FromHexP lib h = Ret b \<and> bits_Hex lib b = h" using H by (auto simp: hex_law_def)
  from dht_add_all_ok [OF this, of ?p] obtain bms where d: "dht_add_all lib ?hs ?p = (Ret (), \<lparr>p_db = db, p_dht = bms\<rparr>)" "map (bits_Hex lib) bms = ?hs" by auto
  have "AnnounceRange lib None None n tot ?p = (Ret (), \<lparr>p_db = db, p_dht = bms\<rparr>)"
    using r g d(1) n by (cases i) (simp add: AnnounceRange_def bnd_def)
  moreover have "bits_Hex lib ` set bms = set ?hs" using arg_cong [OF d(2), of set] by (simp only: list.set_map)
  ultimately have "announced lib db n tot = set ?hs" by (simp only: announced_def snd_conv Prism.select_convs)
  then show ?thesis by (auto simp: in_range_def)
qed


text \<open>A concrete division in two at the middle of the two-digit hashes.\<close>

definition halves :: "string bits_lib" where
  "halves = \<lparr>bits_FromHexP = Ret, bits_Hex = id,
     bits_IntervalP = (\<lambda>(s, e) n k. if k = 2 \<and> n = 1 then Ret (s, str_min e ''7f'') else if k = 2 \<and> n = 2 then Ret (str_max s ''80'', e) else Panic ''invalid interval'')\<rparr>"

lemma str_le_min: "str_le h (str_min a b) \<longleftrightarrow> str_le h a \<and> str_le h b"
  using str_le_total [of a b] by (auto simp: str_min_def intro: str_le_trans)

lemma str_max_le: "str_le (str_max a b) h \<longleftrightarrow> str_le a h \<and> str_le b h"
  using str_le_total [of a b] by (auto simp: str_max_def intro: str_le_trans)

lemma halves_laws: "hex_law halves H" "\<forall>h \<in> H. str_le h ''7f'' \<noteq> str_le ''80'' h \<Longrightarrow> interval_law halves H 2"
proof -
  show "hex_law halves H" by (simp add: hex_law_def halves_def)
  assume H: "\<forall>h \<in> H. str_le h ''7f'' \<noteq> str_le ''80'' h"
  have "n = 1 \<or> n = 2" if "1 \<le> n" "n \<le> 2" for n :: int using that by auto
  then show "interval_law halves H 2"
    unfolding interval_law_def using H
    apply (auto simp: halves_def in_range_def str_le_min str_max_le)
    subgoal for a b h by (rule exI [of _ "if str_le ''80'' h then 2 else 1"]) simp
    done
qed


section \<open>The membership timer\<close>

text \<open>
  No membership change is lost: whenever \<open>listen\<close> takes a join, failure or leave, the timer is armed and \<open>OnMembershipChange\<close> can be called at once or when the window
  has passed at the latest.
\<close>

theorem membership_change_reported:
  assumes "cluster_step\<^sup>*\<^sup>* (listen_start cb name ms) c" "membership_event e"
  shows "c_timerCh (on_event e c) \<and> (c_timer_C (on_event e c) \<or> (\<exists>t. c_due (on_event e c) = Some t \<and> t \<le> c_clock c + MembershipChangeBufferWindow))"
proof -
  from assms(1) have "c_timerCh c \<longrightarrow> c_timer_C c \<or> (\<exists>t. c_due c = Some t \<and> t \<le> c_clock c + MembershipChangeBufferWindow)"
  proof (induction rule: rtranclp_induct)
    case (step c c')
    from step(2,3) show ?case by (cases rule: cluster_step.cases) (auto simp: on_event_def on_timer_def Let_def)
  qed (simp add: listen_start_def)
  with assms(2) show ?thesis by (auto simp: on_event_def)
qed

theorem membership_change_reported_witness:
  "c_timerCh (on_event EventMemberJoin (listen_start True ''a'' []))"
  using membership_change_reported [of True "''a''" "[]" "listen_start True ''a'' []" EventMemberJoin] by simp

text \<open>
  The window does not hold for the first change: the timer that \<open>listen\<close> creates expires at once and its value stays in the channel, so that \<open>OnMembershipChange\<close> is called for the
  first change with no time passed.
\<close>

theorem first_change_not_buffered:
  "\<exists>c. cluster_step\<^sup>*\<^sup>* (listen_start True name ms) c \<and> c_clock c = 0
     \<and> c_calls c = [(getHashInterval name (getAliveMembers ms), int (length (getAliveMembers ms)))]"
proof -
  let ?c0 = "listen_start True name ms"
  let ?c1 = "?c0\<lparr>c_due := None, c_timer_C := True\<rparr>"
  let ?c2 = "on_event EventMemberJoin ?c1"
  let ?c3 = "on_timer ?c2"
  have s1: "cluster_step ?c0 ?c1" by (rule Expire [of _ 0]) (simp_all add: listen_start_def)
  have s2: "cluster_step ?c1 ?c2" by (rule ListenEvent) (simp add: listen_start_def)
  have s3: "cluster_step ?c2 ?c3" by (rule ListenTimer) (simp_all add: listen_start_def on_event_def)
  have "cluster_step\<^sup>*\<^sup>* ?c0 ?c3" using s1 s2 s3 by (meson converse_rtranclp_into_rtranclp rtranclp.rtrancl_refl)
  then show ?thesis by (rule_tac x = ?c3 in exI) (simp add: listen_start_def on_event_def on_timer_def Let_def)
qed

end
