(* ===== verification/Speedwalk.thy ===== *)
theory Speedwalk
  imports Disk_Store
begin

text \<open>
  The parallel directory walk (src/store/speedwalk/speedwalk.go: \<open>AllFiles\<close>), as the step relation \<open>walk_step\<close> over its goroutines: the main loop over the entries of the
  directory, one walker per subdirectory under a limiter of \<open>NumCPU - 1\<close> tokens, and the collector of the paths. The channel of the paths is unbuffered and its collector
  does nothing else, so a send is one step that appends to \<open>sw_paths\<close>.

  godirwalk.Walk is the parameter \<open>walk\<close>: the regular files it reports for a subdirectory, by name or path, in any order and up to an error, which the code only logs. The
  files do not change during the walk.
\<close>

text \<open>\<open>ioutil.ReadDir\<close>: the entries of a directory by name, with whether they are directories.\<close>

definition dir_child :: "string list \<Rightarrow> string list \<Rightarrow> bool" where
  "dir_child d q \<longleftrightarrow> length q = Suc (length d) \<and> take (length d) q = d"

definition ioutil_ReadDir :: "string \<Rightarrow> fsys \<Rightarrow> (go_error + (string \<times> bool) list) \<times> fsys" where
  "ioutil_ReadDir path = os_call (\<lambda>f. let d = os_comps path in
     if \<not> fs_dir f d then (Inl ErrNotExist, f)
     else (Inr (sort_on fst (map (\<lambda>q. (last q, False)) (filter (dir_child d) (map fst (files f)))
                              @ map (\<lambda>q. (last q, True)) (filter (dir_child d) (remdups (dirs f))))), f))"

datatype walk_main = AItems "(string \<times> bool) list" | AClose | AReturned

datatype walker = SWalk "string list" | SRelease | SEnd

record Speedwalk =
  sw_main :: walk_main
  sw_tokens :: nat
  sw_walkers :: "walker list"
  sw_paths :: "string list"

definition AllFiles_go :: "nat \<Rightarrow> (string \<times> bool) list \<Rightarrow> Speedwalk" where
  "AllFiles_go maxThreads items = \<lparr>sw_main = AItems items, sw_tokens = maxThreads, sw_walkers = [], sw_paths = []\<rparr>"

definition entry_path :: "string \<Rightarrow> bool \<Rightarrow> string \<Rightarrow> string" where
  "entry_path startDir basename name = (if basename then name else path_Join startDir name)"

text \<open>
  \<open>walkerWG.Done\<close> comes before the token goes back, so the main loop may go on while a walker is at \<open>SRelease\<close>; the channel of the limiter has room for
  \<open>maxThreads\<close> tokens.
\<close>

inductive walk_step :: "(string \<Rightarrow> string list) \<Rightarrow> nat \<Rightarrow> string \<Rightarrow> bool \<Rightarrow> Speedwalk \<Rightarrow> Speedwalk \<Rightarrow> bool"
  for walk :: "string \<Rightarrow> string list" and maxThreads :: nat and startDir :: string and basename :: bool where
  AFile: "sw_main s = AItems ((n, False) # is) \<Longrightarrow>
     walk_step walk maxThreads startDir basename s (s\<lparr>sw_main := AItems is, sw_paths := sw_paths s @ [entry_path startDir basename n]\<rparr>)"
| ADir: "sw_main s = AItems ((n, True) # is) \<Longrightarrow> sw_tokens s = Suc k \<Longrightarrow>
     walk_step walk maxThreads startDir basename s (s\<lparr>sw_main := AItems is, sw_tokens := k, sw_walkers := sw_walkers s @ [SWalk (walk n)]\<rparr>)"
| AWaits: "sw_main s = AItems [] \<Longrightarrow> set (sw_walkers s) \<subseteq> {SRelease, SEnd} \<Longrightarrow> walk_step walk maxThreads startDir basename s (s\<lparr>sw_main := AClose\<rparr>)"
| AReturns: "sw_main s = AClose \<Longrightarrow> walk_step walk maxThreads startDir basename s (s\<lparr>sw_main := AReturned\<rparr>)"
| SSend: "i < length (sw_walkers s) \<Longrightarrow> sw_walkers s ! i = SWalk (p # ps) \<Longrightarrow>
     walk_step walk maxThreads startDir basename s (s\<lparr>sw_walkers := (sw_walkers s)[i := SWalk ps], sw_paths := sw_paths s @ [p]\<rparr>)"
| SDone: "i < length (sw_walkers s) \<Longrightarrow> sw_walkers s ! i = SWalk [] \<Longrightarrow>
     walk_step walk maxThreads startDir basename s (s\<lparr>sw_walkers := (sw_walkers s)[i := SRelease]\<rparr>)"
| SReleases: "i < length (sw_walkers s) \<Longrightarrow> sw_walkers s ! i = SRelease \<Longrightarrow> sw_tokens s < maxThreads \<Longrightarrow>
     walk_step walk maxThreads startDir basename s (s\<lparr>sw_walkers := (sw_walkers s)[i := SEnd], sw_tokens := Suc (sw_tokens s)\<rparr>)"

end
