(* ===== verification/Integrity.thy ===== *)
theory Integrity
  imports Speedwalk
begin

text \<open>
  The integrity check (src/cmd/integrity.go), as the step relation \<open>check_step\<close> over \<open>produce\<close>, the workers \<open>consume\<close> and the main goroutine, which waits for one value on
  \<open>done\<close>. The channel of the tasks has room for all of them. A panic of a worker ends the process (\<open>ic_crashed\<close>), and so does the return of the command
  (\<open>ic_returned\<close>): no goroutine moves after it. The log lines, and the progress counter they print, are left out.
\<close>

text \<open>\<open>path.Join(diskStorePath, b[:2], b)\<close>\<close>

definition check_path :: "string \<Rightarrow> string \<Rightarrow> string" where
  "check_path diskStorePath b = path_Clean (diskStorePath @ ''/'' @ take 2 b @ ''/'' @ b)"

datatype consume_pc = IRecv | IRead string | IRemove string | IDone

record Integrity =
  ic_fs :: fsys
  ic_blobs :: "string list"
  ic_tasks :: "string list"
  ic_closed :: bool
  ic_workers :: "consume_pc list"
  ic_returned :: bool
  ic_crashed :: bool

definition check_go :: "nat \<Rightarrow> string list \<Rightarrow> fsys \<Rightarrow> Integrity" where
  "check_go cpus hs f =
     \<lparr>ic_fs = f, ic_blobs = hs, ic_tasks = [], ic_closed = False, ic_workers = replicate (cpus - 1) IRecv, ic_returned = False, ic_crashed = False\<rparr>"

definition check_read :: "string \<Rightarrow> string \<Rightarrow> fsys \<Rightarrow> consume_pc \<times> fsys" where
  "check_read diskStorePath b f =
     (case os_ReadFile (check_path diskStorePath b) f of
        (Inl err, f') \<Rightarrow> (IRecv, f')
      | (Inr blob, f') \<Rightarrow> (if BlobHash blob \<noteq> b then IRemove b else IRecv, f'))"

definition check_set :: "nat \<Rightarrow> consume_pc \<Rightarrow> Integrity \<Rightarrow> Integrity" where
  "check_set i w c = c\<lparr>ic_workers := (ic_workers c)[i := w]\<rparr>"

definition check_at :: "Integrity \<Rightarrow> nat \<Rightarrow> consume_pc \<Rightarrow> bool" where
  "check_at c i w \<longleftrightarrow> \<not> ic_returned c \<and> \<not> ic_crashed c \<and> i < length (ic_workers c) \<and> ic_workers c ! i = w"

inductive check_step :: "string \<Rightarrow> Integrity \<Rightarrow> Integrity \<Rightarrow> bool" for diskStorePath :: string where
  Produce: "\<not> ic_returned c \<Longrightarrow> \<not> ic_crashed c \<Longrightarrow> ic_blobs c = b # bs \<Longrightarrow> check_step diskStorePath c (c\<lparr>ic_blobs := bs, ic_tasks := ic_tasks c @ [b]\<rparr>)"
| ProduceClose: "\<not> ic_returned c \<Longrightarrow> \<not> ic_crashed c \<Longrightarrow> ic_blobs c = [] \<Longrightarrow> \<not> ic_closed c \<Longrightarrow> check_step diskStorePath c (c\<lparr>ic_closed := True\<rparr>)"
| ConsumeTask: "check_at c i IRecv \<Longrightarrow> ic_tasks c = b # bs \<Longrightarrow> 2 \<le> length b \<Longrightarrow> check_step diskStorePath c (check_set i (IRead b) (c\<lparr>ic_tasks := bs\<rparr>))"
| ConsumePanic: "check_at c i IRecv \<Longrightarrow> ic_tasks c = b # bs \<Longrightarrow> length b < 2 \<Longrightarrow> check_step diskStorePath c (c\<lparr>ic_tasks := bs, ic_crashed := True\<rparr>)"
| ConsumeEnd: "check_at c i IRecv \<Longrightarrow> ic_tasks c = [] \<Longrightarrow> ic_closed c \<Longrightarrow> check_step diskStorePath c (check_set i IDone c)"
| ConsumeRead: "check_at c i (IRead b) \<Longrightarrow> check_read diskStorePath b (ic_fs c) = (w, f) \<Longrightarrow> check_step diskStorePath c (check_set i w (c\<lparr>ic_fs := f\<rparr>))"
| ConsumeRemove: "check_at c i (IRemove b) \<Longrightarrow> os_Remove (check_path diskStorePath b) (ic_fs c) = (r, f) \<Longrightarrow>
     check_step diskStorePath c (check_set i IRecv (c\<lparr>ic_fs := f\<rparr>))"
| Done: "check_at c i IDone \<Longrightarrow> check_step diskStorePath c (c\<lparr>ic_returned := True\<rparr>)"

end
