(* ===== verification/Speedwalk_Correct.thy ===== *)
theory Speedwalk_Correct
  imports Speedwalk Sorting Disk_Correct
begin

text \<open>
  \<open>AllFiles\<close> returns, with at least one token, under every interleaving, and lists exactly the files below the directory, each once; with no token (one CPU) it
  never returns when there is a subdirectory.
\<close>

section \<open>Runs\<close>

fun main_left :: "(string \<Rightarrow> string list) \<Rightarrow> string \<Rightarrow> bool \<Rightarrow> walk_main \<Rightarrow> string multiset" where
  "main_left walk dir base (AItems is) = (\<Sum>(n, isDir) \<in># mset is. if isDir then mset (walk n) else {#entry_path dir base n#})"
| "main_left walk dir base _ = {#}"

fun walker_left :: "walker \<Rightarrow> string multiset" where
  "walker_left (SWalk ps) = mset ps"
| "walker_left _ = {#}"

definition walk_left :: "(string \<Rightarrow> string list) \<Rightarrow> string \<Rightarrow> bool \<Rightarrow> Speedwalk \<Rightarrow> string multiset" where
  "walk_left walk dir base s = main_left walk dir base (sw_main s) + sum_list (map walker_left (sw_walkers s)) + mset (sw_paths s)"

text \<open>The number of walkers that hold a token is the number of tokens that are out.\<close>

definition walk_inv :: "nat \<Rightarrow> Speedwalk \<Rightarrow> bool" where
  "walk_inv cap s \<longleftrightarrow> sw_tokens s + length (filter (\<lambda>w. w \<noteq> SEnd) (sw_walkers s)) = cap
     \<and> ((\<exists>is. sw_main s = AItems is) \<or> set (sw_walkers s) \<subseteq> {SRelease, SEnd})"

lemma filter_change:
  assumes "i < length xs"
  shows "length (filter P (xs[i := x])) + of_bool (P (xs ! i)) = length (filter P xs) + of_bool (P x)"
proof -
  have n: "length (filter P xs) = sum_list (map (\<lambda>x. of_bool (P x)) xs)" for xs by (induction xs) auto
  show ?thesis unfolding n by (rule sum_list_change [OF assms])
qed

lemma walk_step_left: "walk_step walk cap dir base s s' \<Longrightarrow> walk_inv cap s \<Longrightarrow> walk_left walk dir base s' = walk_left walk dir base s"
proof (induction rule: walk_step.induct)
  case (AWaits s)
  then show ?case by (simp add: walk_left_def)
next
  case (SSend i s p ps)
  from sum_list_change [OF SSend(1), of walker_left "SWalk ps"] SSend(2)
  have "sum_list (map walker_left ((sw_walkers s)[i := SWalk ps])) + {#p#} = sum_list (map walker_left (sw_walkers s))"
    by (simp add: add_mset_add_single [of p "mset ps"] add.assoc [symmetric] del: add_mset_add_single union_mset_add_mset_right)
  then show ?case by (simp add: walk_left_def)
next
  case (SDone i s)
  from sum_list_change [OF SDone(1), of walker_left SRelease] SDone(2) show ?case by (simp add: walk_left_def)
next
  case (SReleases i s)
  from sum_list_change [OF SReleases(1), of walker_left SEnd] SReleases(2) show ?case by (simp add: walk_left_def)
qed (auto simp: walk_left_def)

lemma walk_step_inv: "walk_step walk cap dir base s s' \<Longrightarrow> walk_inv cap s \<Longrightarrow> walk_inv cap s'"
proof (induction rule: walk_step.induct)
  case (SSend i s p ps)
  then have "SWalk (p # ps) \<in> set (sw_walkers s)" by (metis nth_mem)
  with SSend filter_change [OF SSend(1), of "\<lambda>w. w \<noteq> SEnd" "SWalk ps"] show ?case by (auto simp: walk_inv_def)
next
  case (SDone i s)
  then have "SWalk [] \<in> set (sw_walkers s)" by (metis nth_mem)
  with SDone filter_change [OF SDone(1), of "\<lambda>w. w \<noteq> SEnd" SRelease] show ?case by (auto simp: walk_inv_def)
next
  case (SReleases i s)
  with filter_change [OF SReleases(1), of "\<lambda>w. w \<noteq> SEnd" SEnd] set_update_subset_insert [of "sw_walkers s" i SEnd] show ?case by (auto simp: walk_inv_def)
qed (auto simp: walk_inv_def)

fun main_rank :: "(string \<Rightarrow> string list) \<Rightarrow> walk_main \<Rightarrow> nat" where
  "main_rank walk (AItems is) = 2 + sum_list (map (\<lambda>(n, isDir). 4 + length (walk n)) is)"
| "main_rank walk AClose = 1"
| "main_rank walk AReturned = 0"

fun walker_rank :: "walker \<Rightarrow> nat" where
  "walker_rank (SWalk ps) = 2 + length ps"
| "walker_rank SRelease = 1"
| "walker_rank SEnd = 0"

definition walk_rank :: "(string \<Rightarrow> string list) \<Rightarrow> Speedwalk \<Rightarrow> nat" where
  "walk_rank walk s = main_rank walk (sw_main s) + sum_list (map walker_rank (sw_walkers s))"

lemma walk_step_rank: "walk_step walk cap dir base s s' \<Longrightarrow> walk_rank walk s' < walk_rank walk s"
proof (induction rule: walk_step.induct)
  case (SSend i s p ps)
  from sum_list_change [OF SSend(1), of walker_rank "SWalk ps"] SSend(2) show ?case by (simp add: walk_rank_def)
next
  case (SDone i s)
  from sum_list_change [OF SDone(1), of walker_rank SRelease] SDone(2) show ?case by (simp add: walk_rank_def)
next
  case (SReleases i s)
  from sum_list_change [OF SReleases(1), of walker_rank SEnd] SReleases(2) show ?case by (simp add: walk_rank_def)
qed (auto simp: walk_rank_def)

lemma walker_moves:
  assumes inv: "walk_inv cap s" and w: "w \<in> set (sw_walkers s)" "w \<noteq> SEnd"
  shows "\<exists>s'. walk_step walk cap dir base s s'"
proof -
  from w(1) obtain i where i: "i < length (sw_walkers s)" "sw_walkers s ! i = w" by (auto simp: in_set_conv_nth)
  show ?thesis
  proof (cases w)
    case (SWalk ps)
    with i show ?thesis by (cases ps) (blast intro: walk_step.SSend walk_step.SDone)+
  next
    case SRelease
    have "filter (\<lambda>w. w \<noteq> SEnd) (sw_walkers s) \<noteq> []" using w by (auto simp: filter_empty_conv)
    then have "0 < length (filter (\<lambda>w. w \<noteq> SEnd) (sw_walkers s))" by (rule length_greater_0_conv [THEN iffD2])
    with inv have "sw_tokens s < cap" unfolding walk_inv_def by linarith
    with i SRelease show ?thesis by (blast intro: walk_step.SReleases)
  qed (use w in simp)
qed

lemma walk_moves:
  assumes inv: "walk_inv cap s" and cap: "0 < cap" and m: "sw_main s \<noteq> AReturned"
  shows "\<exists>s'. walk_step walk cap dir base s s'"
proof (cases "\<exists>w \<in> set (sw_walkers s). w \<noteq> SEnd")
  case True
  then show ?thesis using walker_moves [OF inv] by blast
next
  case False
  then have e: "\<forall>w \<in> set (sw_walkers s). w = SEnd" by blast
  then have "filter (\<lambda>w. w \<noteq> SEnd) (sw_walkers s) = []" by (simp add: filter_empty_conv)
  with inv have t: "sw_tokens s = cap" by (simp add: walk_inv_def)
  show ?thesis
  proof (cases "sw_main s")
    case (AItems "is")
    show ?thesis
    proof (cases "is")
      case Nil
      moreover from e have "set (sw_walkers s) \<subseteq> {SRelease, SEnd}" by auto
      ultimately show ?thesis using AItems by (blast intro: walk_step.AWaits)
    next
      case (Cons x xs)
      obtain k where "cap = Suc k" using cap by (cases cap) auto
      with t AItems Cons show ?thesis by (cases x; cases "snd x") (auto intro: walk_step.AFile walk_step.ADir)
    qed
  next
    case AClose
    then show ?thesis by (blast intro: walk_step.AReturns)
  qed (use m in simp)
qed

lemma walk_run:
  assumes "(walk_step walk cap dir base)\<^sup>*\<^sup>* (AllFiles_go cap items) s"
  shows "walk_inv cap s \<and> walk_left walk dir base s = main_left walk dir base (AItems items)"
  using assms
proof (induction rule: rtranclp_induct)
  case base
  show ?case by (simp add: walk_inv_def walk_left_def AllFiles_go_def)
next
  case (step s s')
  then show ?case using walk_step_inv walk_step_left by metis
qed

lemma sum_list_0_mset: "\<forall>x \<in> set xs. x = ({#} :: 'a multiset) \<Longrightarrow> sum_list xs = {#}"
  by (induction xs) auto

lemma walk_end:
  assumes r: "(walk_step walk cap dir base)\<^sup>*\<^sup>* (AllFiles_go cap items) s" and cap: "0 < cap" and e: "\<nexists>s'. walk_step walk cap dir base s s'"
  shows "sw_main s = AReturned \<and> mset (sw_paths s) = main_left walk dir base (AItems items)"
proof -
  from walk_run [OF r] have inv: "walk_inv cap s" and l: "walk_left walk dir base s = main_left walk dir base (AItems items)" by auto
  with walk_moves [OF inv cap] e have m: "sw_main s = AReturned" by blast
  with inv have "walker_left w = {#}" if "w \<in> set (sw_walkers s)" for w using that by (auto simp: walk_inv_def)
  then have "sum_list (map walker_left (sw_walkers s)) = {#}" by (intro sum_list_0_mset) auto
  with m l show ?thesis by (simp add: walk_left_def)
qed

section \<open>The files below a directory\<close>

definition fs_below :: "string list \<Rightarrow> string list \<Rightarrow> bool" where
  "fs_below d q \<longleftrightarrow> length d < length q \<and> take (length d) q = d"

text \<open>Files are in directories: every proper prefix of the path of a file is a directory.\<close>

definition fs_tree :: "fsys \<Rightarrow> bool" where
  "fs_tree f \<longleftrightarrow> (\<forall>q \<in> fst ` set (files f). \<forall>n. 0 < n \<and> n < length q \<longrightarrow> take n q \<in> set (dirs f))"

lemma below_child: "dir_child d c \<Longrightarrow> fs_below c q \<Longrightarrow> fs_below d q \<and> \<not> dir_child d q"
  by (auto simp: dir_child_def fs_below_def)

lemma sum_one:
  "distinct cs \<Longrightarrow> (\<Sum>c \<in># mset cs. if c = a then x else {#}) = (if a \<in> set cs then x else ({#} :: 'a multiset))"
  by (induction cs) auto

lemma below_split:
  assumes "\<forall>q \<in> set ks. fs_below d q \<and> \<not> dir_child d q \<longrightarrow> take (Suc (length d)) q \<in> set cs" "distinct cs" "\<forall>c \<in> set cs. dir_child d c"
  shows "mset (map g (filter (fs_below d) ks)) = mset (map g (filter (dir_child d) ks)) + (\<Sum>c \<in># mset cs. mset (map g (filter (fs_below c) ks)))"
  using assms(1)
proof (induction ks)
  case (Cons q ks)
  then have IH: "mset (map g (filter (fs_below d) ks)) = mset (map g (filter (dir_child d) ks)) + (\<Sum>c \<in># mset cs. mset (map g (filter (fs_below c) ks)))" by simp
  have "(\<Sum>c \<in># mset cs. mset (map g (filter (fs_below c) (q # ks))))
      = (\<Sum>c \<in># mset cs. (if fs_below c q then {#g q#} else {#}) + mset (map g (filter (fs_below c) ks)))" by (rule arg_cong [of _ _ sum_mset], rule image_mset_cong) simp
  also have "\<dots> = (\<Sum>c \<in># mset cs. if fs_below c q then {#g q#} else {#}) + (\<Sum>c \<in># mset cs. mset (map g (filter (fs_below c) ks)))" by (rule sum_mset.distrib)
  finally have split: "(\<Sum>c \<in># mset cs. mset (map g (filter (fs_below c) (q # ks))))
      = (\<Sum>c \<in># mset cs. if fs_below c q then {#g q#} else {#}) + (\<Sum>c \<in># mset cs. mset (map g (filter (fs_below c) ks)))" .
  have one: "(\<Sum>c \<in># mset cs. if fs_below c q then {#g q#} else {#}) = (if fs_below d q \<and> \<not> dir_child d q then {#g q#} else {#})"
  proof (cases "fs_below d q \<and> \<not> dir_child d q")
    case True
    let ?a = "take (Suc (length d)) q"
    have "fs_below c q \<longleftrightarrow> c = ?a" if "c \<in> set cs" for c using assms(3) that True by (auto simp: dir_child_def fs_below_def)
    then have "(\<Sum>c \<in># mset cs. if fs_below c q then {#g q#} else {#}) = (\<Sum>c \<in># mset cs. if c = ?a then {#g q#} else {#})"
      by (intro arg_cong [of _ _ sum_mset] image_mset_cong) auto
    also have "\<dots> = {#g q#}" using Cons.prems True assms(2) by (simp add: sum_one)
    finally show ?thesis using True by simp
  next
    case False
    then have "\<not> fs_below c q" if "c \<in> set cs" for c using assms(3) that below_child by blast
    then have "(\<Sum>c \<in># mset cs. if fs_below c q then {#g q#} else {#}) = (\<Sum>c \<in># mset cs. {#})" by (intro arg_cong [of _ _ sum_mset] image_mset_cong) auto
    also have "\<dots> = {#}" by simp
    finally show ?thesis unfolding if_not_P [OF False] .
  qed
  show ?case
  proof (cases "fs_below d q")
    case True
    then show ?thesis unfolding split one using IH by (cases "dir_child d q") simp_all
  next
    case False
    then have "\<not> dir_child d q" by (auto simp: dir_child_def fs_below_def)
    then show ?thesis unfolding split one using IH False by simp
  qed
qed simp

section \<open>AllFiles\<close>

text \<open>What the code relies on of godirwalk.Walk: it reports the regular files below a subdirectory, each once.\<close>

definition file_path :: "string \<Rightarrow> bool \<Rightarrow> string list \<Rightarrow> string" where
  "file_path startDir basename q = (if basename then last q else path_Join startDir (join_slash (drop (length (os_comps startDir)) q)))"

definition walk_law :: "(string \<Rightarrow> string list) \<Rightarrow> string \<Rightarrow> bool \<Rightarrow> fsys \<Rightarrow> bool" where
  "walk_law walk startDir basename f \<longleftrightarrow>
     (\<forall>n. mset (walk n) = mset (map (file_path startDir basename) (filter (fs_below (os_comps startDir @ [n])) (map fst (files f)))))"

lemma child_snoc: "dir_child d q \<Longrightarrow> q = d @ [last q]"
  by (auto simp: dir_child_def) (metis append_butlast_last_id butlast_conv_take diff_Suc_1 length_0_conv nat.distinct(1))

lemma file_path_child: "dir_child (os_comps startDir) q \<Longrightarrow> entry_path startDir basename (last q) = file_path startDir basename q"
  using child_snoc [of "os_comps startDir" q] by (metis append_eq_conv_conj entry_path_def file_path_def join_slash.simps(2))

lemma items_left:
  assumes w: "walk_law walk startDir basename f" and d: "d = os_comps startDir"
  shows "main_left walk startDir basename (AItems (map (\<lambda>q. (last q, False)) (filter (dir_child d) qs) @ map (\<lambda>q. (last q, True)) (filter (dir_child d) cs)))
      = mset (map (file_path startDir basename) (filter (dir_child d) qs))
        + (\<Sum>c \<in># mset (filter (dir_child d) cs). mset (map (file_path startDir basename) (filter (fs_below c) (map fst (files f)))))"
proof -
  have "(\<Sum>(n, isDir) \<in># mset (map (\<lambda>q. (last q, False)) (filter (dir_child d) qs)). if isDir then mset (walk n) else {#entry_path startDir basename n#})
      = mset (map (file_path startDir basename) (filter (dir_child d) qs))"
    using d by (induction qs) (auto simp: file_path_child)
  moreover have "(\<Sum>(n, isDir) \<in># mset (map (\<lambda>q. (last q, True)) (filter (dir_child d) cs)). if isDir then mset (walk n) else {#entry_path startDir basename n#})
      = (\<Sum>c \<in># mset (filter (dir_child d) cs). mset (map (file_path startDir basename) (filter (fs_below c) (map fst (files f)))))"
  proof (induction cs)
    case (Cons c cs)
    have "mset (walk (last c)) = mset (map (file_path startDir basename) (filter (fs_below c) (map fst (files f))))" if "dir_child d c"
      using w child_snoc [OF that] d unfolding walk_law_def by metis
    with Cons show ?case by simp
  qed simp
  ultimately show ?thesis by simp
qed

lemma walk_lists:
  assumes f: "fs_tree f" "faults f = []" and w: "walk_law walk startDir basename f" and items: "ioutil_ReadDir startDir f = (Inr items, f)"
    and cap: "0 < cap" and r: "(walk_step walk cap startDir basename)\<^sup>*\<^sup>* (AllFiles_go cap items) s" and e: "\<nexists>s'. walk_step walk cap startDir basename s s'"
  shows "sw_main s = AReturned \<and> (\<exists>l. AllFiles startDir basename f = (Inr l, f) \<and> mset (sw_paths s) = mset l)"
proof -
  let ?d = "os_comps startDir" and ?g = "file_path startDir basename"
  let ?qs = "map fst (files f)"
  let ?cs = "filter (dir_child ?d) (remdups (dirs f))"
  let ?es = "map (\<lambda>q. (last q, False)) (filter (dir_child ?d) ?qs) @ map (\<lambda>q. (last q, True)) ?cs"
  from items f(2) have dir: "fs_dir f ?d" and it: "items = sort_on fst ?es"
    by (auto simp: ioutil_ReadDir_def os_call_def Let_def split: if_splits)
  have l: "AllFiles startDir basename f = (Inr (map ?g (filter (fs_below ?d) ?qs)), f)"
    using f(2) dir by (simp add: AllFiles_def os_call_def Let_def filter_map o_def fs_below_def file_path_def case_prod_unfold)
  have "main_left walk startDir basename (AItems items) = main_left walk startDir basename (AItems ?es)" unfolding it by simp
  also have "\<dots> = mset (map ?g (filter (dir_child ?d) ?qs)) + (\<Sum>c \<in># mset ?cs. mset (map ?g (filter (fs_below c) ?qs)))"
    by (rule items_left [OF w refl])
  also have "\<dots> = mset (map ?g (filter (fs_below ?d) ?qs))"
  proof (rule below_split [symmetric])
    show "\<forall>q \<in> set ?qs. fs_below ?d q \<and> \<not> dir_child ?d q \<longrightarrow> take (Suc (length ?d)) q \<in> set ?cs"
    proof (intro ballI impI)
      fix q
      assume q: "q \<in> set ?qs" "fs_below ?d q \<and> \<not> dir_child ?d q"
      then have n: "Suc (length ?d) < length q" by (auto simp: fs_below_def dir_child_def)
      with f(1) q(1) have "take (Suc (length ?d)) q \<in> set (dirs f)" by (auto simp: fs_tree_def)
      with q(2) n show "take (Suc (length ?d)) q \<in> set ?cs" by (auto simp: dir_child_def fs_below_def)
    qed
  qed auto
  finally show ?thesis using walk_end [OF r cap e] l by simp
qed

text \<open>
  C21. \<open>AllFiles\<close> lists every file below the directory and each once: with at least two CPUs, on a file system that does not change, a run in which no goroutine can move has
  returned, and what it returned is a permutation of the regular files below the directory (by name, or by path from the directory), however the walkers interleave.
\<close>

theorem AllFiles_lists_files:
  assumes f: "fs_tree f" "faults f = []" and w: "walk_law walk startDir basename f" and items: "ioutil_ReadDir startDir f = (Inr items, f)"
    and cap: "0 < cap" and r: "(walk_step walk cap startDir basename)\<^sup>*\<^sup>* (AllFiles_go cap items) s" and e: "\<nexists>s'. walk_step walk cap startDir basename s s'"
  shows "sw_main s = AReturned \<and> (\<exists>l. AllFiles startDir basename f = (Inr l, f) \<and> mset (sw_paths s) = mset l)"
  by (rule walk_lists [OF assms])

lemma walk_reaches_end: "\<exists>s'. (walk_step walk cap dir base)\<^sup>*\<^sup>* s s' \<and> (\<nexists>s''. walk_step walk cap dir base s' s'')"
proof (induction s rule: measure_induct_rule [of "walk_rank walk"])
  case (less s)
  show ?case
  proof (cases "\<exists>s'. walk_step walk cap dir base s s'")
    case True
    then obtain s' where s': "walk_step walk cap dir base s s'" by blast
    from less [OF walk_step_rank [OF s']] s' show ?thesis by (metis converse_rtranclp_into_rtranclp)
  qed auto
qed

definition walk_example :: fsys where
  "walk_example = \<lparr>files = [([''b'', ''aa'', ''x''], ''1''), ([''b'', ''y''], ''2'')], dirs = [[''b''], [''b'', ''aa'']], faults = []\<rparr>"

lemma walk_example_dir: "os_comps ''/b'' = [''b'']"
  by (simp add: os_comps_def)

lemma walk_example_tree: "fs_tree walk_example"
  by (auto simp: fs_tree_def walk_example_def take_Cons less_Suc_eq split: nat.splits)

theorem AllFiles_lists_files_witness:
  "\<exists>s :: Speedwalk. sw_main s = AReturned \<and> mset (sw_paths s) = {#''x'', ''y''#}"
proof -
  let ?walk = "\<lambda>n. map (file_path ''/b'' True) (filter (fs_below (os_comps ''/b'' @ [n])) (map fst (files walk_example)))"
  let ?items = "[(''aa'', True), (''y'', False)]"
  have i: "ioutil_ReadDir ''/b'' walk_example = (Inr ?items, walk_example)"
    by (simp add: ioutil_ReadDir_def os_call_def walk_example_def walk_example_dir fs_dir_def dir_child_def sort_on_def Let_def)
  from walk_reaches_end [of ?walk 1 "''/b''" True "AllFiles_go 1 ?items"] obtain s where
    s: "(walk_step ?walk 1 ''/b'' True)\<^sup>*\<^sup>* (AllFiles_go 1 ?items) s" "\<nexists>s'. walk_step ?walk 1 ''/b'' True s s'" by blast
  have "walk_law ?walk ''/b'' True walk_example" "faults walk_example = []" by (simp_all add: walk_law_def walk_example_def)
  note all = AllFiles_lists_files [OF walk_example_tree this(2,1) i zero_less_one s]
  have "AllFiles ''/b'' True walk_example = (Inr [''x'', ''y''], walk_example)"
    by (simp add: AllFiles_def os_call_def walk_example_def walk_example_dir fs_dir_def Let_def)
  with all show ?thesis by (intro exI [of _ s]) auto
qed

text \<open>
  With one CPU the limiter has no tokens and no room for any: when the directory has a subdirectory, \<open>AllFiles\<close> never returns, and neither does what calls it (the start of an
  eviction store over a disk).
\<close>

theorem AllFiles_one_cpu_hangs:
  assumes n: "(n, True) \<in> set items" and r: "(walk_step walk 0 startDir basename)\<^sup>*\<^sup>* (AllFiles_go 0 items) s"
  shows "\<exists>is. sw_main s = AItems is \<and> (n, True) \<in> set is \<and> sw_walkers s = []"
proof -
  from r have "\<exists>is. sw_main s = AItems is \<and> (n, True) \<in> set is \<and> sw_walkers s = [] \<and> sw_tokens s = 0"
  proof (induction rule: rtranclp_induct)
    case base
    from n show ?case by (simp add: AllFiles_go_def)
  next
    case (step s s')
    from step(2,3) show ?case by (cases rule: walk_step.cases) auto
  qed
  then show ?thesis by auto
qed

theorem AllFiles_one_cpu_hangs_witness:
  "\<exists>s. (walk_step (\<lambda>_. []) 0 ''/b'' True)\<^sup>*\<^sup>* (AllFiles_go 0 [(''aa'', True)]) s \<and> sw_main s \<noteq> AReturned \<and> (\<nexists>s'. walk_step (\<lambda>_. []) 0 ''/b'' True s s')"
proof -
  from walk_reaches_end [of "\<lambda>_. []" 0 "''/b''" True "AllFiles_go 0 [(''aa'', True)]"] obtain s where
    s: "(walk_step (\<lambda>_. []) 0 ''/b'' True)\<^sup>*\<^sup>* (AllFiles_go 0 [(''aa'', True)]) s" "\<nexists>s'. walk_step (\<lambda>_. []) 0 ''/b'' True s s'" by blast
  with AllFiles_one_cpu_hangs [OF _ s(1), of "''aa''"] show ?thesis by fastforce
qed


end
