(* ===== verification/Integrity_Correct.thy ===== *)
theory Integrity_Correct
  imports Integrity Speedwalk_Correct
begin

text \<open>
  The integrity check removes only files whose content does not have the hash they are named after, whatever fails and however the workers interleave; with
  one worker it leaves none behind; with more it may return too early.
\<close>

lemma check_set_simps [simp]:
  "ic_fs (check_set i w c) = ic_fs c" "ic_blobs (check_set i w c) = ic_blobs c" "ic_tasks (check_set i w c) = ic_tasks c" "ic_closed (check_set i w c) = ic_closed c"
  "ic_returned (check_set i w c) = ic_returned c" "ic_crashed (check_set i w c) = ic_crashed c" "ic_workers (check_set i w c) = (ic_workers c)[i := w]"
  by (simp_all add: check_set_def)

lemma check_at_mem: "check_at c i w \<Longrightarrow> w \<in> set (ic_workers c)"
  by (auto simp: check_at_def)

section \<open>What is removed\<close>

text \<open>The file a name is checked at does not have the content of its name, in the files \<open>F\<close> at the start.\<close>

definition broken_at :: "(string list \<times> bytes) list \<Rightarrow> string \<Rightarrow> string \<Rightarrow> bool" where
  "broken_at F dir b \<longleftrightarrow> (\<exists>x. map_of F (os_comps (check_path dir b)) = Some x \<and> BlobHash x \<noteq> b)"

definition check_safe :: "(string list \<times> bytes) list \<Rightarrow> string \<Rightarrow> string set \<Rightarrow> Integrity \<Rightarrow> bool" where
  "check_safe F dir H c \<longleftrightarrow> set (ic_blobs c) \<union> set (ic_tasks c) \<subseteq> H
     \<and> (\<forall>b. IRead b \<in> set (ic_workers c) \<longrightarrow> b \<in> H) \<and> (\<forall>b. IRemove b \<in> set (ic_workers c) \<longrightarrow> b \<in> H \<and> broken_at F dir b)
     \<and> (\<forall>q. map_of (files (ic_fs c)) q = map_of F q \<or> (map_of (files (ic_fs c)) q = None \<and> (\<exists>b \<in> H. q = os_comps (check_path dir b) \<and> broken_at F dir b)))"

lemma check_read_files: "check_read dir b f = (w, f') \<Longrightarrow> files f' = files f"
  by (auto simp: check_read_def os_ReadFile_def os_call_def Let_def split: list.splits option.splits sum.splits prod.splits if_splits)

lemma check_read_cases:
  assumes "check_read dir b f = (w, f')"
  obtains "w = IRecv" | x where "w = IRemove b" "map_of (files f) (os_comps (check_path dir b)) = Some x" "BlobHash x \<noteq> b"
  using assms by (auto simp: check_read_def os_ReadFile_def os_call_def Let_def split: list.splits option.splits sum.splits prod.splits if_splits)

lemma remove_files:
  "os_Remove p f = (r, f') \<Longrightarrow> map_of (files f') q = map_of (files f) q \<or> (q = os_comps p \<and> map_of (files f') q = None)"
  by (auto simp: os_Remove_def os_call_def Let_def delete_conv' split: list.splits option.splits if_splits)

lemma check_safe_set:
  assumes "check_safe F dir H c" "\<forall>b. w = IRead b \<longrightarrow> b \<in> H" "\<forall>b. w = IRemove b \<longrightarrow> b \<in> H \<and> broken_at F dir b"
  shows "check_safe F dir H (check_set i w c)"
  using assms set_update_subset_insert [of "ic_workers c" i w] by (auto simp: check_safe_def)

lemma check_step_safe: "check_step dir c c' \<Longrightarrow> check_safe F dir H c \<Longrightarrow> check_safe F dir H c'"
proof (induction rule: check_step.induct)
  case (ConsumeTask c i b bs)
  then have "check_safe F dir H (c\<lparr>ic_tasks := bs\<rparr>)" "b \<in> H" by (auto simp: check_safe_def)
  then show ?case by (intro check_safe_set) auto
next
  case (ConsumeEnd c i)
  then show ?case by (intro check_safe_set) auto
next
  case (ConsumeRead c i b w f)
  have H: "b \<in> H" using ConsumeRead check_at_mem [OF ConsumeRead(1)] by (auto simp: check_safe_def)
  from ConsumeRead check_read_files [OF ConsumeRead(2)] have "check_safe F dir H (c\<lparr>ic_fs := f\<rparr>)" by (auto simp: check_safe_def)
  moreover have "broken_at F dir b" if "w = IRemove b"
    using ConsumeRead(2)
  proof (cases rule: check_read_cases)
    case (2 x)
    with ConsumeRead(3) show ?thesis unfolding check_safe_def broken_at_def by (metis option.distinct(1))
  qed (use that in simp)
  ultimately show ?case using H check_read_cases [OF ConsumeRead(2)] by (intro check_safe_set) (metis consume_pc.distinct consume_pc.inject)+
next
  case (ConsumeRemove c i b r f)
  have b: "b \<in> H" "broken_at F dir b" using ConsumeRemove check_at_mem [OF ConsumeRemove(1)] by (auto simp: check_safe_def)
  from ConsumeRemove(3) remove_files [OF ConsumeRemove(2)] b have "check_safe F dir H (c\<lparr>ic_fs := f\<rparr>)" unfolding check_safe_def by (simp, metis)
  then show ?case by (intro check_safe_set) auto
qed (auto simp: check_safe_def)

text \<open>
  C22. The integrity check never removes a good blob: whatever system calls fail and however the workers interleave, a file that is gone or changed at any
  moment is the file checked for a listed name, and its content did not hash to that name.
\<close>

theorem check_removes_only_broken:
  assumes "(check_step dir)\<^sup>*\<^sup>* (check_go cpus hs f) c" "map_of (files (ic_fs c)) q \<noteq> map_of (files f) q"
  shows "\<exists>b x. b \<in> set hs \<and> q = os_comps (check_path dir b) \<and> map_of (files f) q = Some x \<and> BlobHash x \<noteq> b"
proof -
  from assms(1) have "check_safe (files f) dir (set hs) c"
  proof (induction rule: rtranclp_induct)
    case base
    show ?case by (auto simp: check_safe_def check_go_def)
  next
    case (step c c')
    then show ?case using check_step_safe by blast
  qed
  with assms(2) show ?thesis unfolding check_safe_def broken_at_def by metis
qed

section \<open>Runs end\<close>

fun consume_rank :: "consume_pc \<Rightarrow> nat" where
  "consume_rank IRecv = 1"
| "consume_rank (IRead b) = 4"
| "consume_rank (IRemove b) = 2"
| "consume_rank IDone = 0"

definition check_rank :: "Integrity \<Rightarrow> nat" where
  "check_rank c = 5 * length (ic_blobs c) + 4 * length (ic_tasks c) + sum_list (map consume_rank (ic_workers c))
     + of_bool (\<not> ic_closed c) + of_bool (\<not> ic_returned c) + of_bool (\<not> ic_crashed c)"

lemma check_rank_set: "check_at c i w \<Longrightarrow> sum_list (map consume_rank ((ic_workers c)[i := w'])) + consume_rank w = sum_list (map consume_rank (ic_workers c)) + consume_rank w'"
  using sum_list_change [of i "ic_workers c" consume_rank w'] by (auto simp: check_at_def)

lemma check_step_rank: "check_step dir c c' \<Longrightarrow> check_rank c' < check_rank c"
proof (induction rule: check_step.induct)
  case (ConsumeTask c i b bs)
  from check_rank_set [OF ConsumeTask(1), of "IRead b"] ConsumeTask(2) show ?case by (simp add: check_rank_def)
next
  case (ConsumeEnd c i)
  from check_rank_set [OF ConsumeEnd(1), of IDone] show ?case by (simp add: check_rank_def)
next
  case (ConsumeRead c i b w f)
  have "w = IRecv \<or> w = IRemove b" using ConsumeRead(2) by (cases rule: check_read_cases) auto
  with check_rank_set [OF ConsumeRead(1), of w] show ?case by (auto simp: check_rank_def)
next
  case (ConsumeRemove c i b r f)
  from check_rank_set [OF ConsumeRemove(1), of IRecv] show ?case by (simp add: check_rank_def)
qed (auto simp: check_rank_def check_at_def)

lemma check_reaches_end: "\<exists>c'. (check_step dir)\<^sup>*\<^sup>* c c' \<and> (\<nexists>c''. check_step dir c' c'')"
proof (induction c rule: measure_induct_rule [of check_rank])
  case (less c)
  show ?case
  proof (cases "\<exists>c'. check_step dir c c'")
    case True
    then obtain c' where c': "check_step dir c c'" by blast
    from less [OF check_step_rank [OF c']] c' show ?thesis by (metis converse_rtranclp_into_rtranclp)
  qed auto
qed

lemma check_moves:
  assumes c: "ic_workers c \<noteq> []" "\<not> ic_returned c" "\<not> ic_crashed c"
  shows "\<exists>c'. check_step dir c c'"
proof (cases "ic_blobs c = [] \<and> ic_closed c")
  case False
  then show ?thesis using c by (cases "ic_blobs c") (blast intro: check_step.Produce check_step.ProduceClose)+
next
  case True
  from c obtain w where w: "check_at c 0 w" by (simp add: check_at_def)
  show ?thesis
  proof (cases w)
    case IRecv
    show ?thesis
    proof (cases "ic_tasks c")
      case Nil
      with w IRecv True show ?thesis by (blast intro: check_step.ConsumeEnd)
    next
      case (Cons b bs)
      with w IRecv show ?thesis using not_less by (cases "length b < 2") (blast intro: check_step.ConsumeTask check_step.ConsumePanic)+
    qed
  next
    case (IRead b)
    obtain w' f where "check_read dir b (ic_fs c) = (w', f)" by (metis surj_pair)
    with w IRead show ?thesis by (blast intro: check_step.ConsumeRead)
  next
    case (IRemove b)
    obtain r f where "os_Remove (check_path dir b) (ic_fs c) = (r, f)" by (metis surj_pair)
    with w IRemove show ?thesis by (blast intro: check_step.ConsumeRemove)
  next
    case IDone
    with w show ?thesis by (blast intro: check_step.Done)
  qed
qed

lemma check_no_crash:
  assumes "(check_step dir)\<^sup>*\<^sup>* (check_go cpus hs f) c" "\<forall>b \<in> set hs. 2 \<le> length b"
  shows "\<not> ic_crashed c \<and> length (ic_workers c) = cpus - 1 \<and> set (ic_blobs c) \<union> set (ic_tasks c) \<subseteq> set hs"
  using assms(1)
proof (induction rule: rtranclp_induct)
  case (step c c')
  from step(2,3) assms(2) show ?case by (cases rule: check_step.cases) (auto simp: check_at_def)
qed (simp add: check_go_def)

lemma check_returns:
  assumes "2 \<le> cpus" "\<forall>b \<in> set hs. 2 \<le> length b"
  shows "\<exists>c. (check_step dir)\<^sup>*\<^sup>* (check_go cpus hs f) c \<and> ic_returned c"
proof -
  from check_reaches_end [of dir "check_go cpus hs f"] obtain c where c: "(check_step dir)\<^sup>*\<^sup>* (check_go cpus hs f) c" "\<nexists>c'. check_step dir c c'" by blast
  from check_no_crash [OF c(1) assms(2)] assms(1) have "ic_workers c \<noteq> []" "\<not> ic_crashed c" by auto
  with check_moves c show ?thesis by blast
qed

section \<open>One worker\<close>

fun busy_with :: "consume_pc \<Rightarrow> string set" where
  "busy_with (IRead b) = {b}"
| "busy_with (IRemove b) = {b}"
| "busy_with _ = {}"

definition check_one :: "string \<Rightarrow> string set \<Rightarrow> Integrity \<Rightarrow> bool" where
  "check_one dir H c \<longleftrightarrow> (\<exists>w. ic_workers c = [w] \<and> faults (ic_fs c) = [] \<and> (\<forall>b \<in> H. \<not> under_file (ic_fs c) (os_comps (check_path dir b)))
     \<and> set (ic_blobs c) \<union> set (ic_tasks c) \<union> busy_with w \<subseteq> H
     \<and> (\<forall>b \<in> H. b \<in> set (ic_blobs c) \<union> set (ic_tasks c) \<union> busy_with w \<or> \<not> broken_at (files (ic_fs c)) dir b \<or> ic_crashed c)
     \<and> (ic_closed c \<longrightarrow> ic_blobs c = []) \<and> (w = IDone \<longrightarrow> ic_closed c \<and> ic_tasks c = []) \<and> (ic_returned c \<longrightarrow> w = IDone \<and> \<not> ic_crashed c))"

lemma check_at_one: "check_at c i w \<Longrightarrow> ic_workers c = [w'] \<Longrightarrow> i = 0 \<and> w' = w"
  by (auto simp: check_at_def)

lemma read_no_fault:
  assumes "check_read dir b f = (w, f')" "faults f = []" "\<not> under_file f (os_comps (check_path dir b))"
  shows "f' = f \<and> (w = IRemove b \<or> w = IRecv \<and> \<not> broken_at (files f) dir b)"
  using assms by (auto simp: check_read_def os_ReadFile_def os_call_def Let_def broken_at_def split: option.splits if_splits)

lemma remove_no_fault:
  assumes "os_Remove (check_path dir b) f = (r, f')" "faults f = []"
  shows "faults f' = [] \<and> \<not> broken_at (files f') dir b \<and> (\<forall>b'. broken_at (files f') dir b' \<longrightarrow> broken_at (files f) dir b')
    \<and> (\<forall>p. under_file f' p \<longrightarrow> under_file f p)"
proof -
  have "under_file f p" if "under_file f' p" for p
    using that remove_files [OF assms(1)] unfolding under_file_iff by metis
  moreover have "broken_at (files f) dir b'" if "broken_at (files f') dir b'" for b'
    using that remove_files [OF assms(1)] unfolding broken_at_def by (metis option.distinct(1))
  moreover have "faults f' = []" "\<not> broken_at (files f') dir b"
    using assms by (auto simp: os_Remove_def os_call_def Let_def broken_at_def delete_conv' split: if_splits)
  ultimately show ?thesis by blast
qed

lemma check_step_one: "check_step dir c c' \<Longrightarrow> check_one dir H c \<Longrightarrow> check_one dir H c'"
proof (induction rule: check_step.induct)
  case (ConsumeTask c i b bs)
  then have "i = 0" "ic_workers c = [IRecv]" by (auto simp: check_one_def dest: check_at_one)
  with ConsumeTask show ?case by (auto simp: check_one_def)
next
  case (ConsumeEnd c i)
  then have "i = 0" "ic_workers c = [IRecv]" by (auto simp: check_one_def dest: check_at_one)
  with ConsumeEnd show ?case by (auto simp: check_one_def)
next
  case (ConsumeRead c i b w f)
  then have i: "i = 0" "ic_workers c = [IRead b]" by (auto simp: check_one_def dest: check_at_one)
  with ConsumeRead(3) have "faults (ic_fs c) = []" "\<not> under_file (ic_fs c) (os_comps (check_path dir b))" by (auto simp: check_one_def)
  from read_no_fault [OF ConsumeRead(2) this] ConsumeRead(3) i show ?case by (auto simp: check_one_def)
next
  case (ConsumeRemove c i b r f)
  then have i: "i = 0" "ic_workers c = [IRemove b]" by (auto simp: check_one_def dest: check_at_one)
  with ConsumeRemove(3) have "faults (ic_fs c) = []" by (auto simp: check_one_def)
  from remove_no_fault [OF ConsumeRemove(2) this] ConsumeRemove(3) i show ?case by (auto simp: check_one_def)
next
  case (Done c i)
  then show ?case by (auto simp: check_one_def check_at_def)
qed (auto simp: check_one_def check_at_def)

lemma check_one_end:
  assumes "faults f = []" "\<forall>b \<in> set hs. \<not> under_file f (os_comps (check_path dir b))"
    and "(check_step dir)\<^sup>*\<^sup>* (check_go 2 hs f) c" "ic_returned c"
  shows "\<forall>b \<in> set hs. \<not> broken_at (files (ic_fs c)) dir b"
proof -
  from assms(3) have "check_one dir (set hs) c"
  proof (induction rule: rtranclp_induct)
    case base
    from assms(1,2) show ?case by (auto simp: check_one_def check_go_def)
  next
    case (step c c')
    then show ?case using check_step_one by blast
  qed
  with assms(4) show ?thesis by (auto simp: check_one_def)
qed

text \<open>
  With one worker (two CPUs) the check is complete: on a disk that does not fail, when the command has returned, every listed name that still has a file has one whose
  content hashes to the name.
\<close>

theorem check_one_worker_complete:
  assumes "faults f = []" "\<forall>b \<in> set hs. \<not> under_file f (os_comps (check_path dir b))"
    and "(check_step dir)\<^sup>*\<^sup>* (check_go 2 hs f) c" "ic_returned c" "b \<in> set hs" "map_of (files (ic_fs c)) (os_comps (check_path dir b)) = Some x"
  shows "BlobHash x = b"
  using check_one_end [OF assms(1-4)] assms(5,6) by (auto simp: broken_at_def)

text \<open>A directory with a file that does not hold what its name says.\<close>

definition check_fs :: fsys where
  "check_fs = \<lparr>files = [([''b'', ''ab'', ''abc''], ''x'')], dirs = [[''b''], [''b'', ''ab'']], faults = []\<rparr>"

lemma check_fs_path: "os_comps (check_path ''/b'' ''abc'') = [''b'', ''ab'', ''abc'']"
  by (simp add: check_path_def os_comps_def path_Clean_def Let_def)

lemma check_fs_run: "\<exists>c. (check_step ''/b'')\<^sup>*\<^sup>* (check_go 2 [''abc''] check_fs) c \<and> ic_returned c"
  by (rule check_returns) simp_all

lemma check_fs_ok: "faults check_fs = []" "\<forall>b \<in> set [''abc'']. \<not> under_file check_fs (os_comps (check_path ''/b'' b))"
  by (simp_all add: check_fs_def check_fs_path under_file_def upt_rec)

lemma abc_no_hash: "BlobHash x \<noteq> ''abc''"
proof
  assume "BlobHash x = ''abc''"
  moreover have "length (BlobHash x) = 96" using BlobHash_valid [of x] by (simp add: valid_hash_def)
  ultimately show False by simp
qed

theorem check_one_worker_complete_witness:
  "\<exists>c. (check_step ''/b'')\<^sup>*\<^sup>* (check_go 2 [''abc''] check_fs) c \<and> ic_returned c \<and> map_of (files (ic_fs c)) [''b'', ''ab'', ''abc''] = None"
proof -
  from check_fs_run obtain c where c: "(check_step ''/b'')\<^sup>*\<^sup>* (check_go 2 [''abc''] check_fs) c" "ic_returned c" by blast
  have "map_of (files (ic_fs c)) [''b'', ''ab'', ''abc''] = None"
    using check_one_worker_complete [OF check_fs_ok c, of "''abc''"] abc_no_hash by (cases "map_of (files (ic_fs c)) [''b'', ''ab'', ''abc'']") (auto simp: check_fs_path)
  with c show ?thesis by blast
qed

theorem check_removes_only_broken_witness:
  "\<exists>c x. (check_step ''/b'')\<^sup>*\<^sup>* (check_go 2 [''abc''] check_fs) c \<and> map_of (files (ic_fs c)) [''b'', ''ab'', ''abc''] \<noteq> Some ''x'' \<and> BlobHash x \<noteq> ''abc''"
proof -
  from check_fs_run obtain c where c: "(check_step ''/b'')\<^sup>*\<^sup>* (check_go 2 [''abc''] check_fs) c" "ic_returned c" by blast
  have f: "map_of (files check_fs) [''b'', ''ab'', ''abc''] = Some ''x''" by (simp add: check_fs_def)
  have "\<not> broken_at (files (ic_fs c)) ''/b'' ''abc''" using check_one_end [OF check_fs_ok c] by simp
  then have "map_of (files (ic_fs c)) [''b'', ''ab'', ''abc''] \<noteq> Some ''x''" using abc_no_hash by (auto simp: broken_at_def check_fs_path)
  with check_removes_only_broken [OF c(1), of "[''b'', ''ab'', ''abc'']"] f c show ?thesis by auto
qed

section \<open>Early return\<close>

lemma check_early:
  assumes "2 \<le> length b"
  shows "\<exists>c. (check_step dir)\<^sup>*\<^sup>* (check_go 3 [b] f) c \<and> ic_returned c \<and> ic_fs c = f \<and> IRead b \<in> set (ic_workers c)"
proof -
  let ?C = "\<lambda>hs ts cl ws r. \<lparr>ic_fs = f, ic_blobs = hs, ic_tasks = ts, ic_closed = cl, ic_workers = ws, ic_returned = r, ic_crashed = False\<rparr>"
  have go: "check_go 3 [b] f = ?C [b] [] False [IRecv, IRecv] False" by (simp add: check_go_def numeral_2_eq_2)
  have s1: "check_step dir (?C [b] [] False [IRecv, IRecv] False) (?C [] [b] False [IRecv, IRecv] False)"
    using Produce [of "?C [b] [] False [IRecv, IRecv] False" b "[]" dir] by simp
  have s2: "check_step dir (?C [] [b] False [IRecv, IRecv] False) (?C [] [b] True [IRecv, IRecv] False)"
    using ProduceClose [of "?C [] [b] False [IRecv, IRecv] False" dir] by simp
  have s3: "check_step dir (?C [] [b] True [IRecv, IRecv] False) (?C [] [] True [IRead b, IRecv] False)"
    using ConsumeTask [of "?C [] [b] True [IRecv, IRecv] False" 0 b "[]" dir] assms by (simp add: check_at_def check_set_def)
  have s4: "check_step dir (?C [] [] True [IRead b, IRecv] False) (?C [] [] True [IRead b, IDone] False)"
    using ConsumeEnd [of "?C [] [] True [IRead b, IRecv] False" 1 dir] by (simp add: check_at_def check_set_def)
  have s5: "check_step dir (?C [] [] True [IRead b, IDone] False) (?C [] [] True [IRead b, IDone] True)"
    using Done [of "?C [] [] True [IRead b, IDone] False" 1 dir] by (simp add: check_at_def)
  note next_step = converse_rtranclp_into_rtranclp [of "check_step dir"]
  from next_step [OF s1 next_step [OF s2 next_step [OF s3 next_step [OF s4 next_step [OF s5 rtranclp.rtrancl_refl]]]]] show ?thesis
    unfolding go by (intro exI [of _ "?C [] [] True [IRead b, IDone] True"]) simp
qed

text \<open>
  With two workers or more the command can return before the work is done: the first worker that finds the tasks exhausted ends it, while another still holds a name it has
  not read, so that a broken blob stays.
\<close>

theorem check_returns_early:
  "\<exists>c b. (check_step dir)\<^sup>*\<^sup>* (check_go 3 [b] f) c \<and> ic_returned c \<and> ic_fs c = f \<and> IRead b \<in> set (ic_workers c)"
  using check_early [of "''ab''" dir f] by (auto intro: exI [of _ "''ab''"])

end
