(* ===== verification/Lite_Db.thy ===== *)
theory Lite_Db
  imports Db
begin

text \<open>
  The light database (src/lite_db/db.go): one table of blobs with their last access, and soft deletes only. The connection, its retry and the statements on
  \<open>blob_\<close> are those of src/db/db.go, on the record \<open>SQL\<close> of the connection (whose own configuration fields are not used); \<open>TrackAccessTime\<close> is the configuration here.
\<close>

record LiteSQL =
  l_sql :: SQL
  TrackAccessTime :: bool

definition on_sql :: "(SQL, 'a) op \<Rightarrow> (LiteSQL, 'a) op" where
  "on_sql = zoom l_sql (\<lambda>s l. l\<lparr>l_sql := s\<rparr>)"

text \<open>\<open>exec\<close>, with the retry of the database layer.\<close>

definition lite_exec :: "string \<Rightarrow> nat stmt \<Rightarrow> (LiteSQL, go_error + nat) op" where
  "lite_exec q st = on_sql (exec q st)"

definition if_connected :: "'a \<Rightarrow> (LiteSQL, 'a) op \<Rightarrow> (LiteSQL, 'a) op" where
  "if_connected e f = bnd get_st (\<lambda>l. if conn (l_sql l) = None then ret e else f)"

definition lite_insertBlob :: "(nat \<Rightarrow> nat) \<Rightarrow> string \<Rightarrow> int \<Rightarrow> (LiteSQL, go_error + nat) op" where
  "lite_insertBlob dup hash len =
     (if len \<le> 0 then ret (Inl (Msg ''length must be positive''))
      else bnd get_st (\<lambda>l.
        bnd (lite_exec ''INSERT INTO blob_'' (stmt_insert_blob dup hash len True (Some (now (l_sql l))))) (\<lambda>r.
          case r of
            Inl err \<Rightarrow> ret (Inl err)
          | Inr blobID \<Rightarrow>
              if blobID = 0 then
                bnd (on_sql (conn_call (query (\<lambda>t. map_option b_id (find_blob hash t))))) (\<lambda>r.
                  case r of
                    Inl err \<Rightarrow> ret (Inl err)
                  | Inr None \<Rightarrow> ret (Inl ErrNoRows)
                  | Inr (Some blobID) \<Rightarrow>
                      if blobID = 0 then ret (Inl (Msg ''blob ID is 0 even after INSERTing and SELECTing'')) else ret (Inr blobID))
              else ret (Inr blobID))))"

definition lite_AddBlob :: "(nat \<Rightarrow> nat) \<Rightarrow> string \<Rightarrow> int \<Rightarrow> (LiteSQL, go_error option) op" where
  "lite_AddBlob dup hash len =
     if_connected (Some not_connected)
       (bnd (lite_insertBlob dup hash len) (\<lambda>r. case r of Inl err \<Rightarrow> ret (Some err) | Inr _ \<Rightarrow> ret None))"

definition lite_AddSDBlob :: "(nat \<Rightarrow> nat) \<Rightarrow> string \<Rightarrow> int \<Rightarrow> (LiteSQL, go_error option) op" where
  "lite_AddSDBlob dup sdHash sdBlobLength =
     if_connected (Some not_connected)
       (bnd (lite_insertBlob dup sdHash sdBlobLength) (\<lambda>r. case r of Inl err \<Rightarrow> ret (Some err) | Inr _ \<Rightarrow> ret None))"

definition lite_touch :: "nat list \<Rightarrow> (LiteSQL, go_error option) op" where
  "lite_touch blobIDs =
     (if blobIDs = [] then ret None
      else bnd get_st (\<lambda>l. bnd (lite_exec ''UPDATE blob_ SET last_accessed_at'' (stmt_touch_blobs (now (l_sql l)) blobIDs)) (\<lambda>r.
        case r of Inl err \<Rightarrow> ret (Some err) | Inr _ \<Rightarrow> ret None)))"

definition lite_rows :: "string list \<Rightarrow> tables \<Rightarrow> (string \<times> nat \<times> int option) list" where
  "lite_rows batch t = map (\<lambda>b. (b_hash b, b_id b, b_accessed b)) (filter (\<lambda>b. b_stored b \<and> b_hash b \<in> set batch) (t_blob t))"

definition lite_needs_touch :: "bool \<Rightarrow> int \<Rightarrow> string \<times> nat \<times> int option \<Rightarrow> bool" where
  "lite_needs_touch track touchDeadline row =
     (case row of (_, _, lastAccessedAt) \<Rightarrow> track \<and> (case lastAccessedAt of None \<Rightarrow> True | Some a \<Rightarrow> a < touchDeadline))"

fun lite_batches :: "bool \<Rightarrow> int \<Rightarrow> string list list \<Rightarrow> string set \<Rightarrow> nat list \<Rightarrow> (LiteSQL, go_error + string set \<times> nat list) op" where
  "lite_batches track touchDeadline [] exists needsTouch = ret (Inr (exists, needsTouch))"
| "lite_batches track touchDeadline (b # bs) exists needsTouch =
     bnd (on_sql (conn_call (query (lite_rows b)))) (\<lambda>r.
       case r of
         Inl err \<Rightarrow> ret (Inl err)
       | Inr rows \<Rightarrow>
           lite_batches track touchDeadline bs (exists \<union> set (map fst rows))
             (needsTouch @ map (fst \<circ> snd) (filter (lite_needs_touch track touchDeadline) rows)))"

text \<open>\<open>AddDate(0, 0, -1)\<close>: a day before now, in seconds.\<close>

definition lite_hasBlobs :: "string list \<Rightarrow> (LiteSQL, go_error + string set \<times> nat list) op" where
  "lite_hasBlobs hashes =
     if_connected (Inl not_connected)
       (bnd get_st (\<lambda>l. lite_batches (TrackAccessTime l) (now (l_sql l) - 86400) (batches_of batch_size hashes) {} []))"

text \<open>On an error the map is nil, in which every lookup gives false; the error of \<open>touch\<close> is dropped.\<close>

definition lite_HasBlobs :: "string list \<Rightarrow> (LiteSQL, string set \<times> go_error option) op" where
  "lite_HasBlobs hashes =
     bnd (lite_hasBlobs hashes) (\<lambda>r.
       case r of
         Inl err \<Rightarrow> bnd (lite_touch []) (\<lambda>_. ret ({}, Some err))
       | Inr (exists, streamsNeedingTouch) \<Rightarrow> bnd (lite_touch streamsNeedingTouch) (\<lambda>_. ret (exists, None)))"

definition lite_HasBlob :: "string \<Rightarrow> (LiteSQL, bool \<times> go_error option) op" where
  "lite_HasBlob hash =
     bnd (lite_HasBlobs [hash]) (\<lambda>(exists, err). case err of Some err \<Rightarrow> ret (False, Some err) | None \<Rightarrow> ret (hash \<in> exists, None))"

definition lite_Delete :: "string \<Rightarrow> (LiteSQL, go_error option) op" where
  "lite_Delete hash =
     bnd (lite_exec ''UPDATE blob_ set is_stored = ? WHERE hash = ?'' (stmt_soft_delete hash)) (\<lambda>r.
       case r of Inl err \<Rightarrow> ret (Some err) | Inr _ \<Rightarrow> ret None)"

definition GetLRUBlobs :: "int \<Rightarrow> (LiteSQL, go_error + string list) op" where
  "GetLRUBlobs maxBlobs =
     if_connected (Inl not_connected)
       (if maxBlobs < 0 then bnd (on_sql (conn_call (query (\<lambda>_. ())))) (\<lambda>_. ret (Inl (Msg ''You have an error in your SQL syntax'')))
        else on_sql (conn_call (query (\<lambda>t. map b_hash (take (nat maxBlobs) (foldr insert_row (filter b_stored (t_blob t)) []))))))"

definition BlobsCount :: "(LiteSQL, int \<times> go_error option) op" where
  "BlobsCount =
     if_connected (0, Some not_connected)
       (bnd (on_sql (conn_call (query (\<lambda>t. length (filter b_stored (t_blob t)))))) (\<lambda>r.
         case r of Inl err \<Rightarrow> ret (0, Some err) | Inr n \<Rightarrow> ret (int n, None)))"

definition AllBlobs :: "(LiteSQL, go_error + string list) op" where
  "AllBlobs =
     if_connected (Inl not_connected)
       (bnd (on_sql (conn_call (query (\<lambda>t. map b_hash (filter b_stored (t_blob t)))))) (\<lambda>r.
         case r of
           Inl err \<Rightarrow> ret (Inl err)
         | Inr rows \<Rightarrow> bnd BlobsCount (\<lambda>(totalBlobs, err). case err of Some err \<Rightarrow> ret (Inl err) | None \<Rightarrow> ret (Inr rows))))"

end
