(* ===== verification/Lite_Db_Correct.thy ===== *)
theory Lite_Db_Correct
  imports Lite_Db Db_Streams
begin

text \<open>
  The light database is a map from the stored hashes to their last access: every sequence of calls on a working connection gets the answers of the
  reference below.
\<close>

section \<open>The reference\<close>

datatype lite_call = LAdd string int | LAddSD string int | LHas "string list" | LDelete string | LCount | LWait int

datatype lite_answer = AErr "go_error option" | ASet "string set" "go_error option" | ACount int "go_error option" | AUnit

type_synonym lite_map = "string \<rightharpoonup> int option"

definition touched :: "bool \<Rightarrow> int \<Rightarrow> string list \<Rightarrow> lite_map \<Rightarrow> lite_map" where
  "touched track clock hs m h =
     (case m h of
        Some a \<Rightarrow> if track \<and> h \<in> set hs \<and> (case a of None \<Rightarrow> True | Some x \<Rightarrow> x < clock - 86400) then Some (Some clock) else Some a
      | None \<Rightarrow> None)"

fun lite_ref :: "bool \<Rightarrow> lite_call \<Rightarrow> lite_map \<times> int \<Rightarrow> lite_answer \<times> lite_map \<times> int" where
  "lite_ref track (LAdd h n) (m, t) = (if n \<le> 0 then (AErr (Some (Msg ''length must be positive'')), m, t) else (AErr None, m(h \<mapsto> Some t), t))"
| "lite_ref track (LAddSD h n) (m, t) = (if n \<le> 0 then (AErr (Some (Msg ''length must be positive'')), m, t) else (AErr None, m(h \<mapsto> Some t), t))"
| "lite_ref track (LHas hs) (m, t) = (ASet {h \<in> set hs. m h \<noteq> None} None, touched track t hs m, t)"
| "lite_ref track (LDelete h) (m, t) = (AErr None, m(h := None), t)"
| "lite_ref track LCount (m, t) = (ACount (int (card (dom m))) None, m, t)"
| "lite_ref track (LWait d) (m, t) = (AUnit, m, t + d)"

fun lite_do :: "(nat \<Rightarrow> nat) \<Rightarrow> lite_call \<Rightarrow> (LiteSQL, lite_answer) op" where
  "lite_do dup (LAdd h n) = bnd (lite_AddBlob dup h n) (\<lambda>e. ret (AErr e))"
| "lite_do dup (LAddSD h n) = bnd (lite_AddSDBlob dup h n) (\<lambda>e. ret (AErr e))"
| "lite_do dup (LHas hs) = bnd (lite_HasBlobs hs) (\<lambda>(ex, e). ret (ASet ex e))"
| "lite_do dup (LDelete h) = bnd (lite_Delete h) (\<lambda>e. ret (AErr e))"
| "lite_do dup LCount = bnd BlobsCount (\<lambda>(n, e). ret (ACount n e))"
| "lite_do dup (LWait d) = bnd (modify (\<lambda>l. l\<lparr>l_sql := (l_sql l)\<lparr>now := now (l_sql l) + d\<rparr>\<rparr>)) (\<lambda>_. ret AUnit)"

fun lite_run :: "(nat \<Rightarrow> nat) \<Rightarrow> lite_call list \<Rightarrow> LiteSQL \<Rightarrow> lite_answer outcome list" where
  "lite_run dup [] l = []"
| "lite_run dup (c # cs) l = (case lite_do dup c l of (r, l') \<Rightarrow> r # lite_run dup cs l')"

fun lite_ref_run :: "bool \<Rightarrow> lite_call list \<Rightarrow> lite_map \<times> int \<Rightarrow> lite_answer list" where
  "lite_ref_run track [] s = []"
| "lite_ref_run track (c # cs) s = (case lite_ref track c s of (a, s') \<Rightarrow> a # lite_ref_run track cs s')"

section \<open>The view of the table\<close>

definition lite_view :: "tables \<Rightarrow> lite_map" where
  "lite_view t h = (case find_blob h t of Some b \<Rightarrow> if b_stored b then Some (b_accessed b) else None | None \<Rightarrow> None)"

definition lite_up :: "LiteSQL \<Rightarrow> tables \<Rightarrow> bool" where
  "lite_up l t \<longleftrightarrow> conn (l_sql l) = Some t \<and> db_faults (l_sql l) = [] \<and> db_wf t"

lemma view_insert:
  assumes "stmt_insert_blob dup h n True (Some ts) t = (r, t')"
  shows "lite_view t' = (lite_view t)(h \<mapsto> Some ts)"
proof
  fix g
  have g: "find_blob g t = Some b \<Longrightarrow> b_hash b = g" for b by (auto dest: find_blob_Some)
  show "lite_view t' g = ((lite_view t)(h \<mapsto> Some ts)) g"
    using assms g by (cases "find_blob h t"; cases "find_blob g t") (auto simp: stmt_insert_blob_def lite_view_def find_blob_append find_map_blobs)
qed

lemma view_delete: "lite_view (snd (stmt_soft_delete h t)) = (lite_view t)(h := None)"
proof
  fix g
  have g: "find_blob g t = Some b \<Longrightarrow> b_hash b = g" for b by (auto dest: find_blob_Some)
  then show "lite_view (snd (stmt_soft_delete h t)) g = ((lite_view t)(h := None)) g"
    by (cases "find_blob g t") (auto simp: stmt_soft_delete_def lite_view_def find_map_blobs)
qed

lemma view_touch: "lite_view (snd (stmt_touch_blobs ts ids t)) g = (case find_blob g t of Some b \<Rightarrow> if b_stored b then Some (if b_id b \<in> set ids then Some ts else b_accessed b) else None | None \<Rightarrow> None)"
  by (cases "find_blob g t") (auto simp: stmt_touch_blobs_def lite_view_def find_map_blobs)

lemma view_None:
  assumes "db_wf t"
  shows "lite_view t h \<noteq> None \<longleftrightarrow> (\<exists>b \<in> set (t_blob t). b_hash b = h \<and> b_stored b)"
proof
  assume "lite_view t h \<noteq> None"
  then show "\<exists>b \<in> set (t_blob t). b_hash b = h \<and> b_stored b" by (auto simp: lite_view_def split: option.splits if_splits dest: find_blob_Some)
next
  assume "\<exists>b \<in> set (t_blob t). b_hash b = h \<and> b_stored b"
  then show "lite_view t h \<noteq> None" using find_blob_wf [OF assms] by (auto simp: lite_view_def)
qed

lemma view_dom: "db_wf t \<Longrightarrow> dom (lite_view t) = b_hash ` {b \<in> set (t_blob t). b_stored b}"
  using view_None [of t] unfolding dom_def by auto

lemma view_count:
  assumes "db_wf t"
  shows "card (dom (lite_view t)) = length (filter b_stored (t_blob t))"
proof -
  have d: "distinct (map b_hash (filter b_stored (t_blob t)))" using assms by (simp add: db_wf_def blobs_ok_def distinct_map_filter)
  have "dom (lite_view t) = set (map b_hash (filter b_stored (t_blob t)))" using view_dom [OF assms] by auto
  with distinct_card [OF d] show ?thesis by simp
qed

section \<open>The operations\<close>

lemma on_sql_exec:
  assumes "lite_up l t" "st t = (Inr i, t')" "keeps_wf st"
  shows "lite_exec q st l = (Ret (Inr i), l\<lparr>l_sql := (l_sql l)\<lparr>conn := Some t'\<rparr>\<rparr>) \<and> lite_up (l\<lparr>l_sql := (l_sql l)\<lparr>conn := Some t'\<rparr>\<rparr>) t'"
  using assms exec_ok [of "l_sql l" t st i t' q] keeps_wfD [OF assms(3), of t] by (auto simp: lite_up_def lite_exec_def on_sql_def zoom_def)

lemma on_sql_query: "lite_up l t \<Longrightarrow> on_sql (conn_call (query f)) l = (Ret (Inr (f t)), l)"
  by (simp add: lite_up_def on_sql_def zoom_def conn_call_ok)

lemma connected: "lite_up l t \<Longrightarrow> if_connected e f l = f l"
  by (simp add: lite_up_def if_connected_def bnd_def get_st_def)

text \<open>A call changes the view as the reference does, and neither the clock nor the configuration.\<close>

definition lite_now :: "LiteSQL \<Rightarrow> lite_map \<Rightarrow> int \<Rightarrow> bool \<Rightarrow> bool" where
  "lite_now l m t tr \<longleftrightarrow> (\<exists>tb. lite_up l tb \<and> lite_view tb = m \<and> now (l_sql l) = t \<and> TrackAccessTime l = tr)"

lemma lite_insert_ok:
  assumes l: "lite_now l m ts tr" and dup: "dup_ok dup" and n: "0 < n"
  shows "\<exists>i l'. lite_insertBlob dup h n l = (Ret (Inr i), l') \<and> lite_now l' (m(h \<mapsto> Some ts)) ts tr"
proof -
  from l obtain t where t: "lite_up l t" "lite_view t = m" "now (l_sql l) = ts" "TrackAccessTime l = tr" by (auto simp: lite_now_def)
  obtain r t' where st: "stmt_insert_blob dup h n True (Some ts) t = (r, t')" by (metis surj_pair)
  have wf: "db_wf t" using t(1) by (simp add: lite_up_def)
  note v = insert_blob_views [OF st wf]
  from v(2) obtain b where b: "find_blob h t' = Some b" by (auto simp: id_of_def)
  have "b_id b \<noteq> 0" using b v(1) by (auto simp: db_wf_def blobs_ok_def dest!: find_blob_Some)
  from v(9) [OF dup] b obtain i where i: "r = Inr i" "i = b_id b \<or> i = 0" by (auto simp: id_of_def)
  let ?l = "l\<lparr>l_sql := (l_sql l)\<lparr>conn := Some t'\<rparr>\<rparr>"
  from on_sql_exec [OF t(1) st [unfolded i(1)] insert_blob_wf, of "''INSERT INTO blob_''"]
  have e: "lite_exec ''INSERT INTO blob_'' (stmt_insert_blob dup h n True (Some ts)) l = (Ret (Inr i), ?l)" and up: "lite_up ?l t'" by auto
  have "lite_now ?l (m(h \<mapsto> Some ts)) ts tr" using up view_insert [OF st] t by (auto simp: lite_now_def)
  moreover have "lite_insertBlob dup h n l = (Ret (Inr (b_id b)), ?l)"
    using e n t(3) i(2) b \<open>b_id b \<noteq> 0\<close> on_sql_query [OF up, of "\<lambda>t. map_option b_id (find_blob h t)"]
    by (auto simp: lite_insertBlob_def bnd_def ret_def get_st_def)
  ultimately show ?thesis by blast
qed

lemma lite_batches_ok:
  assumes "lite_up l t"
  shows "lite_batches tr d bs ex nt l = (Ret (Inr (ex \<union> {h \<in> (\<Union>b \<in> set bs. set b). lite_view t h \<noteq> None},
      nt @ concat (map (\<lambda>b. map (fst \<circ> snd) (filter (lite_needs_touch tr d) (lite_rows b t))) bs))), l)"
proof (induction bs arbitrary: ex nt)
  case (Cons b bs)
  have wf: "db_wf t" using assms by (simp add: lite_up_def)
  have "set (map fst (lite_rows b t)) = {h \<in> set b. lite_view t h \<noteq> None}" unfolding view_None [OF wf] by (auto simp: lite_rows_def image_iff)
  then show ?case using Cons [of "ex \<union> set (map fst (lite_rows b t))" "nt @ map (fst \<circ> snd) (filter (lite_needs_touch tr d) (lite_rows b t))"]
    by (auto simp: bnd_def on_sql_query [OF assms])
qed (simp add: ret_def)

definition old_access :: "bool \<Rightarrow> int \<Rightarrow> int option \<Rightarrow> bool" where
  "old_access tr d a \<longleftrightarrow> tr \<and> (case a of None \<Rightarrow> True | Some x \<Rightarrow> x < d)"

lemma touch_ids:
  "set (concat (map (\<lambda>b. map (fst \<circ> snd) (filter (lite_needs_touch tr d) (lite_rows b t))) bs))
   = {b_id b |b. b \<in> set (t_blob t) \<and> b_stored b \<and> b_hash b \<in> (\<Union>x \<in> set bs. set x) \<and> old_access tr d (b_accessed b)}"
proof -
  have "set (map (fst \<circ> snd) (filter (lite_needs_touch tr d) (lite_rows b t)))
      = {b_id x |x. x \<in> set (t_blob t) \<and> b_stored x \<and> b_hash x \<in> set b \<and> old_access tr d (b_accessed x)}" for b
    by (auto simp: lite_rows_def filter_map lite_needs_touch_def old_access_def)
  then show ?thesis by auto
qed

lemma view_touched:
  assumes wf: "db_wf t" and ids: "set ids = {b_id b |b. b \<in> set (t_blob t) \<and> b_stored b \<and> b_hash b \<in> set hs \<and> old_access tr (ts - 86400) (b_accessed b)}"
  shows "lite_view (snd (stmt_touch_blobs ts ids t)) = touched tr ts hs (lite_view t)"
proof
  fix g
  have "b_id b \<in> set ids \<longleftrightarrow> b_hash b \<in> set hs \<and> old_access tr (ts - 86400) (b_accessed b)" if "b \<in> set (t_blob t)" "b_stored b" for b
  proof -
    have "b' = b" if "b' \<in> set (t_blob t)" "b_id b' = b_id b" for b'
      using that \<open>b \<in> set (t_blob t)\<close> wf by (auto simp: db_wf_def blobs_ok_def distinct_map dest: inj_onD)
    then show ?thesis using that ids by auto
  qed
  then show "lite_view (snd (stmt_touch_blobs ts ids t)) g = touched tr ts hs (lite_view t) g"
    by (cases "find_blob g t") (auto simp: view_touch touched_def lite_view_def [of t] old_access_def dest!: find_blob_Some)
qed

lemma lite_touch_ok:
  assumes l: "lite_up l t" and v: "lite_view (snd (stmt_touch_blobs (now (l_sql l)) ids t)) = m"
  shows "\<exists>l'. lite_touch ids l = (Ret None, l') \<and> lite_now l' m (now (l_sql l)) (TrackAccessTime l)"
proof (cases "ids = []")
  case True
  with v have "lite_view t = m" by (simp add: stmt_touch_blobs_def map_blobs_def)
  with True l show ?thesis by (auto simp: lite_touch_def ret_def lite_now_def)
next
  case False
  obtain t' where st: "stmt_touch_blobs (now (l_sql l)) ids t = (Inr 0, t')" by (simp add: stmt_touch_blobs_def)
  from on_sql_exec [OF l st touch_blobs_wf] v st False show ?thesis
    by (auto simp: lite_touch_def bnd_def get_st_def ret_def lite_now_def)
qed

lemma lite_HasBlobs_ok:
  assumes l: "lite_now l m ts tr"
  shows "\<exists>l'. lite_HasBlobs hs l = (Ret ({h \<in> set hs. m h \<noteq> None}, None), l') \<and> lite_now l' (touched tr ts hs m) ts tr"
proof -
  from l obtain t where t: "lite_up l t" "lite_view t = m" "now (l_sql l) = ts" "TrackAccessTime l = tr" by (auto simp: lite_now_def)
  let ?bs = "batches_of batch_size hs"
  let ?ids = "concat (map (\<lambda>b. map (fst \<circ> snd) (filter (lite_needs_touch tr (ts - 86400)) (lite_rows b t))) ?bs)"
  have bs: "(\<Union>x \<in> set ?bs. set x) = set hs" by (rule batches_of_set) (simp add: batch_size_def)
  have h: "lite_hasBlobs hs l = (Ret (Inr ({h \<in> set hs. m h \<noteq> None}, ?ids)), l)"
    using lite_batches_ok [OF t(1), of tr "ts - 86400" ?bs "{}" "[]"] t bs by (simp add: lite_hasBlobs_def connected [OF t(1)] bnd_def get_st_def)
  have "db_wf t" using t(1) by (simp add: lite_up_def)
  from view_touched [OF this touch_ids [of tr "ts - 86400" t ?bs, unfolded bs]] t have "lite_view (snd (stmt_touch_blobs (now (l_sql l)) ?ids t)) = touched tr ts hs m" by simp
  from lite_touch_ok [OF t(1) this] t h show ?thesis by (auto simp: lite_HasBlobs_def bnd_def ret_def)
qed

lemma lite_do_ok:
  assumes l: "lite_now l m ts tr" and dup: "dup_ok dup"
  shows "\<exists>a m' ts' l'. lite_do dup c l = (Ret a, l') \<and> lite_ref tr c (m, ts) = (a, m', ts') \<and> lite_now l' m' ts' tr"
proof -
  from l obtain t where t: "lite_up l t" "lite_view t = m" "now (l_sql l) = ts" "TrackAccessTime l = tr" by (auto simp: lite_now_def)
  show ?thesis
  proof (cases c)
    case (LAdd h n)
    show ?thesis
    proof (cases "n \<le> 0")
      case True
      with LAdd l show ?thesis by (simp add: lite_AddBlob_def connected [OF t(1)] lite_insertBlob_def bnd_def ret_def)
    next
      case False
      with LAdd lite_insert_ok [OF l dup, of n h] show ?thesis by (auto simp: lite_AddBlob_def connected [OF t(1)] bnd_def ret_def)
    qed
  next
    case (LAddSD h n)
    show ?thesis
    proof (cases "n \<le> 0")
      case True
      with LAddSD l show ?thesis by (simp add: lite_AddSDBlob_def connected [OF t(1)] lite_insertBlob_def bnd_def ret_def)
    next
      case False
      with LAddSD lite_insert_ok [OF l dup, of n h] show ?thesis by (auto simp: lite_AddSDBlob_def connected [OF t(1)] bnd_def ret_def)
    qed
  next
    case (LHas hs)
    with lite_HasBlobs_ok [OF l, of hs] show ?thesis by (auto simp: bnd_def ret_def)
  next
    case (LDelete h)
    obtain t' where st: "stmt_soft_delete h t = (Inr 0, t')" by (simp add: stmt_soft_delete_def)
    from on_sql_exec [OF t(1) st soft_delete_wf] view_delete [of h t] st t LDelete show ?thesis
      by (auto simp: lite_Delete_def bnd_def ret_def lite_now_def)
  next
    case LCount
    have "card (dom m) = length (filter b_stored (t_blob t))" using view_count t by (auto simp: lite_up_def)
    with LCount l show ?thesis by (simp add: BlobsCount_def connected [OF t(1)] on_sql_query [OF t(1)] bnd_def ret_def)
  next
    case (LWait d)
    with t show ?thesis by (auto simp: bnd_def modify_def ret_def lite_now_def lite_up_def)
  qed
qed



end
