(* ===== verification/Populate.thy ===== *)
theory Populate
  imports Db Speedwalk
begin

text \<open>
  Filling the local database from a directory of blobs (src/cmd/populatedb.go): the names \<open>AllFiles\<close> gives, or its error, go to \<open>AddBlobs\<close>. A fatal log line ends the
  process: the error is the result.
\<close>

definition populateDbCmd :: "int \<Rightarrow> string \<Rightarrow> go_error + string list \<Rightarrow> (SQL, go_error + unit) op" where
  "populateDbCmd maxBlobSize diskStorePath allFiles =
     (if diskStorePath = [] then ret (Inl (Msg ''store-path must be defined''))
      else
        (case allFiles of
           Inl err \<Rightarrow> ret (Inl err)
         | Inr hs \<Rightarrow> bnd (AddBlobs maxBlobSize hs) (\<lambda>_. ret (Inr ()))))"

end
