(* ===== verification/Publish.thy ===== *)
theory Publish
  imports Reflector Disk_Store
begin

text \<open>
  Publishing and sending a file (src/publish/publish.go, src/publish/mimetypes.go, src/cmd/send.go).

  What the packages lbrycrd, btcutil, txscript, protobuf and stream do is a parameter: the calls of the wallet daemon are the record \<open>lbrycrd\<close>, on a state of its own,
  and the encoder of a file into a stream is an argument. Amounts are float64 values, a linearly ordered type (no NaN comes out of the daemon's JSON) with the
  operations of the record \<open>float64_ops\<close>. The reflector client is the one of \<open>Reflector\<close>, on its connection to a server.
\<close>

section \<open>Media types\<close>

definition is_space :: "char \<Rightarrow> bool" where
  "is_space c \<longleftrightarrow> c \<in> {CHR '' '', CHR 0x09, CHR 0x0A, CHR 0x0B, CHR 0x0C, CHR 0x0D}"

definition strings_TrimSpace :: "string \<Rightarrow> string" where
  "strings_TrimSpace s = rev (dropWhile is_space (rev (dropWhile is_space s)))"

definition to_lower :: "char \<Rightarrow> char" where
  "to_lower c = (if 65 \<le> (of_char c :: nat) \<and> (of_char c :: nat) \<le> 90 then char_of (of_char c + 32 :: nat) else c)"

text \<open>The file name extensions are ASCII: \<open>strings.ToLower\<close> on bytes.\<close>

definition mime_types :: "(string \<times> string \<times> string) list" where
  "mime_types =
    [(''a'', ''application/octet-stream'', ''binary''),
     (''ai'', ''application/postscript'', ''image''),
     (''aif'', ''audio/x-aiff'', ''audio''),
     (''aifc'', ''audio/x-aiff'', ''audio''),
     (''aiff'', ''audio/x-aiff'', ''audio''),
     (''au'', ''audio/basic'', ''audio''),
     (''avi'', ''video/x-msvideo'', ''video''),
     (''bat'', ''text/plain'', ''document''),
     (''bcpio'', ''application/x-bcpio'', ''binary''),
     (''bin'', ''application/octet-stream'', ''binary''),
     (''bmp'', ''image/bmp'', ''image''),
     (''c'', ''text/plain'', ''document''),
     (''cdf'', ''application/x-netcdf'', ''binary''),
     (''cpio'', ''application/x-cpio'', ''binary''),
     (''csh'', ''application/x-csh'', ''binary''),
     (''css'', ''text/css'', ''document''),
     (''csv'', ''text/csv'', ''document''),
     (''dll'', ''application/octet-stream'', ''binary''),
     (''doc'', ''application/msword'', ''document''),
     (''dot'', ''application/msword'', ''document''),
     (''dvi'', ''application/x-dvi'', ''binary''),
     (''eml'', ''message/rfc822'', ''document''),
     (''eps'', ''application/postscript'', ''document''),
     (''epub'', ''application/epub+zip'', ''document''),
     (''etx'', ''text/x-setext'', ''document''),
     (''exe'', ''application/octet-stream'', ''binary''),
     (''gif'', ''image/gif'', ''image''),
     (''gtar'', ''application/x-gtar'', ''binary''),
     (''h'', ''text/plain'', ''document''),
     (''hdf'', ''application/x-hdf'', ''binary''),
     (''htm'', ''text/html'', ''document''),
     (''html'', ''text/html'', ''document''),
     (''ico'', ''image/vnd.microsoft.icon'', ''image''),
     (''ief'', ''image/ief'', ''image''),
     (''iges'', ''model/iges'', ''model''),
     (''jpe'', ''image/jpeg'', ''image''),
     (''jpeg'', ''image/jpeg'', ''image''),
     (''jpg'', ''image/jpeg'', ''image''),
     (''js'', ''application/javascript'', ''document''),
     (''json'', ''application/json'', ''document''),
     (''ksh'', ''text/plain'', ''document''),
     (''latex'', ''application/x-latex'', ''binary''),
     (''m1v'', ''video/mpeg'', ''video''),
     (''m3u'', ''application/vnd.apple.mpegurl'', ''audio''),
     (''m3u8'', ''application/vnd.apple.mpegurl'', ''audio''),
     (''man'', ''application/x-troff-man'', ''document''),
     (''markdown'', ''text/markdown'', ''document''),
     (''md'', ''text/markdown'', ''document''),
     (''me'', ''application/x-troff-me'', ''binary''),
     (''mht'', ''message/rfc822'', ''document''),
     (''mhtml'', ''message/rfc822'', ''document''),
     (''mif'', ''application/x-mif'', ''binary''),
     (''mov'', ''video/quicktime'', ''video''),
     (''movie'', ''video/x-sgi-movie'', ''video''),
     (''mp2'', ''audio/mpeg'', ''audio''),
     (''mp3'', ''audio/mpeg'', ''audio''),
     (''mp4'', ''video/mp4'', ''video''),
     (''mpa'', ''video/mpeg'', ''video''),
     (''mpe'', ''video/mpeg'', ''video''),
     (''mpeg'', ''video/mpeg'', ''video''),
     (''mpg'', ''video/mpeg'', ''video''),
     (''ms'', ''application/x-troff-ms'', ''binary''),
     (''nc'', ''application/x-netcdf'', ''binary''),
     (''nws'', ''message/rfc822'', ''document''),
     (''o'', ''application/octet-stream'', ''binary''),
     (''obj'', ''application/octet-stream'', ''model''),
     (''oda'', ''application/oda'', ''binary''),
     (''p12'', ''application/x-pkcs12'', ''binary''),
     (''p7c'', ''application/pkcs7-mime'', ''binary''),
     (''pbm'', ''image/x-portable-bitmap'', ''image''),
     (''pdf'', ''application/pdf'', ''document''),
     (''pfx'', ''application/x-pkcs12'', ''binary''),
     (''pgm'', ''image/x-portable-graymap'', ''image''),
     (''pl'', ''text/plain'', ''document''),
     (''png'', ''image/png'', ''image''),
     (''pnm'', ''image/x-portable-anymap'', ''image''),
     (''pot'', ''application/vnd.ms-powerpoint'', ''document''),
     (''ppa'', ''application/vnd.ms-powerpoint'', ''document''),
     (''ppm'', ''image/x-portable-pixmap'', ''image''),
     (''pps'', ''application/vnd.ms-powerpoint'', ''document''),
     (''ppt'', ''application/vnd.ms-powerpoint'', ''document''),
     (''ps'', ''application/postscript'', ''document''),
     (''pwz'', ''application/vnd.ms-powerpoint'', ''document''),
     (''py'', ''text/x-python'', ''document''),
     (''pyc'', ''application/x-python-code'', ''binary''),
     (''pyo'', ''application/x-python-code'', ''binary''),
     (''qt'', ''video/quicktime'', ''video''),
     (''ra'', ''audio/x-pn-realaudio'', ''audio''),
     (''ram'', ''application/x-pn-realaudio'', ''audio''),
     (''ras'', ''image/x-cmu-raster'', ''image''),
     (''rdf'', ''application/xml'', ''binary''),
     (''rgb'', ''image/x-rgb'', ''image''),
     (''roff'', ''application/x-troff'', ''binary''),
     (''rtx'', ''text/richtext'', ''document''),
     (''sgm'', ''text/x-sgml'', ''document''),
     (''sgml'', ''text/x-sgml'', ''document''),
     (''sh'', ''application/x-sh'', ''document''),
     (''shar'', ''application/x-shar'', ''binary''),
     (''snd'', ''audio/basic'', ''audio''),
     (''so'', ''application/octet-stream'', ''binary''),
     (''src'', ''application/x-wais-source'', ''binary''),
     (''stl'', ''model/stl'', ''model''),
     (''sv4cpio'', ''application/x-sv4cpio'', ''binary''),
     (''sv4crc'', ''application/x-sv4crc'', ''binary''),
     (''svg'', ''image/svg+xml'', ''image''),
     (''swf'', ''application/x-shockwave-flash'', ''binary''),
     (''t'', ''application/x-troff'', ''binary''),
     (''tar'', ''application/x-tar'', ''binary''),
     (''tcl'', ''application/x-tcl'', ''binary''),
     (''tex'', ''application/x-tex'', ''binary''),
     (''texi'', ''application/x-texinfo'', ''binary''),
     (''texinfo'', ''application/x-texinfo'', ''binary''),
     (''tif'', ''image/tiff'', ''image''),
     (''tiff'', ''image/tiff'', ''image''),
     (''tr'', ''application/x-troff'', ''binary''),
     (''tsv'', ''text/tab-separated-values'', ''document''),
     (''txt'', ''text/plain'', ''document''),
     (''ustar'', ''application/x-ustar'', ''binary''),
     (''vcf'', ''text/x-vcard'', ''document''),
     (''wav'', ''audio/x-wav'', ''audio''),
     (''webm'', ''video/webm'', ''video''),
     (''wiz'', ''application/msword'', ''document''),
     (''wsdl'', ''application/xml'', ''document''),
     (''xbm'', ''image/x-xbitmap'', ''image''),
     (''xlb'', ''application/vnd.ms-excel'', ''document''),
     (''xls'', ''application/vnd.ms-excel'', ''document''),
     (''xml'', ''text/xml'', ''document''),
     (''xpdl'', ''application/xml'', ''document''),
     (''xpm'', ''image/x-xpixmap'', ''image''),
     (''xsl'', ''application/xml'', ''document''),
     (''xwd'', ''image/x-xwindowdump'', ''image''),
     (''zip'', ''application/zip'', ''binary''),
     (''cbr'', ''application/vnd.comicbook-rar'', ''document''),
     (''cbz'', ''application/vnd.comicbook+zip'', ''document''),
     (''flac'', ''audio/flac'', ''audio''),
     (''lbry'', ''application/x-ext-lbry'', ''document''),
     (''m4v'', ''video/m4v'', ''video''),
     (''mid'', ''audio/midi'', ''audio''),
     (''midi'', ''audio/midi'', ''audio''),
     (''mkv'', ''video/x-matroska'', ''video''),
     (''mobi'', ''application/x-mobipocket-ebook'', ''document''),
     (''oga'', ''audio/ogg'', ''audio''),
     (''ogv'', ''video/ogg'', ''video''),
     (''pct'', ''image/pict'', ''image''),
     (''pic'', ''image/pict'', ''image''),
     (''pict'', ''image/pict'', ''image''),
     (''prc'', ''application/x-mobipocket-ebook'', ''document''),
     (''rtf'', ''application/rtf'', ''document''),
     (''xul'', ''text/xul'', ''document''),
     (''wmv'', ''video/x-ms-wmv'', ''video'')]"

definition guessMimeType :: "string \<Rightarrow> string \<times> string" where
  "guessMimeType ext =
     (if ext = [] then (''application/octet-stream'', ''binary'')
      else
        let ext = map to_lower (dropWhile (\<lambda>c. c = CHR ''.'') (strings_TrimSpace ext)) in
        case map_of mime_types ext of
          Some data \<Rightarrow> data
        | None \<Rightarrow> (''application/x-ext-'' @ ext, ''binary''))"

text \<open>\<open>filepath.Ext\<close>: from the last dot of the last element, if it has one.\<close>

definition filepath_Ext :: "string \<Rightarrow> string" where
  "filepath_Ext p =
     (let name = last (split_on (CHR ''/'') p)
      in if CHR ''.'' \<in> set name then CHR ''.'' # rev (takeWhile (\<lambda>c. c \<noteq> CHR ''.'') (rev name)) else [])"

section \<open>The transaction\<close>

record 'f utxo =
  u_TxID :: string
  u_Vout :: nat
  u_Amount :: 'f
  u_Spendable :: bool

record 'f float64_ops =
  f_add :: "'f \<Rightarrow> 'f \<Rightarrow> 'f"
  f_sub :: "'f \<Rightarrow> 'f \<Rightarrow> 'f"
  f_amount :: 'f
  f_txFee :: 'f

record ('l, 'f, 'tx, 'addr) lbrycrd =
  DecodeAddress :: "string \<Rightarrow> go_error + 'addr"
  NewAmount :: "'f \<Rightarrow> go_error + int"
  PayToAddrScript :: "'addr \<Rightarrow> go_error + bytes"
  ListUnspentMin :: "('l, go_error + 'f utxo list) op"
  CreateRawTransaction :: "(string \<times> nat) list \<Rightarrow> 'addr \<Rightarrow> int \<Rightarrow> ('l, go_error + 'tx) op"
  AddTxOut :: "int \<Rightarrow> bytes \<Rightarrow> 'tx \<Rightarrow> 'tx"
  SignRawTransaction :: "'tx \<Rightarrow> ('l, go_error + 'tx \<times> bool) op"
  SendRawTransaction :: "'tx \<Rightarrow> ('l, go_error + string) op"

text \<open>\<open>coinChooser\<close>; \<open>slice_sort\<close> is \<open>sort.Slice\<close> by the amount, which is not stable.\<close>

definition coinChooser :: "('l, 'f :: linorder, 'tx, 'addr) lbrycrd \<Rightarrow> ('f utxo list \<Rightarrow> 'f utxo list) \<Rightarrow> 'f \<Rightarrow> ('l, go_error + (string \<times> nat) list \<times> 'f) op" where
  "coinChooser cl slice_sort amount =
     bnd (ListUnspentMin cl) (\<lambda>r.
       case r of
         Inl err \<Rightarrow> ret (Inl err)
       | Inr utxos \<Rightarrow>
           (case find (\<lambda>u. u_Spendable u \<and> amount \<le> u_Amount u) (slice_sort utxos) of
              None \<Rightarrow> ret (Inl (Msg ''not enough utxos to create tx''))
            | Some u \<Rightarrow>
                if u_TxID u = [] then ret (Inl (Msg ''not enough utxos to create tx''))
                else ret (Inr ([(u_TxID u, u_Vout u)], u_Amount u))))"

definition baseTx :: "('l, 'f :: linorder, 'tx, 'addr) lbrycrd \<Rightarrow> 'f float64_ops \<Rightarrow> ('f utxo list \<Rightarrow> 'f utxo list) \<Rightarrow> 'f \<Rightarrow> 'addr \<Rightarrow> ('l, go_error + 'tx) op" where
  "baseTx cl fl slice_sort amount changeAddress =
     bnd (coinChooser cl slice_sort (f_add fl amount (f_txFee fl))) (\<lambda>r.
       case r of
         Inl err \<Rightarrow> ret (Inl err)
       | Inr (inputs, tot) \<Rightarrow>
           (case NewAmount cl (f_sub fl (f_sub fl tot amount) (f_txFee fl)) of
              Inl err \<Rightarrow> ret (Inl err)
            | Inr changeAmount \<Rightarrow> CreateRawTransaction cl inputs changeAddress changeAmount))"

text \<open>The script of a claim, as the list of what is given to the script builder; \<open>script\<close> is the builder.\<close>

datatype script_op = OP_NOP6 | AddData bytes | OP_2DROP | OP_DROP | AddOps bytes

definition getClaimPayoutScript ::
  "('l, 'f, 'tx, 'addr) lbrycrd \<Rightarrow> (script_op list \<Rightarrow> go_error + bytes) \<Rightarrow> string \<Rightarrow> bytes \<Rightarrow> 'addr \<Rightarrow> go_error + bytes" where
  "getClaimPayoutScript cl script name value address =
     (case PayToAddrScript cl address of
        Inl err \<Rightarrow> Inl err
      | Inr pkscript \<Rightarrow> script [OP_NOP6, AddData name, AddData value, OP_2DROP, OP_DROP, AddOps pkscript])"

definition addClaimToTx ::
  "('l, 'f, 'tx, 'addr) lbrycrd \<Rightarrow> (script_op list \<Rightarrow> go_error + bytes) \<Rightarrow> 'tx \<Rightarrow> go_error + bytes \<Rightarrow> string \<Rightarrow> 'f \<Rightarrow> 'addr \<Rightarrow> go_error + 'tx" where
  "addClaimToTx cl script tx marshalled name amount claimAddress =
     (case marshalled of
        Inl err \<Rightarrow> Inl err
      | Inr claimBytes \<Rightarrow>
          (case NewAmount cl amount of
             Inl err \<Rightarrow> Inl err
           | Inr amt \<Rightarrow>
               (case getClaimPayoutScript cl script name (CHR 0x00 # claimBytes) claimAddress of
                  Inl err \<Rightarrow> Inl err
                | Inr s \<Rightarrow> Inr (AddTxOut cl amt s tx))))"

section \<open>The stream\<close>

datatype stream_type = NoType | Stream_Video | Stream_Audio | Stream_Image

record pb_stream =
  src_SdHash :: bytes
  src_Name :: string
  src_Size :: int
  src_Hash :: bytes
  src_MediaType :: string
  pb_Type :: stream_type
  pb_Author :: string
  pb_ReleaseTime :: int

text \<open>What the encoder of package stream gives for the content of a file: the blobs with the sd blob first, the hash of the sd blob, the length and the hash of the source.\<close>

type_synonym encoder = "bytes \<Rightarrow> go_error + bytes list \<times> bytes \<times> int \<times> bytes"

definition makeStream :: "encoder \<Rightarrow> string \<Rightarrow> fsys \<Rightarrow> (go_error + bytes list \<times> pb_stream) \<times> fsys" where
  "makeStream enc path f =
     (case os_ReadFile path f of
        (Inl err, f') \<Rightarrow> (Inl err, f')
      | (Inr content, f') \<Rightarrow>
          (case enc content of
             Inl err \<Rightarrow> (Inl err, f')
           | Inr (s, sdHash, len, sourceHash) \<Rightarrow>
               let (mimeType, category) = guessMimeType (filepath_Ext path) in
               (Inr (s, \<lparr>src_SdHash = sdHash, src_Name = path_Base path, src_Size = len, src_Hash = sourceHash, src_MediaType = mimeType,
                         pb_Type = (if category = ''video'' then Stream_Video else if category = ''audio'' then Stream_Audio
                                    else if category = ''image'' then Stream_Image else NoType),
                         pb_Author = [], pb_ReleaseTime = 0\<rparr>), f')))"

text \<open>\<open>reflect\<close>: the first blob of the stream is its sd blob.\<close>

fun reflect_blobs :: "blob_api \<Rightarrow> 'n peer \<Rightarrow> bool \<Rightarrow> bytes list \<Rightarrow> ('n rClient, go_error option) op" where
  "reflect_blobs api peer first [] = ret None"
| "reflect_blobs api peer first (b # bs) =
     bnd (if first then SendSDBlob api peer b else SendBlob api peer b) (\<lambda>err.
       if err \<noteq> None then ret err else reflect_blobs api peer False bs)"

definition reflect :: "blob_api \<Rightarrow> 'n peer \<Rightarrow> go_error + tcp \<Rightarrow> bytes list \<Rightarrow> ('n rClient, go_error option) op" where
  "reflect api peer dialled st =
     bnd (Client_Connect peer dialled) (\<lambda>err. if err \<noteq> None then ret err else reflect_blobs api peer True st)"

section \<open>Publishing\<close>

record Details =
  d_Title :: string
  d_Description :: string
  d_Author :: string
  d_ReleaseTime :: int

record ('l, 'n) publisher =
  ps_fs :: fsys
  ps_ledger :: 'l
  ps_refl :: "'n rClient"

definition on_ledger :: "('l, 'a) op \<Rightarrow> (('l, 'n) publisher, 'a) op" where
  "on_ledger = zoom ps_ledger (\<lambda>l p. p\<lparr>ps_ledger := l\<rparr>)"

definition on_refl :: "('n rClient, 'a) op \<Rightarrow> (('l, 'n) publisher, 'a) op" where
  "on_refl = zoom ps_refl (\<lambda>c p. p\<lparr>ps_refl := c\<rparr>)"

definition on_pfs :: "(fsys \<Rightarrow> 'a \<times> fsys) \<Rightarrow> (('l, 'n) publisher, 'a) op" where
  "on_pfs f p = (case f (ps_fs p) of (a, f') \<Rightarrow> (Ret a, p\<lparr>ps_fs := f'\<rparr>))"

text \<open>\<open>or_fail\<close>: return the error of a call, or go on with its value.\<close>

definition or_fail :: "('s, go_error + 'a) op \<Rightarrow> ('a \<Rightarrow> ('s, go_error + 'b) op) \<Rightarrow> ('s, go_error + 'b) op" where
  "or_fail m f = bnd m (\<lambda>r. case r of Inl err \<Rightarrow> ret (Inl err) | Inr a \<Rightarrow> f a)"

text \<open>The end of \<open>Publish\<close>: reflect the stream and broadcast the transaction.\<close>

definition publish_signed ::
  "('l, 'f, 'tx, 'addr) lbrycrd \<Rightarrow> blob_api \<Rightarrow> 'n peer \<Rightarrow> go_error + tcp \<Rightarrow> bytes list \<Rightarrow> 'tx \<times> bool \<Rightarrow> (('l, 'n) publisher, go_error + 'tx \<times> string) op" where
  "publish_signed cl api peer dialled st tx =
     (case tx of (signedTx, allInputsSigned) \<Rightarrow>
        if \<not> allInputsSigned then ret (Inl (Msg ''not all inputs for the tx could be signed''))
        else
          bnd (on_refl (reflect api peer dialled st)) (\<lambda>err.
            case err of
              Some err \<Rightarrow> ret (Inl err)
            | None \<Rightarrow> or_fail (on_ledger (SendRawTransaction cl signedTx)) (\<lambda>txid. ret (Inr (signedTx, txid)))))"

text \<open>The middle: the claim of the stream goes into the transaction, which is signed; \<open>marshal\<close> is the protobuf encoding of the claim with its title and description.\<close>

definition publish_claim ::
  "('l, 'f, 'tx, 'addr) lbrycrd \<Rightarrow> 'f float64_ops \<Rightarrow> (script_op list \<Rightarrow> go_error + bytes) \<Rightarrow> (string \<Rightarrow> string \<Rightarrow> pb_stream \<Rightarrow> go_error + bytes) \<Rightarrow> blob_api \<Rightarrow> 'n peer
   \<Rightarrow> go_error + tcp \<Rightarrow> string \<Rightarrow> Details \<Rightarrow> 'addr \<Rightarrow> 'tx \<Rightarrow> bytes list \<times> pb_stream \<Rightarrow> (('l, 'n) publisher, go_error + 'tx \<times> string) op" where
  "publish_claim cl fl script marshal api peer dialled name details addr tx stream =
     (case stream of (st, stPB) \<Rightarrow>
        let stPB = stPB\<lparr>pb_Author := d_Author details, pb_ReleaseTime := d_ReleaseTime details\<rparr> in
        or_fail (ret (addClaimToTx cl script tx (marshal (d_Title details) (d_Description details) stPB) name (f_amount fl) addr)) (\<lambda>tx.
          or_fail (on_ledger (SignRawTransaction cl tx)) (publish_signed cl api peer dialled st)))"

text \<open>
  \<open>Publish\<close>; \<open>dialled\<close> is the result of dialling the reflector. The error of an unknown address type, which the code replaces by a longer text, comes with that text.
\<close>

definition Publish ::
  "('l, 'f :: linorder, 'tx, 'addr) lbrycrd \<Rightarrow> 'f float64_ops \<Rightarrow> ('f utxo list \<Rightarrow> 'f utxo list) \<Rightarrow> (script_op list \<Rightarrow> go_error + bytes)
   \<Rightarrow> encoder \<Rightarrow> (string \<Rightarrow> string \<Rightarrow> pb_stream \<Rightarrow> go_error + bytes) \<Rightarrow> blob_api \<Rightarrow> 'n peer \<Rightarrow> go_error + tcp
   \<Rightarrow> string \<Rightarrow> string \<Rightarrow> string \<Rightarrow> Details \<Rightarrow> (('l, 'n) publisher, go_error + 'tx \<times> string) op" where
  "Publish cl fl slice_sort script enc marshal api peer dialled path name address details =
     (if name = [] then ret (Inl (Msg ''name required''))
      else
        or_fail (ret (DecodeAddress cl address)) (\<lambda>addr.
          or_fail (on_ledger (baseTx cl fl slice_sort (f_amount fl) addr)) (\<lambda>tx.
            or_fail (on_pfs (makeStream enc path)) (publish_claim cl fl script marshal api peer dialled name details addr tx))))"

section \<open>The send command\<close>

definition hackyReflect :: "blob_api \<Rightarrow> 'n peer \<Rightarrow> bytes \<Rightarrow> bool \<Rightarrow> ('n rClient, go_error option) op" where
  "hackyReflect api peer b sd =
     bnd (if sd then SendSDBlob api peer b else SendBlob api peer b) (\<lambda>err.
       case err of Some e \<Rightarrow> if errors_Is e ErrBlobExists then ret None else ret err | None \<Rightarrow> ret None)"

text \<open>The blobs as the encoder gives them, up to an error of it if it has one; the result is the exit code.\<close>

fun send_loop :: "blob_api \<Rightarrow> 'n peer \<Rightarrow> bytes list \<Rightarrow> bool \<Rightarrow> ('n rClient, nat) op" where
  "send_loop api peer [] failed = ret (if failed then 1 else 0)"
| "send_loop api peer (b # bs) failed =
     bnd (hackyReflect api peer b False) (\<lambda>err. if err \<noteq> None then ret 1 else send_loop api peer bs failed)"

text \<open>
  \<open>sendCmd\<close> from the loop on, when no signal arrives and the address is not empty: the loop, the sd blob written to the cache path, the sd blob sent.
\<close>

definition os_WriteFile :: "string \<Rightarrow> bytes \<Rightarrow> fsys \<Rightarrow> (go_error + unit) \<times> fsys" where
  "os_WriteFile path b f =
     (if path = [] then (Inl ErrNotExist, f)
      else case os_OpenFile path f of
          (Inl err, f') \<Rightarrow> (Inl err, f')
        | (Inr _, f') \<Rightarrow> os_call (\<lambda>g. (Inr (), g\<lparr>files := AList.update (os_comps path) b (files g)\<rparr>)) f')"

definition sendCmd :: "blob_api \<Rightarrow> 'n peer \<Rightarrow> string \<Rightarrow> bytes list \<Rightarrow> bool \<Rightarrow> bytes \<Rightarrow> (('l, 'n) publisher, nat) op" where
  "sendCmd api peer sdCachePath bs enc_failed sd =
     bnd (on_refl (send_loop api peer bs enc_failed)) (\<lambda>exitCode.
     bnd (on_pfs (os_WriteFile sdCachePath sd)) (\<lambda>r.
     let exitCode = (case r of Inl _ \<Rightarrow> 1 | Inr _ \<Rightarrow> exitCode) in
     bnd (on_refl (hackyReflect api peer sd True)) (\<lambda>err.
     ret (if err \<noteq> None then 1 else exitCode))))"

end
