(* ===== verification/Publish_Correct.thy ===== *)
theory Publish_Correct
  imports Publish Reflector_Upload Sorting
begin

text \<open>
  Publishing: the claim is broadcast only after the reflector has accepted every blob of the stream; the input of the transaction is the smallest that is enough.
  A stream that the reflector already has cannot be published again; the send command without a cache directory always reports a failure.
\<close>

section \<open>Media types\<close>

lemma to_lower_idem [simp]: "to_lower (to_lower c) = to_lower c"
  by (auto simp: to_lower_def)

lemma to_lower_special: "is_space (to_lower c) = is_space c" "to_lower c = CHR ''.'' \<longleftrightarrow> c = CHR ''.''"
proof -
  have "to_lower c = d \<longleftrightarrow> c = d" if "of_char d < (65 :: nat)" for d
  proof (cases "65 \<le> (of_char c :: nat) \<and> (of_char c :: nat) \<le> 90")
    case True
    then have "of_char (to_lower c) = (of_char c + 32 :: nat)" by (simp add: to_lower_def)
    with True that show ?thesis by auto
  next
    case False
    then have "to_lower c = c" by (auto simp: to_lower_def)
    then show ?thesis by simp
  qed
  then show "is_space (to_lower c) = is_space c" "to_lower c = CHR ''.'' \<longleftrightarrow> c = CHR ''.''" by (simp_all add: is_space_def)
qed

lemma dropWhile_map_eq: "(\<And>x. P (f x) = P x) \<Longrightarrow> dropWhile P (map f xs) = map f (dropWhile P xs)"
  by (simp add: dropWhile_map o_def)

text \<open>
  The media type does not depend on the case of the extension, nor on a leading dot: two extensions with the same letters up to case get the same media type
  and category.
\<close>

theorem guessMimeType_case:
  assumes "map to_lower ext = map to_lower ext'"
  shows "guessMimeType ext = guessMimeType ext'"
proof -
  let ?n = "\<lambda>e. map to_lower (dropWhile (\<lambda>c. c = CHR ''.'') (strings_TrimSpace e))"
  have "?n (map to_lower e) = ?n e" for e
    by (simp add: strings_TrimSpace_def dropWhile_map_eq to_lower_special rev_map)
  then have "?n ext = ?n ext'" using assms by metis
  moreover have "ext = [] \<longleftrightarrow> ext' = []" using assms by (metis map_is_Nil_conv)
  ultimately show ?thesis by (simp add: guessMimeType_def Let_def)
qed

theorem guessMimeType_case_witness: "guessMimeType ''.MP4'' = guessMimeType ''.mp4'' \<and> guessMimeType ''.mp4'' = (''video/mp4'', ''video'')"
proof -
  have "map to_lower ''.MP4'' = map to_lower ''.mp4''" by code_simp
  moreover have "guessMimeType ''.mp4'' = (''video/mp4'', ''video'')" by code_simp
  ultimately show ?thesis using guessMimeType_case by blast
qed

section \<open>The input of the transaction\<close>

definition sorts_amounts :: "('f :: linorder utxo list \<Rightarrow> 'f utxo list) \<Rightarrow> bool" where
  "sorts_amounts srt \<longleftrightarrow> (\<forall>us. mset (srt us) = mset us \<and> sorted_wrt (\<lambda>a b. u_Amount a \<le> u_Amount b) (srt us))"

lemma find_least:
  assumes "sorted_wrt (\<lambda>a b. f a \<le> (f b :: 'f :: linorder)) xs" "find P xs = Some x"
  shows "x \<in> set xs \<and> P x \<and> (\<forall>y \<in> set xs. P y \<longrightarrow> f x \<le> f y)"
  using assms by (induction xs) (auto split: if_splits)

text \<open>
  \<open>coinChooser\<close> takes the smallest output that is enough: when it returns an input, this is one spendable output of at least the amount, and no spendable output of at
  least the amount is smaller; otherwise no output with an id is enough, or the one it found has none.
\<close>

theorem coinChooser_least:
  assumes srt: "sorts_amounts srt" and us: "ListUnspentMin cl l = (Ret (Inr us), l')"
  shows "(\<exists>u \<in> set us. coinChooser cl srt amount l = (Ret (Inr ([(u_TxID u, u_Vout u)], u_Amount u)), l')
            \<and> u_Spendable u \<and> amount \<le> u_Amount u \<and> (\<forall>v \<in> set us. u_Spendable v \<and> amount \<le> u_Amount v \<longrightarrow> u_Amount u \<le> u_Amount v))
       \<or> (coinChooser cl srt amount l = (Ret (Inl (Msg ''not enough utxos to create tx'')), l')
            \<and> ((\<exists>v \<in> set us. u_TxID v = []) \<or> (\<forall>v \<in> set us. \<not> (u_Spendable v \<and> amount \<le> u_Amount v))))"
proof -
  let ?P = "\<lambda>u. u_Spendable u \<and> amount \<le> u_Amount u"
  from srt have s: "set (srt us) = set us" "sorted_wrt (\<lambda>a b. u_Amount a \<le> u_Amount b) (srt us)" by (auto simp: sorts_amounts_def dest: mset_eq_setD)
  show ?thesis
  proof (cases "find ?P (srt us)")
    case None
    then have "\<forall>v \<in> set us. \<not> ?P v" using s(1) by (auto simp: find_None_iff)
    with None us show ?thesis by (auto simp: coinChooser_def bnd_def ret_def)
  next
    case (Some u)
    with find_least [OF s(2) Some] s(1) us show ?thesis by (cases "u_TxID u = []") (auto simp: coinChooser_def bnd_def ret_def)
  qed
qed

theorem coinChooser_least_witness:
  "coinChooser \<lparr>DecodeAddress = \<lambda>_. Inr (), NewAmount = \<lambda>_ :: nat. Inr 0, PayToAddrScript = \<lambda>_. Inr [],
      ListUnspentMin = ret (Inr [\<lparr>u_TxID = ''a'', u_Vout = 0, u_Amount = 9, u_Spendable = True\<rparr>, \<lparr>u_TxID = ''b'', u_Vout = 1, u_Amount = 5, u_Spendable = True\<rparr>]),
      CreateRawTransaction = \<lambda>_ _ _. ret (Inr ()), AddTxOut = \<lambda>_ _ _. (), SignRawTransaction = \<lambda>_. ret (Inr ((), True)), SendRawTransaction = \<lambda>_. ret (Inr [])\<rparr>
      (sort_key u_Amount) 4 () = (Ret (Inr ([(''b'', 1)], 5)), ())"
proof -
  let ?us = "[\<lparr>u_TxID = ''a'', u_Vout = 0, u_Amount = 9 :: nat, u_Spendable = True\<rparr>, \<lparr>u_TxID = ''b'', u_Vout = 1, u_Amount = 5, u_Spendable = True\<rparr>]"
  let ?cl = "\<lparr>DecodeAddress = \<lambda>_. Inr (), NewAmount = \<lambda>_ :: nat. Inr 0, PayToAddrScript = \<lambda>_. Inr [],
      ListUnspentMin = ret (Inr ?us), CreateRawTransaction = \<lambda>_ _ _. ret (Inr ()), AddTxOut = \<lambda>_ _ _. (), SignRawTransaction = \<lambda>_. ret (Inr ((), True)), SendRawTransaction = \<lambda>_. ret (Inr [])\<rparr>"
  have s: "sorts_amounts (sort_key u_Amount)"
    unfolding sorts_amounts_def using sorted_sort_key [of u_Amount] by (auto simp: sorted_map)
  have u: "ListUnspentMin ?cl () = (Ret (Inr ?us), ())" by (simp add: ret_def)
  from coinChooser_least [OF s u, of 4] show ?thesis by (elim disjE bexE conjE) auto
qed

section \<open>The order of publishing\<close>

text \<open>A call of the daemon that broadcasts nothing.\<close>

definition quiet :: "('l \<Rightarrow> 'x) \<Rightarrow> ('l, 'a) op \<Rightarrow> bool" where
  "quiet sent m \<longleftrightarrow> (\<forall>l. sent (snd (m l)) = sent l)"

lemma quiet_bnd: "quiet sent m \<Longrightarrow> (\<And>a. quiet sent (f a)) \<Longrightarrow> quiet sent (bnd m f)"
  unfolding quiet_def bnd_def by (auto split: prod.split outcome.split) (metis snd_conv)+

lemma quiet_ret [simp]: "quiet sent (ret a)"
  by (simp add: quiet_def ret_def)

lemma quiet_baseTx:
  assumes "quiet sent (ListUnspentMin cl)" "\<And>i a n. quiet sent (CreateRawTransaction cl i a n)"
  shows "quiet sent (baseTx cl fl srt amount addr)"
  unfolding baseTx_def coinChooser_def using assms by (intro quiet_bnd) (auto intro!: quiet_bnd split: sum.split option.split)

lemma quiet_ledger: "quiet sent m \<Longrightarrow> quiet (sent \<circ> ps_ledger) (on_ledger m)"
  by (auto simp: quiet_def on_ledger_def zoom_def split: prod.split) (metis snd_conv)

lemma quiet_others: "quiet (sent \<circ> ps_ledger) (on_refl n)" "quiet (sent \<circ> ps_ledger) (on_pfs f)"
  by (auto simp: quiet_def on_refl_def on_pfs_def zoom_def split: prod.split)

lemma reflect_blobs_all:
  "reflect_blobs api peer first bs c = (Ret None, c') \<Longrightarrow> b \<in> set bs \<Longrightarrow>
   \<exists>sd c1 c2. Client_sendBlob api peer b sd c1 = (Ret None, c2)"
proof (induction bs arbitrary: first c)
  case (Cons x xs)
  then obtain c1 where "Client_sendBlob api peer x first c = (Ret None, c1)" "reflect_blobs api peer False xs c1 = (Ret None, c')"
    by (auto simp: bnd_def SendBlob_def SendSDBlob_def ret_def split: prod.splits outcome.splits if_splits)
  with Cons show ?case by (cases "b = x") auto
qed simp

lemma or_fail_change:
  assumes "or_fail m f p = (r, p')" "g p' \<noteq> g p" "quiet g m"
  obtains a p1 where "m p = (Ret (Inr a), p1)" "f a p1 = (r, p')" "g p' \<noteq> g p1"
proof -
  obtain x p1 where m: "m p = (x, p1)" by (metis surj_pair)
  with assms(3) have g: "g p1 = g p" unfolding quiet_def by (metis snd_conv)
  show thesis
  proof (cases x)
    case (Ret y)
    with assms m g that show ?thesis by (cases y) (auto simp: or_fail_def bnd_def ret_def)
  next
    case (Panic e)
    with assms(1,2) m g show ?thesis by (auto simp: or_fail_def bnd_def)
  qed
qed

lemma claim_reflects:
  assumes P: "publish_claim cl fl script marshal api peer dialled name details addr tx (st, stPB) p = (r, p')" and c: "(sent \<circ> ps_ledger) p' \<noteq> (sent \<circ> ps_ledger) p"
    and q: "\<And>tx. quiet sent (SignRawTransaction cl tx)"
  shows "reflect api peer dialled st (ps_refl p) = (Ret None, ps_refl p')"
proof -
  let ?g = "sent \<circ> ps_ledger"
  from P obtain x where P: "or_fail (ret x) (\<lambda>tx. or_fail (on_ledger (SignRawTransaction cl tx)) (publish_signed cl api peer dialled st)) p = (r, p')"
    by (auto simp: publish_claim_def Let_def)
  from or_fail_change [OF P c quiet_ret] obtain tx' p1 where
    1: "ret x p = (Ret (Inr tx'), p1)" "or_fail (on_ledger (SignRawTransaction cl tx')) (publish_signed cl api peer dialled st) p1 = (r, p')" "?g p' \<noteq> ?g p1" .
  from or_fail_change [OF 1(2,3) quiet_ledger [OF q]] obtain stx p2 where
    2: "on_ledger (SignRawTransaction cl tx') p1 = (Ret (Inr stx), p2)" "publish_signed cl api peer dialled st stx p2 = (r, p')" "?g p' \<noteq> ?g p2" .
  have p: "ps_refl p2 = ps_refl p" using 1(1) 2(1) by (auto simp: ret_def on_ledger_def zoom_def split: prod.splits)
  obtain o' c' where refl: "reflect api peer dialled st (ps_refl p2) = (o', c')" by (metis surj_pair)
  show ?thesis
  proof (cases "o' = Ret None")
    case True
    with 2(2,3) refl p show ?thesis
      by (cases stx) (auto simp: publish_signed_def on_refl_def or_fail_def on_ledger_def zoom_def bnd_def ret_def split: prod.splits outcome.splits sum.splits if_splits)
  next
    case False
    with 2(2,3) refl show ?thesis
      by (cases stx) (auto simp: publish_signed_def on_refl_def zoom_def bnd_def ret_def split: prod.splits outcome.splits option.splits if_splits)
  qed
qed


text \<open>A daemon that counts broadcasts.\<close>

definition counting_daemon :: "(nat, nat, unit, unit) lbrycrd" where
  "counting_daemon =
     \<lparr>DecodeAddress = \<lambda>_. Inr (), NewAmount = \<lambda>_. Inr 1, PayToAddrScript = \<lambda>_. Inr [],
      ListUnspentMin = ret (Inr [\<lparr>u_TxID = ''a'', u_Vout = 0, u_Amount = 9, u_Spendable = True\<rparr>]),
      CreateRawTransaction = \<lambda>_ _ _. ret (Inr ()), AddTxOut = \<lambda>_ _ _. (), SignRawTransaction = \<lambda>_. ret (Inr ((), True)),
      SendRawTransaction = \<lambda>_ n. (Ret (Inr ''id''), Suc n)\<rparr>"

definition plain_api :: blob_api where
  "plain_api = \<lparr>ValidForSend = (\<lambda>_. None), HashHex = BlobHash, Size = (\<lambda>b. int (length b))\<rparr>"

definition publish_fs :: fsys where
  "publish_fs = \<lparr>files = [([''v.mp4''], ''x'')], dirs = [], faults = []\<rparr>"

lemma publish_stream: "\<exists>pb. makeStream (\<lambda>b. Inr ([b], [], 0, [])) ''/v.mp4'' publish_fs = (Inr ([''x''], pb), publish_fs)"
proof -
  obtain mt cat where g: "guessMimeType (filepath_Ext ''/v.mp4'') = (mt, cat)" by (metis surj_pair)
  have "os_ReadFile ''/v.mp4'' publish_fs = (Inr ''x'', publish_fs)"
    by (simp add: os_ReadFile_def os_call_def publish_fs_def os_comps_def under_file_def Let_def)
  then show ?thesis by (simp add: makeStream_def g)
qed

lemma publish_example:
  "\<exists>p'. Publish counting_daemon \<lparr>f_add = (+), f_sub = (-), f_amount = 3, f_txFee = 1\<rparr> (\<lambda>us. us) (\<lambda>_. Inr []) (\<lambda>b. Inr ([b], [], 0, [])) (\<lambda>_ _ _. Inr []) plain_api scripted (Inr (tcp_of []))
        ''/v.mp4'' ''claim'' ''addr'' \<lparr>d_Title = [], d_Description = [], d_Author = [], d_ReleaseTime = 0\<rparr>
        \<lparr>ps_fs = publish_fs, ps_ledger = 0, ps_refl = dialling [hello, flag_msg (send_name True) True, flag_msg (received_name True) True]\<rparr>
      = (Ret (Inr ((), ''id'')), p') \<and> ps_ledger p' = 1"
proof -
  from client_connects [of "[flag_msg (send_name True) True, flag_msg (received_name True) True]"] obtain c1 where
    c1: "Client_Connect scripted (Inr (tcp_of [])) (dialling [hello, flag_msg (send_name True) True, flag_msg (received_name True) True]) = (Ret None, c1)"
      "rc_connected c1" "clean (rc_tcp c1)" "tcp_in (rc_tcp c1) = []" "nc_net (rc_conn c1) = [flag_msg (send_name True) True, flag_msg (received_name True) True]" by blast
  from client_sends [OF c1(2-5), of plain_api "''x''"] obtain c2 where c2: "Client_sendBlob plain_api scripted ''x'' True c1 = (Ret None, c2)" by (auto simp: blob_laws_def plain_api_def)
  have r: "reflect plain_api scripted (Inr (tcp_of [])) [''x''] (dialling [hello, flag_msg (send_name True) True, flag_msg (received_name True) True]) = (Ret None, c2)"
    using c1(1) c2 by (simp add: reflect_def bnd_def SendSDBlob_def ret_def)
  obtain pb where m: "makeStream (\<lambda>b. Inr ([b], [], 0, [])) ''/v.mp4'' publish_fs = (Inr ([''x''], pb), publish_fs)" using publish_stream by blast
  show ?thesis
    using r m by (simp add: Publish_def or_fail_def bnd_def ret_def on_ledger_def zoom_def baseTx_def coinChooser_def on_pfs_def publish_claim_def publish_signed_def
        addClaimToTx_def getClaimPayoutScript_def counting_daemon_def on_refl_def Let_def)
qed


section \<open>Streams the reflector has\<close>

lemma refusal_msgs:
  "length (jprint (JObj [(''send_blob'', JBool False)])) \<le> 512" "length (jprint (JObj [(''send_sd_blob'', JBool False)])) \<le> 512"
  "dec_flag ''send_blob'' (JObj [(''send_blob'', JBool False)]) = Some False" "dec_send_sd (JObj [(''send_sd_blob'', JBool False)]) = Some False"
  by code_simp+

lemma client_told_exists:
  assumes c: "rc_connected c" "clean (rc_tcp c)" "tcp_in (rc_tcp c) = []" "nc_net (rc_conn c) = [flag_msg (send_name sd) False]" and api: "blob_laws api b"
  shows "\<exists>c'. Client_sendBlob api scripted b sd c = (Ret (Some (Prefix (take 8 (BlobHash b)) ErrBlobExists)), c')"
proof -
  let ?q = "jprint (enc_send (upload_request sd (BlobHash b) (length b)))"
  let ?m = "flag_msg (send_name sd) False" and ?d = "\<lparr>dec_buf = [], dec_cap = 512\<rparr>"
  obtain c1 where w1: "rc_Write scripted ?q c = (Ret None, c1)" "tcp_in (rc_tcp c1) = [?m]"
    using rc_Write_scripted [OF c(2,4), of ?q] c by simp
  have "rc_Decode (if sd then dec_send_sd else dec_flag ''send_blob'') NewDecoder c1
      = (Ret (Inr False, ?d), c1\<lparr>rc_conn := (rc_conn c1)\<lparr>nc_tcp := (rc_tcp c1)\<lparr>tcp_in := []\<rparr>\<rparr>\<rparr>)"
    using refusal_msgs NewDecoder_room w1(2)
    by (subst rc_Decode_message [where ms = "[(send_name sd, JBool False)]" and a = False])
      (auto simp: flag_msg_def simp del: jprint.simps dec_flag.simps dec_send_sd.simps)
  then obtain c2 where d1: "rc_Decode (if sd then dec_send_sd else dec_flag ''send_blob'') NewDecoder c1 = (Ret (Inr False, ?d), c2)" by blast
  have req: "(if sd then \<lparr>sr_BlobHash = [], sr_BlobSize = 0, sr_SdBlobHash = HashHex api b, sr_SdBlobSize = Size api b\<rparr>
      else \<lparr>sr_BlobHash = HashHex api b, sr_BlobSize = Size api b, sr_SdBlobHash = [], sr_SdBlobSize = 0\<rparr>) = upload_request sd (BlobHash b) (length b)"
    using api by (simp add: upload_request_def blob_laws_def)
  have len: "length (BlobHash b) = 96" using BlobHash_valid [of b] by (simp add: valid_hash_def)
  have "Client_sendBlob api scripted b sd c = (Ret (Some (Prefix (take 8 (BlobHash b)) ErrBlobExists)), c2)"
    unfolding Client_sendBlob_def Let_def req using c(1) api w1(1) d1 len
    by (simp add: blob_laws_def get_st_def ret_def bnd_def str_prefix_def del: jprint.simps)
  then show ?thesis by blast
qed

text \<open>
  C4. A stream the reflector already has cannot be published: when the server answers that it does not need the sd blob, \<open>reflect\<close> gives up with \<open>ErrBlobExists\<close> and \<open>Publish\<close>
  fails; the send command takes the same answer as success.
\<close>

theorem reflect_rejects_known_stream:
  assumes "blob_laws api sd"
  shows "\<exists>c1 c2 c3. reflect api scripted (Inr (tcp_of [])) (sd # bs) (dialling [hello, flag_msg ''send_sd_blob'' False])
           = (Ret (Some (Prefix (take 8 (BlobHash sd)) ErrBlobExists)), c2)
     \<and> Client_Connect scripted (Inr (tcp_of [])) (dialling [hello, flag_msg ''send_sd_blob'' False]) = (Ret None, c1)
     \<and> hackyReflect api scripted sd True c1 = (Ret None, c3)"
proof -
  from client_connects [of "[flag_msg ''send_sd_blob'' False]"] obtain c1 where
    c1: "Client_Connect scripted (Inr (tcp_of [])) (dialling [hello, flag_msg ''send_sd_blob'' False]) = (Ret None, c1)" "rc_connected c1" "clean (rc_tcp c1)" "tcp_in (rc_tcp c1) = []"
      "nc_net (rc_conn c1) = [flag_msg (send_name True) False]" by auto
  from client_told_exists [OF c1(2-5) assms] obtain c2 where
    c2: "Client_sendBlob api scripted sd True c1 = (Ret (Some (Prefix (take 8 (BlobHash sd)) ErrBlobExists)), c2)" by blast
  have "reflect api scripted (Inr (tcp_of [])) (sd # bs) (dialling [hello, flag_msg ''send_sd_blob'' False]) = (Ret (Some (Prefix (take 8 (BlobHash sd)) ErrBlobExists)), c2)"
    using c1(1) c2 by (simp add: reflect_def bnd_def SendSDBlob_def ret_def)
  moreover have "hackyReflect api scripted sd True c1 = (Ret None, c2)" using c2 by (simp add: hackyReflect_def bnd_def SendSDBlob_def ret_def)
  ultimately show ?thesis using c1(1) by blast
qed

theorem reflect_rejects_known_stream_witness:
  "\<exists>c. reflect \<lparr>ValidForSend = (\<lambda>_. None), HashHex = BlobHash, Size = (\<lambda>b. int (length b))\<rparr> scripted (Inr (tcp_of [])) [''sd'', ''b''] (dialling [hello, flag_msg ''send_sd_blob'' False])
     = (Ret (Some (Prefix (take 8 (BlobHash ''sd'')) ErrBlobExists)), c)"
  using reflect_rejects_known_stream [of "\<lparr>ValidForSend = (\<lambda>_. None), HashHex = BlobHash, Size = (\<lambda>b. int (length b))\<rparr>" "''sd''" "[''b'']"] by (auto simp: blob_laws_def)

text \<open>
  The send command without a cache directory always exits with code 1, whatever the reflector answers: the path of the cached sd blob is empty then, and writing to it fails.
\<close>

theorem send_without_cache_exits_1:
  assumes "sendCmd api peer [] bs enc_failed sd p = (Ret k, p')"
  shows "k = 1"
  using assms by (auto simp: sendCmd_def on_pfs_def os_WriteFile_def bnd_def ret_def Let_def split: prod.splits outcome.splits if_splits)

theorem send_without_cache_exits_1_witness:
  "\<exists>p'. sendCmd plain_api scripted [] [] False ''sd'' \<lparr>ps_fs = publish_fs, ps_ledger = (), ps_refl = dialling []\<rparr> = (Ret 1, p')"
proof -
  have "\<exists>k p'. sendCmd plain_api scripted [] [] False ''sd'' \<lparr>ps_fs = publish_fs, ps_ledger = (), ps_refl = dialling []\<rparr> = (Ret k, p')"
    by (simp add: sendCmd_def on_refl_def on_pfs_def zoom_def bnd_def ret_def hackyReflect_def SendSDBlob_def Client_sendBlob_def get_st_def os_WriteFile_def Let_def)
  with send_without_cache_exits_1 show ?thesis by metis
qed

end
