(* ===== verification/Request_Queue.thy ===== *)
theory Request_Queue
  imports Http
begin

text \<open>
  The request queue of the HTTP server (src/server/http/worker.go and \<open>getBlob\<close> of routes.go; src/server/http3/worker.go is the same code), as the step relation
  \<open>queue_step\<close>: the handlers of the web server put their requests into a channel with room for 20000 and wait; a pool of workers takes them out and serves them. A request
  that arrives later is one whose handler is late to enqueue it.
  \<open>handle\<close> is the handler the workers run. A panic of a worker that is not recovered ends the process. After a stop the select of a worker is always ready and its
  case is empty: \<open>QSpin\<close>. The label tells whether a step is work or not.
\<close>

datatype 'q queue_worker = QIdle | QBusy nat 'q

record ('s, 'q, 'a) request_queue =
  rq_server :: 's
  rq_handlers :: "(nat \<times> 'q) list"
  rq_ch :: "(nat \<times> 'q) list"
  rq_workers :: "'q queue_worker list"
  rq_answers :: "(nat \<times> 'q \<times> 'a) list"
  rq_stopped :: bool
  rq_crashed :: bool

definition getReqCh_cap :: nat where
  "getReqCh_cap = 20000"

definition InitWorkers :: "nat \<Rightarrow> (nat \<times> 'q) list \<Rightarrow> 's \<Rightarrow> ('s, 'q, 'a) request_queue" where
  "InitWorkers workers reqs s =
     \<lparr>rq_server = s, rq_handlers = reqs, rq_ch = [], rq_workers = replicate workers QIdle, rq_answers = [], rq_stopped = False, rq_crashed = False\<rparr>"

definition at_queue :: "('s, 'q, 'a) request_queue \<Rightarrow> nat \<Rightarrow> 'q queue_worker \<Rightarrow> bool" where
  "at_queue u w pc \<longleftrightarrow> \<not> rq_crashed u \<and> w < length (rq_workers u) \<and> rq_workers u ! w = pc"

inductive queue_step :: "('q \<Rightarrow> ('s, 'a) op) \<Rightarrow> bool \<Rightarrow> ('s, 'q, 'a) request_queue \<Rightarrow> ('s, 'q, 'a) request_queue \<Rightarrow> bool"
  for handle :: "'q \<Rightarrow> ('s, 'a) op" where
  QEnqueue: "\<not> rq_crashed u \<Longrightarrow> rq_handlers u = xs @ r # ys \<Longrightarrow> length (rq_ch u) < getReqCh_cap \<Longrightarrow>
     queue_step handle True u (u\<lparr>rq_handlers := xs @ ys, rq_ch := rq_ch u @ [r]\<rparr>)"
| QReceive: "at_queue u w QIdle \<Longrightarrow> rq_ch u = (i, q) # rs \<Longrightarrow> queue_step handle True u (u\<lparr>rq_ch := rs, rq_workers := (rq_workers u)[w := QBusy i q]\<rparr>)"
| QProcess: "at_queue u w (QBusy i q) \<Longrightarrow> handle q (rq_server u) = (Ret a, s) \<Longrightarrow>
     queue_step handle True u (u\<lparr>rq_server := s, rq_workers := (rq_workers u)[w := QIdle], rq_answers := rq_answers u @ [(i, q, a)]\<rparr>)"
| QPanic: "at_queue u w (QBusy i q) \<Longrightarrow> handle q (rq_server u) = (Panic p, s) \<Longrightarrow> queue_step handle True u (u\<lparr>rq_server := s, rq_crashed := True\<rparr>)"
| QStop: "\<not> rq_crashed u \<Longrightarrow> queue_step handle False u (u\<lparr>rq_stopped := True\<rparr>)"
| QSpin: "at_queue u w QIdle \<Longrightarrow> rq_stopped u \<Longrightarrow> queue_step handle False u u"

definition queue_any :: "('q \<Rightarrow> ('s, 'a) op) \<Rightarrow> ('s, 'q, 'a) request_queue \<Rightarrow> ('s, 'q, 'a) request_queue \<Rightarrow> bool" where
  "queue_any handle u u' \<longleftrightarrow> (\<exists>l. queue_step handle l u u')"

end
