(* ===== verification/Request_Queue_Correct.thy ===== *)
theory Request_Queue_Correct
  imports Request_Queue Http_Correct Speedwalk_Correct
begin

text \<open>
  The request queue loses and repeats no request: with at least one worker, when no work is left every request has been answered, once and with the answer of the handler to its own
  hash, however the workers interleave and also after a stop.
\<close>

fun busy_req :: "'q queue_worker \<Rightarrow> (nat \<times> 'q) multiset" where
  "busy_req QIdle = {#}"
| "busy_req (QBusy i q) = {#(i, q)#}"

definition queue_reqs :: "('s, 'q, 'a) request_queue \<Rightarrow> (nat \<times> 'q) multiset" where
  "queue_reqs u = mset (rq_handlers u) + mset (rq_ch u) + sum_list (map busy_req (rq_workers u)) + mset (map (\<lambda>(i, q, a). (i, q)) (rq_answers u))"

definition answers_ok :: "('q \<Rightarrow> ('s, 'a) op) \<Rightarrow> ('s, 'q, 'a) request_queue \<Rightarrow> bool" where
  "answers_ok handle u \<longleftrightarrow> (\<forall>(i, q, a) \<in> set (rq_answers u). \<exists>s s'. handle q s = (Ret a, s'))"

lemma busy_change:
  assumes "at_queue u w pc"
  shows "sum_list (map busy_req ((rq_workers u)[w := pc'])) + busy_req pc = sum_list (map busy_req (rq_workers u)) + busy_req pc'"
  using sum_list_change [of w "rq_workers u" busy_req pc'] assms by (auto simp: at_queue_def)

lemma queue_step_inv:
  "queue_step handle l u u' \<Longrightarrow> (\<And>q s. \<exists>a s'. handle q s = (Ret a, s')) \<Longrightarrow> \<not> rq_crashed u \<Longrightarrow> answers_ok handle u \<Longrightarrow>
   queue_reqs u' = queue_reqs u \<and> \<not> rq_crashed u' \<and> answers_ok handle u' \<and> length (rq_workers u') = length (rq_workers u)"
proof (induction rule: queue_step.induct)
  case (QReceive u w i q rs)
  from busy_change [OF QReceive(1), of "QBusy i q"] QReceive show ?case by (simp add: queue_reqs_def answers_ok_def)
next
  case (QProcess u w i q a s)
  from busy_change [OF QProcess(1), of QIdle] have "sum_list (map busy_req (rq_workers u)) = sum_list (map busy_req ((rq_workers u)[w := QIdle])) + {#(i, q)#}" by simp
  with QProcess show ?case by (auto simp: queue_reqs_def answers_ok_def)
next
  case (QPanic u w i q p s)
  then show ?case by (metis outcome.distinct(1) prod.inject)
qed (auto simp: queue_reqs_def answers_ok_def)

lemma queue_work_left:
  assumes c: "\<not> rq_crashed u" "rq_workers u \<noteq> []" and e: "\<nexists>u'. queue_step handle True u u'"
  shows "rq_handlers u = [] \<and> rq_ch u = [] \<and> sum_list (map busy_req (rq_workers u)) = {#}"
proof -
  have idle: "rq_workers u ! w = QIdle" if w: "w < length (rq_workers u)" for w
  proof (cases "rq_workers u ! w")
    case (QBusy i q)
    with w c have a: "at_queue u w (QBusy i q)" by (simp add: at_queue_def)
    obtain r s where "handle q (rq_server u) = (r, s)" by (metis surj_pair)
    with a e show ?thesis by (cases r) (blast intro: queue_step.QProcess queue_step.QPanic)+
  qed
  with c have "at_queue u 0 QIdle" by (auto simp: at_queue_def)
  with e have ch: "rq_ch u = []" by (cases "rq_ch u") (auto intro: queue_step.QReceive)
  with e c have "rq_handlers u = []" using queue_step.QEnqueue [of u "[]" _ _ handle] by (cases "rq_handlers u") (auto simp: getReqCh_cap_def)
  moreover have "sum_list (map busy_req (rq_workers u)) = {#}" using idle by (intro sum_list_0_mset) (auto simp: in_set_conv_nth)
  ultimately show ?thesis using ch by blast
qed

fun busy_rank :: "'q queue_worker \<Rightarrow> nat" where
  "busy_rank QIdle = 0"
| "busy_rank (QBusy i q) = 1"

definition queue_rank :: "('s, 'q, 'a) request_queue \<Rightarrow> nat" where
  "queue_rank u = 3 * length (rq_handlers u) + 2 * length (rq_ch u) + sum_list (map busy_rank (rq_workers u)) + of_bool (\<not> rq_crashed u)"

lemma busy_rank_change:
  assumes "at_queue u w pc"
  shows "sum_list (map busy_rank ((rq_workers u)[w := pc'])) + busy_rank pc = sum_list (map busy_rank (rq_workers u)) + busy_rank pc'"
  using sum_list_change [of w "rq_workers u" busy_rank pc'] assms by (auto simp: at_queue_def)

lemma queue_work_rank:
  assumes "queue_step handle True u u'"
  shows "queue_rank u' < queue_rank u"
  using assms
proof (cases rule: queue_step.cases)
  case (QReceive w i q rs)
  with busy_rank_change [OF QReceive(2), of "QBusy i q"] show ?thesis by (simp add: queue_rank_def)
next
  case (QProcess w i q a s)
  with busy_rank_change [OF QProcess(2), of QIdle] show ?thesis by (simp add: queue_rank_def)
next
  case (QPanic w i q p s)
  then show ?thesis by (simp add: queue_rank_def at_queue_def)
qed (simp_all add: queue_rank_def)

lemma queue_reaches_end: "\<exists>u'. (queue_any handle)\<^sup>*\<^sup>* u u' \<and> (\<nexists>u''. queue_step handle True u' u'')"
proof (induction u rule: measure_induct_rule [of queue_rank])
  case (less u)
  show ?case
  proof (cases "\<exists>u'. queue_step handle True u u'")
    case True
    then obtain u' where u': "queue_step handle True u u'" by blast
    from less [OF queue_work_rank [OF u']] u' show ?thesis by (metis queue_any_def converse_rtranclp_into_rtranclp)
  qed auto
qed

lemma HandleGetBlob_returns: "\<exists>a s'. HandleGetBlob mc st e h s = (Ret a, s')"
  by (auto simp: HandleGetBlob_def split: prod.splits outcome.splits option.splits)

text \<open>
  C28. Every request to the HTTP server is answered: with at least one worker, when the workers have no work left, each request was answered exactly once, by the handler run on
  its own hash, whatever the store does (a panic of it included), however the handlers and workers interleave, with or without a stop.
\<close>

theorem http_queue_answers_all:
  assumes n: "0 < n" and r: "(queue_any (\<lambda>(e, h). HandleGetBlob mc st e h))\<^sup>*\<^sup>* (InitWorkers n reqs s) u"
    and e: "\<nexists>u'. queue_step (\<lambda>(e, h). HandleGetBlob mc st e h) True u u'"
  shows "mset (map (\<lambda>(i, q, a). (i, q)) (rq_answers u)) = mset reqs
     \<and> (\<forall>(i, (e, h), a) \<in> set (rq_answers u). \<exists>s1 s2. HandleGetBlob mc st e h s1 = (Ret a, s2))"
proof -
  let ?h = "\<lambda>(e, h). HandleGetBlob mc st e h"
  have total: "\<exists>a s'. ?h q s = (Ret a, s')" for q s using HandleGetBlob_returns [of mc st] by (cases q) auto
  from r have "queue_reqs u = mset reqs \<and> \<not> rq_crashed u \<and> answers_ok ?h u \<and> length (rq_workers u) = n"
  proof (induction rule: rtranclp_induct)
    case base
    show ?case by (auto simp: queue_reqs_def InitWorkers_def answers_ok_def intro!: sum_list_0_mset)
  next
    case (step u u')
    from step(2) obtain l where "queue_step ?h l u u'" by (auto simp: queue_any_def)
    from queue_step_inv [OF this total] step(3) show ?case by auto
  qed
  moreover from this n have "rq_workers u \<noteq> []" by auto
  ultimately show ?thesis using queue_work_left [OF _ _ e] by (fastforce simp: queue_reqs_def answers_ok_def)
qed

theorem http_queue_answers_all_witness:
  "\<exists>u. (queue_any (\<lambda>(e, h). HandleGetBlob set_misses NoopStore_ops e h))\<^sup>*\<^sup>* (InitWorkers 2 [(1, env0, ''a''), (2, env0, ''b'')] ((), {})) u
     \<and> mset (map (\<lambda>(i, q, a). (i, q)) (rq_answers u)) = {#(1, env0, ''a''), (2, env0, ''b'')#}"
proof -
  let ?h = "\<lambda>(e, h). HandleGetBlob set_misses NoopStore_ops e h"
  from queue_reaches_end [of ?h "InitWorkers 2 [(1, env0, ''a''), (2, env0, ''b'')] ((), {})"] obtain u where
    u: "(queue_any ?h)\<^sup>*\<^sup>* (InitWorkers 2 [(1, env0, ''a''), (2, env0, ''b'')] ((), {})) u" "\<nexists>u'. queue_step ?h True u u'" by blast
  from http_queue_answers_all [OF _ u] u(1) show ?thesis by auto
qed

end
