(* ===== verification/Wallet_Transport.thy ===== *)
theory Wallet_Transport
  imports Wallet
begin

text \<open>
  The transport of the wallet node (src/wallet/transport.go) and the choice of a server (src/wallet/network.go: \<open>Connect\<close>).

  The connection is the list of segments that arrive, in any division, until it fails. \<open>listen\<close> reads lines through a bufio.Reader, whose buffer is \<open>buf\<close>; what it passes to
  \<open>responses\<close> is its result. Dialling is a parameter.
\<close>

section \<open>Lines\<close>

text \<open>\<open>reader.ReadBytes('\n')\<close>: the line with its end, the rest of the buffer and the segments still to come, or an error.\<close>

fun bufio_ReadBytes :: "bytes \<Rightarrow> bytes list \<Rightarrow> (bytes \<times> bytes \<times> bytes list) option" where
  "bufio_ReadBytes buf segs =
     (if CHR 0x0A \<in> set buf
      then Some (takeWhile (\<lambda>c. c \<noteq> CHR 0x0A) buf @ [CHR 0x0A], tl (dropWhile (\<lambda>c. c \<noteq> CHR 0x0A) buf), segs)
      else case segs of [] \<Rightarrow> None | s # ss \<Rightarrow> bufio_ReadBytes (buf @ s) ss)"

declare bufio_ReadBytes.simps [simp del]

lemma ReadBytes_less:
  "bufio_ReadBytes buf segs = Some (line, buf', segs') \<Longrightarrow> length buf' + length (concat segs') < length buf + length (concat segs)"
proof (induction buf segs rule: bufio_ReadBytes.induct)
  case (1 buf segs)
  show ?case
  proof (cases "CHR 0x0A \<in> set buf")
    case True
    have "dropWhile (\<lambda>c. c \<noteq> CHR 0x0A) buf \<noteq> []" using True by (auto simp: dropWhile_eq_Nil_conv)
    then have "length (tl (dropWhile (\<lambda>c. c \<noteq> CHR 0x0A) buf)) < length buf"
      using length_dropWhile_le [of "\<lambda>c. c \<noteq> CHR 0x0A" buf] by (cases "dropWhile (\<lambda>c. c \<noteq> CHR 0x0A) buf") auto
    with 1(2) True show ?thesis by (auto simp: bufio_ReadBytes.simps [of buf])
  next
    case False
    with 1 show ?thesis by (cases segs) (auto simp: bufio_ReadBytes.simps [of buf])
  qed
qed

function transport_listen :: "bytes \<Rightarrow> bytes list \<Rightarrow> bytes list" where
  "transport_listen buf segs =
     (case bufio_ReadBytes buf segs of
        None \<Rightarrow> []
      | Some (line, buf', segs') \<Rightarrow> line # transport_listen buf' segs')"
  by pat_completeness auto

termination
  by (relation "measure (\<lambda>(buf, segs). length buf + length (concat segs))") (auto dest: ReadBytes_less)

declare transport_listen.simps [simp del]

section \<open>The test of a connection\<close>

definition test_msg :: bytes where
  "test_msg = ''{\"id\":1,\"method\":\"server.version\"}'' @ [CHR 0x0A]"

definition dec_test :: "json \<Rightarrow> string option" where
  "dec_test v =
     (case v of
        JNull \<Rightarrow> Some []
      | JObj ms \<Rightarrow>
          let e = part_members ''error'' ms; m = part_field dec_str [] ''message'' (snd e) in
          if list_all (\<lambda>v. case v of JObj _ \<Rightarrow> True | JNull \<Rightarrow> True | _ \<Rightarrow> False) (jvals ''error'' ms) \<and> fst m then Some (snd m) else None
      | _ \<Rightarrow> None)"

text \<open>\<open>data\<close> is the first line that arrives within a second, if one does; \<open>sent\<close> the error of the write, if it fails.\<close>

definition transport_test :: "go_error option \<Rightarrow> bytes option \<Rightarrow> go_error option" where
  "transport_test send_err data =
     (case send_err of
        Some err \<Rightarrow> Some err
      | None \<Rightarrow>
          (case data of
             None \<Rightarrow> Some wallet_ErrTimeout
           | Some line \<Rightarrow>
               (case json_unmarshal line of
                  None \<Rightarrow> Some (Msg ''invalid JSON'')
                | Some v \<Rightarrow>
                    (case dec_test v of
                       None \<Rightarrow> Some (Msg ''cannot unmarshal'')
                     | Some message \<Rightarrow> if message \<noteq> [] then Some (Msg message) else None))))"

section \<open>Connecting\<close>

text \<open>The dial: a connection, a \<open>net.OpError\<close> with the text of its inner error, or another error.\<close>

datatype dial_result = Dialled | OpError string | DialError go_error

text \<open>\<open>NewTransport\<close>: dial and test; the error of the test is prefixed with the address.\<close>

datatype transport_result = TransportOk string | TransportErr go_error | TransportOpError string

definition NewTransport :: "(string \<Rightarrow> dial_result) \<Rightarrow> (string \<Rightarrow> go_error option) \<Rightarrow> string \<Rightarrow> transport_result" where
  "NewTransport dial tst addr =
     (case dial addr of
        OpError t \<Rightarrow> TransportOpError t
      | DialError err \<Rightarrow> TransportErr err
      | Dialled \<Rightarrow> (case tst addr of Some err \<Rightarrow> TransportErr (Prefix addr err) | None \<Rightarrow> TransportOk addr))"

fun connect_loop :: "(string \<Rightarrow> dial_result) \<Rightarrow> (string \<Rightarrow> go_error option) \<Rightarrow> string list \<Rightarrow> go_error + string" where
  "connect_loop dial tst [] = Inl (Msg ''failed to connect'')"
| "connect_loop dial tst (addr # addrs) =
     (case NewTransport dial tst addr of
        TransportOk a \<Rightarrow> Inr a
      | TransportErr err \<Rightarrow> if errors_Is err wallet_ErrTimeout then connect_loop dial tst addrs else Inl err
      | TransportOpError t \<Rightarrow> if t = ''no such host'' then connect_loop dial tst addrs else Inl (Msg t))"

text \<open>\<open>Connect\<close> of a node that has a transport or not; \<open>shuffle\<close> is \<open>rand.Shuffle\<close>.\<close>

definition Node_Connect :: "bool \<Rightarrow> (string list \<Rightarrow> string list) \<Rightarrow> (string \<Rightarrow> dial_result) \<Rightarrow> (string \<Rightarrow> go_error option) \<Rightarrow> string list \<Rightarrow> go_error + string" where
  "Node_Connect has_transport shuffle dial tst addrs =
     (if has_transport then Inl (Msg ''node already connected'') else connect_loop dial tst (shuffle addrs))"

end
