(* ===== verification/Wallet_Transport_Correct.thy ===== *)
theory Wallet_Transport_Correct
  imports Wallet_Transport
begin

text \<open>
  The lines of the wallet server reach the node as they were sent, however the network divides them; which servers \<open>Connect\<close> passes over.
\<close>

abbreviation newline :: char where
  "newline \<equiv> CHR 0x0A"

text \<open>The complete lines of a text, each with its end.\<close>

fun lines_of :: "bytes \<Rightarrow> bytes \<Rightarrow> bytes list" where
  "lines_of acc [] = []"
| "lines_of acc (c # cs) = (if c = newline then (acc @ [c]) # lines_of [] cs else lines_of (acc @ [c]) cs)"

lemma lines_of_no_newline: "newline \<notin> set b \<Longrightarrow> lines_of acc (b @ cs) = lines_of (acc @ b) cs"
  by (induction b arbitrary: acc) auto

lemma lines_of_first:
  assumes "newline \<in> set b"
  shows "lines_of [] b = (takeWhile (\<lambda>c. c \<noteq> newline) b @ [newline]) # lines_of [] (tl (dropWhile (\<lambda>c. c \<noteq> newline) b))"
proof -
  let ?t = "takeWhile (\<lambda>c. c \<noteq> newline) b" and ?d = "dropWhile (\<lambda>c. c \<noteq> newline) b"
  have "?d \<noteq> []" using assms by (auto simp: dropWhile_eq_Nil_conv)
  then obtain ds where d: "?d = newline # ds" using hd_dropWhile [of "\<lambda>c. c \<noteq> newline" b] by (cases ?d) auto
  have "newline \<notin> set ?t" by (auto dest: set_takeWhileD)
  moreover have b: "?t @ newline # ds = b" using d takeWhile_dropWhile_id [of "\<lambda>c. c \<noteq> newline" b] by simp
  ultimately show ?thesis using lines_of_no_newline [of ?t "[]" "newline # ds"] unfolding d b by simp
qed

lemma ReadBytes_lines:
  "case bufio_ReadBytes buf segs of
     None \<Rightarrow> lines_of [] (buf @ concat segs) = []
   | Some (line, buf', segs') \<Rightarrow> lines_of [] (buf @ concat segs) = line # lines_of [] (buf' @ concat segs')"
proof (induction buf segs rule: bufio_ReadBytes.induct)
  case (1 buf segs)
  show ?case
  proof (cases "newline \<in> set buf")
    case True
    let ?p = "\<lambda>c. c \<noteq> newline"
    have "dropWhile ?p buf \<noteq> []" using True by (auto simp: dropWhile_eq_Nil_conv)
    with True lines_of_first [of "buf @ concat segs"] show ?thesis
      by (simp add: bufio_ReadBytes.simps [of buf] takeWhile_append1 [of newline] dropWhile_append1 [of newline])
  next
    case False
    show ?thesis
    proof (cases segs)
      case Nil
      with False lines_of_no_newline [OF False, of "[]" "[]"] show ?thesis by (simp add: bufio_ReadBytes.simps [of buf])
    next
      case (Cons s ss)
      with 1 [OF False Cons] False show ?thesis by (auto simp: bufio_ReadBytes.simps [of buf] split: option.splits)
    qed
  qed
qed

text \<open>
  The framing of the wallet protocol is exact: whatever segments the lines of the server arrive in, the node receives just the complete lines of what was sent, in order;
  what follows the last end of line when the connection fails is dropped.
\<close>

theorem transport_lines_exact: "transport_listen [] segs = lines_of [] (concat segs)"
proof -
  have "transport_listen buf segs = lines_of [] (buf @ concat segs)" for buf
  proof (induction buf segs rule: transport_listen.induct)
    case (1 buf segs)
    from ReadBytes_lines [of buf segs] 1 show ?case
      by (subst transport_listen.simps) (auto split: option.splits)
  qed
  from this [of "[]"] show ?thesis by simp
qed

text \<open>
  \<open>Connect\<close> passes over a server only when the text of the dial's error is just that the host is unknown, or when its test timed out: when, after such servers, it comes to one whose
  dial fails with any other text (a refused connection, a timeout, or the text of the resolver, which names the host), the call fails, although a later server would have answered.
\<close>

theorem Connect_gives_up:
  assumes "shuffle addrs = before @ a # rest" "dial a = OpError t" "t \<noteq> ''no such host''"
    and "\<forall>b \<in> set before. dial b = OpError ''no such host'' \<or> dial b = Dialled \<and> tst b = Some wallet_ErrTimeout"
  shows "Node_Connect False shuffle dial tst addrs = Inl (Msg t)"
proof -
  have "connect_loop dial tst (before @ a # rest) = Inl (Msg t)"
    using assms(2-4) by (induction before) (auto simp: NewTransport_def wallet_ErrTimeout_def)
  with assms(1) show ?thesis by (simp add: Node_Connect_def)
qed

theorem Connect_gives_up_witness:
  "Node_Connect False id (\<lambda>a. if a = ''gone'' then OpError ''lookup gone: no such host'' else Dialled) (\<lambda>_. None) [''gone'', ''up''] = Inl (Msg ''lookup gone: no such host'')"
  using Connect_gives_up [of id "[''gone'', ''up'']" "[]" "''gone''" "[''up'']" "\<lambda>a. if a = ''gone'' then OpError ''lookup gone: no such host'' else Dialled" "''lookup gone: no such host''"]
  by simp

end
