(* ===== verification/Tcp_Server.thy ===== *)
theory Tcp_Server
  imports Reflector Peer
begin

text \<open>
  The life of the two TCP servers: \<open>Start\<close>, \<open>listenAndServe\<close>, the goroutines of a connection and \<open>Shutdown\<close> (src/reflector/server.go, src/server/peer/server.go), as the step
  relations \<open>reflector_step\<close> and \<open>peer_step\<close>. The label is \<open>True\<close> for a step of a goroutine of the server and \<open>False\<close> for what comes from outside: a client connects or sends,
  \<open>Accept\<close> fails for a while, \<open>Shutdown\<close> is called.

  A connection handler advances by turns: the handshake, and one message with its answer (the operations \<open>Server_doHandshake\<close>, \<open>receiveBlob\<close> and \<open>handleCompositeRequest\<close>), each on the
  shared store. Turns of different connections interleave in any order. A turn that finds no input waits in the code until more comes, or until the client closes or the deadline
  passes; taking the step is the second. \<open>sv_grp\<close> is the counter of the \<open>stop.Group\<close> with its \<open>Add\<close> and \<open>Done\<close> written out; \<open>StopAndWait\<close> closes its channel
  (\<open>sv_stopped\<close>) and returns at the counter 0. A panic in a goroutine ends the process (\<open>sv_crashed\<close>). The goroutine of the block list
  blocks hashes that come from outside (\<open>updateBlocklist\<close>) and returns at its select after a stop.
\<close>

section \<open>State\<close>

datatype conn_pc = CAccepted | CHandshake | CLoop | CEnd

text \<open>\<open>cn_closer\<close>: the goroutine that closes the connection is running.\<close>

record conn =
  cn_tcp :: tcp
  cn_pc :: conn_pc
  cn_closer :: bool
  cn_open :: bool

text \<open>\<open>sv_listener\<close>: the goroutine that closes the listener is running; \<open>sv_accepting\<close>: \<open>listenAndServe\<close> is running; \<open>sv_closed\<close>: the field \<open>closed\<close> of the peer server.\<close>

record 's tcp_server =
  sv_store :: 's
  sv_conns :: "conn list"
  sv_listening :: bool
  sv_listener :: bool
  sv_accepting :: bool
  sv_blocklist :: bool
  sv_closed :: bool
  sv_grp :: int
  sv_stopped :: bool
  sv_returned :: bool
  sv_crashed :: bool

definition NewServer :: "'s \<Rightarrow> 's tcp_server" where
  "NewServer s =
     \<lparr>sv_store = s, sv_conns = [], sv_listening = False, sv_listener = False, sv_accepting = False, sv_blocklist = False, sv_closed = False, sv_grp = 0,
      sv_stopped = False, sv_returned = False, sv_crashed = False\<rparr>"

definition new_conn :: "tcp \<Rightarrow> conn" where
  "new_conn t = \<lparr>cn_tcp = t, cn_pc = CAccepted, cn_closer = False, cn_open = True\<rparr>"

definition set_conn :: "nat \<Rightarrow> conn \<Rightarrow> 's tcp_server \<Rightarrow> 's tcp_server" where
  "set_conn i c u = u\<lparr>sv_conns := (sv_conns u)[i := c]\<rparr>"

definition is_conn :: "'s tcp_server \<Rightarrow> nat \<Rightarrow> conn \<Rightarrow> bool" where
  "is_conn u i c \<longleftrightarrow> \<not> sv_crashed u \<and> i < length (sv_conns u) \<and> sv_conns u ! i = c"

definition grp_Add :: "int \<Rightarrow> 's tcp_server \<Rightarrow> 's tcp_server" where
  "grp_Add n u = u\<lparr>sv_grp := sv_grp u + n\<rparr>"

abbreviation grp_Done :: "'s tcp_server \<Rightarrow> 's tcp_server" where
  "grp_Done \<equiv> grp_Add (- 1)"

text \<open>Calls on a connection that was closed on this side fail.\<close>

definition closed_err :: go_error where
  "closed_err = Msg ''use of closed network connection''"

definition close_tcp :: "tcp \<Rightarrow> tcp" where
  "close_tcp t = t\<lparr>tcp_in := [], tcp_end := closed_err, tcp_dfaults := [Some closed_err]\<rparr>"

section \<open>The reflector server\<close>

definition reflector_Start :: "'s reflector \<Rightarrow> bool \<Rightarrow> go_error option \<Rightarrow> 's tcp_server \<Rightarrow> go_error option \<times> 's tcp_server" where
  "reflector_Start srv EnableBlocklist listen_err u =
     (case listen_err of
        Some err \<Rightarrow> (Some err, u)
      | None \<Rightarrow>
          let u1 = grp_Add 1 (u\<lparr>sv_listening := True, sv_listener := True\<rparr>);
              u2 = grp_Add 1 (u1\<lparr>sv_accepting := True\<rparr>)
          in if EnableBlocklist then
               (case asBlocklister srv of
                  Some b \<Rightarrow> (None, grp_Add 1 (u2\<lparr>sv_blocklist := True\<rparr>))
                | None \<Rightarrow> (Some (Msg ''blocklist is enabled but blob store does not support blocklisting''), u2))
             else (None, u2))"

text \<open>The turns of \<open>handleConn\<close>: where it goes on, or that it returns. \<open>doError\<close> writes nothing to the connection.\<close>

fun reflector_turn :: "'s reflector \<Rightarrow> int \<Rightarrow> conn_pc \<Rightarrow> ('s \<times> tcp, conn_pc) op" where
  "reflector_turn srv maxBlobSize CHandshake = bnd (on_snd Server_doHandshake) (\<lambda>err. ret (if err = None then CLoop else CEnd))"
| "reflector_turn srv maxBlobSize CLoop = bnd (receiveBlob srv maxBlobSize) (\<lambda>err. ret (if err = None then CLoop else CEnd))"
| "reflector_turn srv maxBlobSize pc = ret pc"

definition after_turn :: "conn_pc \<Rightarrow> 's tcp_server \<Rightarrow> 's tcp_server" where
  "after_turn pc u = (if pc = CEnd then grp_Done u else u)"

text \<open>An error of \<open>Accept\<close>: the loop returns when the server is quitting and goes on otherwise.\<close>

definition accept_error :: "('s tcp_server \<Rightarrow> bool) \<Rightarrow> 's tcp_server \<Rightarrow> 's tcp_server" where
  "accept_error quitting u = (if quitting u then grp_Done (u\<lparr>sv_accepting := False\<rparr>) else u)"

inductive reflector_step :: "'s reflector \<Rightarrow> int \<Rightarrow> bool \<Rightarrow> 's tcp_server \<Rightarrow> 's tcp_server \<Rightarrow> bool"
  for srv :: "'s reflector" and maxBlobSize :: int where
  RConnects: "\<not> sv_crashed u \<Longrightarrow> sv_listening u \<Longrightarrow> sv_accepting u \<Longrightarrow>
     reflector_step srv maxBlobSize False u (grp_Add 1 (u\<lparr>sv_conns := sv_conns u @ [new_conn t]\<rparr>))"
| RSends: "is_conn u i c \<Longrightarrow> cn_open c \<Longrightarrow>
     reflector_step srv maxBlobSize False u (set_conn i (c\<lparr>cn_tcp := (cn_tcp c)\<lparr>tcp_in := tcp_in (cn_tcp c) @ [seg]\<rparr>\<rparr>) u)"
| RAcceptFails: "\<not> sv_crashed u \<Longrightarrow> sv_accepting u \<Longrightarrow> reflector_step srv maxBlobSize False u (accept_error sv_stopped u)"
| RStop: "\<not> sv_crashed u \<Longrightarrow> reflector_step srv maxBlobSize False u (u\<lparr>sv_stopped := True\<rparr>)"
| RListenerCloses: "\<not> sv_crashed u \<Longrightarrow> sv_listener u \<Longrightarrow> sv_stopped u \<Longrightarrow>
     reflector_step srv maxBlobSize True u (grp_Done (u\<lparr>sv_listening := False, sv_listener := False\<rparr>))"
| RAcceptEnds: "\<not> sv_crashed u \<Longrightarrow> sv_accepting u \<Longrightarrow> \<not> sv_listening u \<Longrightarrow> reflector_step srv maxBlobSize True u (accept_error sv_stopped u)"
| RHandles: "is_conn u i c \<Longrightarrow> cn_pc c = CAccepted \<Longrightarrow>
     reflector_step srv maxBlobSize True u (grp_Add 1 (set_conn i (c\<lparr>cn_pc := CHandshake, cn_closer := True\<rparr>) u))"
| RTurns: "is_conn u i c \<Longrightarrow> cn_pc c \<in> {CHandshake, CLoop} \<Longrightarrow> reflector_turn srv maxBlobSize (cn_pc c) (sv_store u, cn_tcp c) = (Ret pc, s, t) \<Longrightarrow>
     reflector_step srv maxBlobSize True u (after_turn pc (set_conn i (c\<lparr>cn_tcp := t, cn_pc := pc\<rparr>) (u\<lparr>sv_store := s\<rparr>)))"
| RPanics: "is_conn u i c \<Longrightarrow> cn_pc c \<in> {CHandshake, CLoop} \<Longrightarrow> reflector_turn srv maxBlobSize (cn_pc c) (sv_store u, cn_tcp c) = (Panic p, s, t) \<Longrightarrow>
     reflector_step srv maxBlobSize True u (u\<lparr>sv_store := s, sv_crashed := True\<rparr>)"
| RCloses: "is_conn u i c \<Longrightarrow> cn_closer c \<Longrightarrow> cn_pc c = CEnd \<or> sv_stopped u \<Longrightarrow>
     reflector_step srv maxBlobSize True u (grp_Done (set_conn i (c\<lparr>cn_tcp := close_tcp (cn_tcp c), cn_closer := False, cn_open := False\<rparr>) u))"
| RBlocks: "\<not> sv_crashed u \<Longrightarrow> sv_blocklist u \<Longrightarrow> asBlocklister srv = Some b \<Longrightarrow> bl_Block b h (sv_store u) = (Ret err, s) \<Longrightarrow>
     reflector_step srv maxBlobSize False u (u\<lparr>sv_store := s\<rparr>)"
| RBlockPanics: "\<not> sv_crashed u \<Longrightarrow> sv_blocklist u \<Longrightarrow> asBlocklister srv = Some b \<Longrightarrow> bl_Block b h (sv_store u) = (Panic p, s) \<Longrightarrow>
     reflector_step srv maxBlobSize False u (u\<lparr>sv_store := s, sv_crashed := True\<rparr>)"
| RBlocklistEnds: "\<not> sv_crashed u \<Longrightarrow> sv_blocklist u \<Longrightarrow> sv_stopped u \<Longrightarrow> reflector_step srv maxBlobSize True u (grp_Done (u\<lparr>sv_blocklist := False\<rparr>))"
| RReturns: "\<not> sv_crashed u \<Longrightarrow> sv_stopped u \<Longrightarrow> sv_grp u = 0 \<Longrightarrow> \<not> sv_returned u \<Longrightarrow> reflector_step srv maxBlobSize True u (u\<lparr>sv_returned := True\<rparr>)"

definition reflector_any :: "'s reflector \<Rightarrow> int \<Rightarrow> 's tcp_server \<Rightarrow> 's tcp_server \<Rightarrow> bool" where
  "reflector_any srv maxBlobSize u u' \<longleftrightarrow> (\<exists>l. reflector_step srv maxBlobSize l u u')"

section \<open>The peer server\<close>

definition peer_Start :: "go_error option \<Rightarrow> 's tcp_server \<Rightarrow> go_error option \<times> 's tcp_server" where
  "peer_Start listen_err u =
     (case listen_err of
        Some err \<Rightarrow> (Some err, u)
      | None \<Rightarrow> (None, grp_Add 1 (u\<lparr>sv_listening := True, sv_listener := True, sv_accepting := True\<rparr>)))"

text \<open>One round of the loop of \<open>handleConnection\<close>.\<close>

definition peer_turn :: "nat \<Rightarrow> 's BlobStore \<Rightarrow> call_env \<Rightarrow> ('s \<times> tcp, conn_pc) op" where
  "peer_turn hexLen store e z =
     (case z of (s, c) \<Rightarrow>
      case readNextMessage (snd (conn_SetDeadline c)) of ((request, err), c1) \<Rightarrow>
      if err \<noteq> None then (Ret CEnd, s, c1)
      else
        let c2 = snd (conn_SetDeadline c1) in
        (case handleCompositeRequest hexLen store e request s of
           (Panic p, s') \<Rightarrow> (Panic p, s', c2)
         | (Ret (Inl err), s') \<Rightarrow> (Ret CEnd, s', c2)
         | (Ret (Inr response), s') \<Rightarrow>
             (case conn_Write response (snd (conn_SetDeadline c2)) of ((n, err), c3) \<Rightarrow>
              if err \<noteq> None \<or> n \<noteq> length response then (Ret CEnd, s', c3)
              else (Ret CLoop, s', snd (conn_SetDeadline c3)))))"

text \<open>
  \<open>listenForShutdown\<close> is not counted by the group. A connection is closed by its handler only, when it returns.
\<close>

inductive peer_step :: "nat \<Rightarrow> 's BlobStore \<Rightarrow> bool \<Rightarrow> 's tcp_server \<Rightarrow> 's tcp_server \<Rightarrow> bool"
  for hexLen :: nat and store :: "'s BlobStore" where
  PConnects: "\<not> sv_crashed u \<Longrightarrow> sv_listening u \<Longrightarrow> sv_accepting u \<Longrightarrow>
     peer_step hexLen store False u (grp_Add 1 (u\<lparr>sv_conns := sv_conns u @ [(new_conn t)\<lparr>cn_pc := CLoop\<rparr>]\<rparr>))"
| PSends: "is_conn u i c \<Longrightarrow> cn_open c \<Longrightarrow>
     peer_step hexLen store False u (set_conn i (c\<lparr>cn_tcp := (cn_tcp c)\<lparr>tcp_in := tcp_in (cn_tcp c) @ [seg]\<rparr>\<rparr>) u)"
| PAcceptFails: "\<not> sv_crashed u \<Longrightarrow> sv_accepting u \<Longrightarrow> peer_step hexLen store False u (accept_error sv_closed u)"
| PStop: "\<not> sv_crashed u \<Longrightarrow> peer_step hexLen store False u (u\<lparr>sv_stopped := True\<rparr>)"
| PSetsClosed: "\<not> sv_crashed u \<Longrightarrow> sv_listener u \<Longrightarrow> sv_stopped u \<Longrightarrow> \<not> sv_closed u \<Longrightarrow> peer_step hexLen store True u (u\<lparr>sv_closed := True\<rparr>)"
| PListenerCloses: "\<not> sv_crashed u \<Longrightarrow> sv_listener u \<Longrightarrow> sv_closed u \<Longrightarrow> peer_step hexLen store True u (u\<lparr>sv_listening := False, sv_listener := False\<rparr>)"
| PAcceptEnds: "\<not> sv_crashed u \<Longrightarrow> sv_accepting u \<Longrightarrow> \<not> sv_listening u \<Longrightarrow> peer_step hexLen store True u (accept_error sv_closed u)"
| PTurns: "is_conn u i c \<Longrightarrow> cn_pc c = CLoop \<Longrightarrow> peer_turn hexLen store e (sv_store u, cn_tcp c) = (Ret pc, s, t) \<Longrightarrow>
     peer_step hexLen store True u
       (after_turn pc (set_conn i (c\<lparr>cn_tcp := (if pc = CEnd then close_tcp t else t), cn_pc := pc, cn_open := (pc \<noteq> CEnd)\<rparr>) (u\<lparr>sv_store := s\<rparr>)))"
| PPanics: "is_conn u i c \<Longrightarrow> cn_pc c = CLoop \<Longrightarrow> peer_turn hexLen store e (sv_store u, cn_tcp c) = (Panic p, s, t) \<Longrightarrow>
     peer_step hexLen store True u (u\<lparr>sv_store := s, sv_crashed := True\<rparr>)"
| PReturns: "\<not> sv_crashed u \<Longrightarrow> sv_stopped u \<Longrightarrow> sv_grp u = 0 \<Longrightarrow> \<not> sv_returned u \<Longrightarrow> peer_step hexLen store True u (u\<lparr>sv_returned := True\<rparr>)"

definition peer_any :: "nat \<Rightarrow> 's BlobStore \<Rightarrow> 's tcp_server \<Rightarrow> 's tcp_server \<Rightarrow> bool" where
  "peer_any hexLen store u u' \<longleftrightarrow> (\<exists>l. peer_step hexLen store l u u')"

end
