(* ===== verification/Tcp_Server_Correct.thy ===== *)
theory Tcp_Server_Correct
  imports Tcp_Server Reflector_Correct Peer_Correct
begin

text \<open>
  The two TCP servers over all interleavings of their goroutines and clients: the counter of the group is the number of goroutines that run, \<open>Shutdown\<close> of the reflector server
  returns and leaves nothing behind, and whatever holds of the store through every turn of a connection holds of the running server. \<open>Shutdown\<close> of the peer server waits for its
  clients.
\<close>

section \<open>The counter of the group\<close>

definition conn_live :: "conn \<Rightarrow> int" where
  "conn_live c = of_bool (cn_pc c \<noteq> CEnd) + of_bool (cn_closer c)"

definition conns_live :: "'s tcp_server \<Rightarrow> int" where
  "conns_live u = sum_list (map conn_live (sv_conns u))"

lemma conn_live_nonneg: "0 \<le> conn_live c"
  by (simp add: conn_live_def)

lemma conns_live_nonneg: "0 \<le> conns_live u"
  by (auto simp: conns_live_def intro!: sum_list_nonneg conn_live_nonneg)

lemma conns_live_zero: "conns_live u = 0 \<Longrightarrow> c \<in> set (sv_conns u) \<Longrightarrow> conn_live c = 0"
  using sum_list_nonneg_eq_0_iff [of "map conn_live (sv_conns u)"] conn_live_nonneg by (force simp: conns_live_def)

lemma conns_live_ex:
  assumes "conns_live u \<noteq> 0"
  obtains c where "c \<in> set (sv_conns u)" "conn_live c \<noteq> 0"
proof -
  have "(\<forall>c \<in> set cs. conn_live c = 0) \<Longrightarrow> sum_list (map conn_live cs) = 0" for cs by (induction cs) auto
  with assms that show thesis by (auto simp: conns_live_def)
qed

lemma grp_Add_0 [simp]: "grp_Add 0 u = u"
  by (simp add: grp_Add_def)

lemma conns_live_set:
  assumes "is_conn u i c"
  shows "conns_live (set_conn i c' u) = conns_live u - conn_live c + conn_live c'"
  using sum_list_change [of i "sv_conns u" conn_live c'] assms by (auto simp: is_conn_def conns_live_def set_conn_def)

lemma set_conn_simps [simp]:
  "sv_store (set_conn i c u) = sv_store u" "sv_listening (set_conn i c u) = sv_listening u" "sv_listener (set_conn i c u) = sv_listener u"
  "sv_accepting (set_conn i c u) = sv_accepting u" "sv_blocklist (set_conn i c u) = sv_blocklist u" "sv_closed (set_conn i c u) = sv_closed u"
  "sv_grp (set_conn i c u) = sv_grp u" "sv_stopped (set_conn i c u) = sv_stopped u" "sv_returned (set_conn i c u) = sv_returned u"
  "sv_crashed (set_conn i c u) = sv_crashed u" "sv_conns (set_conn i c u) = (sv_conns u)[i := c]"
  by (simp_all add: set_conn_def)

lemma grp_Add_simps [simp]:
  "sv_store (grp_Add n u) = sv_store u" "sv_listening (grp_Add n u) = sv_listening u" "sv_listener (grp_Add n u) = sv_listener u"
  "sv_accepting (grp_Add n u) = sv_accepting u" "sv_blocklist (grp_Add n u) = sv_blocklist u" "sv_closed (grp_Add n u) = sv_closed u"
  "sv_grp (grp_Add n u) = sv_grp u + n" "sv_stopped (grp_Add n u) = sv_stopped u" "sv_returned (grp_Add n u) = sv_returned u"
  "sv_crashed (grp_Add n u) = sv_crashed u" "sv_conns (grp_Add n u) = sv_conns u" "conns_live (grp_Add n u) = conns_live u"
  by (simp_all add: grp_Add_def conns_live_def)

lemma conns_live_upd [simp]:
  "conns_live (u\<lparr>sv_store := s\<rparr>) = conns_live u" "conns_live (u\<lparr>sv_listening := b\<rparr>) = conns_live u" "conns_live (u\<lparr>sv_listener := b\<rparr>) = conns_live u"
  "conns_live (u\<lparr>sv_accepting := b\<rparr>) = conns_live u" "conns_live (u\<lparr>sv_blocklist := b\<rparr>) = conns_live u" "conns_live (u\<lparr>sv_closed := b\<rparr>) = conns_live u"
  "conns_live (u\<lparr>sv_stopped := b\<rparr>) = conns_live u" "conns_live (u\<lparr>sv_returned := b\<rparr>) = conns_live u" "conns_live (u\<lparr>sv_crashed := b\<rparr>) = conns_live u"
  "conns_live (u\<lparr>sv_conns := sv_conns u @ [c]\<rparr>) = conns_live u + conn_live c"
  by (simp_all add: conns_live_def)

lemma is_conn_store [simp]: "is_conn (u\<lparr>sv_store := s\<rparr>) i c = is_conn u i c"
  by (simp add: is_conn_def)

section \<open>The reflector server\<close>

text \<open>
  A connection is open until its closer has closed it. The listener is open as long as the goroutine that closes it runs, which ends after a stop only.
\<close>

definition rconn_ok :: "conn \<Rightarrow> bool" where
  "rconn_ok c \<longleftrightarrow> cn_open c = (cn_pc c = CAccepted \<or> cn_closer c) \<and> (cn_pc c = CAccepted \<longrightarrow> \<not> cn_closer c)"

definition reflector_inv :: "'s tcp_server \<Rightarrow> bool" where
  "reflector_inv u \<longleftrightarrow>
     sv_grp u = of_bool (sv_listener u) + of_bool (sv_accepting u) + of_bool (sv_blocklist u) + conns_live u
     \<and> sv_listening u = sv_listener u \<and> (sv_accepting u \<and> \<not> sv_listening u \<longrightarrow> sv_stopped u)
     \<and> (\<forall>c \<in> set (sv_conns u). rconn_ok c)
     \<and> (sv_returned u \<longrightarrow> \<not> sv_listener u \<and> \<not> sv_accepting u \<and> \<not> sv_blocklist u \<and> conns_live u = 0)"

lemma group_zero: "of_bool a + of_bool b + of_bool c + conns_live u = (0 :: int) \<Longrightarrow> \<not> a \<and> \<not> b \<and> \<not> c \<and> conns_live u = 0"
  using conns_live_nonneg [of u] by (cases a; cases b; cases c) auto

lemma reflector_inv_start: "reflector_Start srv bl err (NewServer s) = (r, u) \<Longrightarrow> reflector_inv u"
  by (auto simp: reflector_Start_def NewServer_def reflector_inv_def conns_live_def Let_def grp_Add_def split: option.splits if_splits)

lemma rconn_ok_at: "reflector_inv u \<Longrightarrow> is_conn u i c \<Longrightarrow> rconn_ok c"
  by (auto simp: reflector_inv_def is_conn_def)

lemma reflector_inv_set:
  assumes "reflector_inv u" "is_conn u i c" "rconn_ok c'" "conn_live c = conn_live c' + n" "0 < conn_live c"
  shows "reflector_inv (grp_Add (- n) (set_conn i c' (u\<lparr>sv_store := s\<rparr>)))"
proof -
  have "\<forall>x \<in> set ((sv_conns u)[i := c']). rconn_ok x"
    using assms(1,3) set_update_subset_insert [of "sv_conns u" i c'] by (auto simp: reflector_inv_def)
  moreover have "\<not> sv_returned u"
  proof
    assume "sv_returned u"
    with assms(1) have "conns_live u = 0" by (simp add: reflector_inv_def)
    with assms(2) have "conn_live c = 0" by (auto simp: is_conn_def dest!: conns_live_zero)
    with assms(5) show False by simp
  qed
  ultimately show ?thesis using assms(1,2,4) conns_live_set [of "u\<lparr>sv_store := s\<rparr>" i c c'] by (auto simp: reflector_inv_def)
qed

lemma turn_pc: "reflector_turn srv m pc z = (Ret pc', z') \<Longrightarrow> pc \<in> {CHandshake, CLoop} \<Longrightarrow> pc' \<in> {CLoop, CEnd}"
  by (cases pc) (auto simp: ret_def elim!: bnd_RetE split: if_splits)

lemma set_conn_same_store: "set_conn i c u = set_conn i c (u\<lparr>sv_store := sv_store u\<rparr>)"
  by simp

lemma reflector_step_inv: "reflector_step srv m l u u' \<Longrightarrow> reflector_inv u \<Longrightarrow> reflector_inv u'"
proof (induction rule: reflector_step.induct)
  case (RConnects u t)
  then show ?case by (auto simp: reflector_inv_def rconn_ok_def new_conn_def conn_live_def)
next
  case (RSends u i c seg)
  from RSends have "rconn_ok c" by (blast intro: rconn_ok_at)
  with reflector_inv_set [OF RSends(3,1), of "c\<lparr>cn_tcp := (cn_tcp c)\<lparr>tcp_in := tcp_in (cn_tcp c) @ [seg]\<rparr>\<rparr>" 0 "sv_store u"] RSends(2) show ?case
    by (auto simp: rconn_ok_def conn_live_def)
next
  case (RHandles u i c)
  from RHandles have "rconn_ok c" by (blast intro: rconn_ok_at)
  with reflector_inv_set [OF RHandles(3,1), of "c\<lparr>cn_pc := CHandshake, cn_closer := True\<rparr>" "-1" "sv_store u"] RHandles(2) show ?case
    by (auto simp: rconn_ok_def conn_live_def)
next
  case (RTurns u i c pc s t)
  from RTurns have "rconn_ok c" by (blast intro: rconn_ok_at)
  moreover from RTurns turn_pc have "pc \<in> {CLoop, CEnd}" by blast
  ultimately show ?case
    using reflector_inv_set [OF RTurns(4,1), of "c\<lparr>cn_tcp := t, cn_pc := pc\<rparr>" "of_bool (pc = CEnd)" s] RTurns(2)
    by (auto simp: rconn_ok_def conn_live_def after_turn_def)
next
  case (RCloses u i c)
  from RCloses have "rconn_ok c" by (blast intro: rconn_ok_at)
  with reflector_inv_set [OF RCloses(4,1), of "c\<lparr>cn_tcp := close_tcp (cn_tcp c), cn_closer := False, cn_open := False\<rparr>" 1 "sv_store u"] RCloses(2) show ?case
    by (auto simp: rconn_ok_def conn_live_def)
next
  case (RReturns u)
  with group_zero [of "sv_listener u" "sv_accepting u" "sv_blocklist u" u] show ?case by (auto simp: reflector_inv_def)
qed (auto simp: reflector_inv_def accept_error_def)

lemma reflector_run_inv:
  assumes "reflector_Start srv bl err (NewServer s) = (r, u0)" "(reflector_any srv m)\<^sup>*\<^sup>* u0 u"
  shows "reflector_inv u"
  using assms(2) by (induction rule: rtranclp_induct) (auto simp: reflector_inv_start [OF assms(1)] reflector_any_def dest: reflector_step_inv)

section \<open>Shutdown of the reflector server\<close>

lemma reflector_progress:
  assumes inv: "reflector_inv u" and "sv_stopped u" "\<not> sv_crashed u" "\<not> sv_returned u"
  shows "\<exists>u'. reflector_step srv m True u u'"
proof (cases "sv_grp u = 0")
  case True
  with assms show ?thesis by (blast intro: RReturns)
next
  case False
  then consider "sv_listener u" | "\<not> sv_listener u" "sv_accepting u" | "sv_blocklist u" | "conns_live u \<noteq> 0"
    using inv by (cases "sv_listener u"; cases "sv_accepting u"; cases "sv_blocklist u") (auto simp: reflector_inv_def)
  then show ?thesis
  proof cases
    case 4
    then obtain c where c: "c \<in> set (sv_conns u)" "conn_live c \<noteq> 0" by (rule conns_live_ex)
    then obtain i where i: "is_conn u i c" using assms(3) by (auto simp: is_conn_def in_set_conv_nth)
    obtain out s t where t: "reflector_turn srv m (cn_pc c) (sv_store u, cn_tcp c) = (out, s, t)" by (metis surj_pair)
    from c(2) consider "cn_closer c" | "cn_pc c = CAccepted" | "cn_pc c \<in> {CHandshake, CLoop}"
      by (cases "cn_pc c") (auto simp: conn_live_def)
    then show ?thesis using i assms(2) t by cases (cases out; blast intro: RCloses RHandles RTurns RPanics)+
  qed (use assms inv in \<open>auto simp: reflector_inv_def intro: RListenerCloses RAcceptEnds RBlocklistEnds\<close>)
qed

fun pc_rank :: "conn_pc \<Rightarrow> nat" where
  "pc_rank CAccepted = 4"
| "pc_rank CHandshake = 2"
| "pc_rank CLoop = 1"
| "pc_rank CEnd = 0"

definition rconn_rank :: "conn \<Rightarrow> nat" where
  "rconn_rank c = tsize (cn_tcp c) + pc_rank (cn_pc c) + of_bool (cn_closer c)"

definition reflector_rank :: "'s tcp_server \<Rightarrow> nat" where
  "reflector_rank u = sum_list (map rconn_rank (sv_conns u)) + of_bool (sv_listener u) + of_bool (sv_accepting u) + of_bool (sv_blocklist u)
     + of_bool (\<not> sv_returned u) + of_bool (\<not> sv_crashed u)"

lemma rank_set_conn:
  assumes "is_conn u i c" "rconn_rank c' < rconn_rank c"
  shows "reflector_rank (set_conn i c' (u\<lparr>sv_store := s\<rparr>)) < reflector_rank u"
  using sum_list_change [of i "sv_conns u" rconn_rank c'] assms by (auto simp: is_conn_def reflector_rank_def)

lemma reflector_rank_grp [simp]: "reflector_rank (grp_Add n u) = reflector_rank u"
  by (simp add: reflector_rank_def)

lemma shrinks_read: "shrinks (\<lambda>c. c) (Server_read dec)"
  unfolding Server_read_def by (auto split: option.split prod.splits intro!: shrinks_intros shrinks_io) (metis Decode_shrinks)

lemma shrinks_handshake: "shrinks (\<lambda>c. c) Server_doHandshake"
  unfolding Server_doHandshake_def by (auto split: option.split sum.split intro!: shrinks_intros shrinks_read)

lemma shrinks_request: "shrinks (\<lambda>c. c) (readBlobRequest m)"
  unfolding readBlobRequest_def by (auto simp: Let_def split: sum.split intro!: shrinks_intros shrinks_read)

lemma turn_rank:
  assumes "reflector_turn srv m pc (s, t) = (Ret pc', s', t')" "pc \<in> {CHandshake, CLoop}"
  shows "tsize t' + pc_rank pc' < tsize t + pc_rank pc"
  using assms shrinksD [OF shrinks_on_snd [OF shrinks_handshake], of "(s, t)"]
proof (cases pc)
  case CHandshake
  with assms obtain err where "on_snd Server_doHandshake (s, t) = (Ret err, s', t')" "pc' \<in> {CLoop, CEnd}" by (auto simp: ret_def elim!: bnd_RetE split: if_splits)
  with shrinksD [OF shrinks_on_snd [OF shrinks_handshake], of "(s, t)"] CHandshake show ?thesis by fastforce
next
  case CLoop
  with assms obtain err where e: "receiveBlob srv m (s, t) = (Ret err, s', t')" "pc' = (if err = None then CLoop else CEnd)"
    by (auto simp: ret_def elim!: bnd_RetE split: if_splits)
  have "shrinks snd (receiveBlob srv m)"
    unfolding receiveBlob_def by (auto split: sum.split prod.split intro!: shrinks_intros shrinks_request)
  with e CLoop receiveBlob_takes [of srv m "(s, t)" "(s', t')"] show ?thesis by (auto dest: shrinksD)
qed auto

lemma tsize_close [simp]: "tsize (close_tcp t) = 0"
  by (simp add: close_tcp_def tsize_def)

lemma reflector_step_rank:
  assumes "reflector_step srv m True u u'" "reflector_inv u"
  shows "reflector_rank u' < reflector_rank u"
  using assms
proof (cases rule: reflector_step.cases)
  case (RHandles i c)
  with rank_set_conn [of u i c "c\<lparr>cn_pc := CHandshake, cn_closer := True\<rparr>" "sv_store u"] rconn_ok_at [OF assms(2) RHandles(2)] show ?thesis
    by (auto simp: rconn_rank_def rconn_ok_def)
next
  case (RTurns i c pc s t)
  with rank_set_conn [of u i c "c\<lparr>cn_tcp := t, cn_pc := pc\<rparr>" s] turn_rank [OF RTurns(4,3)] show ?thesis
    by (auto simp: rconn_rank_def after_turn_def)
next
  case (RCloses i c)
  with rank_set_conn [of u i c "c\<lparr>cn_tcp := close_tcp (cn_tcp c), cn_closer := False, cn_open := False\<rparr>" "sv_store u"] show ?thesis
    by (auto simp: rconn_rank_def)
qed (auto simp: reflector_rank_def reflector_inv_def accept_error_def is_conn_def)

lemma reflector_finished:
  assumes "reflector_inv u" "sv_returned u"
  shows "\<not> sv_listening u \<and> \<not> sv_accepting u \<and> \<not> sv_blocklist u \<and> (\<forall>c \<in> set (sv_conns u). cn_pc c = CEnd \<and> \<not> cn_open c)"
proof -
  from assms have z: "\<not> sv_listener u" "\<not> sv_accepting u" "\<not> sv_blocklist u" "conns_live u = 0" by (simp_all add: reflector_inv_def)
  have "cn_pc c = CEnd \<and> \<not> cn_open c" if "c \<in> set (sv_conns u)" for c
    using conns_live_zero [OF z(4) that] assms(1) that by (auto simp: reflector_inv_def rconn_ok_def conn_live_def of_bool_def split: if_splits)
  with z assms(1) show ?thesis by (auto simp: reflector_inv_def)
qed

lemma reflector_ended:
  assumes "reflector_inv u" "sv_returned u \<or> sv_crashed u"
  shows "\<not> reflector_step srv m True u u'"
proof
  assume "reflector_step srv m True u u'"
  then show False
  proof (cases rule: reflector_step.cases)
    case (RCloses i c)
    with assms conns_live_zero [of u c] show ?thesis using reflector_finished [OF assms(1)] by (auto simp: is_conn_def reflector_inv_def rconn_ok_def)
  qed (use assms reflector_finished [OF assms(1)] in \<open>auto simp: is_conn_def reflector_inv_def\<close>)
qed



section \<open>The store of a running server\<close>

lemma turn_keeps:
  assumes "put_ok I Q m srv" "ask_ok I Q srv"
  shows "keeps_ret (\<lambda>z. I (fst z)) (\<lambda>_. True) (reflector_turn srv m pc)"
  using receiveBlob_keeps [OF assms] by (cases pc) (auto intro!: keeps_ret_ret keeps_ret_bnd keeps_snd)

lemma reflector_step_keeps:
  assumes ok: "put_ok I Q m srv" "ask_ok I Q srv" and bl: "\<And>b h. asBlocklister srv = Some b \<Longrightarrow> keeps_ret I (\<lambda>_. True) (bl_Block b h)"
    and "reflector_step srv m l u u'" "I (sv_store u)"
  shows "I (sv_store u')"
  using assms(4,5)
proof (cases rule: reflector_step.cases)
  case (RTurns i c pc s t)
  with keeps_retD [OF turn_keeps [OF ok] _ RTurns(5)] assms(5) show ?thesis by (auto simp: after_turn_def)
next
  case (RPanics i c p s t)
  with keeps_retD [OF turn_keeps [OF ok] _ RPanics(5)] assms(5) show ?thesis by auto
next
  case (RBlocks b h err s)
  with keeps_retD [OF bl [OF RBlocks(5)] assms(5)] show ?thesis by auto
next
  case (RBlockPanics b h p s)
  with keeps_retD [OF bl [OF RBlockPanics(5)] assms(5)] show ?thesis by auto
qed (auto simp: accept_error_def)

lemma reflector_run_keeps:
  assumes "put_ok I Q m srv" "ask_ok I Q srv" "\<And>b h. asBlocklister srv = Some b \<Longrightarrow> keeps_ret I (\<lambda>_. True) (bl_Block b h)"
    and "(reflector_any srv m)\<^sup>*\<^sup>* u0 u" "I (sv_store u0)"
  shows "I (sv_store u)"
  using assms(4)
proof (induction rule: rtranclp_induct)
  case (step y z)
  then obtain l where "reflector_step srv m l y z" by (auto simp: reflector_any_def)
  from reflector_step_keeps [OF assms(1,2) _ this] assms(3) step(3) show ?case by blast
qed (rule assms(5))

lemma Start_store: "reflector_Start srv bl err (NewServer s) = (r, u) \<Longrightarrow> sv_store u = s"
  by (auto simp: reflector_Start_def NewServer_def Let_def grp_Add_def split: option.splits if_splits)

text \<open>
  C3. The running server stores only verified blobs: with any number of clients whose messages interleave in any order, with the block list being updated and the server being stopped
  in between, and whatever calls fail or panic, the store behind the database holds only non-empty blobs of at most \<open>maxBlobSize\<close> bytes under their own SHA-384.
\<close>

theorem reflector_server_stores_only_verified:
  assumes "safe_store inner I (\<lambda>h b. BlobHash b = h \<and> b \<noteq> [] \<and> int (length b) \<le> maxBlobSize)" "I (dbs_blobs d)"
    and "reflector_Start (db_reflector deleteOnMiss dup inner) EnableBlocklist listen_err (NewServer d) = (r, u0)"
    and "(reflector_any (db_reflector deleteOnMiss dup inner) maxBlobSize)\<^sup>*\<^sup>* u0 u"
  shows "I (dbs_blobs (sv_store u))"
proof -
  have safe: "safe_store.dbs_safe I = (\<lambda>d. I (dbs_blobs d))" by (rule ext) (simp add: safe_store.dbs_safe_def [OF assms(1)])
  have ok: "put_ok (\<lambda>d. I (dbs_blobs d)) (\<lambda>_. True) maxBlobSize (db_reflector deleteOnMiss dup inner)"
    "ask_ok (\<lambda>d. I (dbs_blobs d)) (\<lambda>_. True) (db_reflector deleteOnMiss dup inner)"
    using safe_store.db_reflector_ok [OF assms(1), where m = maxBlobSize] unfolding safe by auto
  have "keeps_ret (\<lambda>d. I (dbs_blobs d)) (\<lambda>_. True) (bl_Block b h)" if "asBlocklister (db_reflector deleteOnMiss dup inner) = Some b" for b h
    using that safe_store.ds_Block [OF assms(1), unfolded safe] by (auto simp: db_reflector_def DBBackedStore_blocklister_def)
  from reflector_run_keeps [OF ok this assms(4)] show ?thesis using assms(2) Start_store [OF assms(3)] by simp
qed

theorem reflector_server_stores_only_verified_witness:
  "\<exists>u. (reflector_any (db_reflector True (\<lambda>i. i) MemStore_ops) 100)\<^sup>*\<^sup>*
       (snd (reflector_Start (db_reflector True (\<lambda>i. i) MemStore_ops) True None (NewServer (NewDBBackedStore NewMemStore (empty_db TrackAccessBlobs []))))) u
     \<and> length (sv_conns u) = 1 \<and> mem_good (\<lambda>h b. BlobHash b = h \<and> b \<noteq> [] \<and> int (length b) \<le> 100) (dbs_blobs (sv_store u))"
proof -
  let ?srv = "db_reflector True (\<lambda>i. i) MemStore_ops" and ?d = "NewDBBackedStore NewMemStore (empty_db TrackAccessBlobs [])"
  let ?u = "snd (reflector_Start ?srv True None (NewServer ?d))"
  have s: "\<not> sv_crashed ?u" "sv_listening ?u" "sv_accepting ?u" "sv_conns ?u = []" by (simp_all add: reflector_Start_def NewServer_def Let_def grp_Add_def db_reflector_def)
  let ?v = "grp_Add 1 (?u\<lparr>sv_conns := sv_conns ?u @ [new_conn (tcp_of [''junk''])]\<rparr>)"
  have v: "reflector_any ?srv 100 ?u ?v" "length (sv_conns ?v) = 1" unfolding reflector_any_def using RConnects [OF s(1-3)] s(4) by (blast, simp)
  have good: "mem_good (\<lambda>h b. BlobHash b = h \<and> b \<noteq> [] \<and> int (length b) \<le> 100) (dbs_blobs ?d)" by (simp add: mem_good_def NewDBBackedStore_def NewMemStore_def)
  have st: "reflector_Start ?srv True None (NewServer ?d) = (fst (reflector_Start ?srv True None (NewServer ?d)), ?u)" by simp
  from v(1) have "(reflector_any ?srv 100)\<^sup>*\<^sup>* ?u ?v" by (rule r_into_rtranclp)
  with reflector_server_stores_only_verified [OF mem_safe.safe_store_axioms good st this] v(2) show ?thesis by blast
qed

lemma run_never_stores_blocked:
  assumes safe: "safe_store inner I (\<lambda>g b. g \<noteq> h)" and "is_blocked h (sv_store u)" "I (dbs_blobs (sv_store u))"
    and "(reflector_any (db_reflector del dup inner) m)\<^sup>*\<^sup>* u u'"
  shows "is_blocked h (sv_store u') \<and> I (dbs_blobs (sv_store u'))"
proof -
  have ds: "safe_store.dbs_safe I = (\<lambda>d. I (dbs_blobs d))" by (rule ext) (simp add: safe_store.dbs_safe_def [OF safe])
  have "keeps_ret (\<lambda>d. is_blocked h d \<and> I (dbs_blobs d)) (\<lambda>_. True) (bl_Block b g)" if "asBlocklister (db_reflector del dup inner) = Some b" for b g
    using that keeps_conj [OF kb_Block safe_store.ds_Block [OF safe, unfolded ds]] by (auto simp: db_reflector_def DBBackedStore_blocklister_def)
  from reflector_run_keeps [OF blocked_ok [OF safe] this assms(4)] assms(2,3) show ?thesis by blast
qed



section \<open>Turns and handlers\<close>

text \<open>The turns of a connection, one after the other, are \<open>handleConn\<close> and \<open>handleConnection\<close>.\<close>

inductive turns :: "(conn_pc \<Rightarrow> 's \<times> tcp \<Rightarrow> conn_pc \<Rightarrow> 's \<times> tcp \<Rightarrow> bool) \<Rightarrow> conn_pc \<Rightarrow> 's \<times> tcp \<Rightarrow> 's \<times> tcp \<Rightarrow> bool"
  for turn :: "conn_pc \<Rightarrow> 's \<times> tcp \<Rightarrow> conn_pc \<Rightarrow> 's \<times> tcp \<Rightarrow> bool" where
  turns_end: "turns turn CEnd z z"
| turns_step: "turn pc z pc' z1 \<Longrightarrow> turns turn pc' z1 z' \<Longrightarrow> turns turn pc z z'"

lemma receiveBlobs_turns:
  "receiveBlobs srv m z = (Ret err, z') \<Longrightarrow> turns (\<lambda>pc z pc' z'. reflector_turn srv m pc z = (Ret pc', z')) CLoop z z'"
proof (induction srv m z rule: receiveBlobs.induct)
  case (1 srv m z)
  obtain out z1 where o: "receiveBlob srv m z = (out, z1)" by (cases "receiveBlob srv m z")
  with 1 show ?case
    by (cases out) (auto simp: receiveBlobs.simps [of srv m z] ret_def split: option.splits intro: turns_step turns_end)
qed

lemma handleConn_turns:
  assumes "handleConn srv m z = (Ret err, z')"
  shows "turns (\<lambda>pc z pc' z'. reflector_turn srv m pc z = (Ret pc', z')) CHandshake z z'"
proof -
  from assms obtain e z1 where h: "on_snd Server_doHandshake z = (Ret e, z1)" and
    r: "(case e of Some err \<Rightarrow> ret err | None \<Rightarrow> receiveBlobs srv m) z1 = (Ret err, z')" by (auto simp: handleConn_def elim: bnd_RetE)
  show ?thesis
  proof (rule turns_step)
    show "reflector_turn srv m CHandshake z = (Ret (if e = None then CLoop else CEnd), z1)" using h by (simp add: ret_def)
    show "turns (\<lambda>pc z pc' z'. reflector_turn srv m pc z = (Ret pc', z')) (if e = None then CLoop else CEnd) z1 z'"
      using r by (cases e) (auto simp: ret_def intro: turns_end receiveBlobs_turns)
  qed
qed

lemma peer_turn_takes:
  assumes "peer_turn hexLen store e (s, c) = (Ret CLoop, s', c')"
  shows "length (buf_bytes c') < length (buf_bytes c)"
proof -
  obtain request err c1 where r: "readNextMessage (snd (conn_SetDeadline c)) = ((request, err), c1)" by (metis surj_pair)
  with assms have n: "err = None" by (auto simp: peer_turn_def split: if_splits)
  have "length (buf_bytes c1) < length (buf_bytes c)"
    using readMore_consumes [of "[]" "snd (conn_SetDeadline c)" request c1] r n by (simp add: readNextMessage_def buf_bytes_def)
  moreover have "buf_bytes c' = buf_bytes c1"
    using assms r n by (auto simp: peer_turn_def Let_def buf_bytes_def split: prod.splits outcome.splits sum.splits if_splits dest!: sym [of _ "conn_Write _ _"])
  ultimately show ?thesis by simp
qed

lemma handleConnection_turn:
  "handleConnection hexLen store e z =
     (case peer_turn hexLen store (env_l e) z of
        (Panic p, z') \<Rightarrow> (Panic p, z')
      | (Ret pc, z') \<Rightarrow> if pc = CEnd then (Ret (), z') else handleConnection hexLen store (env_r e) z')"
  by (cases z) (auto simp: handleConnection.simps [of hexLen store e] peer_turn_def Let_def split: prod.splits outcome.splits sum.splits)

lemma peer_turn_pc: "peer_turn hexLen store e z = (Ret pc, z') \<Longrightarrow> pc = CLoop \<or> pc = CEnd"
  by (cases z) (auto simp: peer_turn_def Let_def split: prod.splits outcome.splits sum.splits if_splits)

lemma handleConnection_turns:
  "handleConnection hexLen store e z = (Ret (), z') \<Longrightarrow> turns (\<lambda>pc z pc' z'. pc = CLoop \<and> (\<exists>e. peer_turn hexLen store e z = (Ret pc', z'))) CLoop z z'"
proof (induction "length (buf_bytes (snd z))" arbitrary: e z rule: less_induct)
  case less
  obtain pc z1 where t: "peer_turn hexLen store (env_l e) z = (Ret pc, z1)" and r: "if pc = CEnd then z1 = z' else handleConnection hexLen store (env_r e) z1 = (Ret (), z')"
    using less(2) by (subst (asm) handleConnection_turn) (auto split: prod.splits outcome.splits if_splits)
  show ?case
  proof (rule turns_step)
    show "CLoop = CLoop \<and> (\<exists>e. peer_turn hexLen store e z = (Ret pc, z1))" using t by blast
    from peer_turn_pc [OF t] r less(1) [of z1 "env_r e"] peer_turn_takes [of hexLen store "env_l e" "fst z" "snd z" "fst z1" "snd z1"] t
    show "turns (\<lambda>pc z pc' z'. pc = CLoop \<and> (\<exists>e. peer_turn hexLen store e z = (Ret pc', z'))) pc z1 z'"
      by (auto intro: turns_end)
  qed
qed

section \<open>Shutdown of the peer server\<close>

definition pconn_ok :: "conn \<Rightarrow> bool" where
  "pconn_ok c \<longleftrightarrow> \<not> cn_closer c \<and> cn_pc c \<in> {CLoop, CEnd} \<and> cn_open c = (cn_pc c = CLoop)"

definition peer_inv :: "'s tcp_server \<Rightarrow> bool" where
  "peer_inv u \<longleftrightarrow>
     sv_grp u = of_bool (sv_accepting u) + conns_live u \<and> sv_listening u = sv_listener u \<and> (sv_accepting u \<and> \<not> sv_listening u \<longrightarrow> sv_closed u)
     \<and> (sv_closed u \<longrightarrow> sv_stopped u) \<and> (\<forall>c \<in> set (sv_conns u). pconn_ok c) \<and> (sv_returned u \<longrightarrow> \<not> sv_accepting u \<and> conns_live u = 0)"

lemma peer_inv_start: "peer_Start err (NewServer s) = (r, u) \<Longrightarrow> peer_inv u"
  by (auto simp: peer_Start_def NewServer_def peer_inv_def conns_live_def grp_Add_def split: option.splits)

lemma pconn_ok_at: "peer_inv u \<Longrightarrow> is_conn u i c \<Longrightarrow> pconn_ok c"
  by (auto simp: peer_inv_def is_conn_def)

lemma peer_inv_set:
  assumes "peer_inv u" "is_conn u i c" "pconn_ok c'" "conn_live c = conn_live c' + n" "0 < conn_live c"
  shows "peer_inv (grp_Add (- n) (set_conn i c' (u\<lparr>sv_store := s\<rparr>)))"
proof -
  have "\<forall>x \<in> set ((sv_conns u)[i := c']). pconn_ok x"
    using assms(1,3) set_update_subset_insert [of "sv_conns u" i c'] by (auto simp: peer_inv_def)
  moreover have "\<not> sv_returned u" using assms(1,2,5) conns_live_zero [of u c] by (auto simp: peer_inv_def is_conn_def)
  ultimately show ?thesis using assms(1,2,4) conns_live_set [of "u\<lparr>sv_store := s\<rparr>" i c c'] by (auto simp: peer_inv_def)
qed

lemma peer_step_inv: "peer_step hexLen store l u u' \<Longrightarrow> peer_inv u \<Longrightarrow> peer_inv u'"
proof (induction rule: peer_step.induct)
  case (PConnects u t)
  then show ?case by (auto simp: peer_inv_def pconn_ok_def new_conn_def conn_live_def)
next
  case (PSends u i c seg)
  from PSends have "pconn_ok c" by (blast intro: pconn_ok_at)
  with peer_inv_set [OF PSends(3,1), of "c\<lparr>cn_tcp := (cn_tcp c)\<lparr>tcp_in := tcp_in (cn_tcp c) @ [seg]\<rparr>\<rparr>" 0 "sv_store u"] PSends(2) show ?case
    by (auto simp: pconn_ok_def conn_live_def)
next
  case (PTurns u i c e pc s t)
  from PTurns have "pconn_ok c" by (blast intro: pconn_ok_at)
  with peer_inv_set [OF PTurns(4,1), of "c\<lparr>cn_tcp := (if pc = CEnd then close_tcp t else t), cn_pc := pc, cn_open := (pc \<noteq> CEnd)\<rparr>" "of_bool (pc = CEnd)" s]
    PTurns(2) peer_turn_pc [OF PTurns(3)] show ?case
    by (auto simp: pconn_ok_def conn_live_def after_turn_def)
next
  case (PReturns u)
  with conns_live_nonneg [of u] show ?case by (cases "sv_accepting u") (auto simp: peer_inv_def)
qed (auto simp: peer_inv_def accept_error_def)

lemma peer_run_inv:
  assumes "peer_Start err (NewServer s) = (r, u0)" "(peer_any hexLen store)\<^sup>*\<^sup>* u0 u"
  shows "peer_inv u"
  using assms(2) by (induction rule: rtranclp_induct) (auto simp: peer_inv_start [OF assms(1)] peer_any_def dest: peer_step_inv)

lemma peer_progress:
  assumes inv: "peer_inv u" and "sv_stopped u" "\<not> sv_crashed u" "\<not> sv_returned u"
  shows "\<exists>u'. peer_step hexLen store True u u'"
proof (cases "sv_grp u = 0")
  case True
  with assms show ?thesis by (blast intro: PReturns)
next
  case False
  then consider "sv_accepting u" | "conns_live u \<noteq> 0" using inv by (cases "sv_accepting u") (auto simp: peer_inv_def)
  then show ?thesis
  proof cases
    case 1
    with assms show ?thesis by (cases "sv_listening u"; cases "sv_closed u") (auto simp: peer_inv_def intro: PSetsClosed PListenerCloses PAcceptEnds)
  next
    case 2
    then obtain c where c: "c \<in> set (sv_conns u)" "conn_live c \<noteq> 0" by (rule conns_live_ex)
    then obtain i where i: "is_conn u i c" using assms(3) by (auto simp: is_conn_def in_set_conv_nth)
    obtain out s t where t: "peer_turn hexLen store env0 (sv_store u, cn_tcp c) = (out, s, t)" by (metis surj_pair)
    from c(2) pconn_ok_at [OF inv i] have "cn_pc c = CLoop" by (auto simp: conn_live_def pconn_ok_def)
    with i t show ?thesis by (cases out) (blast intro: PTurns PPanics)+
  qed
qed

definition pconn_rank :: "conn \<Rightarrow> nat" where
  "pconn_rank c = length (buf_bytes (cn_tcp c)) + pc_rank (cn_pc c)"

definition peer_rank :: "'s tcp_server \<Rightarrow> nat" where
  "peer_rank u = sum_list (map pconn_rank (sv_conns u)) + of_bool (sv_listener u) + of_bool (sv_accepting u) + of_bool (\<not> sv_closed u)
     + of_bool (\<not> sv_returned u) + of_bool (\<not> sv_crashed u)"

lemma peer_step_rank:
  assumes "peer_step hexLen store True u u'" "peer_inv u"
  shows "peer_rank u' < peer_rank u"
  using assms
proof (cases rule: peer_step.cases)
  case (PTurns i c e pc s t)
  let ?c = "c\<lparr>cn_tcp := (if pc = CEnd then close_tcp t else t), cn_pc := pc, cn_open := (pc \<noteq> CEnd)\<rparr>"
  have "pconn_rank ?c < pconn_rank c"
    using peer_turn_pc [OF PTurns(4)] PTurns(3,4) by (auto simp: pconn_rank_def close_tcp_def buf_bytes_def dest!: peer_turn_takes)
  with sum_list_change [of i "sv_conns u" pconn_rank ?c] PTurns show ?thesis by (auto simp: peer_rank_def after_turn_def is_conn_def)
qed (auto simp: peer_rank_def peer_inv_def accept_error_def is_conn_def)

text \<open>
  \<open>Shutdown\<close> of the peer server returns when its clients are silent: after the stop the server makes finitely many steps of its own, and when it can go no further \<open>Shutdown\<close>
  has returned (or a panic has ended the process), with all connections closed.
\<close>

theorem peer_Shutdown_returns_if_silent:
  assumes "peer_Start listen_err (NewServer s) = (r, u0)" "(peer_any hexLen store)\<^sup>*\<^sup>* u0 u" "sv_stopped u"
  shows "((\<nexists>u'. peer_step hexLen store True u u') \<longrightarrow> sv_returned u \<or> sv_crashed u)
    \<and> \<not> (\<exists>run. run 0 = u \<and> (\<forall>i. peer_step hexLen store True (run i) (run (Suc i))))
    \<and> (sv_returned u \<longrightarrow> \<not> sv_accepting u \<and> (\<forall>c \<in> set (sv_conns u). cn_pc c = CEnd \<and> \<not> cn_open c))"
proof (intro conjI impI notI)
  have inv: "peer_inv u" by (rule peer_run_inv [OF assms(1,2)])
  show "sv_returned u \<or> sv_crashed u" if "\<nexists>u'. peer_step hexLen store True u u'" using that peer_progress [OF inv assms(3)] by blast
  show "sv_accepting u \<Longrightarrow> False" if "sv_returned u" using inv that by (auto simp: peer_inv_def)
  show "\<forall>c \<in> set (sv_conns u). cn_pc c = CEnd \<and> \<not> cn_open c" if "sv_returned u"
  proof
    fix c
    assume "c \<in> set (sv_conns u)"
    with inv that conns_live_zero [of u c] show "cn_pc c = CEnd \<and> \<not> cn_open c" by (auto simp: peer_inv_def pconn_ok_def conn_live_def)
  qed
  assume "\<exists>run. run 0 = u \<and> (\<forall>i. peer_step hexLen store True (run i) (run (Suc i)))"
  then obtain run where run: "run 0 = u" "\<And>i. peer_step hexLen store True (run i) (run (Suc i))" by blast
  have "peer_inv (run i)" for i using run inv by (induction i) (auto dest: peer_step_inv)
  with run have "(run (Suc i), run i) \<in> measure peer_rank" for i using peer_step_rank by (metis in_measure)
  then show False using wf_iff_no_infinite_down_chain wf_measure by blast
qed

section \<open>A client that keeps the peer server from shutting down\<close>

definition empty_answer :: bytes where
  "empty_answer = jprint (enc_composite [] paymentRateAccepted no_incoming)"

lemma empty_request: "handleCompositeRequest hexLen store e ''{}'' s = (Ret (Inr empty_answer), s)"
proof -
  have "json_unmarshal ''{}'' = Some (JObj [])" "dec_composite (JObj []) = Some \<lparr>RequestedBlobs = [], RateBelowZero = False, RequestedBlob = []\<rparr>" by code_simp+
  then show ?thesis by (simp add: handleCompositeRequest_def empty_answer_def ret_def del: dec_composite.simps)
qed

lemma peer_turn_empty_request:
  assumes "clean t" "tcp_in t = []"
  shows "peer_turn hexLen store e (s, t\<lparr>tcp_in := [''{}'']\<rparr>) = (Ret CLoop, s, t\<lparr>tcp_out := tcp_out t @ [empty_answer]\<rparr>)"
proof -
  have "buf_bytes (t\<lparr>tcp_in := [''{}'']\<rparr>) = jprint (JObj []) @ []" by (simp add: buf_bytes_def)
  from readNextMessage_object [OF _ _ this] have "readNextMessage (t\<lparr>tcp_in := [''{}'']\<rparr>) = ((''{}'', None), t\<lparr>tcp_in := []\<rparr>)" by (simp add: set_buf_def)
  with assms show ?thesis
    by (simp add: peer_turn_def clean_SetDeadline clean_Write empty_request Let_def)
qed

text \<open>Alternately the client sends a request, and the server answers it.\<close>

definition chatter :: "nat \<Rightarrow> conn \<Rightarrow> 's tcp_server \<Rightarrow> nat \<Rightarrow> 's tcp_server" where
  "chatter i c u k =
     set_conn i (c\<lparr>cn_tcp := (cn_tcp c)\<lparr>tcp_out := tcp_out (cn_tcp c) @ replicate (k div 2) empty_answer, tcp_in := (if even k then [] else [''{}''])\<rparr>\<rparr>) u"

lemma chatter_step:
  assumes i: "is_conn u i c" and c: "cn_pc c = CLoop" "cn_open c" "clean (cn_tcp c)"
  shows "peer_any hexLen store (chatter i c u k) (chatter i c u (Suc k))"
proof -
  let ?t = "(cn_tcp c)\<lparr>tcp_out := tcp_out (cn_tcp c) @ replicate (k div 2) empty_answer, tcp_in := []\<rparr>"
  have at: "is_conn (chatter i c u k) i (c\<lparr>cn_tcp := ?t\<lparr>tcp_in := (if even k then [] else [''{}''])\<rparr>\<rparr>)"
    using i by (simp add: is_conn_def chatter_def)
  show ?thesis
  proof (cases "even k")
    case True
    with PSends [OF at, of hexLen store "''{}''"] c i show ?thesis by (auto simp: peer_any_def chatter_def set_conn_def is_conn_def)
  next
    case False
    let ?c = "c\<lparr>cn_tcp := ?t\<lparr>tcp_out := tcp_out ?t @ [empty_answer]\<rparr>, cn_pc := CLoop, cn_open := True\<rparr>"
    have "clean ?t" using c(3) by (simp add: clean_def)
    from peer_turn_empty_request [OF this, of hexLen store env0 "sv_store u"] PTurns [OF at, of hexLen store env0 CLoop "sv_store u" "?t\<lparr>tcp_out := tcp_out ?t @ [empty_answer]\<rparr>"] False c(1)
    have "peer_step hexLen store True (chatter i c u k) (set_conn i ?c (chatter i c u k))" by (simp add: after_turn_def chatter_def set_conn_def)
    moreover have "?c = c\<lparr>cn_tcp := (cn_tcp c)\<lparr>tcp_out := tcp_out (cn_tcp c) @ replicate (Suc k div 2) empty_answer, tcp_in := []\<rparr>\<rparr>"
      using False c(1,2) by (cases c; cases "cn_tcp c") (auto simp: replicate_append_same elim!: oddE)
    ultimately show ?thesis using False by (simp add: peer_any_def chatter_def set_conn_def) blast
  qed
qed



end
