(* ===== verification/Setup.thy ===== *)
theory Setup
  imports Tcp_Server Gcache_Store Db
begin

text \<open>
  How the command \<open>reflector\<close> puts the server together (src/cmd/reflector.go, the configuration of src/cmd/root.go): the flags, the stores built from them, the start of the servers and the order in which
  everything is shut down.

  A store that has been constructed is described by the constructor calls that made it (\<open>store_cfg\<close>); the behaviour of each of them is in the theory of that store. A \<open>log.Fatal\<close> ends the process:
  the functions return \<open>Inl\<close> with its message (without the examples the long ones end with). What comes from outside (\<open>outside\<close>): whether a database can be reached, a directory made, an address listened on, and the packages
  \<open>util\<close> (\<open>InSlice\<close>) and \<open>datasize\<close> (\<open>UnmarshalText\<close>). \<open>maxBlobSize\<close> is \<open>stream.MaxBlobSize\<close>. The quotient of the two sizes as floating point numbers, cut to an integer, is \<open>div\<close> here: for a
  maximum blob size that is a power of two it is exact for all caches below \<open>2 ^ 53\<close> bytes.
\<close>

section \<open>Configuration\<close>

record Config =
  AwsID :: string
  AwsSecret :: string
  BucketRegion :: string
  BucketName :: string
  DBConn :: string
  SlackHookURL :: string
  UpdateBinURL :: string
  UpdateCmd :: string

definition no_Config :: Config where
  "no_Config = \<lparr>AwsID = '''', AwsSecret = '''', BucketRegion = '''', BucketName = '''', DBConn = '''', SlackHookURL = '''', UpdateBinURL = '''', UpdateCmd = ''''\<rparr>"

record flags =
  conf :: string
  globalConfig :: Config
  tcpPeerPort :: int
  http3PeerPort :: int
  httpPeerPort :: int
  receiverPort :: int
  metricsPort :: int
  disableUploads :: bool
  disableBlocklist :: bool
  useDB :: bool
  upstreamReflector :: string
  upstreamProtocol :: string
  requestQueueSize :: int
  originEndpoint :: string
  originEndpointFallback :: string
  diskCache :: string
  secondaryDiskCache :: string
  memCache :: int

definition default_flags :: "Config \<Rightarrow> flags" where
  "default_flags c =
     \<lparr>conf = ''config.json'', globalConfig = c, tcpPeerPort = 5567, http3PeerPort = 5568, httpPeerPort = 5569, receiverPort = 5566, metricsPort = 2112,
      disableUploads = False, disableBlocklist = False, useDB = True, upstreamReflector = '''', upstreamProtocol = ''http'', requestQueueSize = 200,
      originEndpoint = '''', originEndpointFallback = '''', diskCache = ''100GB:/tmp/downloaded_blobs:localdb'', secondaryDiskCache = '''', memCache = 0\<rparr>"

record outside =
  InSlice :: "string \<Rightarrow> string list \<Rightarrow> bool"
  UnmarshalText :: "string \<Rightarrow> go_error + nat"
  db_Connect :: "string \<Rightarrow> go_error option"
  MkdirAll :: "string \<Rightarrow> go_error option"
  Listen :: "string \<Rightarrow> go_error option"

section \<open>Stores\<close>

record db_cfg =
  dc_conn :: string
  dc_TrackAccess :: trackAccess
  dc_SoftDelete :: bool

datatype store_cfg =
    PeerStore string
  | Http3Store string
  | HttpStore_at string
  | S3Store_at string string string string
  | CloudFrontROStore_at string
  | ITTTStore_of store_cfg store_cfg
  | CloudFrontRWStore_of store_cfg store_cfg
  | DBBackedStore_of store_cfg db_cfg bool
  | DiskStore_at string nat
  | MemStore_new
  | GcacheStore_of string store_cfg int EvictionStrategy
  | CachingStore_of string store_cfg store_cfg

definition cacheManagers :: "string list" where
  "cacheManagers = [''localdb'', ''lfu'', ''arc'', ''lru'', ''simple'']"

text \<open>A missing key of a Go map gives the zero value, here \<open>LFU\<close>.\<close>

definition cacheMangerToGcache :: "string \<Rightarrow> EvictionStrategy" where
  "cacheMangerToGcache m =
     (case map_of [(''lfu'', LFU), (''arc'', ARC), (''lru'', LRU), (''simple'', SIMPLE)] m of Some st \<Rightarrow> st | None \<Rightarrow> LFU)"

definition initUpstreamStore :: "flags \<Rightarrow> string + store_cfg option" where
  "initUpstreamStore f =
     (if upstreamReflector f = '''' then Inr None
      else if upstreamProtocol f = ''tcp'' then Inr (Some (PeerStore (upstreamReflector f)))
      else if upstreamProtocol f = ''http3'' then Inr (Some (Http3Store (upstreamReflector f)))
      else if upstreamProtocol f = ''http'' then Inr (Some (HttpStore_at (upstreamReflector f)))
      else Inl (''protocol is not recognized: '' @ upstreamProtocol f))"

definition initEdgeStore :: "flags \<Rightarrow> string + store_cfg" where
  "initEdgeStore f =
     (let c = globalConfig f;
          s3 = (if conf f \<noteq> ''none'' then Some (S3Store_at (AwsID c) (AwsSecret c) (BucketRegion c) (BucketName c)) else None)
      in if originEndpointFallback f \<noteq> '''' \<and> originEndpoint f \<noteq> '''' then
           (let ittt = ITTTStore_of (CloudFrontROStore_at (originEndpoint f)) (CloudFrontROStore_at (originEndpointFallback f))
            in case s3 of Some s3Store \<Rightarrow> Inr (CloudFrontRWStore_of ittt s3Store) | None \<Rightarrow> Inr ittt)
         else (case s3 of
                 Some s3Store \<Rightarrow> Inr s3Store
               | None \<Rightarrow> Inl ''this configuration does not include a valid upstream source''))"

definition initDBStore :: "outside \<Rightarrow> flags \<Rightarrow> store_cfg \<Rightarrow> string + store_cfg" where
  "initDBStore w f s =
     (if useDB f then
        (case db_Connect w (DBConn (globalConfig f)) of
           Some err \<Rightarrow> Inl (Error err)
         | None \<Rightarrow> Inr (DBBackedStore_of s \<lparr>dc_conn = DBConn (globalConfig f), dc_TrackAccess = TrackAccessStreams, dc_SoftDelete = False\<rparr> False))
      else Inr s)"

definition initStores :: "outside \<Rightarrow> flags \<Rightarrow> string + store_cfg" where
  "initStores w f =
     (case initUpstreamStore f of
        Inl m \<Rightarrow> Inl m
      | Inr (Some s) \<Rightarrow> initDBStore w f s
      | Inr None \<Rightarrow> (case initEdgeStore f of Inl m \<Rightarrow> Inl m | Inr s \<Rightarrow> initDBStore w f s))"

definition diskCacheParams :: "outside \<Rightarrow> string \<Rightarrow> string + int \<times> string \<times> string" where
  "diskCacheParams w diskParams =
     (if diskParams = '''' then Inr (0, '''', '''')
      else
        (case split_on (CHR '':'') diskParams of
           [diskCacheSize, path, cacheManager] \<Rightarrow>
             if path = [] \<or> hd path \<noteq> CHR ''/'' then Inl (''disk cache paths must start with '' @ [CHR 0x27] @ ''/'' @ [CHR 0x27])
             else if \<not> InSlice w cacheManager cacheManagers then Inl (''specified cache manager '' @ [CHR 0x27] @ cacheManager @ [CHR 0x27] @ '' is not supported.'')
             else
               (case UnmarshalText w diskCacheSize of
                  Inl err \<Rightarrow> Inl (Error err)
                | Inr maxSize \<Rightarrow> if maxSize = 0 then Inl ''disk cache size must be more than 0'' else Inr (wrap64 (int maxSize), path, cacheManager))
         | _ \<Rightarrow> Inl (diskParams @ '' does is formatted incorrectly.'')))"

definition localDb :: db_cfg where
  "localDb = \<lparr>dc_conn = ''reflector:reflector@tcp(localhost:3306)/reflector'', dc_TrackAccess = TrackAccessBlobs, dc_SoftDelete = True\<rparr>"

text \<open>The result has the cleaners that were started (\<open>cleanOldestBlobs\<close>): the bound and the store. All of them use \<open>localDb\<close>.\<close>

definition initDiskStore :: "outside \<Rightarrow> int \<Rightarrow> store_cfg \<Rightarrow> string \<Rightarrow> string + store_cfg \<times> (int \<times> store_cfg) list" where
  "initDiskStore w maxBlobSize upstreamStore diskParams =
     (case diskCacheParams w diskParams of
        Inl m \<Rightarrow> Inl m
      | Inr (diskCacheMaxSize, diskCachePath, cacheManager) \<Rightarrow>
          if diskCacheMaxSize = 0 then Inr (upstreamStore, [])
          else
            (case MkdirAll w diskCachePath of
               Some err \<Rightarrow> Inl (Error err)
             | None \<Rightarrow>
                 let diskStore = DiskStore_at diskCachePath 2; realCacheSize = diskCacheMaxSize div maxBlobSize
                 in if cacheManager = ''localdb'' then
                      (case db_Connect w (dc_conn localDb) of
                         Some err \<Rightarrow> Inl (Error err)
                       | None \<Rightarrow>
                           let unwrappedStore = DBBackedStore_of diskStore localDb True
                           in Inr (CachingStore_of ''reflector'' upstreamStore unwrappedStore, [(realCacheSize, unwrappedStore)]))
                    else
                      Inr (CachingStore_of ''reflector'' upstreamStore (GcacheStore_of ''nvme'' diskStore realCacheSize (cacheMangerToGcache cacheManager)), [])))"

definition initCaches :: "outside \<Rightarrow> int \<Rightarrow> flags \<Rightarrow> store_cfg \<Rightarrow> string + store_cfg \<times> (int \<times> store_cfg) list" where
  "initCaches w maxBlobSize f s =
     (case initDiskStore w maxBlobSize s (diskCache f) of
        Inl m \<Rightarrow> Inl m
      | Inr (diskStore, cs1) \<Rightarrow>
          (case initDiskStore w maxBlobSize diskStore (secondaryDiskCache f) of
             Inl m \<Rightarrow> Inl m
           | Inr (finalStore, cs2) \<Rightarrow>
               Inr (if memCache f > 0 then CachingStore_of ''reflector'' finalStore (GcacheStore_of ''mem'' MemStore_new (memCache f) LRU) else finalStore,
                    cs1 @ cs2)))"

section \<open>The command\<close>

text \<open>The type assertion \<open>s.underlyingStore.(store.Blocklister)\<close>: of the stores only \<open>DBBackedStore\<close> has the methods.\<close>

fun isBlocklister :: "store_cfg \<Rightarrow> bool" where
  "isBlocklister (DBBackedStore_of s d b) = True"
| "isBlocklister _ = False"

text \<open>What \<open>Start\<close> of the reflector server returns (the error of \<open>reflector_Start\<close>).\<close>

definition reflector_Start_err :: "bool \<Rightarrow> bool \<Rightarrow> go_error option \<Rightarrow> go_error option" where
  "reflector_Start_err blocklister EnableBlocklist listen_err =
     (case listen_err of
        Some err \<Rightarrow> Some err
      | None \<Rightarrow> if EnableBlocklist \<and> \<not> blocklister then Some (Msg ''blocklist is enabled but blob store does not support blocklisting'') else None)"

datatype part =
    ReflectorServer store_cfg store_cfg bool
  | PeerServer store_cfg
  | Http3Server store_cfg int
  | HttpServer store_cfg int
  | MetricsServer
  | Store store_cfg

definition port_addr :: "int \<Rightarrow> string" where
  "port_addr p = '':'' @ int_text p"

text \<open>
  \<open>reflectorCmd\<close> up to the wait for a signal: the parts whose \<open>Shutdown\<close> is deferred, in the order of the \<open>defer\<close> statements. \<open>Start\<close> of the HTTP3 and HTTP servers and of the metrics
  server returns no error: they listen in a goroutine.
\<close>

definition reflectorCmd :: "outside \<Rightarrow> int \<Rightarrow> flags \<Rightarrow> string + part list" where
  "reflectorCmd w maxBlobSize f =
     (case initStores w f of
        Inl m \<Rightarrow> Inl m
      | Inr underlying \<Rightarrow>
          (case initCaches w maxBlobSize f underlying of
             Inl m \<Rightarrow> Inl m
           | Inr (withCaches, cleaners) \<Rightarrow>
               let upload = ReflectorServer underlying withCaches (\<not> disableBlocklist f);
                   upload_err = reflector_Start_err (isBlocklister underlying) (\<not> disableBlocklist f) (Listen w (port_addr (receiverPort f)))
               in case (if disableUploads f then None else upload_err) of
                    Some err \<Rightarrow> Inl (Error err)
                  | None \<Rightarrow>
                      (case Listen w (port_addr (tcpPeerPort f)) of
                         Some err \<Rightarrow> Inl (Error err)
                       | None \<Rightarrow>
                           Inr ((if disableUploads f then [] else [upload])
                                @ [PeerServer withCaches, Http3Server withCaches (requestQueueSize f),
                                   HttpServer withCaches (requestQueueSize f), MetricsServer,
                                   Store withCaches, Store underlying]))))"

text \<open>After the signal the cleaners are stopped, and then the deferred calls run, the last one first.\<close>

definition shutdown_order :: "part list \<Rightarrow> part list" where
  "shutdown_order parts = rev parts"

end
