(* ===== verification/Setup_Correct.thy ===== *)
theory Setup_Correct
  imports Setup Tcp_Server_Correct
begin

text \<open>
  What the command \<open>reflector\<close> builds: which stores can be written to and can block, that every server gets the store it needs, which combinations of flags cannot start, the format of the cache flag, and the order of
  the shutdown.
\<close>

section \<open>The type of the stores\<close>

text \<open>The stores whose \<open>Put\<close> is implemented, and the store a blob comes from when no cache has it.\<close>

fun writable :: "store_cfg \<Rightarrow> bool" where
  "writable (S3Store_at i k r b) = True"
| "writable (CloudFrontRWStore_of cf s3) = writable s3"
| "writable (DBBackedStore_of s d b) = writable s"
| "writable (DiskStore_at p n) = True"
| "writable MemStore_new = True"
| "writable (GcacheStore_of c s n st) = writable s"
| "writable (CachingStore_of c s k) = (writable s \<and> writable k)"
| "writable _ = False"

fun origin_of :: "store_cfg \<Rightarrow> store_cfg" where
  "origin_of (CachingStore_of c s k) = origin_of s"
| "origin_of s = s"

text \<open>
  A well-formed composition: the arguments have the types that the constructors ask for, every cache can be written to, and disk caches lie below the root.
\<close>

fun wf_store :: "store_cfg \<Rightarrow> bool" where
  "wf_store (CloudFrontRWStore_of cf s3) = ((\<exists>a b. cf = ITTTStore_of a b) \<and> (\<exists>i k r b. s3 = S3Store_at i k r b))"
| "wf_store (DBBackedStore_of s d b) = (wf_store s \<and> \<not> isBlocklister s)"
| "wf_store (DiskStore_at p n) = (p \<noteq> [] \<and> hd p = CHR ''/'')"
| "wf_store (GcacheStore_of c s n st) = (wf_store s \<and> writable s)"
| "wf_store (CachingStore_of c s k) = (wf_store s \<and> wf_store k \<and> writable k)"
| "wf_store _ = True"

lemma initDBStore_cases:
  assumes "initDBStore w f s = Inr t"
  obtains "useDB f" "t = DBBackedStore_of s \<lparr>dc_conn = DBConn (globalConfig f), dc_TrackAccess = TrackAccessStreams, dc_SoftDelete = False\<rparr> False"
        | "\<not> useDB f" "t = s"
  using assms by (auto simp: initDBStore_def split: if_splits option.splits)

lemma edge_typed: "initEdgeStore f = Inr s \<Longrightarrow> wf_store s \<and> \<not> isBlocklister s \<and> origin_of s = s \<and> (writable s \<longleftrightarrow> conf f \<noteq> ''none'')"
  by (auto simp: initEdgeStore_def Let_def split: if_splits)

lemma upstream_typed: "initUpstreamStore f = Inr (Some s) \<Longrightarrow> wf_store s \<and> \<not> isBlocklister s \<and> origin_of s = s \<and> \<not> writable s \<and> upstreamReflector f \<noteq> ''''"
  by (auto simp: initUpstreamStore_def split: if_splits)

lemma no_upstream: "initUpstreamStore f = Inr None \<Longrightarrow> upstreamReflector f = ''''"
  by (auto simp: initUpstreamStore_def split: if_splits)

lemma initStores_typed:
  assumes "initStores w f = Inr s"
  shows "wf_store s \<and> origin_of s = s \<and> (isBlocklister s \<longleftrightarrow> useDB f) \<and> (writable s \<longleftrightarrow> upstreamReflector f = '''' \<and> conf f \<noteq> ''none'')"
proof -
  from assms obtain t where t: "initDBStore w f t = Inr s"
    "wf_store t \<and> \<not> isBlocklister t \<and> origin_of t = t \<and> (writable t \<longleftrightarrow> upstreamReflector f = '''' \<and> conf f \<noteq> ''none'')"
    by (auto simp: initStores_def split: sum.splits option.splits dest!: upstream_typed edge_typed no_upstream)
  from t(1) show ?thesis by (cases rule: initDBStore_cases) (use t(2) in auto)
qed

lemma diskCacheParams_path:
  assumes "diskCacheParams w p = Inr (n, path, m)" "n \<noteq> 0"
  shows "path \<noteq> [] \<and> hd path = CHR ''/'' \<and> InSlice w m cacheManagers"
  using assms by (auto simp: diskCacheParams_def split: if_splits list.splits sum.splits)

lemma initDiskStore_typed:
  assumes "initDiskStore w maxBlobSize s p = Inr (t, cs)" "wf_store s"
  shows "wf_store t \<and> origin_of t = origin_of s \<and> (writable t \<longleftrightarrow> writable s) \<and> (\<forall>(n, c) \<in> set cs. \<exists>q. c = DBBackedStore_of q localDb True \<and> wf_store c)"
proof -
  from assms(1) obtain n path m where p: "diskCacheParams w p = Inr (n, path, m)" by (auto simp: initDiskStore_def split: sum.splits)
  show ?thesis
  proof (cases "n = 0")
    case True
    with assms p show ?thesis by (auto simp: initDiskStore_def)
  next
    case False
    with assms p diskCacheParams_path [OF p] show ?thesis by (auto simp: initDiskStore_def Let_def split: option.splits if_splits)
  qed
qed

lemma initCaches_typed:
  assumes "initCaches w maxBlobSize f s = Inr (t, cs)" "wf_store s"
  shows "wf_store t \<and> origin_of t = origin_of s \<and> (writable t \<longleftrightarrow> writable s)"
proof -
  from assms(1) obtain d c1 u c2 where d: "initDiskStore w maxBlobSize s (diskCache f) = Inr (d, c1)" "initDiskStore w maxBlobSize d (secondaryDiskCache f) = Inr (u, c2)"
    and t: "t = (if memCache f > 0 then CachingStore_of ''reflector'' u (GcacheStore_of ''mem'' MemStore_new (memCache f) LRU) else u)"
    by (auto simp: initCaches_def split: sum.splits prod.splits)
  note 1 = initDiskStore_typed [OF d(1) assms(2)]
  from initDiskStore_typed [OF d(2)] 1 t show ?thesis by auto
qed

text \<open>What \<open>Start\<close> of the reflector server returns is what the model of the server returns.\<close>

lemma reflector_Start_err: "fst (reflector_Start srv bl err u) = reflector_Start_err (asBlocklister srv \<noteq> None) bl err"
  by (auto simp: reflector_Start_def reflector_Start_err_def Let_def split: option.split)

fun serves :: "part \<Rightarrow> store_cfg option" where
  "serves (ReflectorServer u s b) = Some s"
| "serves (PeerServer s) = Some s"
| "serves (Http3Server s n) = Some s"
| "serves (HttpServer s n) = Some s"
| "serves _ = None"

text \<open>
  C7. What the command runs is well-typed: whenever \<open>reflectorCmd\<close> gets as far as waiting for a signal, all servers serve one and the same well-formed composition of stores, whose origin is the store the reflector
  server uploads to; that store can block exactly when the database is used, and then only may the block list be enabled; and it can be written to exactly when there is no upstream reflector and a
  configuration file.
\<close>

theorem reflectorCmd_typed:
  assumes "reflectorCmd w maxBlobSize f = Inr parts"
  shows "\<exists>u s. wf_store s \<and> origin_of s = u \<and> (isBlocklister u \<longleftrightarrow> useDB f) \<and> (writable s \<longleftrightarrow> upstreamReflector f = '''' \<and> conf f \<noteq> ''none'')
     \<and> (\<forall>p \<in> set parts. serves p = None \<or> serves p = Some s) \<and> {p. \<exists>t. p \<in> set parts \<and> p = PeerServer t} = {PeerServer s}
     \<and> (\<forall>p \<in> set parts. \<forall>u' s' bl. p = ReflectorServer u' s' bl \<longrightarrow> \<not> disableUploads f \<and> u' = u \<and> bl = (\<not> disableBlocklist f) \<and> (bl \<longrightarrow> isBlocklister u))"
proof -
  from assms obtain u s cs where u: "initStores w f = Inr u" and s: "initCaches w maxBlobSize f u = Inr (s, cs)"
    by (auto simp: reflectorCmd_def split: sum.splits prod.splits)
  note 1 = initStores_typed [OF u]
  note 2 = initCaches_typed [OF s]
  have parts: "parts = (if disableUploads f then [] else [ReflectorServer u s (\<not> disableBlocklist f)])
      @ [PeerServer s, Http3Server s (requestQueueSize f), HttpServer s (requestQueueSize f), MetricsServer, Store s, Store u]"
    and up: "\<not> disableUploads f \<Longrightarrow> reflector_Start_err (isBlocklister u) (\<not> disableBlocklist f) (Listen w (port_addr (receiverPort f))) = None"
    using assms u s by (auto simp: reflectorCmd_def Let_def split: option.splits if_splits)
  from up have bl: "\<not> disableUploads f \<Longrightarrow> \<not> disableBlocklist f \<Longrightarrow> isBlocklister u" by (auto simp: reflector_Start_err_def split: option.splits if_splits)
  show ?thesis using 1 2 bl by (intro exI [of _ u] exI [of _ s]) (auto simp: parts)
qed

section \<open>The command with its default flags\<close>

lemma diskCacheParams_format:
  assumes "\<And>x xs. InSlice w x xs \<longleftrightarrow> x \<in> set xs" "UnmarshalText w sz = Inr n" "0 < n" "n < 2 ^ 63"
    and "CHR '':'' \<notin> set sz" "CHR '':'' \<notin> set path" "path \<noteq> []" "hd path = CHR ''/''" "manager \<in> set cacheManagers"
  shows "diskCacheParams w (sz @ '':'' @ path @ '':'' @ manager) = Inr (int n, path, manager)"
proof -
  have "CHR '':'' \<notin> set manager" using assms(9) by (auto simp: cacheManagers_def)
  then have "split_on (CHR '':'') (sz @ '':'' @ path @ '':'' @ manager) = [sz, path, manager]" using assms(5,6) by (simp add: split_on_append split_on_plain)
  moreover have "wrap64 (int n) = int n" using assms(4) by (simp add: wrap64_def)
  ultimately show ?thesis using assms by (simp add: diskCacheParams_def)
qed

text \<open>A machine on which everything can be reached and every size reads 100 GB.\<close>

definition fine_outside :: outside where
  "fine_outside = \<lparr>InSlice = (\<lambda>x xs. x \<in> set xs), UnmarshalText = (\<lambda>_. Inr (100 * 2 ^ 30)), db_Connect = (\<lambda>_. None), MkdirAll = (\<lambda>_. None), Listen = (\<lambda>_. None)\<rparr>"

lemma default_runs:
  "reflectorCmd fine_outside (2 ^ 21) (default_flags no_Config) =
     (let d = \<lparr>dc_conn = '''', dc_TrackAccess = TrackAccessStreams, dc_SoftDelete = False\<rparr>;
          u = DBBackedStore_of (S3Store_at '''' '''' '''' '''') d False;
          s = CachingStore_of ''reflector'' u (DBBackedStore_of (DiskStore_at ''/tmp/downloaded_blobs'' 2) localDb True)
      in Inr [ReflectorServer u s True, PeerServer s, Http3Server s 200, HttpServer s 200, MetricsServer, Store s, Store u])"
proof -
  have "diskCacheParams fine_outside (''100GB'' @ '':'' @ ''/tmp/downloaded_blobs'' @ '':'' @ ''localdb'') = Inr (int (100 * 2 ^ 30), ''/tmp/downloaded_blobs'', ''localdb'')"
    by (rule diskCacheParams_format) (simp_all add: fine_outside_def cacheManagers_def)
  then show ?thesis
    by (simp add: reflectorCmd_def initStores_def initUpstreamStore_def initEdgeStore_def initDBStore_def initCaches_def initDiskStore_def default_flags_def no_Config_def
        fine_outside_def reflector_Start_err_def Let_def diskCacheParams_def [of _ "''''"])
qed

theorem reflectorCmd_typed_witness:
  "\<exists>u s. wf_store s \<and> origin_of s = u \<and> isBlocklister u \<and> writable s \<and> (\<exists>parts. reflectorCmd fine_outside (2 ^ 21) (default_flags no_Config) = Inr parts \<and> PeerServer s \<in> set parts)"
proof -
  obtain parts where p: "reflectorCmd fine_outside (2 ^ 21) (default_flags no_Config) = Inr parts" using default_runs by (simp add: Let_def)
  from reflectorCmd_typed [OF this] p show ?thesis by (fastforce simp: default_flags_def)
qed

section \<open>Flags that cannot work together\<close>

text \<open>
  Without the database the reflector server does not start unless uploads or the block list are disabled: with \<open>--use-db=false\<close> alone, \<open>reflectorCmd\<close> ends with a fatal error on every machine and with any
  other flags.
\<close>

theorem no_db_is_fatal:
  assumes "\<not> useDB f" "\<not> disableUploads f" "\<not> disableBlocklist f"
  shows "\<exists>m. reflectorCmd w maxBlobSize f = Inl m"
proof (cases "initStores w f")
  case (Inr u)
  with initStores_typed [OF this] assms have "\<not> isBlocklister u" by simp
  then obtain err where "reflector_Start_err (isBlocklister u) (\<not> disableBlocklist f) (Listen w (port_addr (receiverPort f))) = Some err"
    using assms by (cases "Listen w (port_addr (receiverPort f))") (auto simp: reflector_Start_err_def)
  with Inr assms show ?thesis by (auto simp: reflectorCmd_def Let_def split: sum.splits)
qed (simp add: reflectorCmd_def)

theorem no_db_is_fatal_witness: "\<exists>m. reflectorCmd fine_outside (2 ^ 21) ((default_flags no_Config)\<lparr>useDB := False\<rparr>) = Inl m"
  by (rule no_db_is_fatal) (simp_all add: default_flags_def)

text \<open>One origin endpoint alone is ignored: the command takes S3, or without a configuration file ends.\<close>

lemma single_endpoint_ignored:
  "originEndpointFallback f = '''' \<Longrightarrow> initEdgeStore f = initEdgeStore (f\<lparr>originEndpoint := ''''\<rparr>)"
  by (simp add: initEdgeStore_def)

section \<open>The cache flag\<close>

text \<open>
  C34. The format of the cache flag is read back: a size, an absolute path without a colon and a known cache manager, written as \<open>size:path:manager\<close>, are the parameters of the cache, for every size from 1 byte up to
  the largest that fits a signed 64-bit integer.
\<close>

theorem diskCacheParams_roundtrip:
  assumes "\<And>x xs. InSlice w x xs \<longleftrightarrow> x \<in> set xs" "UnmarshalText w sz = Inr n" "0 < n" "n < 2 ^ 63"
    and "CHR '':'' \<notin> set sz" "CHR '':'' \<notin> set path" "path \<noteq> []" "hd path = CHR ''/''" "manager \<in> set cacheManagers"
  shows "diskCacheParams w (sz @ '':'' @ path @ '':'' @ manager) = Inr (int n, path, manager)"
  by (rule diskCacheParams_format [OF assms])

theorem diskCacheParams_roundtrip_witness:
  "diskCacheParams fine_outside ''100GB:/tmp/downloaded_blobs:localdb'' = Inr (107374182400, ''/tmp/downloaded_blobs'', ''localdb'')"
  using diskCacheParams_roundtrip [of fine_outside "''100GB''" "100 * 2 ^ 30" "''/tmp/downloaded_blobs''" "''localdb''"]
  by (simp add: fine_outside_def cacheManagers_def)

text \<open>A size that does not fit becomes negative, is not rejected, and makes the cleaner delete whatever is stored.\<close>

lemma diskCacheParams_overflow:
  assumes "\<And>x xs. InSlice w x xs \<longleftrightarrow> x \<in> set xs" "UnmarshalText w sz = Inr (2 ^ 63)" "CHR '':'' \<notin> set sz"
  shows "diskCacheParams w (sz @ '':/c:localdb'') = Inr (- (2 ^ 63), ''/c'', ''localdb'')"
proof -
  have "split_on (CHR '':'') (sz @ '':/c:localdb'') = [sz, ''/c'', ''localdb'']" using assms(3) by (simp add: split_on_append split_on_plain)
  moreover have "wrap64 (2 ^ 63) = - (2 ^ 63)" by (simp add: wrap64_def)
  ultimately show ?thesis using assms by (simp add: diskCacheParams_def cacheManagers_def)
qed

section \<open>Shutdown\<close>

text \<open>
  The stores are shut down before the servers that use them: the last \<open>defer\<close> runs first. The underlying store is shut down twice when there is a cache, since the caching store passes the call on.
\<close>

lemma stores_shut_down_first:
  assumes "reflectorCmd w maxBlobSize f = Inr parts"
  obtains u s rest where "shutdown_order parts = Store u # Store s # rest" "origin_of s = u" "\<forall>p \<in> set rest. serves p = Some s \<or> p = MetricsServer"
proof -
  from assms obtain u s cs where u: "initStores w f = Inr u" and s: "initCaches w maxBlobSize f u = Inr (s, cs)"
    by (auto simp: reflectorCmd_def split: sum.splits prod.splits)
  have "origin_of s = u" using initCaches_typed [OF s] initStores_typed [OF u] by simp
  moreover have "shutdown_order parts = Store u # Store s # MetricsServer # HttpServer s (requestQueueSize f) # Http3Server s (requestQueueSize f) # PeerServer s
      # (if disableUploads f then [] else [ReflectorServer u s (\<not> disableBlocklist f)])"
    using assms u s by (auto simp: reflectorCmd_def Let_def shutdown_order_def split: option.splits if_splits)
  ultimately show thesis using that by simp
qed

end
