(* ===== verification/Server_Stack.thy ===== *)
theory Server_Stack
  imports Setup_Correct Stack_Props Db_Store_Correct Remote_Correct
begin

text \<open>
  The stack of stores that the command \<open>reflector\<close> builds with \<open>--use-db=false\<close>, a disk cache with a local database and a memory cache: S3 behind two levels of caches, as \<open>initCaches\<close> composes them, behaves as a
  plain map. The contracts of the layers are the ones of their own theories; here they only meet.
\<close>

section \<open>Contracts for fewer calls\<close>

text \<open>A store that keeps its contract for some hashes and blobs keeps it for fewer.\<close>

locale fewer_calls = live_store st inv content vh addr sdaddr
  for st :: "'s BlobStore" and inv content vh addr sdaddr +
  fixes vh' :: "string \<Rightarrow> bool" and addr' sdaddr' :: "string \<Rightarrow> bytes \<Rightarrow> bool"
  assumes fewer: "vh' h \<Longrightarrow> vh h" "addr' h b \<Longrightarrow> addr h b" "sdaddr' h b \<Longrightarrow> sdaddr h b"

sublocale fewer_calls \<subseteq> less: live_store st inv content vh' addr' sdaddr'
  by unfold_locales (use fewer Has_spec Get_hit Get_miss Put_spec PutSD_spec Delete_spec in auto)

section \<open>The stack\<close>

locale server_stack =
  s3_laws api winv objs + gcache_laws gc keys gwf maxSize
  for api :: "'w s3_api" and winv objs and gc :: "'c gcache" and keys gwf maxSize +
  fixes dup :: "nat \<Rightarrow> nat" and dio :: "bytes \<Rightarrow> nat"
    and sf1 :: "'w S3Store sf_group" and sf2 :: "DiskStore DBBackedStore sf_group"
    and sf3 :: "('w S3Store \<times> DiskStore DBBackedStore) sf_group" and sf4 :: "(MemStore \<times> 'c) sf_group"
  assumes dups: "dup_ok dup" and alone: "sf1 k f1 = f1" "sf2 k f2 = f2" "sf3 k f3 = f3" "sf4 k f4 = f4"

abbreviation blob_ok :: "string \<Rightarrow> bytes \<Rightarrow> bool" where
  "blob_ok h b \<equiv> BlobHash b = h \<and> b \<noteq> []"

sublocale server_stack \<subseteq> origin: fewer_calls "S3Store_ops api" s3_inv s3_content "\<lambda>h. 8 \<le> length h" "\<lambda>_ _. True" "\<lambda>_ _. True" valid_hash blob_ok "\<lambda>_ _. False"
  by unfold_locales (auto simp: valid_hash_def)

sublocale server_stack \<subseteq> local: db_backed "DiskStore_ops dio" disk_inv disk_content valid_hash "\<lambda>h b. BlobHash b = h" "\<lambda>h b. BlobHash b = h" dup True
  by unfold_locales (rule dups)

sublocale server_stack \<subseteq> first: new_caching "S3Store_ops api" s3_inv s3_content "DBBackedStore_ops True dup (DiskStore_ops dio)" local.db_inv local.db_content
    valid_hash blob_ok "\<lambda>_ _. False" blob_ok "\<lambda>_ _. False" sf1 sf2
  by unfold_locales (rule alone)+

sublocale server_stack \<subseteq> mem: gcache_live MemStore_ops "\<lambda>_. True" blobs valid_hash "\<lambda>_ _. True" "\<lambda>_ _. True" gc keys gwf maxSize
  by unfold_locales (auto simp: MemStore_defs)

sublocale server_stack \<subseteq> second: new_caching "NewCachingStore sf1 sf2 (S3Store_ops api) (DBBackedStore_ops True dup (DiskStore_ops dio))" first.nc.cs_inv first.nc.cs_content
    "GcacheStore_ops gc MemStore_ops" mem.g_inv mem.g_content valid_hash blob_ok "\<lambda>_ _. False" "\<lambda>_ _. True" "\<lambda>_ _. True" sf3 sf4
  unfolding NewCachingStore_def
  by unfold_locales (use alone first.nc.ro.Has_spec first.nc.ro.Get_hit first.nc.ro.Get_miss first.nc.cs.Put_spec first.nc.cs.Delete_spec in auto)

context server_stack
begin

abbreviation full_stack :: "(('w S3Store \<times> DiskStore DBBackedStore) \<times> MemStore \<times> 'c) BlobStore" where
  "full_stack \<equiv> NewCachingStore sf3 sf4 (NewCachingStore sf1 sf2 (S3Store_ops api) (DBBackedStore_ops True dup (DiskStore_ops dio))) (GcacheStore_ops gc MemStore_ops)"

lemma full_stack_refines:
  assumes "winv w" "objs w b = Map.empty" "abs_dir dir" "gwf c0" "keys c0 = {}"
    and "\<forall>c \<in> set cs. call_ok valid_hash blob_ok (\<lambda>_ _. False) c"
    and "run_calls full_stack cs
           ((NewS3Store b w, NewDBBackedStore (NewDiskStore dir 2 empty_fs) ((empty_db TrackAccessBlobs [])\<lparr>SoftDelete := True\<rparr>)), (NewMemStore, c0)) = (obs, s)"
  shows "ref_trace cs Map.empty obs \<and> s3_content (fst (fst s)) = fold ref_call cs Map.empty"
proof -
  let ?d = "NewDBBackedStore (NewDiskStore dir 2 empty_fs) ((empty_db TrackAccessBlobs [])\<lparr>SoftDelete := True\<rparr>)"
  have d: "local.db_inv ?d" "local.db_content ?d = Map.empty"
    using local.new_db_inv [OF NewDiskStore_inv [OF assms(3)] NewDiskStore_content] NewDiskStore_content
    by (simp_all add: local.db_content_def NewDBBackedStore_def)
  have s3: "s3_inv (NewS3Store b w)" "s3_content (NewS3Store b w) = Map.empty" using assms(1,2) by (simp_all add: s3_inv_def s3_content_def NewS3Store_def)
  have "first.nc.cs_inv (NewS3Store b w, ?d)" using d s3 by (simp add: first.nc.cs_inv_def coherent_def)
  then have "second.nc.cs_inv ((NewS3Store b w, ?d), (NewMemStore, c0))"
    using assms(4,5) s3 by (simp add: second.nc.cs_inv_def mem.g_inv_def mem.g_content_def coherent_def)
  from second.nc.cs.run_calls_refines [OF this _ assms(7) [unfolded NewCachingStore_def [of sf3]]] assms(6) s3 show ?thesis by simp
qed

end

text \<open>The flags that give this stack, whatever the size and the path of the cache.\<close>

lemma initCaches_full_stack:
  assumes "diskCacheParams w (diskCache f) = Inr (n, path, ''localdb'')" "n \<noteq> 0" "secondaryDiskCache f = ''''" "0 < memCache f"
    and "MkdirAll w path = None" "db_Connect w (dc_conn localDb) = None"
  shows "initCaches w maxBlobSize f s =
     Inr (CachingStore_of ''reflector'' (CachingStore_of ''reflector'' s (DBBackedStore_of (DiskStore_at path 2) localDb True)) (GcacheStore_of ''mem'' MemStore_new (memCache f) LRU),
          [(n div maxBlobSize, DBBackedStore_of (DiskStore_at path 2) localDb True)])"
  using assms by (simp add: initCaches_def initDiskStore_def Let_def diskCacheParams_def [of _ "''''"])



interpretation served: server_stack map_s3 "\<lambda>_. True" "\<lambda>w. w" "lru_gcache 3" set "\<lambda>c. distinct c \<and> length c \<le> 3" 3 "\<lambda>i. i" dio "\<lambda>k f. f" "\<lambda>k f. f" "\<lambda>k f. f" "\<lambda>k f. f" for dio
  by unfold_locales (auto simp: dup_ok_def)

section \<open>Two disk caches with a local database\<close>

text \<open>
  Both disk caches of a server use the same local database when both name \<open>localdb\<close>. A blob of the first one then seems to be in the second: asked for it there, the store does not find it on its disk and
  deletes the row, so that the first cache no longer knows the blob that lies on its disk, and no cleaner will ever delete it.
\<close>

definition second_cache_Get :: "string \<Rightarrow> MemStore DBBackedStore \<Rightarrow> MemStore DBBackedStore \<Rightarrow> (bytes \<times> BlobTrace \<times> go_error option) outcome \<times> MemStore DBBackedStore \<times> MemStore DBBackedStore" where
  "second_cache_Get h a b =
     (case DBBackedStore_Get True MemStore_ops env0 h (b\<lparr>dbs_db := dbs_db a\<rparr>) of (r, b') \<Rightarrow> (r, a\<lparr>dbs_db := dbs_db b'\<rparr>, b'))"

lemma shared_localdb_orphans_blob:
  "let a0 = NewDBBackedStore NewMemStore ((empty_db TrackAccessBlobs [])\<lparr>SoftDelete := True\<rparr>);
       (r1, a1) = DBBackedStore_Put (\<lambda>i. i) MemStore_ops ''h'' ''x'' a0;
       (r2, a2, b2) = second_cache_Get ''h'' a1 a0;
       (r3, a3) = DBBackedStore_Has ''h'' a2
   in r1 = Ret None \<and> (case r2 of Ret (b, tr, err) \<Rightarrow> err = Some ErrBlobNotFound | Panic p \<Rightarrow> False) \<and> r3 = Ret (False, None) \<and> blobs (dbs_blobs a3) ''h'' = Some ''x''"
  by code_simp

end
