(* ===== verification/Metrics.thy ===== *)
theory Metrics
  imports Go_Path
begin

text \<open>
  The error counter (src/internal/metrics/metrics.go: \<open>TrackError\<close>) and the functions of the servers that report to it. The other counters and gauges are written only and left out.

  An error is what \<open>TrackError\<close> asks of it: its text, which of the errors of the system it wraps (\<open>errors.Is\<close>), and whether its type is \<open>*json.SyntaxError\<close>. \<open>tracked\<close> gives this for the errors of the
  program.
\<close>

datatype sys_error = ECONNRESET | DeadlineExceeded | ETIMEDOUT | UnexpectedEOF | EPIPE

record tracked_error =
  te_text :: string
  te_wraps :: "sys_error set"
  te_json_syntax :: bool

definition tracked :: "go_error \<Rightarrow> tracked_error" where
  "tracked e = \<lparr>te_text = Error e, te_wraps = (if errors_Is e ErrUnexpectedEOF then {UnexpectedEOF} else {}), te_json_syntax = False\<rparr>"

datatype error_type =
    errConnReset | errReadConnReset | errWriteConnReset | errReadConnTimedOut | errNoNetworkActivity | errWriteConnTimedOut | errWriteBrokenPipe | errEPipe | errETimedout
  | errIOTimeout | errUnexpectedEOF | errUnexpectedEOFStr | errJSONSyntax | errBlobTooBig | errDeadlineExceeded | errHashMismatch | errZeroByteBlob | errInvalidCharacter
  | errBlobNotFound | errNoErr | errQuicProto | errOther

fun error_label :: "error_type \<Rightarrow> string" where
  "error_label errConnReset = ''conn_reset''"
| "error_label errReadConnReset = ''read_conn_reset''"
| "error_label errWriteConnReset = ''write_conn_reset''"
| "error_label errReadConnTimedOut = ''read_conn_timed_out''"
| "error_label errNoNetworkActivity = ''no_network_activity''"
| "error_label errWriteConnTimedOut = ''write_conn_timed_out''"
| "error_label errWriteBrokenPipe = ''write_broken_pipe''"
| "error_label errEPipe = ''e_pipe''"
| "error_label errETimedout = ''e_timedout''"
| "error_label errIOTimeout = ''io_timeout''"
| "error_label errUnexpectedEOF = ''unexpected_eof''"
| "error_label errUnexpectedEOFStr = ''unexpected_eof_str''"
| "error_label errJSONSyntax = ''json_syntax''"
| "error_label errBlobTooBig = ''blob_too_big''"
| "error_label errDeadlineExceeded = ''deadline_exceeded''"
| "error_label errHashMismatch = ''hash_mismatch''"
| "error_label errZeroByteBlob = ''zero_byte_blob''"
| "error_label errInvalidCharacter = ''invalid_character''"
| "error_label errBlobNotFound = ''blob_not_found''"
| "error_label errNoErr = ''no_error''"
| "error_label errQuicProto = ''quic_protocol_violation''"
| "error_label errOther = ''other''"

definition error_type_of :: "tracked_error \<Rightarrow> error_type" where
  "error_type_of e =
     (let has = strings_Contains (te_text e) in
      if has ''i/o timeout'' then errIOTimeout
      else if ECONNRESET \<in> te_wraps e then errConnReset
      else if DeadlineExceeded \<in> te_wraps e then errDeadlineExceeded
      else if has ''read: connection reset by peer'' then errReadConnReset
      else if has ''write: connection reset by peer'' then errWriteConnReset
      else if ETIMEDOUT \<in> te_wraps e then errETimedout
      else if has ''read: connection timed out'' then errReadConnTimedOut
      else if has ''NO_ERROR: No recent network activity'' then errNoNetworkActivity
      else if has ''write: connection timed out'' then errWriteConnTimedOut
      else if UnexpectedEOF \<in> te_wraps e then errUnexpectedEOF
      else if has ''unexpected EOF'' then errUnexpectedEOFStr
      else if EPIPE \<in> te_wraps e then errEPipe
      else if has ''write: broken pipe'' then errWriteBrokenPipe
      else if has ''blob must be at most'' then errBlobTooBig
      else if has ''hash of received blob data does not match hash from send request'' then errHashMismatch
      else if has ''blob not found'' then errBlobNotFound
      else if has ''0-byte blob received'' then errZeroByteBlob
      else if has ''PROTOCOL_VIOLATION: tried to retire connection'' then errQuicProto
      else if has ''invalid character'' then errInvalidCharacter
      else if te_json_syntax e then errJSONSyntax
      else if has ''NO_ERROR'' then errNoErr
      else errOther)"

text \<open>The counter vector \<open>ErrorCount\<close> by direction and error type.\<close>

type_synonym error_count = "string \<times> string \<Rightarrow> nat"

definition TrackError :: "string \<Rightarrow> tracked_error option \<Rightarrow> error_count \<Rightarrow> bool \<times> error_count" where
  "TrackError direction e count =
     (case e of
        None \<Rightarrow> (False, count)
      | Some e \<Rightarrow>
          let errType = error_type_of e; label = (direction, error_label errType)
          in (errType = errOther, count(label := Suc (count label))))"

definition DirectionUpload :: string where
  "DirectionUpload = ''upload''"

definition DirectionDownload :: string where
  "DirectionDownload = ''download''"

text \<open>The result tells whether the error is logged.\<close>

definition doError :: "tracked_error option \<Rightarrow> error_count \<Rightarrow> bool \<times> error_count" where
  "doError err = TrackError DirectionUpload err"

definition peer_logError :: "tracked_error option \<Rightarrow> error_count \<Rightarrow> bool \<times> error_count" where
  "peer_logError err = TrackError DirectionDownload err"

definition http3_logError :: "tracked_error option \<Rightarrow> error_count \<Rightarrow> bool \<times> error_count" where
  "http3_logError err = TrackError DirectionDownload err"

section \<open>Facts\<close>

lemma error_label_inj: "error_label a = error_label b \<Longrightarrow> a = b"
  by (cases a; cases b) simp_all

text \<open>The errors of the program are counted under their own type, also behind a prefix that says nothing else.\<close>

lemma own_errors:
  "error_type_of (tracked ErrBlobNotFound) = errBlobNotFound" "error_type_of (tracked ErrTimeout) = errIOTimeout" "error_type_of (tracked ErrUnexpectedEOF) = errUnexpectedEOF"
  "error_type_of (tracked (Msg ''0-byte blob received'')) = errZeroByteBlob"
  "error_type_of (tracked (Msg ''hash of received blob data does not match hash from send request'')) = errHashMismatch"
  "error_type_of (tracked (Msg ''invalid character'')) = errInvalidCharacter"
  by code_simp+

text \<open>
  Every error is counted once: \<open>TrackError\<close> increases the counter of exactly one pair of direction and type for an error and none without one, whatever the error says; and it asks for the error to be logged
  exactly when its type is not known.
\<close>

theorem TrackError_counts_once:
  "TrackError direction e count = (shouldLog, count') \<longleftrightarrow>
     (case e of
        None \<Rightarrow> \<not> shouldLog \<and> count' = count
      | Some x \<Rightarrow> \<exists>t. t = error_type_of x \<and> shouldLog = (t = errOther)
          \<and> (\<forall>d l. count' (d, l) = count (d, l) + of_bool (d = direction \<and> l = error_label t)))"
  by (auto simp: TrackError_def Let_def fun_eq_iff split: option.split)

end
