(* ===== verification/Commands.thy ===== *)
theory Commands
  imports Setup Blocklist
begin

text \<open>
  The other commands with logic of their own: what runs before every command (src/cmd/root.go: the configuration file, \<open>preRun\<close>, \<open>argFuncs\<close>), the update checker it starts (src/updater/updater.go), \<open>getstream\<close>
  and \<open>sendblob\<close> (src/cmd/getstream.go, sendblob.go), and the stores of \<open>peer\<close> and \<open>upload\<close>.

  \<open>os.Exit\<close> and \<open>log.Fatal\<close> are \<open>Inl\<close> or an error that is returned; \<open>checkErr\<close> panics. The package \<open>stream\<close> of lbry.go (\<open>FromBlob\<close>, \<open>Plaintext\<close>, \<open>stream.New\<close>), the HTTP client, \<open>time.Parse\<close> and the
  package \<open>go-update\<close> are arguments.
\<close>

section \<open>The configuration file\<close>

fun dec_Config :: "json \<Rightarrow> Config option" where
  "dec_Config (JObj ms) =
     (case (dec_field dec_str '''' ''aws_id'' ms, dec_field dec_str '''' ''aws_secret'' ms, dec_field dec_str '''' ''bucket_region'' ms, dec_field dec_str '''' ''bucket_name'' ms,
            dec_field dec_str '''' ''db_conn'' ms, dec_field dec_str '''' ''slack_hook_url'' ms, dec_field dec_str '''' ''update_bin_url'' ms, dec_field dec_str '''' ''update_cmd'' ms) of
        (Some i, Some k, Some r, Some b, Some d, Some s, Some u, Some c) \<Rightarrow>
          Some \<lparr>AwsID = i, AwsSecret = k, BucketRegion = r, BucketName = b, DBConn = d, SlackHookURL = s, UpdateBinURL = u, UpdateCmd = c\<rparr>
      | _ \<Rightarrow> None)"
| "dec_Config JNull = Some no_Config"
| "dec_Config _ = None"

definition enc_Config :: "Config \<Rightarrow> json" where
  "enc_Config c =
     JObj [(''aws_id'', JStr (AwsID c)), (''aws_secret'', JStr (AwsSecret c)), (''bucket_region'', JStr (BucketRegion c)), (''bucket_name'', JStr (BucketName c)),
           (''db_conn'', JStr (DBConn c)), (''slack_hook_url'', JStr (SlackHookURL c)), (''update_bin_url'', JStr (UpdateBinURL c)), (''update_cmd'', JStr (UpdateCmd c))]"

definition loadConfig :: "go_error + bytes \<Rightarrow> go_error + Config" where
  "loadConfig ReadFile =
     (case ReadFile of
        Inl err \<Rightarrow> if errors_Is err ErrNotExist then Inl (Msg ''config file not found'') else Inl err
      | Inr raw \<Rightarrow>
          (case Option.bind (json_unmarshal raw) dec_Config of
             None \<Rightarrow> Inl (Msg ''cannot unmarshal'')
           | Some c \<Rightarrow> Inr c))"

text \<open>\<open>argFuncs\<close>: the checks of the arguments in their order, up to the first error.\<close>

fun argFuncs :: "(string list \<Rightarrow> go_error option) list \<Rightarrow> string list \<Rightarrow> go_error option" where
  "argFuncs [] args = None"
| "argFuncs (f # r) args = (case f args of Some err \<Rightarrow> Some err | None \<Rightarrow> argFuncs r args)"

record pre_run =
  pr_debug :: bool
  pr_loggers :: "string list"
  pr_config :: Config
  pr_slack :: bool
  pr_updater :: bool

text \<open>\<open>read\<close> is the file system, \<open>old\<close> the value of the variable \<open>globalConfig\<close> before. An unknown kind of log is ignored.\<close>

definition preRun :: "(string \<Rightarrow> string list \<Rightarrow> bool) \<Rightarrow> string list \<Rightarrow> string \<Rightarrow> (string \<Rightarrow> go_error + bytes) \<Rightarrow> Config \<Rightarrow> string + pre_run" where
  "preRun inSlice verbose cnf read old =
     (let all = inSlice ''all'' verbose;
          kinds = (if all then [''dht'', ''node_finder''] else verbose);
          loggers = filter (\<lambda>k. k = ''dht'' \<or> k = ''node_finder'') kinds
      in if cnf = '''' then Inl ''--conf flag required''
         else
           (case (if cnf \<noteq> ''none'' then loadConfig (read cnf) else Inr old) of
              Inl err \<Rightarrow> Inl (Error err)
            | Inr c \<Rightarrow>
                Inr \<lparr>pr_debug = all, pr_loggers = loggers, pr_config = c, pr_slack = (SlackHookURL c \<noteq> ''''), pr_updater = (UpdateBinURL c \<noteq> '''')\<rparr>))"

section \<open>The update checker\<close>

text \<open>\<open>init\<close> of the package meta: the time of the build from the linker's variable \<open>Time\<close>, in seconds; the zero time of Go, the start of the year 1, when it is empty or not a number.\<close>

definition BuildTime_of :: "string \<Rightarrow> int" where
  "BuildTime_of Time = (if Time = '''' then - 62135596800 else (case Atoi Time of Inl err \<Rightarrow> - 62135596800 | Inr t \<Rightarrow> t))"

definition is_space :: "char \<Rightarrow> bool" where
  "is_space c \<longleftrightarrow> of_char c \<in> {9 :: nat, 10, 11, 12, 13, 32}"

text \<open>\<open>strings.Fields\<close> on ASCII text.\<close>

fun fields_from :: "string \<Rightarrow> string \<Rightarrow> string list" where
  "fields_from w [] = (if w = [] then [] else [w])"
| "fields_from w (c # cs) = (if is_space c then (if w = [] then fields_from [] cs else w # fields_from [] cs) else fields_from (w @ [c]) cs)"

definition strings_Fields :: "string \<Rightarrow> string list" where
  "strings_Fields = fields_from []"

text \<open>What the world answers at one tick: the \<open>HEAD\<close> request (status and \<open>Last-Modified\<close>), the download, its installation and the start of the command.\<close>

record update_tick =
  ut_Head :: "go_error + int \<times> string"
  ut_Get :: "go_error option"
  ut_Apply :: "go_error option"
  ut_Start :: "string list \<Rightarrow> go_error option"

definition updateBin :: "update_tick \<Rightarrow> go_error option" where
  "updateBin t = (case ut_Get t of Some err \<Rightarrow> Some err | None \<Rightarrow> ut_Apply t)"

text \<open>The state: how often the binary was replaced. A round of the loop goes on (\<open>False\<close>), returns (\<open>True\<close>) or panics. Times are in seconds.\<close>

definition update_round :: "(string \<Rightarrow> go_error + int) \<Rightarrow> int \<Rightarrow> string \<Rightarrow> update_tick \<Rightarrow> (nat, bool) op" where
  "update_round parse BuildTime updateCmd t =
     (case ut_Head t of
        Inl err \<Rightarrow> ret False
      | Inr (status, last_modified) \<Rightarrow>
          if 300 \<le> status then ret False
          else
            (case parse last_modified of
               Inl err \<Rightarrow> ret False
             | Inr lm \<Rightarrow>
                 if \<not> BuildTime + 5 * 60 < lm then ret False
                 else
                   (case updateBin t of
                      Some err \<Rightarrow> ret False
                    | None \<Rightarrow>
                        bnd (modify Suc) (\<lambda>_.
                          let parts = strings_Fields updateCmd in
                          if parts = [] then panic ''index out of range''
                          else (case ut_Start t parts of Some err \<Rightarrow> ret False | None \<Rightarrow> ret True)))))"

text \<open>\<open>Run\<close> over the ticks that have come; \<open>False\<close> means that it still waits.\<close>

fun updater_Run :: "(string \<Rightarrow> go_error + int) \<Rightarrow> int \<Rightarrow> string \<Rightarrow> update_tick list \<Rightarrow> (nat, bool) op" where
  "updater_Run parse BuildTime updateCmd [] = ret False"
| "updater_Run parse BuildTime updateCmd (t # ts) =
     bnd (update_round parse BuildTime updateCmd t) (\<lambda>r. if r then ret True else updater_Run parse BuildTime updateCmd ts)"

section \<open>getstream\<close>

record sd_blob =
  sd_FileName :: string
  sd_Key :: bytes
  sd_BlobInfos :: "(bytes \<times> bytes) list"

text \<open>The file that is written, and the failures of the following writes.\<close>

record out_file =
  of_name :: string
  of_data :: bytes
  of_faults :: "go_error option list"

definition f_Write :: "bytes \<Rightarrow> (out_file, go_error option) op" where
  "f_Write data f =
     (case of_faults f of
        Some err # r \<Rightarrow> (Ret (Some err), f\<lparr>of_faults := r\<rparr>)
      | r \<Rightarrow> (Ret None, f\<lparr>of_data := of_data f @ data, of_faults := tl r\<rparr>))"

fun write_blobs :: "'s BlobStore \<Rightarrow> (bytes \<Rightarrow> bytes \<Rightarrow> go_error + bytes) \<Rightarrow> call_env \<Rightarrow> (bytes \<times> bytes) list \<Rightarrow> ('s \<times> out_file, go_error option) op" where
  "write_blobs st Plaintext e [] = ret None"
| "write_blobs st Plaintext e ((bh, iv) # r) =
     bnd (on_fst (bs_Get st (env_l e) (hex_EncodeToString bh))) (\<lambda>(b, trace, err).
       if err \<noteq> None then ret err
       else
         (case Plaintext b iv of
            Inl err \<Rightarrow> ret (Some err)
          | Inr data \<Rightarrow> bnd (on_snd (f_Write data)) (\<lambda>err. if err \<noteq> None then ret err else write_blobs st Plaintext (env_r e) r)))"

definition getStreamCmd :: "'s BlobStore \<Rightarrow> (bytes \<Rightarrow> go_error + sd_blob) \<Rightarrow> (bytes \<Rightarrow> bytes \<Rightarrow> bytes \<Rightarrow> go_error + bytes) \<Rightarrow> go_error + string \<Rightarrow> string
    \<Rightarrow> (string \<Rightarrow> go_error option) \<Rightarrow> call_env \<Rightarrow> string \<Rightarrow> ('s \<times> out_file, go_error option) op" where
  "getStreamCmd st FromBlob Plaintext Getwd stamp Create e sdHash =
     (case Getwd of
        Inl err \<Rightarrow> ret (Some err)
      | Inr wd \<Rightarrow>
          bnd (on_fst (bs_Get st (env_l e) sdHash)) (\<lambda>(sdb, trace, err).
            if err \<noteq> None then ret err
            else
              (case FromBlob sdb of
                 Inl err \<Rightarrow> ret (Some err)
               | Inr sd \<Rightarrow>
                   let filename = (if sd_FileName sd = '''' then ''stream_'' @ stamp else sd_FileName sd)
                   in case Create (wd @ ''/'' @ filename) of
                        Some err \<Rightarrow> ret (Some err)
                      | None \<Rightarrow>
                          bnd (on_snd (modify (\<lambda>f. f\<lparr>of_name := wd @ ''/'' @ filename, of_data := []\<rparr>))) (\<lambda>_.
                            write_blobs st (Plaintext (sd_Key sd)) (env_r e) (butlast (sd_BlobInfos sd))))))"

section \<open>sendblob\<close>

text \<open>The blobs of the stream: the first is the sd blob. \<open>checkErr\<close> panics on every error, also on \<open>ErrBlobExists\<close>.\<close>

fun send_stream :: "blob_api \<Rightarrow> 'n peer \<Rightarrow> bool \<Rightarrow> bytes list \<Rightarrow> ('n rClient, unit) op" where
  "send_stream api peer isSd [] = ret ()"
| "send_stream api peer isSd (b # bs) =
     bnd (if isSd then SendSDBlob api peer b else SendBlob api peer b) (\<lambda>err.
       case err of Some err \<Rightarrow> panic (Error err) | None \<Rightarrow> send_stream api peer False bs)"

definition sendBlobCmd :: "blob_api \<Rightarrow> 'n peer \<Rightarrow> go_error + tcp \<Rightarrow> go_error + bytes \<Rightarrow> (go_error + bytes list) option \<Rightarrow> (bytes \<Rightarrow> go_error option) \<Rightarrow> ('n rClient, go_error option) op" where
  "sendBlobCmd api peer dialled random_blob stream_New FromBlob =
     bnd (Client_Connect peer dialled) (\<lambda>err.
       case err of
         Some err \<Rightarrow> ret (Some err)
       | None \<Rightarrow>
           (case stream_New of
              None \<Rightarrow> (case random_blob of Inl err \<Rightarrow> ret (Some err) | Inr b \<Rightarrow> bnd (SendBlob api peer b) (\<lambda>err. ret None))
            | Some (Inl err) \<Rightarrow> panic (Error err)
            | Some (Inr s) \<Rightarrow>
                (case s of
                   [] \<Rightarrow> panic ''index out of range''
                 | sd # bs \<Rightarrow>
                     (case FromBlob sd of
                        Some err \<Rightarrow> panic (Error err)
                      | None \<Rightarrow> bnd (send_stream api peer True s) (\<lambda>_. ret None)))))"

section \<open>The stores of peer and upload\<close>

definition s3_of :: "Config \<Rightarrow> store_cfg" where
  "s3_of c = S3Store_at (AwsID c) (AwsSecret c) (BucketRegion c) (BucketName c)"

definition sql_of :: "Config \<Rightarrow> db_cfg" where
  "sql_of c = \<lparr>dc_conn = DBConn c, dc_TrackAccess = TrackAccessNone, dc_SoftDelete = False\<rparr>"

definition peerCmd :: "outside \<Rightarrow> Config \<Rightarrow> bool \<Rightarrow> string outcome + store_cfg" where
  "peerCmd w c peerNoDB =
     (let s3 = s3_of c in
      case (if peerNoDB then None else db_Connect w (DBConn c)) of
        Some err \<Rightarrow> Inl (Panic (Error err))
      | None \<Rightarrow>
          (case Listen w (port_addr 3333) of
             Some err \<Rightarrow> Inl (Ret (Error err))
           | None \<Rightarrow> Inr (if peerNoDB then s3 else DBBackedStore_of s3 (sql_of c) False)))"

definition uploadCmd :: "outside \<Rightarrow> Config \<Rightarrow> string outcome + store_cfg" where
  "uploadCmd w c = (case db_Connect w (DBConn c) of Some err \<Rightarrow> Inl (Panic (Error err)) | None \<Rightarrow> Inr (DBBackedStore_of (s3_of c) (sql_of c) False))"

text \<open>\<open>test\<close>: a reflector and a peer server over one memory store, without a block list, shut down in the reverse order.\<close>

definition testCmd :: "outside \<Rightarrow> string + part list" where
  "testCmd w =
     (case reflector_Start_err (isBlocklister MemStore_new) False (Listen w (port_addr 5566)) of
        Some err \<Rightarrow> Inl (Error err)
      | None \<Rightarrow>
          (case Listen w (port_addr (5566 + 1)) of
             Some err \<Rightarrow> Inl (Error err)
           | None \<Rightarrow> Inr [ReflectorServer MemStore_new MemStore_new False, PeerServer MemStore_new]))"

end
