(* ===== verification/Commands_Correct.thy ===== *)
theory Commands_Correct
  imports Commands Caching_Correct Peer_Correct
begin

text \<open>
  What the commands of \<open>Commands\<close> do: a configuration file is read back, the update checker replaces the binary only by a newer one (and crashes when it has no command to run), and \<open>getstream\<close> writes the content of the
  stream, through the cache, the peer client and the peer server.
\<close>

section \<open>The configuration file\<close>

text \<open>
  The configuration file is read back: a file that holds the printed form of a configuration is loaded as that configuration, whatever characters its strings have.
\<close>

theorem loadConfig_roundtrip: "loadConfig (Inr (jprint (enc_Config c))) = Inr c"
proof -
  have "json_unmarshal (jprint (enc_Config c)) = Some (enc_Config c)"
    unfolding enc_Config_def by (rule json_unmarshal_print) simp
  moreover have "dec_Config (enc_Config c) = Some c"
    by (simp add: enc_Config_def dec_field_def jvals_def)
  ultimately show ?thesis by (simp add: loadConfig_def)
qed

section \<open>The update checker\<close>

lemma fields_nonblank: "list_ex (\<lambda>c. \<not> is_space c) cs \<or> w \<noteq> [] \<Longrightarrow> fields_from w cs \<noteq> []"
  by (induction w cs rule: fields_from.induct) auto

text \<open>A tick at which an update is there and can be installed.\<close>

definition update_ready :: "(string \<Rightarrow> go_error + int) \<Rightarrow> int \<Rightarrow> update_tick \<Rightarrow> bool" where
  "update_ready parse BuildTime t \<longleftrightarrow>
     (\<exists>status lm tm. ut_Head t = Inr (status, lm) \<and> status < 300 \<and> parse lm = Inr tm \<and> BuildTime + 300 < tm) \<and> ut_Get t = None \<and> ut_Apply t = None"

lemma update_round_cases:
  "update_round parse BuildTime updateCmd t n =
     (if update_ready parse BuildTime t
      then (if strings_Fields updateCmd = [] then Panic ''index out of range'' else Ret (ut_Start t (strings_Fields updateCmd) = None), Suc n)
      else (Ret False, n))"
  by (auto simp: update_round_def update_ready_def updateBin_def bnd_def modify_def ret_def panic_def Let_def split: sum.splits option.splits)

text \<open>
  The update checker with a command to run never crashes: over any ticks, it replaces the binary only at ticks where a successful \<open>HEAD\<close> request names a time more than five minutes after the build, and
  it returns exactly when one of those replacements was followed by a start of the command that succeeded; after that it looks no more.
\<close>

theorem updater_Run_replaces:
  assumes "list_ex (\<lambda>c. \<not> is_space c) updateCmd"
  shows "updater_Run parse BuildTime updateCmd ts n =
     (let ready = filter (update_ready parse BuildTime) ts;
          failed = takeWhile (\<lambda>t. ut_Start t (strings_Fields updateCmd) \<noteq> None) ready
      in (Ret (failed \<noteq> ready), n + length failed + (if failed \<noteq> ready then 1 else 0)))"
proof (induction ts arbitrary: n)
  case (Cons t ts)
  moreover have "strings_Fields updateCmd \<noteq> []" using assms by (simp add: strings_Fields_def fields_nonblank)
  ultimately show ?case by (cases "ut_Start t (strings_Fields updateCmd)") (simp_all add: bnd_def update_round_cases ret_def Let_def)
qed (simp add: ret_def)

theorem updater_Run_replaces_witness:
  "updater_Run (\<lambda>_. Inr 1000) 0 ''systemctl restart reflector''
     [\<lparr>ut_Head = Inl (Msg ''down''), ut_Get = None, ut_Apply = None, ut_Start = \<lambda>_. None\<rparr>, \<lparr>ut_Head = Inr (200, ''''), ut_Get = None, ut_Apply = None, ut_Start = \<lambda>_. None\<rparr>] 0 = (Ret True, 1)"
  by (subst updater_Run_replaces) (simp_all add: strings_Fields_def fields_from.simps is_space_def update_ready_def)

text \<open>
  C38. An empty or blank \<open>update_cmd\<close> crashes the server at the first update: \<open>preRun\<close> starts the update checker although the command is empty, the binary is replaced, and the access to the first word of the command
  panics; no tick before it changes anything.
\<close>

theorem updater_panics_on_blank_cmd:
  assumes "preRun inSlice verbose cnf read old = Inr pr" "UpdateBinURL (pr_config pr) \<noteq> ''''" "list_all is_space (UpdateCmd (pr_config pr))"
    and "list_ex (update_ready parse BuildTime) ts"
  shows "pr_updater pr \<and> updater_Run parse BuildTime (UpdateCmd (pr_config pr)) ts n = (Panic ''index out of range'', Suc n)"
proof -
  have "fields_from [] cs = []" if "list_all is_space cs" for cs using that by (induction cs) auto
  then have b: "strings_Fields (UpdateCmd (pr_config pr)) = []" using assms(3) by (simp add: strings_Fields_def)
  have "updater_Run parse BuildTime (UpdateCmd (pr_config pr)) ts n = (Panic ''index out of range'', Suc n)" using assms(4)
    by (induction ts) (auto simp: bnd_def update_round_cases b ret_def)
  moreover have "pr_updater pr" using assms(1,2) by (auto simp: preRun_def Let_def split: if_splits sum.splits)
  ultimately show ?thesis by simp
qed

theorem updater_panics_on_blank_cmd_witness:
  "updater_Run (\<lambda>_. Inr 1000) 0 '''' [\<lparr>ut_Head = Inr (200, ''''), ut_Get = None, ut_Apply = None, ut_Start = \<lambda>_. None\<rparr>] 0 = (Panic ''index out of range'', 1)"
proof -
  let ?c = "no_Config\<lparr>UpdateBinURL := ''u''\<rparr>"
  have "preRun (\<lambda>x xs. x \<in> set xs) [] ''none'' (\<lambda>_. Inr []) ?c = Inr \<lparr>pr_debug = False, pr_loggers = [], pr_config = ?c, pr_slack = False, pr_updater = True\<rparr>"
    by (simp add: preRun_def no_Config_def)
  from updater_panics_on_blank_cmd [OF this, of "\<lambda>_. Inr 1000" 0 "[\<lparr>ut_Head = Inr (200, ''''), ut_Get = None, ut_Apply = None, ut_Start = \<lambda>_. None\<rparr>]" 0]
  show ?thesis by (simp add: no_Config_def update_ready_def)
qed

text \<open>A binary that was built without its build time takes every binary since 1970 for a newer one.\<close>

lemma unset_build_time_updates:
  "ut_Head t = Inr (200, lm) \<Longrightarrow> parse lm = Inr tm \<Longrightarrow> 0 \<le> tm \<Longrightarrow> ut_Get t = None \<Longrightarrow> ut_Apply t = None \<Longrightarrow> update_ready parse (BuildTime_of '''') t"
  by (auto simp: update_ready_def BuildTime_of_def)

section \<open>getstream\<close>

text \<open>The content of a stream: the plaintexts of the blobs that the infos name, where they are all there and can be decrypted.\<close>

definition stream_data :: "content \<Rightarrow> (bytes \<Rightarrow> bytes \<Rightarrow> go_error + bytes) \<Rightarrow> (bytes \<times> bytes) list \<Rightarrow> bytes list \<Rightarrow> bool" where
  "stream_data m Plaintext infos ps \<longleftrightarrow> list_all2 (\<lambda>(bh, iv) p. \<exists>b. m (hex_EncodeToString bh) = Some b \<and> Plaintext b iv = Inr p) infos ps"

lemma f_Write_ok: "of_faults f = [] \<Longrightarrow> f_Write d f = (Ret None, f\<lparr>of_data := of_data f @ d\<rparr>)"
  by (cases f) (simp add: f_Write_def)

context ro_store
begin

lemma write_blobs_ok:
  assumes "inv s" "stream_data (content s) P is ps" "\<forall>(bh, iv) \<in> set is. vh (hex_EncodeToString bh)" "of_faults f = []"
  shows "\<exists>s'. write_blobs st P e (is @ rest) (s, f) = write_blobs st P ((env_r ^^ length is) e) rest (s', f\<lparr>of_data := of_data f @ concat ps\<rparr>) \<and> inv s' \<and> content s' = content s"
  using assms
proof (induction "is" arbitrary: s f e ps)
  case Nil
  then show ?case by (auto simp: stream_data_def)
next
  case (Cons i "is")
  obtain bh iv where i: "i = (bh, iv)" by (cases i)
  from Cons.prems(2) i obtain p ps' b where ps: "ps = p # ps'" and b: "content s (hex_EncodeToString bh) = Some b" "P b iv = Inr p"
    and r: "stream_data (content s) P is ps'" by (auto simp: stream_data_def list_all2_Cons1)
  from Get_hit [OF Cons.prems(1) _ b(1), of "env_l e"] Cons.prems(3) i obtain tr s1 where
    g: "bs_Get st (env_l e) (hex_EncodeToString bh) s = (Ret (b, tr, None), s1)" "inv s1" "content s1 = content s" by auto
  from Cons.IH [OF g(2), of ps' "f\<lparr>of_data := of_data f @ p\<rparr>" "env_r e"] g(3) r Cons.prems(3,4) ps i b
  show ?case by (simp add: bnd_def g(1) f_Write_ok funpow_swap1)
qed

lemma getStream_ok:
  assumes "inv s" "vh sdHash" "content s sdHash = Some sdb" "FromBlob sdb = Inr sd" "butlast (sd_BlobInfos sd) = is @ rest"
    and "stream_data (content s) (P (sd_Key sd)) is ps" "\<forall>(bh, iv) \<in> set (butlast (sd_BlobInfos sd)). vh (hex_EncodeToString bh)"
    and "rest = [] \<or> content s (hex_EncodeToString (fst (hd rest))) = None" "\<forall>p. Create p = None" "of_faults f = []"
  shows "\<exists>err s' f'. getStreamCmd st FromBlob P (Inr wd) stamp Create e sdHash (s, f) = (Ret err, (s', f')) \<and> content s' = content s \<and> of_data f' = concat ps
     \<and> of_name f' = wd @ ''/'' @ (if sd_FileName sd = '''' then ''stream_'' @ stamp else sd_FileName sd) \<and> (if rest = [] then err = None else err_not_found err)"
proof -
  let ?n = "wd @ ''/'' @ (if sd_FileName sd = '''' then ''stream_'' @ stamp else sd_FileName sd)"
  from Get_hit [OF assms(1-3), of "env_l e"] obtain tr s1 where g: "bs_Get st (env_l e) sdHash s = (Ret (sdb, tr, None), s1)" "inv s1" "content s1 = content s" by blast
  from write_blobs_ok [OF g(2), of "P (sd_Key sd)" "is" ps "f\<lparr>of_name := ?n, of_data := []\<rparr>" "env_r e" rest] assms g(3) obtain s2 where
    w: "write_blobs st (P (sd_Key sd)) (env_r e) (is @ rest) (s1, f\<lparr>of_name := ?n, of_data := []\<rparr>)
        = write_blobs st (P (sd_Key sd)) ((env_r ^^ length is) (env_r e)) rest (s2, f\<lparr>of_name := ?n, of_data := concat ps\<rparr>)" "inv s2" "content s2 = content s"
    by auto
  have u: "getStreamCmd st FromBlob P (Inr wd) stamp Create e sdHash (s, f)
      = write_blobs st (P (sd_Key sd)) ((env_r ^^ length is) (env_r e)) rest (s2, f\<lparr>of_name := ?n, of_data := concat ps\<rparr>)"
    using w(1) by (simp add: getStreamCmd_def bnd_def g(1) assms(4,5,9) modify_def Let_def)
  show ?thesis
  proof (cases rest)
    case (Cons i r)
    obtain bh iv where i: "i = (bh, iv)" by (cases i)
    with Cons assms(5,7,8) w(3) have m: "vh (hex_EncodeToString bh)" "content s2 (hex_EncodeToString bh) = None" by auto
    let ?e = "(env_r ^^ length is) (env_r e)"
    from Get_miss [OF w(2) m, of "env_l ?e"] obtain tr x s3 where "bs_Get st (env_l ?e) (hex_EncodeToString bh) s2 = (Ret ([], tr, Some x), s3)" "not_found x" "content s3 = content s2" by blast
    with w(3) Cons i u show ?thesis by (simp add: bnd_def ret_def)
  qed (use u w(3) in \<open>simp add: ret_def\<close>)
qed

end

text \<open>The store of the command: a peer's disk behind the peer server and client, and a disk as the cache.\<close>

interpretation getstream: new_ro_caching "peer_Store (\<lambda>_. Inr (tcp_of [])) (peer_serve 96 (DiskStore_ops dio) srv)" sized_disk disk_content "DiskStore_ops dio'" disk_inv disk_content
    valid_hash "\<lambda>h b. BlobHash b = h" "\<lambda>h b. BlobHash b = h" "\<lambda>k f. f" "\<lambda>k f. f" for dio srv dio'
  by unfold_locales simp_all

lemma hex48_valid: "length bh = 48 \<Longrightarrow> valid_hash (hex_EncodeToString bh)"
  using hex_set by (auto simp: valid_hash_def hex_length)

text \<open>
  C19. \<open>getstream\<close> writes the stream: against a peer server in front of a disk of blobs, with a cache directory that holds nothing but blobs of that peer, the command asks for the sd blob and then for every blob it
  names but the last, through the cache, the wire format and the server, and the file holds the plaintexts of these blobs in their order, as far as the peer has them: it ends without an error exactly when it
  has all of them, and otherwise with ``blob not found'' at the first that is missing.
\<close>

theorem getStream_writes_stream:
  fixes dio dio' srv
  defines "st \<equiv> NewCachingStore (\<lambda>k f. f) (\<lambda>k f. f) (peer_Store (\<lambda>_. Inr (tcp_of [])) (peer_serve 96 (DiskStore_ops dio) srv)) (DiskStore_ops dio')"
  assumes "sized_disk d" "disk_inv c" "disk_content c \<subseteq>\<^sub>m disk_content d" "disk_content d sdHash = Some sdb" "FromBlob sdb = Inr sd" "butlast (sd_BlobInfos sd) = is @ rest"
    and "stream_data (disk_content d) (P (sd_Key sd)) is ps" "\<forall>(bh, iv) \<in> set (butlast (sd_BlobInfos sd)). length bh = 48"
    and "rest = [] \<or> disk_content d (hex_EncodeToString (fst (hd rest))) = None" "\<forall>p. Create p = None" "of_faults f = []"
  shows "\<exists>err s' f'. getStreamCmd st FromBlob P (Inr wd) stamp Create e sdHash ((d, c), f) = (Ret err, (s', f')) \<and> of_data f' = concat ps
     \<and> of_name f' = wd @ ''/'' @ (if sd_FileName sd = '''' then ''stream_'' @ stamp else sd_FileName sd) \<and> (if rest = [] then err = None else err_not_found err)"
proof -
  have a: "BlobHash b = h" if "disk_content d h = Some b" for h b using assms(2) that by (auto simp: sized_disk_def disk_inv_def)
  then have h: "valid_hash sdHash" using assms(5) BlobHash_valid by metis
  have i: "getstream.nc.cs_inv (d, c)" using assms(2-4) a by (simp add: getstream.nc.cs_inv_def coherent_def)
  have v: "\<forall>(bh, iv) \<in> set (butlast (sd_BlobInfos sd)). valid_hash (hex_EncodeToString bh)" using assms(9) hex48_valid by fastforce
  have "\<exists>err s' f'. getStreamCmd st FromBlob P (Inr wd) stamp Create e sdHash ((d, c), f) = (Ret err, (s', f')) \<and> disk_content (fst s') = disk_content (fst (d, c)) \<and> of_data f' = concat ps
     \<and> of_name f' = wd @ ''/'' @ (if sd_FileName sd = '''' then ''stream_'' @ stamp else sd_FileName sd) \<and> (if rest = [] then err = None else err_not_found err)"
    unfolding st_def NewCachingStore_def
    by (rule getstream.nc.ro.getStream_ok [OF i h _ _ _ _ v]) (use assms in simp_all)
  then show ?thesis by blast
qed

text \<open>A stream whose sd blob is the blob of the example disk and names that blob once.\<close>

theorem getStream_writes_stream_witness:
  "\<exists>s' f'. getStreamCmd (NewCachingStore (\<lambda>k f. f) (\<lambda>k f. f) (peer_Store (\<lambda>_. Inr (tcp_of [])) (peer_serve 96 (DiskStore_ops (\<lambda>_. 0)) env0)) (DiskStore_ops (\<lambda>_. 0)))
       (\<lambda>_. Inr \<lparr>sd_FileName = ''a.txt'', sd_Key = ''k'', sd_BlobInfos = [(sha512_Sum384 ''x'', []), ([], [])]\<rparr>) (\<lambda>k b iv. Inr (b @ b)) (Inr ''/home'') ''now'' (\<lambda>_. None) env0
       (BlobHash ''x'') ((one_blob_disk, NewDiskStore ''/b'' 2 empty_fs), \<lparr>of_name = [], of_data = [], of_faults = []\<rparr>)
     = (Ret None, (s', f')) \<and> of_data f' = ''xx'' \<and> of_name f' = ''/home/a.txt''"
proof -
  have h: "hex_EncodeToString (sha512_Sum384 ''x'') = BlobHash ''x''" by (simp add: BlobHash_def)
  show ?thesis
    using getStream_writes_stream [OF one_blob_sized NewDiskStore_inv [OF abs_dir_example, of 2], where ?is = "[(sha512_Sum384 ''x'', [])]" and rest = "[]" and ps = "[''xx'']"
        and sdHash = "BlobHash ''x''" and sdb = "''x''" and FromBlob = "\<lambda>_. Inr \<lparr>sd_FileName = ''a.txt'', sd_Key = ''k'', sd_BlobInfos = [(sha512_Sum384 ''x'', []), ([], [])]\<rparr>"
        and P = "\<lambda>k b iv. Inr (b @ b)" and Create = "\<lambda>_. None" and sd = "\<lparr>sd_FileName = ''a.txt'', sd_Key = ''k'', sd_BlobInfos = [(sha512_Sum384 ''x'', []), ([], [])]\<rparr>"
        and f = "\<lparr>of_name = [], of_data = [], of_faults = []\<rparr>" and dio = "\<lambda>_. 0" and dio' = "\<lambda>_. 0" and srv = env0 and wd = "''/home''" and stamp = "''now''" and e = env0]
    by (simp add: one_blob_content NewDiskStore_content stream_data_def h sha512_Sum384_length)
qed

section \<open>sendblob\<close>

text \<open>One blob that the server refuses, be it because it already has it, ends the command with a panic; the blobs after it are not sent.\<close>

lemma send_stream_append:
  "send_stream api peer sd bs c = (Ret (), c') \<Longrightarrow> send_stream api peer sd (bs @ r) c = send_stream api peer (sd \<and> bs = []) r c'"
proof (induction bs arbitrary: sd c)
  case (Cons b bs)
  obtain x c1 where "(if sd then SendSDBlob api peer b else SendBlob api peer b) c = (x, c1)" by fastforce
  with Cons show ?case by (auto simp: bnd_def panic_def split: outcome.splits option.splits)
qed (simp add: ret_def)

lemma sendBlob_refused:
  assumes "send_stream api peer True bs c = (Ret (), c')" "bs \<noteq> []" "SendBlob api peer b c' = (Ret (Some err), c'')"
  shows "send_stream api peer True (bs @ b # rest) c = (Panic (Error err), c'')"
  using assms by (simp add: send_stream_append bnd_def panic_def)

end
