(* ===== verification/Wallet_Client.thy ===== *)
theory Wallet_Client
  imports Blocklist
begin

text \<open>
  The other calls of the wallet client (src/wallet/client.go: \<open>ServerVersion\<close>, \<open>Resolve\<close>) and the command \<open>resolve\<close> (src/cmd/resolve.go), over the requests of \<open>Blocklist\<close>. The protocol buffers are the argument
  \<open>Unmarshal\<close>; base64 is the decoder of the standard library.
\<close>

section \<open>Base64\<close>

definition b64_chars :: string where
  "b64_chars = ''ABCDEFGHIJKLMNOPQRSTUVWXYZabcdefghijklmnopqrstuvwxyz0123456789+/''"

fun index_from :: "nat \<Rightarrow> char \<Rightarrow> string \<Rightarrow> nat option" where
  "index_from n c [] = None"
| "index_from n c (x # xs) = (if x = c then Some n else index_from (Suc n) c xs)"

definition b64_val :: "char \<Rightarrow> nat option" where
  "b64_val c = index_from 0 c b64_chars"

abbreviation b64_pad :: char where
  "b64_pad \<equiv> CHR ''=''"

text \<open>Four characters give three bytes; the last four may be padded. The unused low bits of a padded group are ignored, as in \<open>StdEncoding\<close>.\<close>

definition b64_quad :: "char \<Rightarrow> char \<Rightarrow> char \<Rightarrow> char \<Rightarrow> bool \<Rightarrow> bytes option" where
  "b64_quad a b c d fin =
     (case (b64_val a, b64_val b) of
        (Some x, Some y) \<Rightarrow>
          if fin \<and> c = b64_pad \<and> d = b64_pad then Some [char_of (4 * x + y div 16)]
          else
            (case b64_val c of
               None \<Rightarrow> None
             | Some z \<Rightarrow>
                 if fin \<and> d = b64_pad then Some [char_of (4 * x + y div 16), char_of (16 * y + z div 4)]
                 else (case b64_val d of None \<Rightarrow> None | Some u \<Rightarrow> Some [char_of (4 * x + y div 16), char_of (16 * y + z div 4), char_of (64 * z + u)]))
      | _ \<Rightarrow> None)"

fun b64_quads :: "string \<Rightarrow> bytes option" where
  "b64_quads [] = Some []"
| "b64_quads (a # b # c # d # r) = (case (b64_quad a b c d (r = []), b64_quads r) of (Some p, Some q) \<Rightarrow> Some (p @ q) | _ \<Rightarrow> None)"
| "b64_quads _ = None"

definition base64_DecodeString :: "string \<Rightarrow> go_error + bytes" where
  "base64_DecodeString s =
     (case b64_quads (filter (\<lambda>c. of_char c \<notin> {10 :: nat, 13}) s) of None \<Rightarrow> Inl (Msg ''illegal base64 data'') | Some b \<Rightarrow> Inr b)"

section \<open>The calls\<close>

fun dec_result_list :: "json \<Rightarrow> string list option" where
  "dec_result_list (JObj ms) = dec_field (dec_list dec_str_elem) [] ''result'' ms"
| "dec_result_list JNull = Some []"
| "dec_result_list _ = None"

text \<open>The response to a request, decoded; the zero value when the node is being shut down.\<close>

definition node_response :: "'w bl_env \<Rightarrow> string \<Rightarrow> string list \<Rightarrow> (json \<Rightarrow> 'a option) \<Rightarrow> 'a \<Rightarrow> ('w, go_error + 'a) op" where
  "node_response env meth params dec zero =
     bnd (node_request env meth params) (\<lambda>r.
       ret (case r of
         Inl err \<Rightarrow> Inl err
       | Inr None \<Rightarrow> Inr zero
       | Inr (Some data) \<Rightarrow>
           (case json_unmarshal data of
              None \<Rightarrow> Inl (Msg ''invalid JSON'')
            | Some v \<Rightarrow> (case dec v of None \<Rightarrow> Inl (Msg ''cannot unmarshal'') | Some x \<Rightarrow> Inr x))))"

text \<open>The value that \<open>ServerVersion\<close> returns beside an error is left out.\<close>

definition ServerVersion :: "'w bl_env \<Rightarrow> ('w, go_error + string) op" where
  "ServerVersion env =
     bnd (node_response env ''server.version'' [''reflector.go'', ''1.0''] dec_result_list []) (\<lambda>r.
       ret (case r of Inl err \<Rightarrow> Inl err | Inr rs \<Rightarrow> Inr (if 2 \<le> length rs then rs ! 1 else '''')))"

record txo =
  txo_TxHash :: bytes
  txo_Nout :: nat
  txo_Error :: "(string \<times> string) option"

definition Resolve :: "'w bl_env \<Rightarrow> (bytes \<Rightarrow> go_error + txo list) \<Rightarrow> string \<Rightarrow> ('w, go_error + txo) op" where
  "Resolve env Unmarshal url =
     bnd (node_response env ''blockchain.claimtrie.resolve'' [url] dec_result []) (\<lambda>r.
       ret (case r of
         Inl err \<Rightarrow> Inl err
       | Inr s \<Rightarrow>
           (case base64_DecodeString s of
              Inl err \<Rightarrow> Inl err
            | Inr b \<Rightarrow>
                (case Unmarshal b of
                   Inl err \<Rightarrow> Inl err
                 | Inr txos \<Rightarrow>
                     if length txos \<noteq> 1 then Inl (Msg (''expected 1 output, got '' @ int_text (int (length txos))))
                     else (case txo_Error (hd txos) of Some (cd, txt) \<Rightarrow> Inl (Msg (cd @ '': '' @ txt)) | None \<Rightarrow> Inr (hd txos))))))"

section \<open>The command\<close>

text \<open>The loop of \<open>rev\<close> into a slice of zeros.\<close>

function rev_loop :: "bytes \<Rightarrow> int \<Rightarrow> int \<Rightarrow> bytes \<Rightarrow> bytes" where
  "rev_loop b left right r =
     (if left < right then rev_loop b (left + 1) (right - 1) (r[nat left := b ! nat right, nat right := b ! nat left]) else r)"
  by pat_completeness auto
termination by (relation "measure (\<lambda>(b, left, right, r). nat (right - left))") auto

declare rev_loop.simps [simp del]

definition rev_bytes :: "bytes \<Rightarrow> bytes" where
  "rev_bytes b = rev_loop b 0 (int (length b) - 1) (replicate (length b) (char_of (0 :: nat)))"

definition resolveCmd :: "'w bl_env \<Rightarrow> (bytes \<Rightarrow> go_error + txo list) \<Rightarrow> 'c tx_lib \<Rightarrow> ('c \<Rightarrow> go_error + string) \<Rightarrow> string \<Rightarrow> string \<Rightarrow> ('w, string) op" where
  "resolveCmd env Unmarshal lib MarshalIndent addr url =
     bnd (node_Connect env [addr]) (\<lambda>err.
       case err of
         Some err \<Rightarrow> panic (Error err)
       | None \<Rightarrow>
           bnd (Resolve env Unmarshal url) (\<lambda>r.
             case r of
               Inl err \<Rightarrow> panic (Error err)
             | Inr out \<Rightarrow>
                 bnd (GetClaimInTx env lib (hex_EncodeToString (rev_bytes (txo_TxHash out))) (int (txo_Nout out))) (\<lambda>r.
                   case r of
                     Inl err \<Rightarrow> panic (Error err)
                   | Inr claim \<Rightarrow> (case MarshalIndent claim of Inl err \<Rightarrow> panic (Error err) | Inr txt \<Rightarrow> ret txt))))"

end
