(* ===== verification/Wallet_Client_Correct.thy ===== *)
theory Wallet_Client_Correct
  imports Wallet_Client Blocklist_Correct
begin

text \<open>
  The command \<open>resolve\<close> prints the claim of the URL, through base64, the protocol buffers and the transaction; its reversal of bytes is right for an even number of them only.
\<close>

section \<open>Base64\<close>

text \<open>The encoding of RFC 4648 as the reference.\<close>

definition b64_enc :: "nat \<Rightarrow> char" where
  "b64_enc n = b64_chars ! (n mod 64)"

fun base64_encode :: "bytes \<Rightarrow> string" where
  "base64_encode [] = []"
| "base64_encode [a] = (let x = of_char a in [b64_enc (x div 4), b64_enc (16 * x), b64_pad, b64_pad])"
| "base64_encode [a, b] = (let x = of_char a; y = of_char b in [b64_enc (x div 4), b64_enc (16 * x + y div 16), b64_enc (4 * y), b64_pad])"
| "base64_encode (a # b # c # r) =
     (let x = of_char a; y = of_char b; z = of_char c
      in b64_enc (x div 4) # b64_enc (16 * x + y div 16) # b64_enc (4 * y + z div 64) # b64_enc z # base64_encode r)"

lemma b64_val_enc [simp]: "b64_val (b64_enc n) = Some (n mod 64)"
proof -
  have "list_all (\<lambda>i. b64_val (b64_chars ! i) = Some i) [0..<64]" by code_simp
  then show ?thesis by (simp add: b64_enc_def list_all_iff)
qed

lemma b64_enc_plain: "b64_enc n \<noteq> b64_pad" "of_char (b64_enc n) \<noteq> (10 :: nat)" "of_char (b64_enc n) \<noteq> (13 :: nat)"
proof -
  have "list_all (\<lambda>i. b64_chars ! i \<noteq> b64_pad \<and> of_char (b64_chars ! i) \<noteq> (10 :: nat) \<and> of_char (b64_chars ! i) \<noteq> (13 :: nat)) [0..<64]" by code_simp
  then show "b64_enc n \<noteq> b64_pad" "of_char (b64_enc n) \<noteq> (10 :: nat)" "of_char (b64_enc n) \<noteq> (13 :: nat)" by (simp_all add: b64_enc_def list_all_iff)
qed

lemma b64_val_pad [simp]: "b64_val b64_pad = None"
  by code_simp

lemma char_of_low: "n mod 256 = of_char c \<Longrightarrow> char_of (n :: nat) = c"
  by (metis char_of_mod_256 char_of_char)

lemma b64_parts:
  fixes x y :: nat
  assumes "x < 256" "y < 256"
  shows "(x div 4) mod 64 = x div 4" "(16 * x + y div 16) mod 64 = 16 * (x mod 4) + y div 16" "(4 * x + y div 64) mod 64 = 4 * (x mod 16) + y div 64"
proof -
  show "(x div 4) mod 64 = x div 4" using assms by simp
  have "16 * x + y div 16 = 64 * (x div 4) + (16 * (x mod 4) + y div 16)" using mult_div_mod_eq [of 4 x] by linarith
  moreover have "16 * (x mod 4) + y div 16 < 64" using assms mod_less_divisor [of 4 x] by linarith
  ultimately show "(16 * x + y div 16) mod 64 = 16 * (x mod 4) + y div 16" by (metis mod_mult_self4 mod_less)
  have "4 * x + y div 64 = 64 * (x div 16) + (4 * (x mod 16) + y div 64)" using mult_div_mod_eq [of 16 x] by linarith
  moreover have "4 * (x mod 16) + y div 64 < 64" using assms mod_less_divisor [of 16 x] by linarith
  ultimately show "(4 * x + y div 64) mod 64 = 4 * (x mod 16) + y div 64" by (metis mod_mult_self4 mod_less)
qed

lemma b64_bytes:
  fixes x y z :: nat
  assumes "x < 256" "y < 256" "z < 256"
  shows "(4 * ((x div 4) mod 64) + (16 * x + y div 16) mod 64 div 16) mod 256 = x"
    "(16 * ((16 * x + y div 16) mod 64) + (4 * y + z div 64) mod 64 div 4) mod 256 = y"
    "(64 * ((4 * y + z div 64) mod 64) + z mod 64) mod 256 = z"
proof -
  have "(16 * (x mod 4) + y div 16) div 16 = x mod 4" using assms(2) by simp
  then show "(4 * ((x div 4) mod 64) + (16 * x + y div 16) mod 64 div 16) mod 256 = x" using assms by (simp add: b64_parts)
  have "(4 * (y mod 16) + z div 64) div 4 = y mod 16" using assms(3) by simp
  moreover have "16 * (16 * (x mod 4) + y div 16) + y mod 16 = 256 * (x mod 4) + y" by simp
  ultimately show "(16 * ((16 * x + y div 16) mod 64) + (4 * y + z div 64) mod 64 div 4) mod 256 = y"
    using assms by (simp add: b64_parts)
  have "64 * (4 * (y mod 16) + z div 64) + z mod 64 = 256 * (y mod 16) + z" by simp
  then show "(64 * ((4 * y + z div 64) mod 64) + z mod 64) mod 256 = z" using assms by (simp add: b64_parts)
qed

lemma b64_quads_encode: "b64_quads (base64_encode bs) = Some bs"
proof (induction bs rule: base64_encode.induct)
  case (2 a)
  from char_of_low [OF b64_bytes(1) [of "of_char a" 0 0]] show ?case by (simp add: b64_quad_def Let_def)
next
  case (3 a b)
  from char_of_low [OF b64_bytes(1) [of "of_char a" "of_char b" 0]] char_of_low [OF b64_bytes(2) [of "of_char a" "of_char b" 0]]
  show ?case by (simp add: b64_quad_def Let_def b64_enc_plain)
next
  case (4 a b c r)
  note q = b64_bytes [of "of_char a" "of_char b" "of_char c"]
  from char_of_low [OF q(1)] char_of_low [OF q(2)] char_of_low [OF q(3)] 4 show ?case by (simp add: b64_quad_def Let_def b64_enc_plain)
qed simp

lemma base64_roundtrip: "base64_DecodeString (base64_encode bs) = Inr bs"
proof -
  have "\<forall>c \<in> set (base64_encode bs). of_char c \<notin> {10 :: nat, 13}"
    by (induction bs rule: base64_encode.induct) (auto simp: Let_def b64_enc_plain)
  then have "filter (\<lambda>c. of_char c \<notin> {10 :: nat, 13}) (base64_encode bs) = base64_encode bs" by (rule filter_True)
  then show ?thesis by (simp add: base64_DecodeString_def b64_quads_encode)
qed

section \<open>The reversal of bytes\<close>

text \<open>What the loop has done when \<open>left\<close> positions from each end are copied.\<close>

definition copied :: "bytes \<Rightarrow> char \<Rightarrow> int \<Rightarrow> int \<Rightarrow> bytes \<Rightarrow> bool" where
  "copied b z left right r \<longleftrightarrow> length r = length b \<and> (\<forall>i < length b. r ! i = (if left \<le> int i \<and> int i \<le> right then z else rev b ! i))"

lemma copied_step:
  assumes "l < k" "l + k + 1 = length b" "copied b z (int l) (int k) r"
  shows "copied b z (int l + 1) (int k - 1) (r[l := b ! k, k := b ! l])"
proof -
  have "(r[l := b ! k, k := b ! l]) ! i = (if int l + 1 \<le> int i \<and> int i \<le> int k - 1 then z else rev b ! i)" if i: "i < length b" for i
  proof -
    have "length b - Suc i = l + k - i" using assms(2) by linarith
    then have v: "rev b ! i = b ! (l + k - i)" using i by (simp add: rev_nth)
    consider "i = l" | "i = k" | "i \<noteq> l" "i \<noteq> k" by blast
    then show ?thesis using assms i v by cases (auto simp: copied_def nth_list_update)
  qed
  then show ?thesis using assms by (simp add: copied_def)
qed

lemma rev_loop_spec:
  assumes "0 \<le> left" "left + right = int (length b) - 1" "left \<le> right + 1" "copied b z left right r"
  shows "rev_loop b left right r = (if even (length b) then rev b else (rev b)[length b div 2 := z])"
  using assms
proof (induction b left right r rule: rev_loop.induct)
  case (1 b left right r)
  show ?case
  proof (cases "left < right")
    case True
    with "1.prems" have "copied b z (int (nat left) + 1) (int (nat right) - 1) (r[nat left := b ! nat right, nat right := b ! nat left])" by (intro copied_step) auto
    with 1 True show ?thesis by (subst rev_loop.simps) simp
  next
    case False
    then have "rev_loop b left right r = r" by (subst rev_loop.simps) simp
    moreover have "r = (if even (length b) then rev b else (rev b)[length b div 2 := z])"
    proof (cases "left = right")
      case True
      then have "length b = 2 * nat left + 1" using "1.prems" by auto
      then have "odd (length b)" "length b div 2 = nat left" by simp_all
      then show ?thesis using "1.prems" True by (auto simp: copied_def nth_list_update intro!: nth_equalityI)
    next
      case ne: False
      then have "even (length b)" using False "1.prems" by presburger
      then show ?thesis using "1.prems" False ne by (auto simp: copied_def intro!: nth_equalityI)
    qed
    ultimately show ?thesis by simp
  qed
qed

lemma rev_bytes_eq: "rev_bytes b = (if even (length b) then rev b else (rev b)[length b div 2 := char_of (0 :: nat)])"
  unfolding rev_bytes_def by (rule rev_loop_spec) (auto simp: copied_def)

text \<open>
  \<open>rev\<close> reverses an even number of bytes, such as the 32 of a transaction hash; of an odd number, the byte in the middle is not copied and stays zero.
\<close>

theorem rev_bytes_even_only: "rev_bytes b = (if even (length b) then rev b else (rev b)[length b div 2 := char_of (0 :: nat)])"
  by (rule rev_bytes_eq)

section \<open>The command\<close>

text \<open>The answer of a wallet server to a call with a result that is a text.\<close>

definition answers :: "'w bl_env \<Rightarrow> string \<Rightarrow> string list \<Rightarrow> string \<Rightarrow> bool" where
  "answers env meth params res \<longleftrightarrow> (\<forall>w. \<exists>data v w'. node_request env meth params w = (Ret (Inr (Some data)), w') \<and> json_unmarshal data = Some v \<and> dec_result v = Some res)"

text \<open>
  C20. \<open>resolve\<close> prints the claim of the URL: when the wallet server answers with the base64 text of a message of one output, without an error and with a hash of an even number of bytes, and serves the
  transaction whose name is the hex text of the reversed hash, then the command asks for that transaction and prints the claim that the output with that number holds.
\<close>

theorem resolveCmd_prints_claim:
  assumes "running env" "answers env ''blockchain.claimtrie.resolve'' [url] (base64_encode msg)" "Unmarshal msg = Inr [out]" "txo_Error out = None" "even (length (txo_TxHash out))"
    and "serves env chain" "chain (hex_EncodeToString (rev (txo_TxHash out))) = Some raw" "NewTxFromBytes lib raw = Inr outs" "txo_Nout out < length outs"
    and "claim_value lib (outs ! txo_Nout out) = Inr val" "DecodeClaimBytes lib val = Inr claim" "MarshalIndent claim = Inr txt"
  shows "\<exists>w'. resolveCmd env Unmarshal lib MarshalIndent addr url w = (Ret txt, w')"
proof -
  from assms(1) obtain w1 where c: "node_Connect env [addr] w = (Ret None, w1)" unfolding running_def by blast
  from assms(2) obtain data v w2 where q: "node_request env ''blockchain.claimtrie.resolve'' [url] w1 = (Ret (Inr (Some data)), w2)" "json_unmarshal data = Some v"
      "dec_result v = Some (base64_encode msg)" unfolding answers_def by blast
  have r: "Resolve env Unmarshal url w1 = (Ret (Inr out), w2)"
    using q assms(3,4) by (simp add: Resolve_def node_response_def bnd_def ret_def base64_roundtrip)
  from GetTx_serves [OF assms(6), of "hex_EncodeToString (rev (txo_TxHash out))" w2] assms(7) obtain w3 where
    t: "GetTx env (hex_EncodeToString (rev (txo_TxHash out))) w2 = (Ret (Inr (hex_EncodeToString raw)), w3)" by auto
  have "GetClaimInTx env lib (hex_EncodeToString (rev (txo_TxHash out))) (int (txo_Nout out)) w2 = (Ret (Inr claim), w3)"
    using t assms(8-11) by (simp add: GetClaimInTx_def bnd_def ret_def hex_Decode_Encode)
  then show ?thesis using c r assms(5,12) by (simp add: resolveCmd_def bnd_def ret_def rev_bytes_eq)
qed

text \<open>A wallet server with one transaction and one URL.\<close>

definition resolve_env :: "unit bl_env" where
  "resolve_env = \<lparr>http_Get = (\<lambda>_. ret (Inl EOF)), node_Connect = (\<lambda>_. ret None),
     node_request = (\<lambda>m _. ret (Inr (Some (jprint (JObj [(''result'', JStr (if m = ''blockchain.claimtrie.resolve'' then base64_encode ''m'' else hex_EncodeToString ''t''))]))))),
     stopping = ret False\<rparr>"

lemma dec_result_obj: "dec_result (JObj [(''result'', JStr x)]) = Some x"
  by (simp add: dec_field_def jvals_def)

lemma resolve_env_ok:
  "running resolve_env" "answers resolve_env ''blockchain.claimtrie.resolve'' [url] (base64_encode ''m'')" "serves resolve_env (\<lambda>_. Some ''t'')"
  by (auto simp: running_def answers_def serves_def resolve_env_def ret_def json_unmarshal_print dec_result_obj simp del: jprint.simps dec_result.simps)

theorem resolveCmd_prints_claim_witness:
  "\<exists>w'. resolveCmd resolve_env (\<lambda>_. Inr [\<lparr>txo_TxHash = ''ab'', txo_Nout = 0, txo_Error = None\<rparr>]) one_lib (\<lambda>_. Inr ''{}'') ''localhost:50001'' ''lbry://x'' () = (Ret ''{}'', w')"
proof -
  obtain outs val claim where "NewTxFromBytes one_lib ''t'' = Inr outs" "0 < length outs" "claim_value one_lib (outs ! 0) = Inr val" "DecodeClaimBytes one_lib val = Inr claim"
    by (auto simp: one_lib_def claim_value_def)
  then show ?thesis by (intro resolveCmd_prints_claim [OF resolve_env_ok(1,2) _ _ _ resolve_env_ok(3), where out = "\<lparr>txo_TxHash = ''ab'', txo_Nout = 0, txo_Error = None\<rparr>"]) simp_all
qed

end
