(* ===== verification/Prism_App.thy ===== *)
theory Prism_App
  imports Setup Cluster
begin

text \<open>
  The application prism (src/prism/prism.go: configuration, \<open>New\<close>, \<open>Start\<close>, \<open>Shutdown\<close>), the connection of the cluster (src/cluster/cluster.go) and the commands \<open>start\<close>, \<open>cluster\<close> and
  \<open>test\<close>. The packages serf and dht are arguments (whether a node can be created, joined, started).

  \<open>Shutdown\<close> and the goroutines beside it are the step relation \<open>prism_step\<close>: the listener of the cluster with its timer (\<open>cluster_step\<close>), the goroutines that announce (a counter of the stop group), and the five
  calls of \<open>Shutdown\<close> in their order. The two TCP servers are in \<open>Tcp_Server\<close>; here their \<open>Shutdown\<close> returns.
\<close>

section \<open>The cluster\<close>

record cluster_cfg =
  cc_name :: string
  cc_port :: int
  cc_seedAddr :: string

definition cluster_New :: "string \<Rightarrow> int \<Rightarrow> string \<Rightarrow> cluster_cfg" where
  "cluster_New RandString port seedAddr = \<lparr>cc_name = RandString, cc_port = port, cc_seedAddr = seedAddr\<rparr>"

text \<open>What is running after \<open>Connect\<close>: nothing, the serf node alone, or the node and the listener.\<close>

datatype cluster_run = NoSerf | SerfOnly | SerfListening

record serf_lib =
  serf_Create :: "int \<Rightarrow> string \<Rightarrow> go_error option"
  serf_Join :: "string \<Rightarrow> go_error option"

definition cluster_Connect :: "serf_lib \<Rightarrow> cluster_cfg \<Rightarrow> go_error option \<times> cluster_run" where
  "cluster_Connect lib c =
     (case serf_Create lib (cc_port c) (cc_name c) of
        Some err \<Rightarrow> (Some (Prefix ''couldn't create cluster'' err), NoSerf)
      | None \<Rightarrow>
          (case (if cc_seedAddr c \<noteq> '''' then serf_Join lib (cc_seedAddr c) else None) of
             Some err \<Rightarrow> (Some err, SerfOnly)
           | None \<Rightarrow> (None, SerfListening)))"

definition clusterCmd :: "serf_lib \<Rightarrow> string \<Rightarrow> int \<Rightarrow> string \<Rightarrow> go_error option \<times> cluster_run" where
  "clusterCmd lib RandString RandInt64 arg =
     (let port = 17946;
          c = (if arg = ''start'' then cluster_New RandString port '''' else cluster_New RandString (port + 1 + RandInt64) (''127.0.0.1:'' @ int_text port))
      in cluster_Connect lib c)"

section \<open>Prism\<close>

record 'bm prism_Config =
  pc_PeerPort :: int
  pc_ReflectorPort :: int
  pc_DhtAddress :: string
  pc_DhtSeedNodes :: "string list"
  pc_ClusterPort :: int
  pc_ClusterSeedAddr :: string
  pc_HashRange :: "('bm \<times> 'bm) option"
  pc_DB :: "db_cfg option"
  pc_Blobs :: "store_cfg option"

definition DefaultConf :: "'bm prism_Config" where
  "DefaultConf = \<lparr>pc_PeerPort = 0, pc_ReflectorPort = 0, pc_DhtAddress = '''', pc_DhtSeedNodes = [], pc_ClusterPort = 17946, pc_ClusterSeedAddr = '''', pc_HashRange = None, pc_DB = None, pc_Blobs = None\<rparr>"

record dht_Config =
  dht_Address :: string
  dht_PeerProtocolPort :: int
  dht_SeedNodes :: "string list"

record 'bm prism_new =
  pn_conf :: "'bm prism_Config"
  pn_dht :: dht_Config
  pn_cluster :: cluster_cfg

definition prism_New :: "dht_Config \<Rightarrow> string \<Rightarrow> 'bm prism_Config option \<Rightarrow> 'bm prism_new" where
  "prism_New NewStandardConfig RandString cfg =
     (let c = (case cfg of None \<Rightarrow> DefaultConf | Some c \<Rightarrow> c);
          d = NewStandardConfig\<lparr>dht_Address := pc_DhtAddress c, dht_PeerProtocolPort := pc_PeerPort c\<rparr>;
          d' = (if pc_DhtSeedNodes c \<noteq> [] then d\<lparr>dht_SeedNodes := pc_DhtSeedNodes c\<rparr> else d)
      in \<lparr>pn_conf = c, pn_dht = d', pn_cluster = cluster_New RandString (pc_ClusterPort c) (pc_ClusterSeedAddr c)\<rparr>)"

datatype prism_part = PeerPart | ReflectorPart | DhtPart | ClusterPart cluster_run

text \<open>\<open>Start\<close>: the error, and the parts that are running when it returns. The reflector server of prism has no block list.\<close>

definition prism_Start :: "outside \<Rightarrow> (dht_Config \<Rightarrow> go_error option) \<Rightarrow> serf_lib \<Rightarrow> 'bm prism_new \<Rightarrow> go_error option \<times> prism_part list" where
  "prism_Start w dht_Start lib p =
     (let c = pn_conf p in
      if pc_DB c = None then (Some (Msg ''db required in conf''), [])
      else if pc_Blobs c = None then (Some (Msg ''blobs required in conf''), [])
      else
        (case Listen w (port_addr (pc_PeerPort c)) of
           Some err \<Rightarrow> (Some err, [])
         | None \<Rightarrow>
             (case reflector_Start_err (case pc_Blobs c of Some s \<Rightarrow> isBlocklister s | None \<Rightarrow> False) False (Listen w (port_addr (pc_ReflectorPort c))) of
                Some err \<Rightarrow> (Some err, [PeerPart])
              | None \<Rightarrow>
                  (case dht_Start (pn_dht p) of
                     Some err \<Rightarrow> (Some err, [PeerPart, ReflectorPart])
                   | None \<Rightarrow> (case cluster_Connect lib (pn_cluster p) of (err, r) \<Rightarrow> (err, [PeerPart, ReflectorPart, DhtPart, ClusterPart r]))))))"

record start_flags =
  startClusterPort :: int
  startPeerPort :: int
  startReflectorPort :: int
  startDhtPort :: int
  startDhtSeeds :: "string list"
  startHashRange :: string

text \<open>\<open>startCmd\<close> up to \<open>prism.New\<close>; \<open>FromShortHexP\<close> of the package bits panics on text that is not hex.\<close>

definition startCmd :: "outside \<Rightarrow> Config \<Rightarrow> (string \<Rightarrow> 'bm outcome) \<Rightarrow> start_flags \<Rightarrow> string \<Rightarrow> string outcome + 'bm prism_Config" where
  "startCmd w c FromShortHexP f arg =
     (case db_Connect w (DBConn c) of
        Some err \<Rightarrow> Inl (Panic (Error err))
      | None \<Rightarrow>
          let d = \<lparr>dc_conn = DBConn c, dc_TrackAccess = TrackAccessNone, dc_SoftDelete = False\<rparr>;
              combo = DBBackedStore_of (S3Store_at (AwsID c) (AwsSecret c) (BucketRegion c) (BucketName c)) d False;
              pc = DefaultConf\<lparr>pc_ClusterSeedAddr := (if arg \<noteq> ''new'' then arg else ''''), pc_DB := Some d, pc_Blobs := Some combo,
                     pc_DhtAddress := ''0.0.0.0:'' @ int_text (startDhtPort f), pc_DhtSeedNodes := startDhtSeeds f, pc_ClusterPort := startClusterPort f,
                     pc_PeerPort := startPeerPort f, pc_ReflectorPort := startReflectorPort f\<rparr>
          in if startHashRange f = '''' then Inr pc
             else
               (case split_on (CHR ''-'') (startHashRange f) of
                  [a, b] \<Rightarrow>
                    (case FromShortHexP a of
                       Panic p \<Rightarrow> Inl (Panic p)
                     | Ret start \<Rightarrow> (case FromShortHexP b of Panic p \<Rightarrow> Inl (Panic p) | Ret fin \<Rightarrow> Inr (pc\<lparr>pc_HashRange := Some (start, fin)\<rparr>)))
                | _ \<Rightarrow> Inl (Ret ''invalid hash range'')))"

section \<open>Shutdown\<close>

text \<open>Where \<open>Shutdown\<close> is: not called, or waiting in (or past) one of its five calls.\<close>

datatype shutdown_pc = SNone | SGroup | SCluster | SDht | SReflector | SPeer | SReturned

record prism_run =
  pr_cluster :: Cluster
  pr_stopped :: bool
  pr_jobs :: nat
  pr_dht_up :: bool
  pr_pc :: shutdown_pc

text \<open>
  \<open>OnMembershipChange\<close> adds to the group and starts a goroutine, whether or not the group has been stopped. Between \<open>StopAndWait\<close> of the group and the end of the listener such calls can still come.
\<close>

inductive prism_step :: "prism_run \<Rightarrow> prism_run \<Rightarrow> bool" where
  PListen: "cluster_step (pr_cluster p) c \<Longrightarrow> c_stop c = c_stop (pr_cluster p) \<Longrightarrow> c_calls c = c_calls (pr_cluster p) \<Longrightarrow> prism_step p (p\<lparr>pr_cluster := c\<rparr>)"
| PChange: "cluster_step (pr_cluster p) c \<Longrightarrow> c_calls c \<noteq> c_calls (pr_cluster p) \<Longrightarrow> prism_step p (p\<lparr>pr_cluster := c, pr_jobs := Suc (pr_jobs p)\<rparr>)"
| PAnnounced: "pr_jobs p = Suc n \<Longrightarrow> prism_step p (p\<lparr>pr_jobs := n\<rparr>)"
| PStop: "pr_pc p = SNone \<Longrightarrow> prism_step p (p\<lparr>pr_stopped := True, pr_pc := SGroup\<rparr>)"
| PGroup: "pr_pc p = SGroup \<Longrightarrow> pr_jobs p = 0 \<Longrightarrow> prism_step p (p\<lparr>pr_cluster := (pr_cluster p)\<lparr>c_stop := True\<rparr>, pr_pc := SCluster\<rparr>)"
| PCluster: "pr_pc p = SCluster \<Longrightarrow> \<not> c_listening (pr_cluster p) \<Longrightarrow> prism_step p (p\<lparr>pr_pc := SDht\<rparr>)"
| PDht: "pr_pc p = SDht \<Longrightarrow> prism_step p (p\<lparr>pr_dht_up := False, pr_pc := SReflector\<rparr>)"
| PReflector: "pr_pc p = SReflector \<Longrightarrow> prism_step p (p\<lparr>pr_pc := SPeer\<rparr>)"
| PPeer: "pr_pc p = SPeer \<Longrightarrow> prism_step p (p\<lparr>pr_pc := SReturned\<rparr>)"

definition prism_started :: "string \<Rightarrow> Member list \<Rightarrow> prism_run" where
  "prism_started name members = \<lparr>pr_cluster = listen_start True name members, pr_stopped = False, pr_jobs = 0, pr_dht_up = True, pr_pc = SNone\<rparr>"

end
