(* ===== verification/Prism_App_Correct.thy ===== *)
theory Prism_App_Correct
  imports Prism_App
begin

text \<open>
  The shutdown of prism: it can always return, and once the DHT is being shut down no announcement begins any more; but one that began after the stop group was waited for may still be running.
\<close>

section \<open>Starting\<close>

text \<open>What the command \<open>start\<close> configures is what \<open>Start\<close> asks for, so it fails only when an address, the DHT or the cluster does.\<close>

lemma startCmd_starts:
  assumes "startCmd w c FromShortHexP f arg = Inr pc" "Listen w = (\<lambda>_. None)" "dht_Start = (\<lambda>_. None)" "serf_Create lib = (\<lambda>_ _. None)" "serf_Join lib = (\<lambda>_. None)"
  shows "prism_Start w dht_Start lib (prism_New std name (Some pc)) = (None, [PeerPart, ReflectorPart, DhtPart, ClusterPart SerfListening])"
proof -
  have "pc_DB pc \<noteq> None" "pc_Blobs pc \<noteq> None" using assms(1) by (auto simp: startCmd_def Let_def split: option.splits if_splits list.splits outcome.splits)
  then show ?thesis using assms(2-) by (auto simp: prism_Start_def prism_New_def reflector_Start_err_def cluster_Connect_def Let_def)
qed

text \<open>When a part fails to start, \<open>Start\<close> returns the error and leaves the parts before it running; a cluster that cannot be joined leaves a serf node whose events nobody reads.\<close>

lemma prism_Start_leaves_parts:
  assumes "pc_DB (pn_conf p) \<noteq> None" "pc_Blobs (pn_conf p) \<noteq> None" "Listen w = (\<lambda>_. None)" "dht_Start (pn_dht p) = Some err"
  shows "prism_Start w dht_Start lib p = (Some err, [PeerPart, ReflectorPart])"
  using assms by (auto simp: prism_Start_def reflector_Start_err_def Let_def)

lemma hash_range_read:
  assumes "db_Connect w (DBConn c) = None" "startHashRange f = a @ ''-'' @ b" "CHR ''-'' \<notin> set a" "CHR ''-'' \<notin> set b" "FromShortHexP a = Ret x" "FromShortHexP b = Ret y"
  shows "\<exists>pc. startCmd w c FromShortHexP f arg = Inr pc \<and> pc_HashRange pc = Some (x, y)"
  using assms by (simp add: startCmd_def Let_def split_on_append split_on_plain)

section \<open>Shutting down\<close>

lemma cluster_step_listening: "cluster_step c c' \<Longrightarrow> \<not> c_listening c \<Longrightarrow> \<not> c_listening c' \<and> c_calls c' = c_calls c"
  by (induction rule: cluster_step.induct) auto

definition shut_inv :: "prism_run \<Rightarrow> bool" where
  "shut_inv p \<longleftrightarrow> (pr_pc p \<in> {SDht, SReflector, SPeer, SReturned} \<longrightarrow> \<not> c_listening (pr_cluster p)) \<and> (pr_dht_up p \<longleftrightarrow> pr_pc p \<notin> {SReflector, SPeer, SReturned})
     \<and> (pr_pc p \<notin> {SNone, SGroup} \<longrightarrow> c_stop (pr_cluster p)) \<and> (pr_stopped p \<longleftrightarrow> pr_pc p \<noteq> SNone)"

lemma cluster_step_stop: "cluster_step c c' \<Longrightarrow> c_stop c \<Longrightarrow> c_stop c'"
  by (induction rule: cluster_step.induct) (auto simp: on_event_def on_timer_def Let_def)

lemma prism_step_inv: "prism_step p q \<Longrightarrow> shut_inv p \<Longrightarrow> shut_inv q"
proof (induction rule: prism_step.induct)
  case (PListen p c)
  with cluster_step_listening [OF PListen(1)] cluster_step_stop [OF PListen(1)] show ?case by (simp add: shut_inv_def)
next
  case (PChange p c)
  with cluster_step_listening [OF PChange(1)] cluster_step_stop [OF PChange(1)] show ?case by (auto simp: shut_inv_def)
qed (simp_all add: shut_inv_def)

lemma prism_reachable_inv: "prism_step\<^sup>*\<^sup>* (prism_started name ms) p \<Longrightarrow> shut_inv p"
  by (induction rule: rtranclp_induct) (auto simp: prism_step_inv, simp add: prism_started_def shut_inv_def)

lemma prism_down_step: "prism_step p q \<Longrightarrow> shut_inv p \<Longrightarrow> \<not> pr_dht_up p \<Longrightarrow> c_calls (pr_cluster q) = c_calls (pr_cluster p) \<and> pr_jobs q \<le> pr_jobs p \<and> \<not> pr_dht_up q"
proof (induction rule: prism_step.induct)
  case (PChange p c)
  with cluster_step_listening [OF PChange(1)] show ?case by (auto simp: shut_inv_def)
qed (simp_all add: shut_inv_def)

text \<open>
  Once the DHT has been shut down, prism begins no announcement: in every continuation of every run the cluster reports no change any more, and the announcements that are still running only become fewer.
\<close>

theorem prism_no_new_announcement:
  assumes "prism_step\<^sup>*\<^sup>* (prism_started name ms) p" "\<not> pr_dht_up p" "prism_step\<^sup>*\<^sup>* p q"
  shows "c_calls (pr_cluster q) = c_calls (pr_cluster p) \<and> pr_jobs q \<le> pr_jobs p \<and> \<not> pr_dht_up q"
  using assms(3)
proof (induction rule: rtranclp_induct)
  case (step q r)
  have "shut_inv q" using assms(1) step(1) prism_reachable_inv by (metis rtranclp_trans)
  from prism_down_step [OF step(2) this] step show ?case by auto
qed (use assms in simp)

lemma prism_jobs_end: "prism_step\<^sup>*\<^sup>* p (p\<lparr>pr_jobs := 0\<rparr>)"
proof (induction "pr_jobs p" arbitrary: p)
  case (Suc n)
  from Suc(2) have "prism_step p (p\<lparr>pr_jobs := n\<rparr>)" by (auto intro: PAnnounced)
  moreover have "prism_step\<^sup>*\<^sup>* (p\<lparr>pr_jobs := n\<rparr>) (p\<lparr>pr_jobs := 0\<rparr>)" using Suc(1) [of "p\<lparr>pr_jobs := n\<rparr>"] by simp
  ultimately show ?case by (rule converse_rtranclp_into_rtranclp)
next
  case 0
  then have "p\<lparr>pr_jobs := 0\<rparr> = p" by simp
  then show ?case by simp
qed

lemma prism_finishes: "pr_pc p \<in> {SDht, SReflector, SPeer, SReturned} \<Longrightarrow> \<exists>q. prism_step\<^sup>*\<^sup>* p q \<and> pr_pc q = SReturned"
proof -
  have peer: "prism_step\<^sup>*\<^sup>* p (p\<lparr>pr_pc := SReturned\<rparr>)" if "pr_pc p = SPeer" for p using PPeer [OF that] by blast
  have refl: "prism_step\<^sup>*\<^sup>* p (p\<lparr>pr_pc := SReturned\<rparr>)" if "pr_pc p = SReflector" for p
    using PReflector [OF that] peer [of "p\<lparr>pr_pc := SPeer\<rparr>"] by (simp add: converse_rtranclp_into_rtranclp)
  have dht: "prism_step\<^sup>*\<^sup>* p (p\<lparr>pr_dht_up := False, pr_pc := SReturned\<rparr>)" if "pr_pc p = SDht" for p
    using PDht [OF that] refl [of "p\<lparr>pr_dht_up := False, pr_pc := SReflector\<rparr>"] by (simp add: converse_rtranclp_into_rtranclp)
  assume "pr_pc p \<in> {SDht, SReflector, SPeer, SReturned}"
  then consider "pr_pc p = SDht" | "pr_pc p = SReflector" | "pr_pc p = SPeer" | "pr_pc p = SReturned" by blast
  then show ?thesis
  proof cases
    case 1 from dht [OF this] show ?thesis by (intro exI conjI) auto
  next
    case 2 from refl [OF this] show ?thesis by (intro exI conjI) auto
  next
    case 3 from peer [OF this] show ?thesis by (intro exI conjI) auto
  qed auto
qed

lemma prism_cluster_ends:
  assumes "pr_pc p = SCluster" "c_stop (pr_cluster p)"
  shows "\<exists>q. prism_step\<^sup>*\<^sup>* p q \<and> pr_pc q = SDht"
proof -
  let ?q = "if c_listening (pr_cluster p) then p\<lparr>pr_cluster := (pr_cluster p)\<lparr>c_listening := False\<rparr>\<rparr> else p"
  have "prism_step\<^sup>*\<^sup>* p ?q"
  proof (cases "c_listening (pr_cluster p)")
    case True
    from PListen [OF ListenReturn [OF this assms(2)]] True show ?thesis by simp
  qed simp
  moreover have "prism_step ?q (?q\<lparr>pr_pc := SDht\<rparr>)" using assms(1) by (intro PCluster) auto
  ultimately show ?thesis by (intro exI [of _ "?q\<lparr>pr_pc := SDht\<rparr>"]) auto
qed

text \<open>
  \<open>Shutdown\<close> of prism can always return: whatever the announcements, the cluster and \<open>Shutdown\<close> itself have done, there are steps that end the announcements and the listener and let the five calls return.
\<close>

theorem prism_Shutdown_can_return:
  assumes "prism_step\<^sup>*\<^sup>* (prism_started name ms) p" "pr_pc p \<noteq> SNone"
  shows "\<exists>q. prism_step\<^sup>*\<^sup>* p q \<and> pr_pc q = SReturned"
proof -
  note inv = prism_reachable_inv [OF assms(1)]
  have cl: "\<exists>q. prism_step\<^sup>*\<^sup>* p q \<and> pr_pc q = SReturned" if "pr_pc p = SCluster" "c_stop (pr_cluster p)" for p
    using prism_cluster_ends [OF that] prism_finishes by (metis insertCI rtranclp_trans)
  consider "pr_pc p = SGroup" | "pr_pc p = SCluster" | "pr_pc p \<in> {SDht, SReflector, SPeer, SReturned}" using assms(2) by (cases "pr_pc p") auto
  then show ?thesis
  proof cases
    case 1
    let ?p = "p\<lparr>pr_jobs := 0\<rparr>"
    have "prism_step ?p (?p\<lparr>pr_cluster := (pr_cluster ?p)\<lparr>c_stop := True\<rparr>, pr_pc := SCluster\<rparr>)" using 1 by (intro PGroup) auto
    with prism_jobs_end [of p] cl [of "?p\<lparr>pr_cluster := (pr_cluster ?p)\<lparr>c_stop := True\<rparr>, pr_pc := SCluster\<rparr>"] show ?thesis
      by (auto intro: rtranclp_trans converse_rtranclp_into_rtranclp)
  next
    case 2
    with cl inv show ?thesis by (simp add: shut_inv_def)
  qed (rule prism_finishes)
qed

theorem prism_Shutdown_can_return_witness:
  "\<exists>q. prism_step\<^sup>*\<^sup>* (prism_started ''a'' []) q \<and> pr_pc q = SReturned"
proof -
  let ?p = "(prism_started ''a'' [])\<lparr>pr_stopped := True, pr_pc := SGroup\<rparr>"
  have "prism_step (prism_started ''a'' []) ?p" by (rule PStop) (simp add: prism_started_def)
  then have r: "prism_step\<^sup>*\<^sup>* (prism_started ''a'' []) ?p" by blast
  from prism_Shutdown_can_return [OF r] r show ?thesis by (auto intro: rtranclp_trans)
qed

text \<open>
  C37. The group is waited for too early: a change of the membership that the listener takes after \<open>Shutdown\<close> has waited for the announcements starts another one, and \<open>Shutdown\<close> returns, with the DHT down,
  while it is still running.
\<close>

theorem prism_announces_on_stopped_dht:
  "\<exists>p. prism_step\<^sup>*\<^sup>* (prism_started name ms) p \<and> pr_pc p = SReturned \<and> \<not> pr_dht_up p \<and> pr_jobs p = 1"
proof -
  let ?c0 = "listen_start True name ms"
  let ?c1 = "?c0\<lparr>c_due := None, c_timer_C := True\<rparr>"
  let ?c2 = "on_event EventMemberJoin ?c1"
  let ?c3 = "?c2\<lparr>c_stop := True\<rparr>"
  let ?c4 = "on_timer ?c3"
  let ?c5 = "?c4\<lparr>c_listening := False\<rparr>"
  let ?p = "\<lambda>c st j d pc. \<lparr>pr_cluster = c, pr_stopped = st, pr_jobs = j, pr_dht_up = d, pr_pc = pc\<rparr>"
  have steps: "cluster_step ?c0 ?c1" "cluster_step ?c1 ?c2" "cluster_step ?c3 ?c4" "cluster_step ?c4 ?c5"
    by (rule Expire [of _ 0] ListenEvent ListenTimer ListenReturn; simp add: listen_start_def on_event_def on_timer_def Let_def)+
  have c: "c_stop ?c1 = c_stop ?c0" "c_calls ?c1 = c_calls ?c0" "c_stop ?c2 = c_stop ?c1" "c_calls ?c2 = c_calls ?c1" "c_calls ?c4 \<noteq> c_calls ?c3"
    by (simp_all add: listen_start_def on_event_def on_timer_def Let_def)
  have "prism_step (?p ?c0 False 0 True SNone) (?p ?c1 False 0 True SNone)" using PListen [of "?p ?c0 False 0 True SNone" ?c1] steps(1) c by simp
  moreover have "prism_step (?p ?c1 False 0 True SNone) (?p ?c2 False 0 True SNone)" using PListen [of "?p ?c1 False 0 True SNone" ?c2] steps(2) c by simp
  moreover have "prism_step (?p ?c2 False 0 True SNone) (?p ?c2 True 0 True SGroup)" using PStop [of "?p ?c2 False 0 True SNone"] by simp
  moreover have "prism_step (?p ?c2 True 0 True SGroup) (?p ?c3 True 0 True SCluster)" using PGroup [of "?p ?c2 True 0 True SGroup"] by simp
  moreover have "prism_step (?p ?c3 True 0 True SCluster) (?p ?c4 True 1 True SCluster)" using PChange [of "?p ?c3 True 0 True SCluster" ?c4] steps(3) c by simp
  moreover have "prism_step (?p ?c4 True 1 True SCluster) (?p ?c5 True 1 True SCluster)" using PListen [of "?p ?c4 True 1 True SCluster" ?c5] steps(4) by simp
  moreover have "prism_step (?p ?c5 True 1 True SCluster) (?p ?c5 True 1 True SDht)" using PCluster [of "?p ?c5 True 1 True SCluster"] by simp
  moreover have "prism_step (?p ?c5 True 1 True SDht) (?p ?c5 True 1 False SReflector)" using PDht [of "?p ?c5 True 1 True SDht"] by simp
  moreover have "prism_step (?p ?c5 True 1 False SReflector) (?p ?c5 True 1 False SPeer)" using PReflector [of "?p ?c5 True 1 False SReflector"] by simp
  moreover have "prism_step (?p ?c5 True 1 False SPeer) (?p ?c5 True 1 False SReturned)" using PPeer [of "?p ?c5 True 1 False SPeer"] by simp
  ultimately have "prism_step\<^sup>*\<^sup>* (?p ?c0 False 0 True SNone) (?p ?c5 True 1 False SReturned)" by (meson converse_rtranclp_into_rtranclp rtranclp.rtrancl_refl)
  then show ?thesis by (intro exI [of _ "?p ?c5 True 1 False SReturned"]) (simp add: prism_started_def)
qed

end
