(* ===== verification/Http_Server.thy ===== *)
theory Http_Server
  imports Remote_Stores Peer
begin

text \<open>
  The life of the HTTP and HTTP3 servers (src/server/http/server.go, src/server/http3/server.go: \<open>NewServer\<close>, \<open>Start\<close>, \<open>listenForShutdown\<close>, \<open>listenAndServe\<close>, \<open>Shutdown\<close>) as a step relation: the goroutine that serves,
  the one that waits for the stop group and then closes the listener, and the requests in flight (their handlers are in \<open>Http\<close> and \<open>Remote_Stores\<close>, their queue in \<open>Request_Queue\<close>). Of the package \<open>net/http\<close> the
  documented behaviour is used: when \<open>Shutdown\<close> of the server is called, \<open>ListenAndServe\<close> returns \<open>ErrServerClosed\<close> at once, while \<open>Shutdown\<close> goes on to wait for the requests in flight until its context ends;
  \<open>Close\<close> of the package http3 makes \<open>ListenAndServe\<close> return as well. \<open>log.Fatal\<close> ends the process. \<open>GetStream\<close> of the HTTP3 client (src/server/http3/client.go) is here too.
\<close>

section \<open>Getting a stream over HTTP3\<close>

definition http3_GetStream :: "'s transport \<Rightarrow> string \<Rightarrow> (bytes \<Rightarrow> go_error + string list) \<Rightarrow> call_env \<Rightarrow> string \<Rightarrow> ('s, go_error + bytes list) op" where
  "http3_GetStream do server fromBlob e sdHash =
     bnd (http3_GetBlob do server (env_l e) sdHash) (\<lambda>(b, trace, err).
       case err of
         Some err \<Rightarrow> ret (Inl err)
       | None \<Rightarrow>
           (case fromBlob b of
              Inl err \<Rightarrow> ret (Inl err)
            | Inr infos \<Rightarrow>
                if infos = [] then panic ''index out of range''
                else bnd (getBlobs (http3_GetBlob do server) (env_r e) (butlast infos)) (\<lambda>r. ret (map_sum id (Cons b) r))))"

section \<open>The servers\<close>

datatype web_kind = Http | Http3

datatype serve_pc = WStarting | WServing | WEnded

datatype watch_pc = WWaiting | WClosing | WClosed

record web_server =
  ws_serve :: serve_pc
  ws_watch :: watch_pc
  ws_stopped :: bool
  ws_active :: nat
  ws_exit :: bool

text \<open>After \<open>NewServer\<close> and \<open>Start\<close>, which returns no error: the goroutines have been started and the group has been added to.\<close>

definition web_Start :: web_server where
  "web_Start = \<lparr>ws_serve = WStarting, ws_watch = WWaiting, ws_stopped = False, ws_active = 0, ws_exit = False\<rparr>"

text \<open>An error of listening: fatal in the HTTP server, logged by the HTTP3 server.\<close>

definition listen_failed :: "web_kind \<Rightarrow> web_server \<Rightarrow> web_server" where
  "listen_failed k s = (case k of Http \<Rightarrow> s\<lparr>ws_exit := True\<rparr> | Http3 \<Rightarrow> s\<lparr>ws_serve := WEnded\<rparr>)"

inductive web_step :: "web_kind \<Rightarrow> web_server \<Rightarrow> web_server \<Rightarrow> bool" for k where
  WListen: "\<not> ws_exit s \<Longrightarrow> ws_serve s = WStarting \<Longrightarrow> ws_watch s = WWaiting \<Longrightarrow> web_step k s (s\<lparr>ws_serve := WServing\<rparr>)"
| WListenErr: "\<not> ws_exit s \<Longrightarrow> ws_serve s = WStarting \<Longrightarrow> web_step k s (listen_failed k s)"
| WRequest: "\<not> ws_exit s \<Longrightarrow> ws_serve s = WServing \<Longrightarrow> ws_watch s = WWaiting \<Longrightarrow> web_step k s (s\<lparr>ws_active := Suc (ws_active s)\<rparr>)"
| WReply: "\<not> ws_exit s \<Longrightarrow> ws_active s = Suc n \<Longrightarrow> web_step k s (s\<lparr>ws_active := n\<rparr>)"
| WStop: "\<not> ws_exit s \<Longrightarrow> web_step k s (s\<lparr>ws_stopped := True\<rparr>)"
| WBegin: "\<not> ws_exit s \<Longrightarrow> ws_stopped s \<Longrightarrow> ws_watch s = WWaiting \<Longrightarrow> web_step k s (s\<lparr>ws_watch := WClosing\<rparr>)"
| WServeEnds: "\<not> ws_exit s \<Longrightarrow> ws_serve s \<noteq> WEnded \<Longrightarrow> ws_watch s \<noteq> WWaiting \<Longrightarrow> web_step k s (s\<lparr>ws_serve := WEnded\<rparr>)"
| WDrained: "\<not> ws_exit s \<Longrightarrow> ws_watch s = WClosing \<Longrightarrow> k = Http3 \<or> ws_active s = 0 \<Longrightarrow> web_step k s (s\<lparr>ws_watch := WClosed\<rparr>)"
| WTimeout: "\<not> ws_exit s \<Longrightarrow> ws_watch s = WClosing \<Longrightarrow> k = Http \<Longrightarrow> 0 < ws_active s \<Longrightarrow> web_step k s (s\<lparr>ws_exit := True\<rparr>)"

text \<open>\<open>StopAndWait\<close> of \<open>Shutdown\<close> has returned: the group is stopped and the goroutine that serves is done.\<close>

definition web_Shutdown_returned :: "web_server \<Rightarrow> bool" where
  "web_Shutdown_returned s \<longleftrightarrow> ws_stopped s \<and> ws_serve s = WEnded"

text \<open>A server that answers with an sd blob without infos, which no stream has, crashes its client.\<close>

lemma http3_GetStream_empty_panics:
  assumes "http3_GetBlob do server (env_l e) sdHash s = (Ret (b, tr, None), s')" "fromBlob b = Inr []"
  shows "http3_GetStream do server fromBlob e sdHash s = (Panic ''index out of range'', s')"
  using assms by (simp add: http3_GetStream_def bnd_def panic_def)

section \<open>Shutdown\<close>

inductive_cases web_stepE: "web_step k s t"

lemma web_returned_step: "web_step k s t \<Longrightarrow> web_Shutdown_returned s \<Longrightarrow> web_Shutdown_returned t \<and> ws_active t \<le> ws_active s"
  by (erule web_stepE) (auto simp: web_Shutdown_returned_def listen_failed_def)

text \<open>
  \<open>Shutdown\<close> of either web server can always return, unless the process has ended, and after that no request is accepted: from every state in which the stop was asked for there are steps to its return, and in
  every continuation the requests in flight only become fewer.
\<close>

theorem web_Shutdown_returns:
  assumes "ws_stopped s" "\<not> ws_exit s"
  shows "\<exists>t. (web_step k)\<^sup>*\<^sup>* s t \<and> web_Shutdown_returned t \<and> (\<forall>u. (web_step k)\<^sup>*\<^sup>* t u \<longrightarrow> web_Shutdown_returned u \<and> ws_active u \<le> ws_active t)"
proof -
  have later: "web_Shutdown_returned u \<and> ws_active u \<le> ws_active t" if "(web_step k)\<^sup>*\<^sup>* t u" "web_Shutdown_returned t" for t u
    using that by (induction rule: rtranclp_induct) (use web_returned_step in fastforce)+
  let ?s = "if ws_watch s = WWaiting then s\<lparr>ws_watch := WClosing\<rparr> else s"
  let ?t = "if ws_serve ?s = WEnded then ?s else ?s\<lparr>ws_serve := WEnded\<rparr>"
  have "(web_step k)\<^sup>*\<^sup>* s ?s" using WBegin [OF assms(2,1)] by auto
  moreover have "(web_step k)\<^sup>*\<^sup>* ?s ?t" using WServeEnds [of ?s] assms by auto
  moreover have "web_Shutdown_returned ?t" using assms by (simp add: web_Shutdown_returned_def)
  ultimately show ?thesis using later by (meson rtranclp_trans)
qed

theorem web_Shutdown_returns_witness: "\<exists>t. (web_step Http)\<^sup>*\<^sup>* (web_Start\<lparr>ws_stopped := True\<rparr>) t \<and> web_Shutdown_returned t"
  using web_Shutdown_returns [of "web_Start\<lparr>ws_stopped := True\<rparr>" Http] by (auto simp: web_Start_def)

text \<open>
  C35. \<open>Shutdown\<close> of the HTTP server does not wait for the requests in flight: \<open>ListenAndServe\<close>, which the stop group counts, returns as soon as the shutdown of the listener begins, while the goroutine that waits for the
  requests is not counted; so \<open>Shutdown\<close> returns, and the process may end, with any number of requests unanswered and the five seconds they were to get unused.
\<close>

theorem http_Shutdown_cuts_requests:
  "\<exists>s. (web_step Http)\<^sup>*\<^sup>* web_Start s \<and> web_Shutdown_returned s \<and> ws_active s = n \<and> ws_watch s = WClosing"
proof -
  let ?w = "\<lambda>v m st a. \<lparr>ws_serve = v, ws_watch = m, ws_stopped = st, ws_active = a, ws_exit = False\<rparr>"
  have "(web_step Http)\<^sup>*\<^sup>* web_Start (?w WServing WWaiting False n)"
  proof (induction n)
    case 0
    show ?case using WListen [of web_Start Http] by (auto simp: web_Start_def)
  next
    case (Suc n)
    from WRequest [of "?w WServing WWaiting False n" Http] Suc show ?case by simp
  qed
  moreover have "web_step Http (?w WServing WWaiting False n) (?w WServing WWaiting True n)" using WStop [of "?w WServing WWaiting False n" Http] by simp
  moreover have "web_step Http (?w WServing WWaiting True n) (?w WServing WClosing True n)" using WBegin [of "?w WServing WWaiting True n" Http] by simp
  moreover have "web_step Http (?w WServing WClosing True n) (?w WEnded WClosing True n)" using WServeEnds [of "?w WServing WClosing True n" Http] by simp
  ultimately have "(web_step Http)\<^sup>*\<^sup>* web_Start (?w WEnded WClosing True n)" by (meson rtranclp.rtrancl_into_rtrancl)
  then show ?thesis by (intro exI [of _ "?w WEnded WClosing True n"]) (simp add: web_Shutdown_returned_def)
qed

text \<open>When the HTTP3 server cannot listen it logs the error and nothing else: \<open>Start\<close> has returned without one, the process goes on, and no request is ever served.\<close>

lemma http3_listen_error_is_silent:
  assumes "(web_step Http3)\<^sup>*\<^sup>* (listen_failed Http3 web_Start) s"
  shows "\<not> ws_exit s \<and> ws_serve s = WEnded \<and> ws_active s = 0"
  using assms
proof (induction rule: rtranclp_induct)
  case (step s t)
  from step(2,3) show ?case by (auto elim!: web_stepE)
qed (simp add: listen_failed_def web_Start_def)

end
