(* ===== verification/Spec2Isabelle.thy ===== *)
theory Spec2Isabelle
  imports Reflector_Upload Remote_Correct Http_Correct Uploader_Correct Wallet_Correct Blocklist_Correct
    Cleaner_Correct Cluster_Correct Integrity_Correct Lite_Db_Correct Populate_Correct Publish_Correct Request_Queue_Correct Wallet_Transport_Correct
    Tcp_Server_Correct Setup_Correct Server_Stack Metrics Commands_Correct Wallet_Client_Correct Prism_App_Correct Http_Server
begin

text \<open>
  A verification library for the LBRY reflector (src/, Go): a set of blob stores, the database that tracks them, and the servers and clients that move
  blobs between machines. A blob is stored under the hex SHA-384 of its content.

  \<^bold>\<open>How the parts fit together.\<close> Every store implements the interface \<open>BlobStore\<close> (src/store/store.go). Stores are composed: a
  cache over an origin, a bounded cache over a disk, a database-backed store over an inner store, remote stores over HTTP, HTTP3, TCP, S3 and CloudFront. The
  reflector server (upload) writes into a database-backed store; the peer, HTTP and HTTP3 servers (download) read from a stack of stores. The command
  \<open>reflector\<close> builds the stack from its flags and runs all of them.

  \<^bold>\<open>Conventions.\<close> A method is a state-passing operation \<open>('s, 'a) op\<close> that returns or panics (\<open>Prelude\<close>). A composed store has the
  pair of its parts' states as its state. Errors are values of \<open>go_error\<close>. What the program does not determine is an argument: the clock and host name
  (\<open>call_env\<close>), which system calls, statements and writes fail (lists of faults in the state), how the network cuts a stream into segments. Packages outside src/
  are parameters with their documented laws as locale assumptions (the gcache package, the singleflight group, the AWS SDK, the HTTP transport, \<open>stream.Blob\<close>).
  Machine integers are \<open>int\<close> with the range written out (\<open>wrap64\<close>, \<open>int64\<close>, the bounds of \<open>make\<close>) and 64-bit words in SHA-384.

  \<^bold>\<open>Theories.\<close>
  \<^item> \<open>Prelude\<close>, \<open>Shared\<close> (src/shared): operations, errors, traces; \<open>Store_Spec\<close>: the interface and its contracts as locales (\<open>ro_store\<close>,
    \<open>live_store\<close>, \<open>lossy_store\<close>, \<open>safe_store\<close>), and sequences of calls compared with a plain map.
  \<^item> \<open>Mem_Store\<close> (memory.go, noop.go), \<open>Caching_Store\<close> (singleflight.go, caching.go, ittt.go), \<open>Gcache_Store\<close> (gcache.go), \<open>Disk_Store\<close> (disk.go) on a model of
    the file system with \<open>Go_Path\<close> (path/filepath) and \<open>Sha384\<close> (crypto/sha512, executable); their correctness in \<open>Caching_Correct\<close>, \<open>Disk_Correct\<close>,
    \<open>Disk_Props\<close>, \<open>Stack_Props\<close>.
  \<^item> \<open>Db\<close> (src/db/db.go): the tables, every statement and operation; \<open>Db_Correct\<close>: the schema invariant, retries, \<open>HasBlobs\<close>; \<open>Db_Streams\<close>: streams and their missing
    blobs; \<open>Db_Store\<close>, \<open>Db_Store_Correct\<close> (dbbacked.go): the database-backed store and the block list.
  \<^item> \<open>Json\<close>, \<open>Trace_Json\<close>: encoding/json at byte level, with a round trip; \<open>Json_Frame\<close>: JSON values delimit themselves.
  \<^item> \<open>Http\<close>, \<open>Http_Correct\<close> (src/server/http, src/store/http.go); \<open>Remote_Stores\<close>, \<open>Remote_Correct\<close> (s3.go, cloudfront_ro.go, cloudfront_rw.go, src/server/http3).
  \<^item> \<open>Tcp\<close>: connections, buffered reads and the streaming decoder; \<open>Peer\<close>, \<open>Peer_Correct\<close> (src/server/peer); \<open>Reflector\<close>, \<open>Reflector_Correct\<close>,
    \<open>Reflector_Upload\<close> (src/reflector/server.go, client.go).
  \<^item> Goroutines as step relations, one step per channel operation, lock or call: \<open>Uploader\<close>, \<open>Uploader_Correct\<close> (src/reflector/uploader.go); \<open>Wallet\<close>, \<open>Wallet_Correct\<close>
    (src/wallet/network.go); \<open>Speedwalk\<close>, \<open>Speedwalk_Correct\<close> (src/store/speedwalk); \<open>Integrity\<close>, \<open>Integrity_Correct\<close> (src/cmd/integrity.go); \<open>Cleaner\<close>,
    \<open>Cleaner_Correct\<close> (\<open>doClean\<close> of src/cmd/reflector.go); \<open>Request_Queue\<close>, \<open>Request_Queue_Correct\<close> (src/server/http/worker.go and its copy in http3); the listener of
    \<open>Cluster\<close>, \<open>Cluster_Correct\<close> (src/cluster, with \<open>AnnounceRange\<close> of src/prism).
  \<^item> \<open>Blocklist\<close>, \<open>Blocklist_Correct\<close> (src/reflector/blocklist.go with the calls it makes in src/wallet/client.go); \<open>Wallet_Transport\<close>, \<open>Wallet_Transport_Correct\<close>
    (src/wallet/transport.go and \<open>Connect\<close>); \<open>Lite_Db\<close>, \<open>Lite_Db_Correct\<close> (src/lite_db); \<open>Publish\<close>, \<open>Publish_Correct\<close> (src/publish, src/cmd/send.go); \<open>Populate\<close>,
    \<open>Populate_Correct\<close> (src/cmd/populatedb.go); \<open>Sorting\<close>: facts on the sorts.

  \<^item> The servers and the program around them: \<open>Tcp_Server\<close>, \<open>Tcp_Server_Correct\<close> (\<open>Start\<close>, the listener, the connections and \<open>Shutdown\<close> of the reflector and peer servers as step relations, over the turns of
    \<open>Reflector\<close> and \<open>Peer\<close>); \<open>Http_Server\<close> (the same for the two web servers); \<open>Setup\<close>, \<open>Setup_Correct\<close> (src/cmd/reflector.go: flags, stores, start and shutdown); \<open>Server_Stack\<close>: the stack that command
    builds, as the composition of the stores' contracts; \<open>Commands\<close>, \<open>Commands_Correct\<close> (src/cmd/root.go, getstream.go, sendblob.go, peer.go, upload.go, test.go, src/updater, src/meta);
    \<open>Wallet_Client\<close>, \<open>Wallet_Client_Correct\<close> (the rest of src/wallet/client.go, src/cmd/resolve.go); \<open>Prism_App\<close>, \<open>Prism_App_Correct\<close> (src/prism, \<open>Connect\<close> of src/cluster, src/cmd/start.go, cluster.go);
    \<open>Metrics\<close> (\<open>TrackError\<close> of src/internal/metrics).

  \<^bold>\<open>What is shown.\<close> Refinement: each store, and the stacks built from them up to the one of the reflector command (S3 behind a disk and a memory cache), answers any sequence of calls as a map does. Safety: no failure of a disk, a
  database or a connection makes a store return, or a server store, a blob under a hash that is not its own; a blocked blob stays out. End to end: what a client reads over HTTP or
  TCP is what the server's store holds; an upload succeeds on both sides. Every interleaving: an upload of a directory ends, counts every file and removes only what is stored; the
  walk of a directory lists every file once; the cleaner removes exactly what it chose; every queued request is answered once; no call of the wallet node gets another
  id's response. Composition: the members of a cluster announce each stored hash exactly once; a claim is broadcast only after the reflector took the stream; a
  database populated from a directory knows exactly its files; an update of the block list blocks what the API lists; \<open>getstream\<close> writes the plaintexts of a stream through cache,
  client and server, and \<open>resolve\<close> prints the claim of a URL. The whole reflector server, with any number of connections and its block list in any interleaving, stores only verified blobs and none that is blocked, and its
  \<open>Shutdown\<close> returns; that of the peer server waits for its clients, and those of the HTTP server and of prism return too early. What the reflector command runs is well-typed for every combination of flags. Framing, round trips, bounds of caches and of requests, and the error paths, among them those
  where the code does not do what it means to.

  \<^bold>\<open>Loops.\<close> Loops over data are structural recursions; loops over a connection terminate because every iteration takes input (\<open>readMore\<close>, \<open>handleConnection\<close>,
  \<open>receiveBlobs\<close>, with a measure). The JSON parser has fuel, the length of its input plus one, and \<open>reads_printed\<close> shows that it is enough for what the code prints.

  The step relations have no fuel: their runs are shown to end by a measure that every step decreases (\<open>u_rank\<close>, \<open>walk_rank\<close>, \<open>check_rank\<close>, \<open>clean_rank\<close>; for the request queue
  \<open>queue_rank\<close>, which the steps that do work decrease; for the shutdown of the reflector server \<open>reflector_rank\<close>, over the connections and the segments they still hold), and what holds at the end is shown for every state in which no goroutine can move.

  \<^bold>\<open>Not modelled.\<close> The commands that only print or only call other packages (decode, dht, publish, version; src/main.go), the flag library, the Prometheus counters other than the errors and the metrics
  server, the generation of a certificate and the buffer pool of the HTTP3 server and client, \<open>Connect\<close> and query logging of the databases, \<open>Decode\<close> of src/publish and its unused wallet.go, \<open>GetClaimsInTx\<close>, access
  times of files and the O_DIRECT alignment: system calls, logging or calls into packages outside src/. Goroutines interleave in the step relations above and in the singleflight group; within one step, a call of a store or of the
  database is atomic. Floating-point amounts of src/publish are values of an ordered type with their operations as parameters.
\<close>

end
